(* ===== verification/Prelude.thy ===== *)
theory Prelude
  imports Complex_Main "HOL-Library.Word" "HOL-Library.Multiset"
begin

text \<open>
  Shared vocabulary of the development: names for the C integer types, the theorem
  collections the component theories fill and use, and the generic facts on lists, options
  and machine words that several components need.

  Conventions of the whole development. A C struct is a \<^theory_text>\<open>record\<close> whose field
  names carry a short prefix of the struct; an enum is a \<^theory_text>\<open>datatype\<close> with the
  enumerators as constructors; \<open>uint64_t\<close> is \<open>64 word\<close> with its wrap-around;
  \<open>size_t\<close> counters that a bound keeps small are \<open>nat\<close>; \<open>pid_t\<close> is \<open>int\<close>,
  since the code compares, hashes and prints process ids and does no arithmetic on them. A
  pointer argument that the code tests against \<open>NULL\<close> is an \<open>option\<close>; in static helpers
  that every caller hands the address of an object, the argument is the object itself and the
  test is constantly false. A function that returns an error code and writes through
  pointers returns the code together with the new values.
\<close>

type_synonym u8 = "8 word"
type_synonym u32 = "32 word"
type_synonym u64 = "64 word"
type_synonym pid_t = int

named_theorems frame \<open>what an operation leaves unchanged\<close>
named_theorems wf_intros \<open>an operation keeps a well-formedness invariant\<close>

subsection \<open>Lists\<close>

text \<open>The C idiom: a loop that returns the address of the first matching array element.\<close>

fun first_index :: "('a \<Rightarrow> bool) \<Rightarrow> 'a list \<Rightarrow> nat option" where
  "first_index P [] = None"
| "first_index P (x # xs) = (if P x then Some 0 else map_option Suc (first_index P xs))"

lemma first_index_None [simp]: "first_index P xs = None \<longleftrightarrow> (\<forall>x \<in> set xs. \<not> P x)"
  by (induction xs) auto

lemma first_index_SomeD:
  "first_index P xs = Some i \<Longrightarrow> i < length xs \<and> P (xs ! i) \<and> (\<forall>j < i. \<not> P (xs ! j))"
proof (induction xs arbitrary: i)
  case Nil
  then show ?case by simp
next
  case (Cons x xs)
  show ?case
  proof (cases "P x")
    case True
    with Cons.prems show ?thesis by simp
  next
    case False
    with Cons.prems obtain k where k: "first_index P xs = Some k" "i = Suc k" by auto
    from Cons.IH [OF k(1)] False k(2) show ?thesis
      by (auto simp: less_Suc_eq_0_disj)
  qed
qed

lemma first_index_lt: "first_index P xs = Some i \<Longrightarrow> i < length xs"
  by (drule first_index_SomeD) simp

lemma first_index_holds: "first_index P xs = Some i \<Longrightarrow> P (xs ! i)"
  by (drule first_index_SomeD) simp

lemma map_list_update_same:
  "i < length xs \<Longrightarrow> f y = f (xs ! i) \<Longrightarrow> map f (xs[i := y]) = map f xs"
  by (metis list_update_id map_update)

lemma distinct_nth_inj:
  "distinct (map f xs) \<Longrightarrow> i < length xs \<Longrightarrow> j < length xs \<Longrightarrow> f (xs ! i) = f (xs ! j) \<Longrightarrow> i = j"
  by (simp add: distinct_conv_nth) metis

lemma takeWhile_takeWhile_same [simp]: "takeWhile P (takeWhile P xs) = takeWhile P xs"
  by (auto simp: takeWhile_eq_all_conv dest: set_takeWhileD)

lemma takeWhile_take_all: "\<forall>x \<in> set xs. P x \<Longrightarrow> takeWhile P (take n xs) = take n xs"
  by (auto simp: takeWhile_eq_all_conv dest: in_set_takeD)

lemma length_takeWhile_take: "length (takeWhile P (take n xs)) \<le> n"
  by (rule le_trans [OF length_takeWhile_le]) simp

lemma sum_list_map_filter_le:
  "sum_list (map (f :: 'a \<Rightarrow> nat) (filter P xs)) \<le> sum_list (map f xs)"
  by (induction xs) auto

subsection \<open>Machine words\<close>

text \<open>Counts are read with \<open>unat\<close>; the simplifier keeps them in that form.\<close>

declare of_nat_unat [simp del]

lemma unat_lt64 [simp]: "unat (w :: u64) < 18446744073709551616"
  using unsigned_less [of w, where 'a = nat] by simp

lemma unat_u64_add:
  "unat a + unat b < 2 ^ 64 \<Longrightarrow> unat ((a :: u64) + b) = unat a + unat b"
  by (simp add: unat_word_ariths)

lemma unat_u64_mult:
  "unat a * unat b < 2 ^ 64 \<Longrightarrow> unat ((a :: u64) * b) = unat a * unat b"
  by (simp add: unat_word_ariths)

lemma unat_u64_sub: "b \<le> a \<Longrightarrow> unat ((a :: u64) - b) = unat a - unat b"
  by (simp add: unat_sub)

lemma unat_u64_max: "unat (- 1 :: u64) = 18446744073709551615"
  by (simp add: unsigned_minus_1_eq_mask mask_eq_exp_minus_1)

lemma and_push_bit_1_nonzero: "and w (push_bit n 1) \<noteq> 0 \<longleftrightarrow> bit (w :: u64) n"
proof
  assume "and w (push_bit n 1) \<noteq> 0"
  then obtain k where "bit (and w (push_bit n 1)) k" by (metis bit_eqI bit_0_eq bot_apply bot_bool_def)
  then show "bit w n" by (auto simp: bit_and_iff bit_exp_iff)
next
  assume "bit w n"
  then have "bit (and w (push_bit n 1)) n"
    using bit_imp_le_length [of w n] by (simp add: bit_and_iff bit_exp_iff possible_bit_word)
  then show "and w (push_bit n 1) \<noteq> 0" by auto
qed

end
