(* ===== verification/C_Double.thy ===== *)
theory C_Double
  imports Prelude
begin

text \<open>
  The C type \<open>double\<close> as the daemon uses it. A value is a finite number, an infinity or
  a NaN, because the code tests \<open>isfinite\<close> and relies on the way comparisons treat NaN.
  The result of an arithmetic operation is the exact result passed through a rounding
  function \<open>rnd\<close>, which is a parameter of every definition that computes with doubles: it
  stands for the rounding of the floating-point unit, overflow to an infinity included.
  What the theorems need of it is collected in \<open>ieee_rnd\<close>. Zeros carry no sign, so a
  division by zero takes the sign of its numerator.
\<close>

datatype cdouble = Fin real | PInf | NInf | NaN

type_synonym rounding = "real \<Rightarrow> cdouble"

subsection \<open>Comparisons\<close>

fun flt :: "cdouble \<Rightarrow> cdouble \<Rightarrow> bool" where
  "flt (Fin a) (Fin b) = (a < b)"
| "flt NaN _ = False"
| "flt _ NaN = False"
| "flt PInf _ = False"
| "flt _ PInf = True"
| "flt _ NInf = False"
| "flt NInf _ = True"

fun fle :: "cdouble \<Rightarrow> cdouble \<Rightarrow> bool" where
  "fle (Fin a) (Fin b) = (a \<le> b)"
| "fle NaN _ = False"
| "fle _ NaN = False"
| "fle _ PInf = True"
| "fle PInf _ = False"
| "fle NInf _ = True"
| "fle _ NInf = False"

definition isfinite :: "cdouble \<Rightarrow> bool" where
  "isfinite d \<longleftrightarrow> (case d of Fin _ \<Rightarrow> True | _ \<Rightarrow> False)"

lemma isfinite_simps [simp]:
  "isfinite (Fin r)" "\<not> isfinite PInf" "\<not> isfinite NInf" "\<not> isfinite NaN"
  by (simp_all add: isfinite_def)

lemma isfiniteE: "isfinite d \<Longrightarrow> (\<And>r. d = Fin r \<Longrightarrow> P) \<Longrightarrow> P"
  by (cases d) auto

lemma fle_refl_iff: "fle d d \<longleftrightarrow> d \<noteq> NaN"
  by (cases d) auto

lemma fle_PInf_iff [simp]: "fle d PInf \<longleftrightarrow> d \<noteq> NaN"
  by (cases d) auto

lemma fle_trans: "fle a b \<Longrightarrow> fle b c \<Longrightarrow> fle a c"
  by (cases a; cases b; cases c) auto

lemma flt_not_fle: "flt a b \<Longrightarrow> \<not> fle b a"
  by (cases a; cases b) auto

lemma fle_total: "a \<noteq> NaN \<Longrightarrow> b \<noteq> NaN \<Longrightarrow> fle a b \<or> fle b a"
  by (cases a; cases b) auto

lemma not_flt_fle: "a \<noteq> NaN \<Longrightarrow> b \<noteq> NaN \<Longrightarrow> \<not> flt a b \<longleftrightarrow> fle b a"
  by (cases a; cases b) auto

subsection \<open>Arithmetic\<close>

fun fadd :: "rounding \<Rightarrow> cdouble \<Rightarrow> cdouble \<Rightarrow> cdouble" where
  "fadd rnd (Fin a) (Fin b) = rnd (a + b)"
| "fadd rnd NaN _ = NaN"
| "fadd rnd _ NaN = NaN"
| "fadd rnd PInf NInf = NaN"
| "fadd rnd NInf PInf = NaN"
| "fadd rnd PInf _ = PInf"
| "fadd rnd _ PInf = PInf"
| "fadd rnd NInf _ = NInf"
| "fadd rnd _ NInf = NInf"

definition inf_sgn :: "real \<Rightarrow> cdouble" where
  "inf_sgn s = (if 0 < s then PInf else if s < 0 then NInf else NaN)"

fun fsgn :: "cdouble \<Rightarrow> real" where
  "fsgn (Fin a) = sgn a"
| "fsgn PInf = 1"
| "fsgn NInf = -1"
| "fsgn NaN = 0"

fun fmul :: "rounding \<Rightarrow> cdouble \<Rightarrow> cdouble \<Rightarrow> cdouble" where
  "fmul rnd (Fin a) (Fin b) = rnd (a * b)"
| "fmul rnd NaN _ = NaN"
| "fmul rnd _ NaN = NaN"
| "fmul rnd a b = inf_sgn (fsgn a * fsgn b)"

fun fdiv :: "rounding \<Rightarrow> cdouble \<Rightarrow> cdouble \<Rightarrow> cdouble" where
  "fdiv rnd (Fin a) (Fin b) = (if b = 0 then inf_sgn a else rnd (a / b))"
| "fdiv rnd NaN _ = NaN"
| "fdiv rnd _ NaN = NaN"
| "fdiv rnd (Fin a) _ = Fin 0"
| "fdiv rnd a (Fin b) = (if b < 0 then inf_sgn (- fsgn a) else a)"
| "fdiv rnd _ _ = NaN"

definition double_of_u64 :: "rounding \<Rightarrow> u64 \<Rightarrow> cdouble" where
  "double_of_u64 rnd w = rnd (real (unat w))"

definition double_of_int :: "rounding \<Rightarrow> int \<Rightarrow> cdouble" where
  "double_of_int rnd k = rnd (real_of_int k)"

subsection \<open>Scores: values between 0 and 1\<close>

fun unit_score :: "cdouble \<Rightarrow> bool" where
  "unit_score (Fin r) = (0 \<le> r \<and> r \<le> 1)"
| "unit_score _ = False"

lemma unit_scoreE: "unit_score d \<Longrightarrow> (\<And>r. d = Fin r \<Longrightarrow> 0 \<le> r \<Longrightarrow> r \<le> 1 \<Longrightarrow> P) \<Longrightarrow> P"
  by (cases d) auto

lemma unit_score_iff:
  "unit_score d \<longleftrightarrow> isfinite d \<and> \<not> flt d (Fin 0) \<and> \<not> flt (Fin 1) d"
  by (cases d) auto

lemma unit_score_not_NaN: "unit_score d \<Longrightarrow> d \<noteq> NaN"
  by (cases d) auto

subsection \<open>What is needed of the rounding\<close>

text \<open>
  Rounding is monotone, leaves 0, 1 and every value it produces alone and does not overflow on the range of
  64-bit counts; in particular it never produces a NaN. Every IEEE rounding mode of binary64 has these
  properties, and so has exact arithmetic.
\<close>

definition ieee_rnd :: "rounding \<Rightarrow> bool" where
  "ieee_rnd rnd \<longleftrightarrow>
     (\<forall>x y. x \<le> y \<longrightarrow> fle (rnd x) (rnd y)) \<and> rnd 0 = Fin 0 \<and> rnd 1 = Fin 1 \<and>
     (\<forall>x. 0 \<le> x \<and> x \<le> 2 ^ 64 \<longrightarrow> isfinite (rnd x)) \<and>
     (\<forall>x y. rnd x = Fin y \<longrightarrow> rnd y = Fin y)"

lemma ieee_rnd_exact: "ieee_rnd Fin"
  by (simp add: ieee_rnd_def)

lemma ieee_rnd_mono: "ieee_rnd rnd \<Longrightarrow> x \<le> y \<Longrightarrow> fle (rnd x) (rnd y)"
  by (simp add: ieee_rnd_def)

lemma ieee_rnd_not_NaN: "ieee_rnd rnd \<Longrightarrow> rnd x \<noteq> NaN"
  using ieee_rnd_mono [of rnd x x] by (auto simp: fle_refl_iff)

lemma ieee_rnd_nonneg: "ieee_rnd rnd \<Longrightarrow> 0 \<le> x \<Longrightarrow> fle (Fin 0) (rnd x)"
  using ieee_rnd_mono [of rnd 0 x] by (simp add: ieee_rnd_def)

lemma ieee_rnd_unit: "ieee_rnd rnd \<Longrightarrow> 0 \<le> x \<Longrightarrow> x \<le> 1 \<Longrightarrow> unit_score (rnd x)"
  using ieee_rnd_mono [of rnd 0 x] ieee_rnd_mono [of rnd x 1]
  by (cases "rnd x") (simp_all add: ieee_rnd_def)

lemma unit_score_fmul:
  assumes "ieee_rnd rnd" "unit_score a" "unit_score b"
  shows "unit_score (fmul rnd a b)"
proof -
  from assms(2,3) obtain x y where "a = Fin x" "b = Fin y" "0 \<le> x" "x \<le> 1" "0 \<le> y" "y \<le> 1"
    by (metis unit_scoreE)
  with assms(1) show ?thesis by (simp add: ieee_rnd_unit mult_le_one)
qed

text \<open>Division by a number from 1 on does not leave the finite values.\<close>

lemma ieee_rnd_div_finite:
  assumes rnd: "ieee_rnd rnd" and x: "rnd x = Fin a" "0 \<le> a" and y: "1 \<le> y"
  obtains z where "rnd (a / y) = Fin z" "0 \<le> z"
proof -
  have "rnd a = Fin a" using rnd x(1) by (auto simp: ieee_rnd_def)
  moreover have "a / y \<le> a" using x(2) y by (simp add: divide_le_eq mult_le_cancel_left1)
  ultimately have "fle (rnd (a / y)) (Fin a)" using ieee_rnd_mono [OF rnd, of "a / y" a] by simp
  moreover have "fle (Fin 0) (rnd (a / y))" using x(2) y by (intro ieee_rnd_nonneg [OF rnd]) simp
  ultimately show thesis using that by (cases "rnd (a / y)") simp_all
qed

lemma fle_zero_cases: "fle (Fin 0) d \<Longrightarrow> (\<And>r. d = Fin r \<Longrightarrow> 0 \<le> r \<Longrightarrow> P) \<Longrightarrow> (d = PInf \<Longrightarrow> P) \<Longrightarrow> P"
  by (cases d) auto

lemma fdiv_nonneg:
  "ieee_rnd rnd \<Longrightarrow> fle (Fin 0) d \<Longrightarrow> 0 < r \<Longrightarrow> fle (Fin 0) (fdiv rnd d (Fin r))"
  by (erule fle_zero_cases) (auto intro: ieee_rnd_nonneg)

lemma fmul_nonneg:
  "ieee_rnd rnd \<Longrightarrow> 0 \<le> a \<Longrightarrow> 0 \<le> b \<Longrightarrow> fle (Fin 0) (fmul rnd (Fin a) (Fin b))"
  by (simp add: ieee_rnd_nonneg)

lemma fadd_nonneg:
  "ieee_rnd rnd \<Longrightarrow> fle (Fin 0) a \<Longrightarrow> fle (Fin 0) b \<Longrightarrow> fle (Fin 0) (fadd rnd a b)"
  by (erule fle_zero_cases; erule fle_zero_cases) (auto intro: ieee_rnd_nonneg)

text \<open>Rounded sums and products are monotone.\<close>

lemma fadd_mono:
  "ieee_rnd rnd \<Longrightarrow> fle a a' \<Longrightarrow> fle b b' \<Longrightarrow> fle (Fin 0) a \<Longrightarrow> fle (Fin 0) b \<Longrightarrow> fle (fadd rnd a b) (fadd rnd a' b')"
  by (cases a; cases b; cases a'; cases b')
    (auto intro: ieee_rnd_mono simp: ieee_rnd_not_NaN)

text \<open>A quotient of two unsigned counts, as the code forms its fractions and overlap scores.\<close>

lemma double_of_u64_finite: "ieee_rnd rnd \<Longrightarrow> isfinite (double_of_u64 rnd w)"
proof -
  assume rnd: "ieee_rnd rnd"
  have "real (unat w) \<le> real (2 ^ 64)"
    unfolding of_nat_le_iff using unat_lt64 [of w] by (simp add: less_imp_le)
  with rnd show ?thesis unfolding double_of_u64_def ieee_rnd_def by auto
qed

lemma double_of_u64_pos:
  assumes "ieee_rnd rnd" "0 < unat w"
  obtains y where "double_of_u64 rnd w = Fin y" "1 \<le> y"
proof -
  obtain y where y: "double_of_u64 rnd w = Fin y" using double_of_u64_finite [OF assms(1)] by (rule isfiniteE)
  have "fle (Fin 1) (double_of_u64 rnd w)"
    using ieee_rnd_mono [OF assms(1), of 1 "real (unat w)"] assms by (simp add: double_of_u64_def ieee_rnd_def)
  with y that show thesis by simp
qed

lemma unit_score_count_quotient:
  assumes rnd: "ieee_rnd rnd" and le: "unat a \<le> unat b" and pos: "0 < unat b"
  shows "unit_score (fdiv rnd (double_of_u64 rnd a) (double_of_u64 rnd b))"
proof -
  obtain y where y: "double_of_u64 rnd b = Fin y" "1 \<le> y" by (rule double_of_u64_pos [OF rnd pos])
  have "fle (double_of_u64 rnd a) (double_of_u64 rnd b)" "fle (Fin 0) (double_of_u64 rnd a)"
    using rnd le by (simp_all add: double_of_u64_def ieee_rnd_mono ieee_rnd_nonneg)
  with y obtain x where x: "double_of_u64 rnd a = Fin x" "0 \<le> x" "x \<le> y"
    by (cases "double_of_u64 rnd a") simp_all
  with y rnd show ?thesis by (simp add: ieee_rnd_unit)
qed

end
