(* ===== verification/C_String.thy ===== *)
theory C_String
  imports C_Double
begin

text \<open>
  The part of the C string library the daemon uses. A NUL-terminated buffer is the list of
  the characters before its terminator; a raw character array is the list of its bytes, and
  \<open>cstr\<close> reads it up to the first NUL. A \<open>char *\<close> that walks through a buffer is the
  suffix that is still to be read. \<open>snprintf\<close> into a buffer of \<open>size\<close> bytes keeps the
  first \<open>size - 1\<close> characters and reports the length of the whole text.
\<close>

definition NUL :: char where "NUL = CHR 0x00"

definition cstr :: "string \<Rightarrow> string" where
  "cstr s = takeWhile (\<lambda>c. c \<noteq> NUL) s"

lemma cstr_idem [simp]: "cstr (cstr s) = cstr s"
  by (simp add: cstr_def)

lemma cstr_no_NUL: "NUL \<notin> set (cstr s)"
  by (auto simp: cstr_def dest: set_takeWhileD)

lemma cstr_id: "NUL \<notin> set s \<Longrightarrow> cstr s = s"
  by (auto simp: cstr_def takeWhile_eq_all_conv)

text \<open>\<open>isspace\<close> in the C locale.\<close>

definition is_space :: "char \<Rightarrow> bool" where
  "is_space c \<longleftrightarrow> c \<in> {CHR '' '', CHR 0x09, CHR 0x0A, CHR 0x0B, CHR 0x0C, CHR 0x0D}"

definition snprintf_s :: "nat \<Rightarrow> string \<Rightarrow> string" where
  "snprintf_s sz text = take (sz - 1) text"

lemma length_snprintf_s: "0 < sz \<Longrightarrow> length (snprintf_s sz text) < sz"
  by (auto simp: snprintf_s_def)

lemma snprintf_s_fits: "length text < sz \<Longrightarrow> snprintf_s sz text = text"
  by (auto simp: snprintf_s_def)

text \<open>\<open>bounded_strlen\<close> of the sources: the terminator is looked for in the first \<open>cap\<close> bytes.\<close>

definition bounded_strlen :: "string \<Rightarrow> nat \<Rightarrow> nat" where
  "bounded_strlen s cap = length (cstr (take cap s))"

lemma bounded_strlen_le: "bounded_strlen s cap \<le> cap"
  by (simp add: bounded_strlen_def cstr_def length_takeWhile_take)

text \<open>Text up to the first carriage return or line feed: \<open>s[strcspn(s, "\\r\\n")] = 0\<close>.\<close>

definition cut_line_end :: "string \<Rightarrow> string" where
  "cut_line_end s = takeWhile (\<lambda>c. c \<noteq> CHR 0x0A \<and> c \<noteq> CHR 0x0D) (cstr s)"

subsection \<open>\<open>fgets\<close>\<close>

text \<open>
  One call of \<open>fgets\<close> with a buffer of \<open>Suc n\<close> bytes takes at most \<open>n\<close> characters
  and stops after a newline; the calls of a loop cut the file into such pieces.
\<close>

fun fgets :: "nat \<Rightarrow> string \<Rightarrow> string \<times> string" where
  "fgets 0 s = ([], s)"
| "fgets (Suc n) [] = ([], [])"
| "fgets (Suc n) (c # s) =
     (if c = CHR 0x0A then ([c], s) else (let (l, r) = fgets n s in (c # l, r)))"

lemma fgets_append: "fgets n s = (l, r) \<Longrightarrow> l @ r = s"
  by (induction n s arbitrary: l r rule: fgets.induct) (auto split: if_splits prod.splits)

lemma fgets_length: "fgets n s = (l, r) \<Longrightarrow> length l \<le> n"
  by (induction n s arbitrary: l r rule: fgets.induct) (auto split: if_splits prod.splits)

lemma fgets_progress: "0 < n \<Longrightarrow> s \<noteq> [] \<Longrightarrow> length (snd (fgets n s)) < length s"
proof -
  assume n: "0 < n" and s: "s \<noteq> []"
  from n s have "fst (fgets n s) \<noteq> []"
    by (cases n; cases s) (auto split: prod.splits)
  moreover have "fst (fgets n s) @ snd (fgets n s) = s"
    by (rule fgets_append) simp
  ultimately show ?thesis
    by (metis length_append length_greater_0_conv less_add_same_cancel2)
qed

function fgets_all :: "nat \<Rightarrow> string \<Rightarrow> string list" where
  "fgets_all n s =
     (if n = 0 \<or> s = [] then [] else fst (fgets n s) # fgets_all n (snd (fgets n s)))"
  by pat_completeness auto
termination
  by (relation "measure (\<lambda>(n, s). length s)") (auto simp: fgets_progress)

declare fgets_all.simps [simp del]

lemma fgets_all_Nil [simp]: "fgets_all n [] = []"
  by (simp add: fgets_all.simps)

lemma concat_fgets_all: "0 < n \<Longrightarrow> concat (fgets_all n s) = s"
proof (induction n s rule: fgets_all.induct)
  case (1 n s)
  show ?case
  proof (cases "s = []")
    case True
    then show ?thesis by simp
  next
    case False
    with 1 have "concat (fgets_all n (snd (fgets n s))) = snd (fgets n s)" by simp
    moreover have "fst (fgets n s) @ snd (fgets n s) = s" by (rule fgets_append) simp
    ultimately show ?thesis using 1(2) False by (simp add: fgets_all.simps [of n s])
  qed
qed

lemma fgets_all_bound: "l \<in> set (fgets_all n s) \<Longrightarrow> length l \<le> n"
proof (induction n s rule: fgets_all.induct)
  case (1 n s)
  have "length (fst (fgets n s)) \<le> n" by (rule fgets_length [of n s _ "snd (fgets n s)"]) simp
  with 1 show ?case
    by (cases "n = 0 \<or> s = []") (auto simp: fgets_all.simps [of n s])
qed

subsection \<open>Printing numbers\<close>

definition dec_digit :: "nat \<Rightarrow> char" where
  "dec_digit n = char_of (48 + n)"

fun show_nat :: "nat \<Rightarrow> string" where
  "show_nat n = (if n < 10 then [dec_digit n] else show_nat (n div 10) @ [dec_digit (n mod 10)])"

declare show_nat.simps [simp del]

definition show_int :: "int \<Rightarrow> string" where
  "show_int k = (if k < 0 then ''-'' else []) @ show_nat (nat \<bar>k\<bar>)"

definition round_half_even :: "real \<Rightarrow> int" where
  "round_half_even x =
     (let f = \<lfloor>x\<rfloor>; d = x - of_int f
      in if d < 1 / 2 then f else if 1 / 2 < d then f + 1 else if even f then f else f + 1)"

text \<open>The conversion \<open>%.kf\<close> for \<open>0 < k\<close>.\<close>

fun show_fixed :: "nat \<Rightarrow> cdouble \<Rightarrow> string" where
  "show_fixed k (Fin x) =
     (let m = nat (round_half_even (\<bar>x\<bar> * 10 ^ k)); frac = show_nat (m mod 10 ^ k)
      in (if x < 0 then ''-'' else []) @ show_nat (m div 10 ^ k) @ ''.'' @
         replicate (k - length frac) CHR ''0'' @ frac)"
| "show_fixed k PInf = ''inf''"
| "show_fixed k NInf = ''-inf''"
| "show_fixed k NaN = ''nan''"

declare show_fixed.simps [simp del]

definition show_bool :: "bool \<Rightarrow> string" where
  "show_bool b = (if b then ''true'' else ''false'')"

subsection \<open>Reading numbers\<close>

definition digit_val :: "nat \<Rightarrow> char \<Rightarrow> nat option" where
  "digit_val base c =
     (let n = of_char c :: nat;
          v = (if 48 \<le> n \<and> n \<le> 57 then n - 48
               else if 97 \<le> n \<and> n \<le> 122 then n - 87
               else if 65 \<le> n \<and> n \<le> 90 then n - 55 else base)
      in if v < base then Some v else None)"

fun scan_digits :: "nat \<Rightarrow> nat \<Rightarrow> string \<Rightarrow> nat \<times> string" where
  "scan_digits base acc [] = (acc, [])"
| "scan_digits base acc (c # s) =
     (case digit_val base c of None \<Rightarrow> (acc, c # s) | Some d \<Rightarrow> scan_digits base (acc * base + d) s)"

definition starts_digit :: "nat \<Rightarrow> string \<Rightarrow> bool" where
  "starts_digit base s \<longleftrightarrow> s \<noteq> [] \<and> digit_val base (hd s) \<noteq> None"

text \<open>An optional sign.\<close>

definition scan_sign :: "string \<Rightarrow> bool \<times> string" where
  "scan_sign s =
     (case s of [] \<Rightarrow> (False, []) | c # r \<Rightarrow>
        if c = CHR ''-'' then (True, r) else if c = CHR ''+'' then (False, r) else (False, s))"

text \<open>The base prefix: base 16 admits \<open>0x\<close>, base 0 chooses among 16, 8 and 10.\<close>

definition scan_base :: "nat \<Rightarrow> string \<Rightarrow> nat \<times> string" where
  "scan_base base s =
     (if (base = 16 \<or> base = 0) \<and> (take 2 s = ''0x'' \<or> take 2 s = ''0X'') \<and> starts_digit 16 (drop 2 s)
      then (16, drop 2 s)
      else if base = 0 then (if take 1 s = ''0'' then (8, s) else (10, s))
      else (base, s))"

text \<open>
  The subject sequence shared by the \<open>strto*\<close> functions: sign, magnitude and what follows;
  \<open>None\<close> when no conversion can be performed.
\<close>

definition scan_number :: "nat \<Rightarrow> string \<Rightarrow> (bool \<times> nat \<times> string) option" where
  "scan_number base s =
     (let (neg, s1) = scan_sign (dropWhile is_space s);
          (b, s2) = scan_base base s1
      in if starts_digit b s2 then (let (m, r) = scan_digits b 0 s2 in Some (neg, m, r)) else None)"

text \<open>
  \<open>strtoll\<close> and \<open>strtoull\<close>: the value, whether \<open>errno\<close> is set to \<open>ERANGE\<close>, and
  the end pointer as the remaining suffix (the whole input when nothing was converted).
\<close>

definition strtoll :: "nat \<Rightarrow> string \<Rightarrow> int \<times> bool \<times> string" where
  "strtoll base s =
     (case scan_number base s of
        None \<Rightarrow> (0, False, s)
      | Some (neg, m, r) \<Rightarrow>
          (let v = (if neg then - int m else int m)
           in if v < - (2 ^ 63) then (- (2 ^ 63), True, r)
              else if 2 ^ 63 - 1 < v then (2 ^ 63 - 1, True, r)
              else (v, False, r)))"

definition strtoull :: "nat \<Rightarrow> string \<Rightarrow> u64 \<times> bool \<times> string" where
  "strtoull base s =
     (case scan_number base s of
        None \<Rightarrow> (0, False, s)
      | Some (neg, m, r) \<Rightarrow>
          if 2 ^ 64 \<le> m then (- 1, True, r)
          else (if neg then - of_nat m else of_nat m, False, r))"

subsection \<open>Printing and reading agree\<close>

lemma digit_val_dec_digit: "n < 10 \<Longrightarrow> digit_val 10 (dec_digit n) = Some n"
  by (simp add: digit_val_def dec_digit_def take_bit_eq_mod)

lemma scan_digits_append:
  "\<forall>c \<in> set s. digit_val base c \<noteq> None \<Longrightarrow>
   scan_digits base acc (s @ t) = scan_digits base (fst (scan_digits base acc s)) t"
  by (induction s arbitrary: acc) (auto split: option.splits)

lemma scan_digits_all:
  "\<forall>c \<in> set s. digit_val base c \<noteq> None \<Longrightarrow> snd (scan_digits base acc s) = []"
  by (induction s arbitrary: acc) (auto split: option.splits)

lemma show_nat_digits: "\<forall>c \<in> set (show_nat n). digit_val 10 c \<noteq> None"
proof (induction n rule: show_nat.induct)
  case (1 n)
  then show ?case
    by (subst show_nat.simps) (auto simp: digit_val_dec_digit)
qed

lemma scan_digits_show_nat: "fst (scan_digits 10 0 (show_nat n)) = n"
proof (induction n rule: show_nat.induct)
  case (1 n)
  show ?case
  proof (cases "n < 10")
    case True
    then show ?thesis by (subst show_nat.simps) (simp add: digit_val_dec_digit)
  next
    case False
    then have "show_nat n = show_nat (n div 10) @ [dec_digit (n mod 10)]"
      by (subst show_nat.simps) simp
    with 1 False show ?thesis
      by (simp add: scan_digits_append [OF show_nat_digits] digit_val_dec_digit)
  qed
qed

lemma show_nat_nonempty: "show_nat n \<noteq> []"
  by (subst show_nat.simps) simp

lemma digit_val_others [simp]:
  "digit_val 10 CHR '' '' = None" "digit_val 10 CHR 0x09 = None" "digit_val 10 CHR 0x0A = None"
  "digit_val 10 CHR 0x0B = None" "digit_val 10 CHR 0x0C = None" "digit_val 10 CHR 0x0D = None"
  "digit_val 10 CHR ''-'' = None" "digit_val 10 CHR ''+'' = None" "digit_val 10 CHR ''('' = None"
  "digit_val 10 CHR '')'' = None" "digit_val 10 NUL = None"
  by code_simp+

lemma NUL_neq [simp]:
  "NUL \<noteq> CHR '' ''" "NUL \<noteq> CHR ''(''" "NUL \<noteq> CHR '')''" "NUL \<noteq> CHR 0x0A" "NUL \<noteq> CHR ''-''"
  by (simp_all add: NUL_def)

lemma digit_not_special:
  assumes "digit_val 10 c \<noteq> None"
  shows "\<not> is_space c" "c \<noteq> CHR ''-''" "c \<noteq> CHR ''+''" "c \<noteq> CHR ''(''" "c \<noteq> CHR '')''" "c \<noteq> NUL"
    "c \<noteq> CHR '' ''" "c \<noteq> CHR 0x0A"
  using assms by (auto simp: is_space_def simp del: split_paired_All)

lemma scan_digits_stop:
  assumes "\<forall>c \<in> set s. digit_val 10 c \<noteq> None" and "t = [] \<or> digit_val 10 (hd t) = None"
  shows "scan_digits 10 acc (s @ t) = (fst (scan_digits 10 acc s), t)"
proof -
  have "scan_digits 10 a t = (a, t)" for a using assms(2) by (cases t) auto
  with scan_digits_append [OF assms(1)] show ?thesis by simp
qed

lemma show_nat_Cons: obtains c s where "show_nat n = c # s" "digit_val 10 c \<noteq> None"
proof (cases "show_nat n")
  case Nil
  with show_nat_nonempty show thesis by blast
next
  case (Cons c s)
  with show_nat_digits [of n] that show thesis by auto
qed

lemma dropWhile_space_show_int: "dropWhile is_space (show_int v @ t) = show_int v @ t"
proof -
  obtain c s where "show_nat (nat \<bar>v\<bar>) = c # s" "digit_val 10 c \<noteq> None" by (rule show_nat_Cons)
  with digit_not_special [of c] show ?thesis by (simp add: show_int_def is_space_def)
qed

lemma scan_sign_show_int: "scan_sign (show_int v @ t) = (v < 0, show_nat (nat \<bar>v\<bar>) @ t)"
proof -
  obtain c s where "show_nat (nat \<bar>v\<bar>) = c # s" "digit_val 10 c \<noteq> None" by (rule show_nat_Cons)
  with digit_not_special [of c] show ?thesis by (simp add: show_int_def scan_sign_def)
qed

lemma scan_number_show_int:
  assumes "t = [] \<or> digit_val 10 (hd t) = None"
  shows "scan_number 10 (show_int v @ t) = Some (v < 0, nat \<bar>v\<bar>, t)"
proof -
  obtain c s where c: "show_nat (nat \<bar>v\<bar>) = c # s" "digit_val 10 c \<noteq> None" by (rule show_nat_Cons)
  have "scan_digits 10 0 (show_nat (nat \<bar>v\<bar>) @ t) = (nat \<bar>v\<bar>, t)"
    using scan_digits_stop [OF show_nat_digits assms] by (simp add: scan_digits_show_nat)
  then show ?thesis
    using c by (simp add: scan_number_def dropWhile_space_show_int scan_sign_show_int scan_base_def starts_digit_def)
qed

lemma strtoll_show_int:
  assumes "- (2 ^ 63) \<le> v" and "v < 2 ^ 63" and "t = [] \<or> digit_val 10 (hd t) = None"
  shows "strtoll 10 (show_int v @ t) = (v, False, t)"
  using assms(1,2) scan_number_show_int [OF assms(3), of v] by (simp add: strtoll_def Let_def)

lemma strtoull_show_nat:
  assumes "n < 2 ^ 64" and "t = [] \<or> digit_val 10 (hd t) = None"
  shows "strtoull 10 (show_nat n @ t) = (of_nat n, False, t)"
  using assms(1) scan_number_show_int [OF assms(2), of "int n"] by (simp add: strtoull_def show_int_def)

lemma show_nat_inj: "show_nat m = show_nat n \<Longrightarrow> m = n"
  by (metis scan_digits_show_nat)

lemma show_nat_length: "n < 10 ^ Suc k \<Longrightarrow> length (show_nat n) \<le> Suc k"
proof (induction k arbitrary: n)
  case 0
  then show ?case by (subst show_nat.simps) simp
next
  case (Suc k)
  show ?case
  proof (cases "n < 10")
    case True
    then show ?thesis by (subst show_nat.simps) simp
  next
    case False
    from Suc.prems have "n div 10 < 10 ^ Suc k" by (simp add: less_mult_imp_div_less)
    from Suc.IH [OF this] False show ?thesis by (subst show_nat.simps) simp
  qed
qed

lemma length_show_pid: "0 < pid \<Longrightarrow> pid < 2 ^ 31 \<Longrightarrow> length (show_int pid) \<le> 10"
  using show_nat_length [of "nat pid" 9] by (simp add: show_int_def)

end
