(* ===== verification/OS_World.thy ===== *)
theory OS_World
  imports C_String
begin

text \<open>
  The operating system as the daemon sees it. What a system call returns is not decided by
  the program: it is read from a record \<open>os\<close> of response functions, a parameter of every
  definition that performs I/O. Each response may depend on the state \<open>world\<close>, which counts the
  calls made so far; so a repeated call can answer differently, and every sequence of
  answers is some \<open>os\<close>. The world also records what the properties speak about: the text
  files whose writing completed, in order, the number of files currently held open, and the process
  control the calibration performs (removal of files, forks, signals, children waited for), in order.
\<close>

datatype wres = W_OK | W_OPEN_FAIL | W_PRINT_FAIL | W_CLOSE_FAIL

datatype sysconf_name = SC_PAGESIZE | SC_CLK_TCK

text \<open>The values of \<open>errno\<close> the daemon distinguishes.\<close>

datatype errno = EINTR | ENOENT | EACCES | ESRCH | ERRNO_OTHER int

datatype signum = SIGTERM | SIGKILL

datatype sys_event =
    Ev_unlinked string
  | Ev_forked pid_t
  | Ev_kill pid_t signum
  | Ev_reaped pid_t nat

record world =
  w_calls :: nat
  w_open :: nat
  w_writes :: "(string \<times> string) list"
  w_log :: "sys_event list"

definition world0 :: world where
  "world0 = \<lparr>w_calls = 0, w_open = 0, w_writes = [], w_log = []\<rparr>"

record os =
  os_write :: "world \<Rightarrow> string \<Rightarrow> string \<Rightarrow> wres"
  os_fopen :: "world \<Rightarrow> string \<Rightarrow> string option"
  os_ferror :: "world \<Rightarrow> bool"
  os_fclose :: "world \<Rightarrow> bool"
  os_readlink :: "world \<Rightarrow> string \<Rightarrow> string option"
  os_open :: "world \<Rightarrow> string \<Rightarrow> int"
  os_pread :: "world \<Rightarrow> int \<Rightarrow> u64 \<Rightarrow> u8 list"
  os_sysconf :: "world \<Rightarrow> sysconf_name \<Rightarrow> int"
  os_clock :: "world \<Rightarrow> (int \<times> int) option"
  os_alloc :: "world \<Rightarrow> nat \<Rightarrow> bool"
  os_fseek :: "world \<Rightarrow> bool"
  os_ftell :: "world \<Rightarrow> int"
  os_fread :: "world \<Rightarrow> nat \<Rightarrow> nat"
  os_unlink :: "world \<Rightarrow> string \<Rightarrow> errno option"
  os_fork :: "world \<Rightarrow> pid_t"
  os_setpgid :: "world \<Rightarrow> pid_t \<Rightarrow> pid_t \<Rightarrow> errno option"
  os_dup2 :: "world \<Rightarrow> int \<Rightarrow> int \<Rightarrow> bool"
  os_waitpid :: "world \<Rightarrow> pid_t \<Rightarrow> bool \<Rightarrow> pid_t \<times> nat \<times> errno"
  os_nanosleep :: "world \<Rightarrow> nat \<Rightarrow> (errno \<times> nat) option"
  os_strerror :: "errno \<Rightarrow> string"
  os_getpid :: pid_t

definition tick :: "world \<Rightarrow> world" where
  "tick w = w\<lparr>w_calls := Suc (w_calls w)\<rparr>"

text \<open>\<open>fopen(path, "w")\<close>, one \<open>fprintf\<close> and \<open>fclose\<close>: the text counts as written when all
  three succeed.\<close>

definition write_file :: "os \<Rightarrow> string \<Rightarrow> string \<Rightarrow> world \<Rightarrow> wres \<times> world" where
  "write_file os path text w =
     (case os_write os w path text of
        W_OK \<Rightarrow> (W_OK, (tick w)\<lparr>w_writes := w_writes w @ [(path, text)]\<rparr>)
      | e \<Rightarrow> (e, tick w))"

text \<open>\<open>fopen(path, "r")\<close>: the contents the following reads will deliver.\<close>

definition fopen_r :: "os \<Rightarrow> string \<Rightarrow> world \<Rightarrow> string option \<times> world" where
  "fopen_r os path w =
     (case os_fopen os w path of
        None \<Rightarrow> (None, tick w)
      | Some s \<Rightarrow> (Some s, (tick w)\<lparr>w_open := Suc (w_open w)\<rparr>))"

definition fclose_r :: "os \<Rightarrow> world \<Rightarrow> bool \<times> world" where
  "fclose_r os w = (os_fclose os w, (tick w)\<lparr>w_open := w_open w - 1\<rparr>)"

definition sysconf :: "os \<Rightarrow> sysconf_name \<Rightarrow> world \<Rightarrow> int \<times> world" where
  "sysconf os name w = (os_sysconf os w name, tick w)"

definition clock_gettime :: "os \<Rightarrow> world \<Rightarrow> (int \<times> int) option \<times> world" where
  "clock_gettime os w = (os_clock os w, tick w)"

definition sys_open :: "os \<Rightarrow> string \<Rightarrow> world \<Rightarrow> int \<times> world" where
  "sys_open os path w =
     (let fd = os_open os w path
      in if fd < 0 then (fd, tick w) else (fd, (tick w)\<lparr>w_open := Suc (w_open w)\<rparr>))"

definition sys_close :: "world \<Rightarrow> world" where
  "sys_close w = (tick w)\<lparr>w_open := w_open w - 1\<rparr>"

definition sys_pread :: "os \<Rightarrow> int \<Rightarrow> u64 \<Rightarrow> world \<Rightarrow> u8 list \<times> world" where
  "sys_pread os fd off w = (os_pread os w fd off, tick w)"

definition sys_readlink :: "os \<Rightarrow> string \<Rightarrow> world \<Rightarrow> string option \<times> world" where
  "sys_readlink os path w = (os_readlink os w path, tick w)"

definition sys_calloc :: "os \<Rightarrow> nat \<Rightarrow> world \<Rightarrow> bool \<times> world" where
  "sys_calloc os n w = (os_alloc os w n, tick w)"

text \<open>Positioning in a stream: whether \<open>fseek\<close> succeeded, and the answer of \<open>ftell\<close>.\<close>

definition fseek_r :: "os \<Rightarrow> world \<Rightarrow> bool \<times> world" where
  "fseek_r os w = (os_fseek os w, tick w)"

definition ftell_r :: "os \<Rightarrow> world \<Rightarrow> int \<times> world" where
  "ftell_r os w = (os_ftell os w, tick w)"

text \<open>\<open>fread\<close> of \<open>n\<close> bytes from a stream that still has \<open>contents\<close> to deliver; \<open>os_fread\<close> bounds the
  bytes delivered when an error occurs.\<close>

definition fread_r :: "os \<Rightarrow> nat \<Rightarrow> string \<Rightarrow> world \<Rightarrow> string \<times> world" where
  "fread_r os n contents w = (take (os_fread os w n) (take n contents), tick w)"

subsection \<open>Files and processes\<close>

text \<open>\<open>None\<close> is the return value 0.\<close>

definition sys_unlink :: "os \<Rightarrow> string \<Rightarrow> world \<Rightarrow> errno option \<times> world" where
  "sys_unlink os path w =
     (case os_unlink os w path of
        None \<Rightarrow> (None, (tick w)\<lparr>w_log := w_log w @ [Ev_unlinked path]\<rparr>)
      | Some e \<Rightarrow> (Some e, tick w))"

text \<open>\<open>fork\<close> as the parent sees it: a negative value, or the id of the child.\<close>

definition sys_fork :: "os \<Rightarrow> world \<Rightarrow> pid_t \<times> world" where
  "sys_fork os w =
     (let pid = os_fork os w
      in if pid < 0 then (pid, tick w) else (pid, (tick w)\<lparr>w_log := w_log w @ [Ev_forked pid]\<rparr>))"

definition sys_setpgid :: "os \<Rightarrow> pid_t \<Rightarrow> pid_t \<Rightarrow> world \<Rightarrow> errno option \<times> world" where
  "sys_setpgid os pid pgid w = (os_setpgid os w pid pgid, tick w)"

definition sys_dup2 :: "os \<Rightarrow> int \<Rightarrow> int \<Rightarrow> world \<Rightarrow> bool \<times> world" where
  "sys_dup2 os fd fd2 w = (os_dup2 os w fd fd2, tick w)"

text \<open>The daemon ignores what \<open>kill\<close> returns.\<close>

definition sys_kill :: "pid_t \<Rightarrow> signum \<Rightarrow> world \<Rightarrow> world" where
  "sys_kill pid sig w = (tick w)\<lparr>w_log := w_log w @ [Ev_kill pid sig]\<rparr>"

text \<open>\<open>waitpid\<close>: the return value, the status word and \<open>errno\<close>; \<open>nohang\<close> is the option \<open>WNOHANG\<close>. A child that is reaped is
  logged with its status word.\<close>

definition sys_waitpid :: "os \<Rightarrow> pid_t \<Rightarrow> bool \<Rightarrow> world \<Rightarrow> (pid_t \<times> nat \<times> errno) \<times> world" where
  "sys_waitpid os pid nohang w =
     (let r = os_waitpid os w pid nohang
      in (r, if fst r = pid then (tick w)\<lparr>w_log := w_log w @ [Ev_reaped pid (fst (snd r))]\<rparr> else tick w))"

text \<open>\<open>nanosleep\<close> for \<open>req\<close> nanoseconds: \<open>None\<close> is success, otherwise \<open>errno\<close> and the time that remains.\<close>

definition sys_nanosleep :: "os \<Rightarrow> nat \<Rightarrow> world \<Rightarrow> (errno \<times> nat) option \<times> world" where
  "sys_nanosleep os req w = (os_nanosleep os w req, tick w)"

lemmas os_defs = tick_def write_file_def fopen_r_def fclose_r_def sysconf_def clock_gettime_def
  sys_open_def sys_close_def sys_pread_def sys_readlink_def sys_calloc_def

lemmas process_defs = fseek_r_def ftell_r_def fread_r_def sys_unlink_def sys_fork_def sys_setpgid_def sys_dup2_def
  sys_kill_def sys_waitpid_def sys_nanosleep_def

lemma tick_frame [frame, simp]:
  "w_open (tick w) = w_open w" "w_writes (tick w) = w_writes w" "w_log (tick w) = w_log w"
  by (simp_all add: tick_def)

lemma write_file_writes:
  "write_file os path text w = (r, w') \<Longrightarrow>
   w_writes w' = (if r = W_OK then w_writes w @ [(path, text)] else w_writes w)"
  by (auto simp: write_file_def split: wres.splits)

lemma write_file_open [frame]: "write_file os path text w = (r, w') \<Longrightarrow> w_open w' = w_open w"
  by (auto simp: write_file_def split: wres.splits)

text \<open>An operating system on which every call succeeds, for concrete evaluations.\<close>

definition os_fine :: os where
  "os_fine = \<lparr>os_write = (\<lambda>_ _ _. W_OK), os_fopen = (\<lambda>_ _. Some []), os_ferror = (\<lambda>_. False),
     os_fclose = (\<lambda>_. True), os_readlink = (\<lambda>_ _. None), os_open = (\<lambda>_ _. 3),
     os_pread = (\<lambda>_ _ _. replicate 8 0),
     os_sysconf = (\<lambda>_ n. case n of SC_PAGESIZE \<Rightarrow> 4096 | SC_CLK_TCK \<Rightarrow> 100),
     os_clock = (\<lambda>w. Some (int (w_calls w), 0)), os_alloc = (\<lambda>_ _. True),
     os_fseek = (\<lambda>_. True), os_ftell = (\<lambda>_. 0), os_fread = (\<lambda>_ n. n), os_unlink = (\<lambda>_ _. None),
     os_fork = (\<lambda>_. 1000), os_setpgid = (\<lambda>_ _ _. None), os_dup2 = (\<lambda>_ _ _. True),
     os_waitpid = (\<lambda>_ pid _. (\<bar>pid\<bar>, 0, ENOENT)), os_nanosleep = (\<lambda>_ _. None), os_strerror = (\<lambda>_. ''error''),
     os_getpid = 50\<rparr>"

end
