(* ===== verification/Cgroup.thy ===== *)
theory Cgroup
  imports OS_World
begin

text \<open>
  The cgroup-v2 control files (\<open>protected-daemon/src/cgroup.c\<close>, \<open>cgroup.h\<close>): the policy groups, the paths
  built under the configured base directory, and the writer all control operations go
  through. The base directory is the static buffer \<open>g_cgroup_base\<close>; the operations take it
  as an argument and \<open>cgroup_set_base_path\<close> returns its new contents.
\<close>

datatype proc_group =
    GROUP_PROTECTED | GROUP_BACKGROUND | GROUP_THROTTLED | GROUP_IGNORED | GROUP_UNKNOWN

definition CGROUP_DEFAULT_BASE :: string where
  "CGROUP_DEFAULT_BASE = ''/sys/fs/cgroup/cgroup_research''"

definition CGROUP_PATH_MAX :: nat where "CGROUP_PATH_MAX = 512"
definition CGROUP_VALUE_MAX :: nat where "CGROUP_VALUE_MAX = 128"

fun group_to_dir_name :: "proc_group \<Rightarrow> string option" where
  "group_to_dir_name GROUP_PROTECTED = Some ''protected''"
| "group_to_dir_name GROUP_BACKGROUND = Some ''background''"
| "group_to_dir_name GROUP_THROTTLED = Some ''throttled''"
| "group_to_dir_name _ = None"

fun cgroup_group_name :: "proc_group \<Rightarrow> string" where
  "cgroup_group_name GROUP_PROTECTED = ''protected''"
| "cgroup_group_name GROUP_BACKGROUND = ''background''"
| "cgroup_group_name GROUP_THROTTLED = ''throttled''"
| "cgroup_group_name GROUP_IGNORED = ''ignored''"
| "cgroup_group_name GROUP_UNKNOWN = ''unknown''"

text \<open>
  Returns the code and the buffer's new contents. The buffer has been overwritten by the time
  the truncation is noticed.
\<close>

definition cgroup_set_base_path :: "string option \<Rightarrow> string \<Rightarrow> int \<times> string" where
  "cgroup_set_base_path base_path g_cgroup_base =
     (case base_path of
        None \<Rightarrow> (-1, g_cgroup_base)
      | Some p \<Rightarrow>
          if p = [] then (-1, g_cgroup_base)
          else if CGROUP_PATH_MAX \<le> length p then (-1, snprintf_s CGROUP_PATH_MAX p)
          else (0, snprintf_s CGROUP_PATH_MAX p))"

text \<open>
  The path builders return \<open>None\<close> for -1; the callers look at the output buffer only after a 0.
\<close>

definition cgroup_group_dir :: "string \<Rightarrow> proc_group \<Rightarrow> nat \<Rightarrow> string option" where
  "cgroup_group_dir base grp out_size =
     (if out_size = 0 then None
      else case group_to_dir_name grp of
             None \<Rightarrow> None
           | Some dir_name \<Rightarrow>
               (let text = base @ ''/'' @ dir_name
                in if out_size \<le> length text then None else Some (snprintf_s out_size text)))"

definition cgroup_control_path ::
  "string \<Rightarrow> proc_group \<Rightarrow> string option \<Rightarrow> nat \<Rightarrow> string option" where
  "cgroup_control_path base grp control_file out_size =
     (case control_file of
        None \<Rightarrow> None
      | Some file \<Rightarrow>
          if file = [] then None
          else if CHR ''/'' \<in> set file then None
          else case cgroup_group_dir base grp CGROUP_PATH_MAX of
                 None \<Rightarrow> None
               | Some dir \<Rightarrow>
                   (let text = dir @ ''/'' @ file
                    in if out_size \<le> length text then None else Some (snprintf_s out_size text)))"

definition cgroup_write_control ::
  "os \<Rightarrow> string \<Rightarrow> proc_group \<Rightarrow> string option \<Rightarrow> string option \<Rightarrow> world \<Rightarrow> int \<times> world" where
  "cgroup_write_control os base grp control_file val w =
     (case val of
        None \<Rightarrow> (-1, w)
      | Some v \<Rightarrow>
          (case cgroup_control_path base grp control_file CGROUP_PATH_MAX of
             None \<Rightarrow> (-1, w)
           | Some path \<Rightarrow>
               (case write_file os path (v @ [CHR 0x0A]) w of
                  (W_OK, w') \<Rightarrow> (0, w')
                | (_, w') \<Rightarrow> (-1, w'))))"

definition cgroup_move_pid :: "os \<Rightarrow> string \<Rightarrow> pid_t \<Rightarrow> proc_group \<Rightarrow> world \<Rightarrow> int \<times> world" where
  "cgroup_move_pid os base pid grp w =
     (if pid \<le> 0 then (-1, w)
      else let pid_text = show_int pid
           in if CGROUP_VALUE_MAX \<le> length pid_text then (-1, w)
              else cgroup_write_control os base grp (Some ''cgroup.procs'')
                     (Some (snprintf_s CGROUP_VALUE_MAX pid_text)) w)"

definition cgroup_set_cpu_max ::
  "os \<Rightarrow> string \<Rightarrow> proc_group \<Rightarrow> string option \<Rightarrow> world \<Rightarrow> int \<times> world" where
  "cgroup_set_cpu_max os base grp val w = cgroup_write_control os base grp (Some ''cpu.max'') val w"

definition cgroup_set_memory_low ::
  "os \<Rightarrow> string \<Rightarrow> proc_group \<Rightarrow> string option \<Rightarrow> world \<Rightarrow> int \<times> world" where
  "cgroup_set_memory_low os base grp val w =
     cgroup_write_control os base grp (Some ''memory.low'') val w"

definition cgroup_set_memory_high ::
  "os \<Rightarrow> string \<Rightarrow> proc_group \<Rightarrow> string option \<Rightarrow> world \<Rightarrow> int \<times> world" where
  "cgroup_set_memory_high os base grp val w =
     cgroup_write_control os base grp (Some ''memory.high'') val w"

definition cgroup_set_memory_max ::
  "os \<Rightarrow> string \<Rightarrow> proc_group \<Rightarrow> string option \<Rightarrow> world \<Rightarrow> int \<times> world" where
  "cgroup_set_memory_max os base grp val w =
     cgroup_write_control os base grp (Some ''memory.max'') val w"

subsection \<open>Paths\<close>

definition managed_group :: "proc_group \<Rightarrow> bool" where
  "managed_group g \<longleftrightarrow> group_to_dir_name g \<noteq> None"

lemma managed_group_simps [simp]:
  "managed_group GROUP_PROTECTED" "managed_group GROUP_BACKGROUND" "managed_group GROUP_THROTTLED"
  "\<not> managed_group GROUP_IGNORED" "\<not> managed_group GROUP_UNKNOWN"
  by (simp_all add: managed_group_def)

lemma cgroup_group_dir_eq:
  "cgroup_group_dir base g n =
     (if managed_group g \<and> length (base @ ''/'' @ the (group_to_dir_name g)) < n
      then Some (base @ ''/'' @ the (group_to_dir_name g)) else None)"
  by (auto simp: cgroup_group_dir_def managed_group_def snprintf_s_fits Let_def split: option.splits)

text \<open>A path that is built is exactly base, group directory and file name, and fits its buffer.\<close>

lemma cgroup_control_path_Some:
  "cgroup_control_path base g (Some file) n = Some p \<longleftrightarrow>
   managed_group g \<and> file \<noteq> [] \<and> CHR ''/'' \<notin> set file \<and>
   length (base @ ''/'' @ the (group_to_dir_name g)) < CGROUP_PATH_MAX \<and>
   p = base @ ''/'' @ the (group_to_dir_name g) @ ''/'' @ file \<and> length p < n"
  by (auto simp: cgroup_control_path_def cgroup_group_dir_eq snprintf_s_fits Let_def
      split: if_splits)

lemma group_to_dir_name_inj:
  "managed_group g \<Longrightarrow> group_to_dir_name g = group_to_dir_name h \<Longrightarrow> g = h"
  by (cases g; cases h) auto

lemma group_dir_no_slash: "managed_group g \<Longrightarrow> CHR ''/'' \<notin> set (the (group_to_dir_name g))"
  by (cases g) auto

text \<open>The path under which a control file of a group is written.\<close>

definition control_file_path :: "string \<Rightarrow> proc_group \<Rightarrow> string \<Rightarrow> string" where
  "control_file_path base g file = base @ ''/'' @ the (group_to_dir_name g) @ ''/'' @ file"

lemma control_file_path_inj:
  assumes "managed_group g" "managed_group h"
    and "control_file_path base g file = control_file_path base h file"
  shows "g = h"
  using assms by (cases g; cases h) (auto simp: control_file_path_def)

subsection \<open>Writes\<close>

text \<open>The length every path of the daemon's own control files needs to fit.\<close>

definition base_ok :: "string \<Rightarrow> bool" where
  "base_ok base \<longleftrightarrow> length base \<le> 480"

lemma cgroup_write_control_cases:
  assumes "cgroup_write_control os base g (Some file) (Some v) w = (rc, w')"
  shows "(rc = 0 \<and> managed_group g \<and> w_writes w' = w_writes w @ [(control_file_path base g file, v @ [CHR 0x0A])])
       \<or> (rc = -1 \<and> w_writes w' = w_writes w)"
  using assms
  by (auto simp: cgroup_write_control_def cgroup_control_path_Some control_file_path_def write_file_def
      split: option.splits wres.splits prod.splits if_splits)

lemma cgroup_write_control_open [frame]:
  "cgroup_write_control os base g file v w = (rc, w') \<Longrightarrow> w_open w' = w_open w"
  by (auto simp: cgroup_write_control_def write_file_def split: option.splits wres.splits prod.splits)

text \<open>The text of the one line a move writes.\<close>

definition pid_line :: "pid_t \<Rightarrow> string" where
  "pid_line pid = show_int pid @ [CHR 0x0A]"

lemma pid_line_inj: "0 < p \<Longrightarrow> 0 < q \<Longrightarrow> pid_line p = pid_line q \<Longrightarrow> p = q"
  by (auto simp: pid_line_def show_int_def dest!: show_nat_inj)

lemma cgroup_move_pid_cases:
  assumes "cgroup_move_pid os base pid g w = (rc, w')"
  shows "(rc = 0 \<and> 0 < pid \<and> managed_group g \<and>
            w_writes w' = w_writes w @ [(control_file_path base g ''cgroup.procs'', pid_line pid)])
       \<or> (rc = -1 \<and> w_writes w' = w_writes w)"
proof (cases "pid \<le> 0 \<or> CGROUP_VALUE_MAX \<le> length (show_int pid)")
  case True
  with assms show ?thesis by (auto simp: cgroup_move_pid_def Let_def split: if_splits)
next
  case False
  then have "snprintf_s CGROUP_VALUE_MAX (show_int pid) = show_int pid"
    by (simp add: snprintf_s_fits)
  with False assms have
    "cgroup_write_control os base g (Some ''cgroup.procs'') (Some (show_int pid)) w = (rc, w')"
    by (simp add: cgroup_move_pid_def Let_def)
  from cgroup_write_control_cases [OF this] False show ?thesis
    by (auto simp: pid_line_def)
qed

lemma cgroup_move_pid_open [frame]: "cgroup_move_pid os base pid g w = (rc, w') \<Longrightarrow> w_open w' = w_open w"
  by (auto simp: cgroup_move_pid_def Let_def split: if_splits dest: cgroup_write_control_open)

text \<open>With a base directory that leaves room for the file names, a move succeeds as soon as the
  write does.\<close>

lemma cgroup_move_pid_succeeds:
  assumes "\<forall>v path text. os_write os v path text = W_OK" "base_ok base" "managed_group g"
    "0 < pid" "pid < 2 ^ 31"
  shows "fst (cgroup_move_pid os base pid g w) = 0"
proof -
  have "nat pid < 10 ^ Suc 9" using assms(5) by simp
  from show_nat_length [OF this] assms(4) have "length (show_int pid) \<le> 10" by (simp add: show_int_def)
  moreover have "length (the (group_to_dir_name g)) \<le> 10" using assms(3) by (cases g) auto
  then have "cgroup_control_path base g (Some ''cgroup.procs'') CGROUP_PATH_MAX =
      Some (base @ ''/'' @ the (group_to_dir_name g) @ ''/'' @ ''cgroup.procs'')"
    using assms(2,3) by (simp add: cgroup_control_path_Some base_ok_def CGROUP_PATH_MAX_def)
  ultimately show ?thesis
    using assms(1,4)
    by (simp add: cgroup_move_pid_def CGROUP_VALUE_MAX_def cgroup_write_control_def write_file_def)
qed

end
