(* ===== verification/Interference_Candidate.thy ===== *)
theory Interference_Candidate
  imports C_String
begin

text \<open>
  The record that the interference detector hands to the throttle controller
  (\<open>struct interference_candidate\<close> of \<open>interference_detector.h\<close>).
\<close>

record interference_candidate =
  ic_pid :: pid_t
  ic_activity_score :: cdouble
  ic_cpu_score :: cdouble
  ic_fault_score :: cdouble
  ic_rss_score :: cdouble
  ic_overlap_score :: cdouble
  ic_final_score :: cdouble
  ic_common_pages :: u64
  ic_active :: bool
  ic_should_throttle :: bool
  ic_reason :: string

text \<open>\<open>memset(candidate, 0, sizeof(*candidate))\<close>.\<close>

definition interference_candidate_reset :: interference_candidate where
  "interference_candidate_reset =
     \<lparr>ic_pid = 0, ic_activity_score = Fin 0, ic_cpu_score = Fin 0, ic_fault_score = Fin 0,
      ic_rss_score = Fin 0, ic_overlap_score = Fin 0, ic_final_score = Fin 0, ic_common_pages = 0,
      ic_active = False, ic_should_throttle = False, ic_reason = []\<rparr>"

end
