(* ===== verification/Throttle_Controller.thy ===== *)
theory Throttle_Controller
  imports Cgroup Interference_Candidate
begin

text \<open>
  The throttle controller (\<open>protected-daemon/src/throttle_controller.c\<close> and \<open>.h\<close>): a table of per-process
  records, each a small state machine NONE, THROTTLED, COOLDOWN, driven once per detector
  interval by the list of interference candidates. A process is moved between cgroups when
  its record enters or leaves THROTTLED.

  The array \<open>records[0 .. record_count)\<close> is the list \<open>tk_records\<close>. A statistics pointer that may be
  NULL is an \<open>option\<close>. The enum of states is stored in an integer field, so a fourth
  constructor stands for any other value; the default branch of the code is kept and
  shown unreachable. The injected clock is a function of the world that may fail.
\<close>

datatype throttle_controller_rc =
    THROTTLE_CONTROLLER_OK
  | THROTTLE_CONTROLLER_ERR_INVALID_ARG
  | THROTTLE_CONTROLLER_ERR_NO_MEMORY
  | THROTTLE_CONTROLLER_ERR_NO_SPACE
  | THROTTLE_CONTROLLER_ERR_TIME
  | THROTTLE_CONTROLLER_ERR_CGROUP
  | THROTTLE_CONTROLLER_ERR_NOT_INITIALIZED

datatype throttle_state =
    THROTTLE_STATE_NONE
  | THROTTLE_STATE_THROTTLED
  | THROTTLE_STATE_COOLDOWN
  | THROTTLE_STATE_OTHER int

definition THROTTLE_CONTROLLER_VALUE_MAX :: nat where "THROTTLE_CONTROLLER_VALUE_MAX = 64"
definition THROTTLE_CONTROLLER_REASON_MAX :: nat where "THROTTLE_CONTROLLER_REASON_MAX = 256"

record throttle_controller_config =
  tc_normal_group :: proc_group
  tc_throttled_group :: proc_group
  tc_protected_group :: proc_group
  tc_throttled_cpu_max :: string
  tc_protected_memory_low :: string
  tc_high_score_threshold :: cdouble
  tc_low_score_threshold :: cdouble
  tc_min_throttle_duration_ms :: u64
  tc_cooldown_duration_ms :: u64
  tc_stale_after_ms :: u64
  tc_max_records :: nat
  tc_dry_run :: bool
  tc_configure_throttled_cpu_max :: bool
  tc_configure_protected_memory_low :: bool
  tc_clock_fn :: "(world \<Rightarrow> u64 option) option"

record throttle_record =
  tr_pid :: pid_t
  tr_state :: throttle_state
  tr_first_seen_ns :: u64
  tr_last_seen_ns :: u64
  tr_state_entered_ns :: u64
  tr_last_action_ns :: u64
  tr_last_activity_score :: cdouble
  tr_last_overlap_score :: cdouble
  tr_last_final_score :: cdouble
  tr_last_common_pages :: u64
  tr_seen_in_last_apply :: bool
  tr_last_should_throttle :: bool
  tr_last_error :: throttle_controller_rc
  tr_reason :: string

record throttle_controller =
  tk_initialized :: bool
  tk_cfg :: throttle_controller_config
  tk_records :: "throttle_record list"
  tk_record_cap :: nat

record throttle_controller_stats =
  ts_candidate_count :: nat
  ts_records_seen :: nat
  ts_throttle_actions :: nat
  ts_release_actions :: nat
  ts_kept_throttled :: nat
  ts_skipped_low_score :: nat
  ts_skipped_cooldown :: nat
  ts_stale_releases :: nat
  ts_errors :: nat
  ts_last_error :: throttle_controller_rc
  ts_last_error_reason :: string

subsection \<open>Configuration\<close>

fun valid_control_group :: "proc_group \<Rightarrow> bool" where
  "valid_control_group grp =
     (grp = GROUP_PROTECTED \<or> grp = GROUP_BACKGROUND \<or> grp = GROUP_THROTTLED)"

definition valid_control_value :: "string \<Rightarrow> nat \<Rightarrow> bool" where
  "valid_control_value val cap =
     (if cap = 0 then False
      else let len = bounded_strlen val cap
           in if len = 0 \<or> cap \<le> len then False
              else list_all (\<lambda>c. c \<noteq> CHR 0x0A \<and> c \<noteq> CHR 0x0D) (take len val))"

definition validate_config :: "throttle_controller_config option \<Rightarrow> throttle_controller_rc" where
  "validate_config cfgp =
     (case cfgp of
        None \<Rightarrow> THROTTLE_CONTROLLER_ERR_INVALID_ARG
      | Some cfg \<Rightarrow>
          if \<not> valid_control_group (tc_normal_group cfg) \<or>
             \<not> valid_control_group (tc_throttled_group cfg) \<or>
             \<not> valid_control_group (tc_protected_group cfg)
          then THROTTLE_CONTROLLER_ERR_INVALID_ARG
          else if tc_normal_group cfg = tc_throttled_group cfg \<or>
                  tc_normal_group cfg = tc_protected_group cfg \<or>
                  tc_throttled_group cfg = tc_protected_group cfg
          then THROTTLE_CONTROLLER_ERR_INVALID_ARG
          else if \<not> isfinite (tc_low_score_threshold cfg) \<or>
                  \<not> isfinite (tc_high_score_threshold cfg) \<or>
                  flt (tc_low_score_threshold cfg) (Fin 0) \<or>
                  flt (Fin 1) (tc_high_score_threshold cfg) \<or>
                  flt (tc_high_score_threshold cfg) (tc_low_score_threshold cfg)
          then THROTTLE_CONTROLLER_ERR_INVALID_ARG
          else if tc_max_records cfg = 0 then THROTTLE_CONTROLLER_ERR_INVALID_ARG
          else if tc_configure_throttled_cpu_max cfg \<and>
                  \<not> valid_control_value (tc_throttled_cpu_max cfg) THROTTLE_CONTROLLER_VALUE_MAX
          then THROTTLE_CONTROLLER_ERR_INVALID_ARG
          else if tc_configure_protected_memory_low cfg \<and>
                  \<not> valid_control_value (tc_protected_memory_low cfg) THROTTLE_CONTROLLER_VALUE_MAX
          then THROTTLE_CONTROLLER_ERR_INVALID_ARG
          else THROTTLE_CONTROLLER_OK)"

definition throttle_controller_config_default :: "rounding \<Rightarrow> throttle_controller_config" where
  "throttle_controller_config_default rnd =
     \<lparr>tc_normal_group = GROUP_BACKGROUND, tc_throttled_group = GROUP_THROTTLED,
      tc_protected_group = GROUP_PROTECTED,
      tc_throttled_cpu_max = snprintf_s THROTTLE_CONTROLLER_VALUE_MAX ''20000 100000'' @ [NUL],
      tc_protected_memory_low = snprintf_s THROTTLE_CONTROLLER_VALUE_MAX ''0'' @ [NUL],
      tc_high_score_threshold = rnd (20 / 100), tc_low_score_threshold = rnd (10 / 100),
      tc_min_throttle_duration_ms = 3000, tc_cooldown_duration_ms = 2000, tc_stale_after_ms = 2000,
      tc_max_records = 256, tc_dry_run = False, tc_configure_throttled_cpu_max = True,
      tc_configure_protected_memory_low = False, tc_clock_fn = None\<rparr>"

subsection \<open>Time\<close>

definition NSEC_PER_MSEC :: u64 where "NSEC_PER_MSEC = 1000000"

definition monotonic_now_ns :: "os \<Rightarrow> world \<Rightarrow> (throttle_controller_rc + u64) \<times> world" where
  "monotonic_now_ns os w =
     (case clock_gettime os w of
        (None, w') \<Rightarrow> (Inl THROTTLE_CONTROLLER_ERR_TIME, w')
      | (Some (tv_sec, tv_nsec), w') \<Rightarrow>
          (Inr (of_int tv_sec * 1000000000 + of_int tv_nsec), w'))"

definition controller_now_ns ::
  "os \<Rightarrow> throttle_controller \<Rightarrow> world \<Rightarrow> (throttle_controller_rc + u64) \<times> world" where
  "controller_now_ns os controller w =
     (case tc_clock_fn (tk_cfg controller) of
        None \<Rightarrow> monotonic_now_ns os w
      | Some clock_fn \<Rightarrow>
          (case clock_fn w of
             None \<Rightarrow> (Inl THROTTLE_CONTROLLER_ERR_TIME, tick w)
           | Some now_ns \<Rightarrow> (Inr now_ns, tick w)))"

definition ms_to_ns :: "u64 \<Rightarrow> u64" where
  "ms_to_ns ms = (if (- 1) div NSEC_PER_MSEC < ms then - 1 else ms * NSEC_PER_MSEC)"

definition elapsed_at_least :: "u64 \<Rightarrow> u64 \<Rightarrow> u64 \<Rightarrow> bool" where
  "elapsed_at_least now_ns start_ns duration_ms =
     (let duration_ns = ms_to_ns duration_ms
      in if now_ns < start_ns then False else duration_ns \<le> now_ns - start_ns)"

subsection \<open>Statistics and records\<close>

definition set_reason :: "string \<Rightarrow> string" where
  "set_reason text = snprintf_s THROTTLE_CONTROLLER_REASON_MAX text"

definition set_stats_error ::
  "throttle_controller_stats option \<Rightarrow> throttle_controller_rc \<Rightarrow> string \<Rightarrow>
   throttle_controller_stats option" where
  "set_stats_error stats rc reason =
     map_option (\<lambda>s. s\<lparr>ts_errors := Suc (ts_errors s), ts_last_error := rc,
                       ts_last_error_reason := set_reason reason\<rparr>) stats"

definition throttle_controller_stats_reset :: throttle_controller_stats where
  "throttle_controller_stats_reset =
     \<lparr>ts_candidate_count = 0, ts_records_seen = 0, ts_throttle_actions = 0, ts_release_actions = 0,
      ts_kept_throttled = 0, ts_skipped_low_score = 0, ts_skipped_cooldown = 0,
      ts_stale_releases = 0, ts_errors = 0, ts_last_error = THROTTLE_CONTROLLER_OK,
      ts_last_error_reason = []\<rparr>"

definition throttle_controller_record_reset :: throttle_record where
  "throttle_controller_record_reset =
     \<lparr>tr_pid = -1, tr_state = THROTTLE_STATE_NONE, tr_first_seen_ns = 0, tr_last_seen_ns = 0,
      tr_state_entered_ns = 0, tr_last_action_ns = 0, tr_last_activity_score = Fin 0,
      tr_last_overlap_score = Fin 0, tr_last_final_score = Fin 0, tr_last_common_pages = 0,
      tr_seen_in_last_apply = False, tr_last_should_throttle = False,
      tr_last_error = THROTTLE_CONTROLLER_OK, tr_reason = []\<rparr>"

definition find_record :: "throttle_controller \<Rightarrow> pid_t \<Rightarrow> nat option" where
  "find_record controller pid = first_index (\<lambda>r. tr_pid r = pid) (tk_records controller)"

definition create_record ::
  "throttle_controller \<Rightarrow> pid_t \<Rightarrow> u64 \<Rightarrow> (throttle_controller \<times> nat) option" where
  "create_record controller pid now_ns =
     (if tk_record_cap controller \<le> length (tk_records controller) then None
      else Some
        (controller\<lparr>tk_records := tk_records controller @
           [throttle_controller_record_reset\<lparr>
              tr_pid := pid, tr_state := THROTTLE_STATE_NONE, tr_first_seen_ns := now_ns,
              tr_last_seen_ns := now_ns, tr_state_entered_ns := now_ns,
              tr_reason := set_reason ''new record''\<rparr>]\<rparr>,
         length (tk_records controller)))"

definition candidate_requests_throttle ::
  "throttle_controller_config \<Rightarrow> interference_candidate \<Rightarrow> bool" where
  "candidate_requests_throttle cfg candidate \<longleftrightarrow>
     ic_active candidate \<and> ic_should_throttle candidate \<and>
     fle (tc_high_score_threshold cfg) (ic_final_score candidate)"

definition move_pid ::
  "os \<Rightarrow> string \<Rightarrow> throttle_controller_config \<Rightarrow> pid_t \<Rightarrow> proc_group \<Rightarrow> world \<Rightarrow>
   throttle_controller_rc \<times> world" where
  "move_pid os base cfg pid grp w =
     (if tc_dry_run cfg then (THROTTLE_CONTROLLER_OK, w)
      else let (rc, w') = cgroup_move_pid os base pid grp w
           in if rc \<noteq> 0 then (THROTTLE_CONTROLLER_ERR_CGROUP, w') else (THROTTLE_CONTROLLER_OK, w'))"

definition throttle_record_pid ::
  "os \<Rightarrow> string \<Rightarrow> throttle_controller_config \<Rightarrow> u64 \<Rightarrow> throttle_record \<Rightarrow>
   throttle_controller_stats option \<Rightarrow> world \<Rightarrow>
   throttle_controller_rc \<times> throttle_record \<times> throttle_controller_stats option \<times> world" where
  "throttle_record_pid os base cfg now_ns r stats w =
     (let (rc, w') = move_pid os base cfg (tr_pid r) (tc_throttled_group cfg) w
      in if rc \<noteq> THROTTLE_CONTROLLER_OK
         then let r' = r\<lparr>tr_last_error := rc,
                         tr_reason := set_reason ''failed to move pid to throttled group''\<rparr>
              in (rc, r', set_stats_error stats rc (tr_reason r'), w')
         else (THROTTLE_CONTROLLER_OK,
               r\<lparr>tr_state := THROTTLE_STATE_THROTTLED, tr_state_entered_ns := now_ns,
                 tr_last_action_ns := now_ns, tr_last_error := THROTTLE_CONTROLLER_OK,
                 tr_reason := snprintf_s THROTTLE_CONTROLLER_REASON_MAX
                   (''throttled: final='' @ show_fixed 4 (tr_last_final_score r) @
                    '' activity='' @ show_fixed 4 (tr_last_activity_score r) @
                    '' overlap='' @ show_fixed 4 (tr_last_overlap_score r))\<rparr>,
               map_option (\<lambda>s. s\<lparr>ts_throttle_actions := Suc (ts_throttle_actions s)\<rparr>) stats, w'))"

definition release_record_pid ::
  "os \<Rightarrow> string \<Rightarrow> throttle_controller_config \<Rightarrow> u64 \<Rightarrow> bool \<Rightarrow> throttle_record \<Rightarrow>
   throttle_controller_stats option \<Rightarrow> world \<Rightarrow>
   throttle_controller_rc \<times> throttle_record \<times> throttle_controller_stats option \<times> world" where
  "release_record_pid os base cfg now_ns stale r stats w =
     (let (rc, w') = move_pid os base cfg (tr_pid r) (tc_normal_group cfg) w
      in if rc \<noteq> THROTTLE_CONTROLLER_OK
         then let r' = r\<lparr>tr_last_error := rc,
                         tr_reason := set_reason ''failed to move pid to normal group''\<rparr>
              in (rc, r', set_stats_error stats rc (tr_reason r'), w')
         else (THROTTLE_CONTROLLER_OK,
               r\<lparr>tr_state := THROTTLE_STATE_COOLDOWN, tr_state_entered_ns := now_ns,
                 tr_last_action_ns := now_ns, tr_last_error := THROTTLE_CONTROLLER_OK,
                 tr_reason :=
                   (if stale then set_reason ''released: stale candidate''
                    else snprintf_s THROTTLE_CONTROLLER_REASON_MAX
                      (''released: final='' @ show_fixed 4 (tr_last_final_score r) @
                       '' low='' @ show_fixed 4 (tc_low_score_threshold cfg)))\<rparr>,
               map_option (\<lambda>s. s\<lparr>ts_release_actions := Suc (ts_release_actions s),
                                 ts_stale_releases := ts_stale_releases s + (if stale then 1 else 0)\<rparr>) stats,
               w'))"

subsection \<open>Candidate validation\<close>

definition candidate_valid :: "interference_candidate \<Rightarrow> bool" where
  "candidate_valid candidate =
     (if ic_pid candidate \<le> 0 then False
      else if \<not> isfinite (ic_activity_score candidate) \<or> \<not> isfinite (ic_overlap_score candidate) \<or>
              \<not> isfinite (ic_final_score candidate) then False
      else if flt (ic_activity_score candidate) (Fin 0) \<or> flt (Fin 1) (ic_activity_score candidate) \<or>
              flt (ic_overlap_score candidate) (Fin 0) \<or> flt (Fin 1) (ic_overlap_score candidate) \<or>
              flt (ic_final_score candidate) (Fin 0) \<or> flt (Fin 1) (ic_final_score candidate) then False
      else True)"

text \<open>The loop over \<open>candidates[i]\<close>; \<open>earlier\<close> are the candidates before index \<open>i\<close>.\<close>

fun prevalidate_loop ::
  "throttle_controller \<Rightarrow> interference_candidate list \<Rightarrow> interference_candidate list \<Rightarrow> nat \<Rightarrow>
   throttle_controller_rc + nat" where
  "prevalidate_loop controller earlier [] new_records = Inr new_records"
| "prevalidate_loop controller earlier (c # cs) new_records =
     (if \<not> candidate_valid c then Inl THROTTLE_CONTROLLER_ERR_INVALID_ARG
      else if list_ex (\<lambda>d. ic_pid c = ic_pid d) earlier then Inl THROTTLE_CONTROLLER_ERR_INVALID_ARG
      else prevalidate_loop controller (earlier @ [c]) cs
             (if find_record controller (ic_pid c) = None then Suc new_records else new_records))"

text \<open>\<open>None\<close>: the array pointer is NULL although the count is positive.\<close>

definition prevalidate_candidates ::
  "throttle_controller \<Rightarrow> interference_candidate list option \<Rightarrow> throttle_controller_rc" where
  "prevalidate_candidates controller candidates =
     (case candidates of
        None \<Rightarrow> THROTTLE_CONTROLLER_ERR_INVALID_ARG
      | Some cs \<Rightarrow>
          (case prevalidate_loop controller [] cs 0 of
             Inl rc \<Rightarrow> rc
           | Inr new_records \<Rightarrow>
               if tk_record_cap controller - length (tk_records controller) < new_records
               then THROTTLE_CONTROLLER_ERR_NO_SPACE else THROTTLE_CONTROLLER_OK))"

subsection \<open>Life cycle\<close>

text \<open>\<open>memset(controller, 0, sizeof(*controller))\<close>: the zero configuration names group 0 three times.\<close>

definition throttle_controller_zero :: throttle_controller where
  "throttle_controller_zero =
     \<lparr>tk_initialized = False,
      tk_cfg = \<lparr>tc_normal_group = GROUP_PROTECTED, tc_throttled_group = GROUP_PROTECTED,
        tc_protected_group = GROUP_PROTECTED, tc_throttled_cpu_max = [], tc_protected_memory_low = [],
        tc_high_score_threshold = Fin 0, tc_low_score_threshold = Fin 0,
        tc_min_throttle_duration_ms = 0, tc_cooldown_duration_ms = 0, tc_stale_after_ms = 0,
        tc_max_records = 0, tc_dry_run = False, tc_configure_throttled_cpu_max = False,
        tc_configure_protected_memory_low = False, tc_clock_fn = None\<rparr>,
      tk_records = [], tk_record_cap = 0\<rparr>"

text \<open>\<open>throttle_controller_init\<close> for a controller pointer that is not NULL; a NULL configuration
  selects the defaults. The result is the code and the new contents of the controller.\<close>

definition throttle_controller_init ::
  "rounding \<Rightarrow> os \<Rightarrow> string \<Rightarrow> throttle_controller_config option \<Rightarrow> world \<Rightarrow>
   throttle_controller_rc \<times> throttle_controller \<times> world" where
  "throttle_controller_init rnd os base cfgp w =
     (let cfg = (case cfgp of None \<Rightarrow> throttle_controller_config_default rnd | Some c \<Rightarrow> c);
          rc = validate_config (Some cfg)
      in if rc \<noteq> THROTTLE_CONTROLLER_OK then (rc, throttle_controller_zero, w)
         else let (mem, w1) = sys_calloc os (tc_max_records cfg) w
         in if \<not> mem then (THROTTLE_CONTROLLER_ERR_NO_MEMORY, throttle_controller_zero, w1)
         else let controller = throttle_controller_zero\<lparr>tk_cfg := cfg, tk_record_cap := tc_max_records cfg\<rparr>;
                  (rc1, w2) = (if \<not> tc_dry_run cfg \<and> tc_configure_throttled_cpu_max cfg
                               then cgroup_set_cpu_max os base (tc_throttled_group cfg)
                                      (Some (cstr (tc_throttled_cpu_max cfg))) w1
                               else (0, w1))
         in if rc1 \<noteq> 0 then (THROTTLE_CONTROLLER_ERR_CGROUP, throttle_controller_zero, w2)
         else let (rc2, w3) = (if \<not> tc_dry_run cfg \<and> tc_configure_protected_memory_low cfg
                               then cgroup_set_memory_low os base (tc_protected_group cfg)
                                      (Some (cstr (tc_protected_memory_low cfg))) w2
                               else (0, w2))
         in if rc2 \<noteq> 0 then (THROTTLE_CONTROLLER_ERR_CGROUP, throttle_controller_zero, w3)
         else (THROTTLE_CONTROLLER_OK, controller\<lparr>tk_initialized := True\<rparr>, w3))"

definition throttle_controller_destroy :: "throttle_controller \<Rightarrow> throttle_controller" where
  "throttle_controller_destroy controller = throttle_controller_zero"

subsection \<open>One detector interval\<close>

text \<open>What one record step hands on: overall code, record, statistics, world.\<close>

type_synonym record_step =
  "throttle_controller_rc \<times> throttle_record \<times> throttle_controller_stats option \<times> world"

definition keep_error :: "throttle_controller_rc \<Rightarrow> throttle_controller_rc \<Rightarrow> throttle_controller_rc" where
  "keep_error rc overall_rc = (if rc \<noteq> THROTTLE_CONTROLLER_OK then rc else overall_rc)"

text \<open>The assignments before the switch.\<close>

definition touch_record :: "u64 \<Rightarrow> interference_candidate \<Rightarrow> throttle_record \<Rightarrow> throttle_record" where
  "touch_record now_ns candidate r =
     r\<lparr>tr_seen_in_last_apply := True, tr_last_seen_ns := now_ns,
       tr_last_activity_score := ic_activity_score candidate,
       tr_last_overlap_score := ic_overlap_score candidate,
       tr_last_final_score := ic_final_score candidate,
       tr_last_common_pages := ic_common_pages candidate,
       tr_last_should_throttle := ic_should_throttle candidate,
       tr_last_error := THROTTLE_CONTROLLER_OK\<rparr>"

text \<open>The switch over the record's state.\<close>

definition step_none ::
  "os \<Rightarrow> string \<Rightarrow> throttle_controller_config \<Rightarrow> u64 \<Rightarrow> interference_candidate \<Rightarrow> throttle_record \<Rightarrow>
   throttle_controller_stats option \<Rightarrow> world \<Rightarrow> throttle_controller_rc \<Rightarrow> record_step" where
  "step_none os base cfg now_ns candidate r stats w overall_rc =
     (if candidate_requests_throttle cfg candidate
      then let (rc, r', stats', w') = throttle_record_pid os base cfg now_ns r stats w
           in (keep_error rc overall_rc, r', stats', w')
      else (overall_rc,
            r\<lparr>tr_reason := snprintf_s THROTTLE_CONTROLLER_REASON_MAX
                (''not throttled: final='' @ show_fixed 4 (tr_last_final_score r) @
                 '' high='' @ show_fixed 4 (tc_high_score_threshold cfg) @
                 '' active='' @ show_bool (ic_active candidate) @
                 '' detector='' @ show_bool (ic_should_throttle candidate))\<rparr>,
            map_option (\<lambda>s. s\<lparr>ts_skipped_low_score := Suc (ts_skipped_low_score s)\<rparr>) stats, w))"

definition step_throttled ::
  "os \<Rightarrow> string \<Rightarrow> throttle_controller_config \<Rightarrow> u64 \<Rightarrow> throttle_record \<Rightarrow>
   throttle_controller_stats option \<Rightarrow> world \<Rightarrow> throttle_controller_rc \<Rightarrow> record_step" where
  "step_throttled os base cfg now_ns r stats w overall_rc =
     (let min_done = elapsed_at_least now_ns (tr_state_entered_ns r) (tc_min_throttle_duration_ms cfg)
      in if fle (tr_last_final_score r) (tc_low_score_threshold cfg) \<and> min_done
         then let (rc, r', stats', w') = release_record_pid os base cfg now_ns False r stats w
              in (keep_error rc overall_rc, r', stats', w')
         else (overall_rc,
               r\<lparr>tr_reason := snprintf_s THROTTLE_CONTROLLER_REASON_MAX
                   (''kept throttled: final='' @ show_fixed 4 (tr_last_final_score r) @
                    '' low='' @ show_fixed 4 (tc_low_score_threshold cfg) @
                    '' min_done='' @ show_bool min_done)\<rparr>,
               map_option (\<lambda>s. s\<lparr>ts_kept_throttled := Suc (ts_kept_throttled s)\<rparr>) stats, w))"

definition step_cooldown ::
  "os \<Rightarrow> string \<Rightarrow> throttle_controller_config \<Rightarrow> u64 \<Rightarrow> interference_candidate \<Rightarrow> throttle_record \<Rightarrow>
   throttle_controller_stats option \<Rightarrow> world \<Rightarrow> throttle_controller_rc \<Rightarrow> record_step" where
  "step_cooldown os base cfg now_ns candidate r stats w overall_rc =
     (if \<not> elapsed_at_least now_ns (tr_state_entered_ns r) (tc_cooldown_duration_ms cfg)
      then (overall_rc, r\<lparr>tr_reason := set_reason ''cooldown active''\<rparr>,
            map_option (\<lambda>s. s\<lparr>ts_skipped_cooldown := Suc (ts_skipped_cooldown s)\<rparr>) stats, w)
      else let r1 = r\<lparr>tr_state := THROTTLE_STATE_NONE, tr_state_entered_ns := now_ns\<rparr>
           in if candidate_requests_throttle cfg candidate
              then let (rc, r', stats', w') = throttle_record_pid os base cfg now_ns r1 stats w
                   in (keep_error rc overall_rc, r', stats', w')
              else (overall_rc,
                    r1\<lparr>tr_reason := set_reason ''cooldown complete: remains normal''\<rparr>,
                    map_option (\<lambda>s. s\<lparr>ts_skipped_low_score := Suc (ts_skipped_low_score s)\<rparr>) stats, w))"

definition step_record ::
  "os \<Rightarrow> string \<Rightarrow> throttle_controller_config \<Rightarrow> u64 \<Rightarrow> interference_candidate \<Rightarrow> throttle_record \<Rightarrow>
   throttle_controller_stats option \<Rightarrow> world \<Rightarrow> throttle_controller_rc \<Rightarrow> record_step" where
  "step_record os base cfg now_ns candidate r stats w overall_rc =
     (case tr_state r of
        THROTTLE_STATE_NONE \<Rightarrow> step_none os base cfg now_ns candidate r stats w overall_rc
      | THROTTLE_STATE_THROTTLED \<Rightarrow> step_throttled os base cfg now_ns r stats w overall_rc
      | THROTTLE_STATE_COOLDOWN \<Rightarrow> step_cooldown os base cfg now_ns candidate r stats w overall_rc
      | THROTTLE_STATE_OTHER _ \<Rightarrow>
          (THROTTLE_CONTROLLER_ERR_INVALID_ARG,
           r\<lparr>tr_last_error := THROTTLE_CONTROLLER_ERR_INVALID_ARG,
             tr_reason := set_reason ''invalid internal throttle state''\<rparr>,
           set_stats_error stats THROTTLE_CONTROLLER_ERR_INVALID_ARG
             (set_reason ''invalid internal throttle state''), w))"

type_synonym apply_state =
  "throttle_controller \<times> throttle_controller_stats option \<times> world \<times> throttle_controller_rc"

text \<open>One round of the candidate loop. \<open>Inl\<close> is the return in the middle of the loop.\<close>

definition find_or_create ::
  "throttle_controller \<Rightarrow> pid_t \<Rightarrow> u64 \<Rightarrow> (throttle_controller \<times> nat) option" where
  "find_or_create controller pid now_ns =
     (case find_record controller pid of
        Some i \<Rightarrow> Some (controller, i)
      | None \<Rightarrow> create_record controller pid now_ns)"

definition apply_candidate ::
  "os \<Rightarrow> string \<Rightarrow> u64 \<Rightarrow> interference_candidate \<Rightarrow> apply_state \<Rightarrow> apply_state + apply_state" where
  "apply_candidate os base now_ns candidate st =
     (case st of (controller, stats, w, overall_rc) \<Rightarrow>
       (case find_or_create controller (ic_pid candidate) now_ns of
          None \<Rightarrow>
            Inl (controller,
                 set_stats_error stats THROTTLE_CONTROLLER_ERR_NO_SPACE ''record capacity exhausted'',
                 w, THROTTLE_CONTROLLER_ERR_NO_SPACE)
        | Some (controller1, i) \<Rightarrow>
            (let r = touch_record now_ns candidate (tk_records controller1 ! i);
                 stats1 = map_option (\<lambda>s. s\<lparr>ts_records_seen := Suc (ts_records_seen s)\<rparr>) stats;
                 (overall_rc', r', stats', w') =
                   step_record os base (tk_cfg controller1) now_ns candidate r stats1 w overall_rc
             in Inr (controller1\<lparr>tk_records := (tk_records controller1)[i := r']\<rparr>, stats', w', overall_rc'))))"

fun apply_loop ::
  "os \<Rightarrow> string \<Rightarrow> u64 \<Rightarrow> interference_candidate list \<Rightarrow> apply_state \<Rightarrow> apply_state + apply_state" where
  "apply_loop os base now_ns [] st = Inr st"
| "apply_loop os base now_ns (c # cs) st =
     (case apply_candidate os base now_ns c st of
        Inl st' \<Rightarrow> Inl st'
      | Inr st' \<Rightarrow> apply_loop os base now_ns cs st')"

text \<open>A loop over \<open>controller->records\<close> that updates each record in place.\<close>

fun for_records ::
  "(throttle_record \<Rightarrow> throttle_controller_stats option \<Rightarrow> world \<Rightarrow> throttle_controller_rc \<Rightarrow> record_step) \<Rightarrow>
   throttle_record list \<Rightarrow> throttle_controller_stats option \<Rightarrow> world \<Rightarrow> throttle_controller_rc \<Rightarrow>
   throttle_controller_rc \<times> throttle_record list \<times> throttle_controller_stats option \<times> world" where
  "for_records f [] stats w overall_rc = (overall_rc, [], stats, w)"
| "for_records f (r # rs) stats w overall_rc =
     (let (overall_rc1, r', stats1, w1) = f r stats w overall_rc;
          (overall_rc2, rs', stats2, w2) = for_records f rs stats1 w1 overall_rc1
      in (overall_rc2, r' # rs', stats2, w2))"

definition unseen_record ::
  "os \<Rightarrow> string \<Rightarrow> throttle_controller_config \<Rightarrow> u64 \<Rightarrow> throttle_record \<Rightarrow>
   throttle_controller_stats option \<Rightarrow> world \<Rightarrow> throttle_controller_rc \<Rightarrow> record_step" where
  "unseen_record os base cfg now_ns r stats w overall_rc =
     (if tr_seen_in_last_apply r then (overall_rc, r, stats, w)
      else if tr_state r = THROTTLE_STATE_THROTTLED
      then let stale_done = elapsed_at_least now_ns (tr_last_seen_ns r) (tc_stale_after_ms cfg);
               min_done = elapsed_at_least now_ns (tr_state_entered_ns r) (tc_min_throttle_duration_ms cfg)
           in if stale_done \<and> min_done
              then let (rc, r', stats', w') = release_record_pid os base cfg now_ns True r stats w
                   in (keep_error rc overall_rc, r', stats', w')
              else (overall_rc,
                    r\<lparr>tr_reason := snprintf_s THROTTLE_CONTROLLER_REASON_MAX
                        (''unseen but kept: stale_done='' @ show_bool stale_done @
                         '' min_done='' @ show_bool min_done)\<rparr>,
                    map_option (\<lambda>s. s\<lparr>ts_kept_throttled := Suc (ts_kept_throttled s)\<rparr>) stats, w)
      else if tr_state r = THROTTLE_STATE_COOLDOWN \<and>
              elapsed_at_least now_ns (tr_state_entered_ns r) (tc_cooldown_duration_ms cfg)
      then (overall_rc,
            r\<lparr>tr_state := THROTTLE_STATE_NONE, tr_state_entered_ns := now_ns,
              tr_reason := set_reason ''cooldown complete: normal''\<rparr>, stats, w)
      else (overall_rc, r, stats, w))"

definition apply_unseen :: "os \<Rightarrow> string \<Rightarrow> u64 \<Rightarrow> apply_state \<Rightarrow> apply_state" where
  "apply_unseen os base now_ns st =
     (case st of (controller, stats, w, overall_rc) \<Rightarrow>
        (let (overall_rc', rs, stats', w') =
               for_records (unseen_record os base (tk_cfg controller) now_ns)
                 (tk_records controller) stats w overall_rc
         in (controller\<lparr>tk_records := rs\<rparr>, stats', w', overall_rc')))"

definition throttle_controller_apply_candidates ::
  "os \<Rightarrow> string \<Rightarrow> throttle_controller option \<Rightarrow> interference_candidate list option \<Rightarrow>
   throttle_controller_stats option \<Rightarrow> world \<Rightarrow>
   throttle_controller_rc \<times> throttle_controller option \<times> throttle_controller_stats option \<times> world" where
  "throttle_controller_apply_candidates os base cp candidates stats0 w =
     (let stats = map_option (\<lambda>_. throttle_controller_stats_reset) stats0
      in case cp of
        None \<Rightarrow> (THROTTLE_CONTROLLER_ERR_NOT_INITIALIZED, cp, stats, w)
      | Some controller \<Rightarrow>
          if \<not> tk_initialized controller
          then (THROTTLE_CONTROLLER_ERR_NOT_INITIALIZED, cp, stats, w)
          else let rc = prevalidate_candidates controller candidates
          in if rc \<noteq> THROTTLE_CONTROLLER_OK
             then (rc, cp, set_stats_error stats rc ''candidate validation failed'', w)
             else case controller_now_ns os controller w of
               (Inl rc, w1) \<Rightarrow> (rc, cp, set_stats_error stats rc ''failed to read monotonic time'', w1)
             | (Inr now_ns, w1) \<Rightarrow>
                 (let cs = the candidates;
                      stats1 = map_option (\<lambda>s. s\<lparr>ts_candidate_count := length cs\<rparr>) stats;
                      controller1 = controller\<lparr>tk_records :=
                        map (\<lambda>r. r\<lparr>tr_seen_in_last_apply := False\<rparr>) (tk_records controller)\<rparr>
                  in case apply_loop os base now_ns cs (controller1, stats1, w1, THROTTLE_CONTROLLER_OK) of
                    Inl (c', stats', w', rc) \<Rightarrow> (rc, Some c', stats', w')
                  | Inr st \<Rightarrow>
                      (let (c', stats', w', overall_rc) = apply_unseen os base now_ns st
                       in (overall_rc, Some c', stats', w'))))"

text \<open>Releasing everything, for a rollback by the daemon.\<close>

definition release_record ::
  "os \<Rightarrow> string \<Rightarrow> throttle_controller_config \<Rightarrow> u64 \<Rightarrow> throttle_record \<Rightarrow>
   throttle_controller_stats option \<Rightarrow> world \<Rightarrow> throttle_controller_rc \<Rightarrow> record_step" where
  "release_record os base cfg now_ns r stats w overall_rc =
     (if tr_state r \<noteq> THROTTLE_STATE_THROTTLED then (overall_rc, r, stats, w)
      else let (rc, r', stats', w') = release_record_pid os base cfg now_ns False r stats w
           in (keep_error rc overall_rc, r', stats', w'))"

definition throttle_controller_release_all ::
  "os \<Rightarrow> string \<Rightarrow> throttle_controller option \<Rightarrow> throttle_controller_stats option \<Rightarrow> world \<Rightarrow>
   throttle_controller_rc \<times> throttle_controller option \<times> throttle_controller_stats option \<times> world" where
  "throttle_controller_release_all os base cp stats0 w =
     (let stats = map_option (\<lambda>_. throttle_controller_stats_reset) stats0
      in case cp of
        None \<Rightarrow> (THROTTLE_CONTROLLER_ERR_NOT_INITIALIZED, cp, stats, w)
      | Some controller \<Rightarrow>
          if \<not> tk_initialized controller
          then (THROTTLE_CONTROLLER_ERR_NOT_INITIALIZED, cp, stats, w)
          else case controller_now_ns os controller w of
            (Inl rc, w1) \<Rightarrow> (rc, cp, set_stats_error stats rc ''failed to read monotonic time'', w1)
          | (Inr now_ns, w1) \<Rightarrow>
              (let (overall_rc, rs, stats', w') =
                     for_records (release_record os base (tk_cfg controller) now_ns)
                       (tk_records controller) stats w1 THROTTLE_CONTROLLER_OK
               in (overall_rc, Some (controller\<lparr>tk_records := rs\<rparr>), stats', w')))"

definition throttle_controller_get_record ::
  "throttle_controller option \<Rightarrow> pid_t \<Rightarrow> throttle_record option" where
  "throttle_controller_get_record cp pid =
     (case cp of
        None \<Rightarrow> None
      | Some controller \<Rightarrow>
          if \<not> tk_initialized controller \<or> pid \<le> 0 then None
          else map_option (\<lambda>i. tk_records controller ! i) (find_record controller pid))"

fun throttle_state_str :: "throttle_state \<Rightarrow> string" where
  "throttle_state_str THROTTLE_STATE_NONE = ''none''"
| "throttle_state_str THROTTLE_STATE_THROTTLED = ''throttled''"
| "throttle_state_str THROTTLE_STATE_COOLDOWN = ''cooldown''"
| "throttle_state_str (THROTTLE_STATE_OTHER _) = ''invalid''"

fun throttle_controller_strerror :: "throttle_controller_rc \<Rightarrow> string" where
  "throttle_controller_strerror THROTTLE_CONTROLLER_OK = ''success''"
| "throttle_controller_strerror THROTTLE_CONTROLLER_ERR_INVALID_ARG = ''invalid argument''"
| "throttle_controller_strerror THROTTLE_CONTROLLER_ERR_NO_MEMORY = ''out of memory''"
| "throttle_controller_strerror THROTTLE_CONTROLLER_ERR_NO_SPACE = ''record capacity exhausted''"
| "throttle_controller_strerror THROTTLE_CONTROLLER_ERR_TIME = ''failed to read monotonic time''"
| "throttle_controller_strerror THROTTLE_CONTROLLER_ERR_CGROUP = ''cgroup operation failed''"
| "throttle_controller_strerror THROTTLE_CONTROLLER_ERR_NOT_INITIALIZED = ''controller is not initialized''"

end
