(* ===== verification/Throttle_Correct.thy ===== *)
theory Throttle_Correct
  imports Throttle_Controller
begin

text \<open>
  Correctness of the throttle controller. First the timing arithmetic; then what one
  record step can do, as a step relation \<open>record_trans\<close> on records (which transitions, under which timing
  guards) and as an effect on the cgroup file system; then the loops, proved once
  in a locale over an invariant of the record table and interpreted for the loops of the code;
  last the controller as a whole: over every run, the processes placed in the throttled group
  are exactly those whose record is in state THROTTLED.
\<close>

subsection \<open>Timing arithmetic\<close>

lemma ms_to_ns_small: "unat ms \<le> 18446744073709 \<Longrightarrow> unat (ms_to_ns ms) = unat ms * 1000000"
proof -
  assume le: "unat ms \<le> 18446744073709"
  have max: "(- 1 :: u64) div 1000000 = 18446744073709" by simp
  have "\<not> (18446744073709 :: u64) < ms" using le by (simp add: word_less_nat_alt)
  moreover have "unat ms * 1000000 < 2 ^ 64" using le by simp
  then have "unat (ms * 1000000) = unat ms * 1000000"
    using unat_u64_mult [of ms 1000000] by simp
  ultimately show ?thesis by (simp add: ms_to_ns_def NSEC_PER_MSEC_def max)
qed

lemma ms_to_ns_large: "18446744073709 < unat ms \<Longrightarrow> ms_to_ns ms = - 1"
  by (simp add: ms_to_ns_def NSEC_PER_MSEC_def word_less_nat_alt)

lemma elapsed_at_least_iff:
  "elapsed_at_least now start ms \<longleftrightarrow> unat start + unat (ms_to_ns ms) \<le> unat now"
proof (cases "now < start")
  case True
  then show ?thesis by (simp add: elapsed_at_least_def Let_def word_less_nat_alt)
next
  case False
  then have le: "start \<le> now" by simp
  with False have "elapsed_at_least now start ms \<longleftrightarrow> unat (ms_to_ns ms) \<le> unat now - unat start"
    by (simp add: elapsed_at_least_def Let_def word_le_nat_alt unat_u64_sub)
  with le show ?thesis by (auto simp: word_le_nat_alt)
qed

subsection \<open>What a record step may do\<close>

abbreviation throttled :: "throttle_record \<Rightarrow> bool" where
  "throttled r \<equiv> tr_state r = THROTTLE_STATE_THROTTLED"

inductive record_trans :: "throttle_controller_config \<Rightarrow> u64 \<Rightarrow> throttle_record \<Rightarrow> throttle_record \<Rightarrow> bool"
  for cfg :: throttle_controller_config and now_ns :: u64
  where
    stay: "tr_state r' = tr_state r \<Longrightarrow> tr_state_entered_ns r' = tr_state_entered_ns r \<Longrightarrow>
      record_trans cfg now_ns r r'"
  | throttle: "tr_state r = THROTTLE_STATE_NONE \<Longrightarrow>
      tr_state r' = THROTTLE_STATE_THROTTLED \<Longrightarrow> tr_state_entered_ns r' = now_ns \<Longrightarrow>
      record_trans cfg now_ns r r'"
  | rethrottle: "tr_state r = THROTTLE_STATE_COOLDOWN \<Longrightarrow>
      elapsed_at_least now_ns (tr_state_entered_ns r) (tc_cooldown_duration_ms cfg) \<Longrightarrow>
      tr_state r' = THROTTLE_STATE_THROTTLED \<Longrightarrow> tr_state_entered_ns r' = now_ns \<Longrightarrow>
      record_trans cfg now_ns r r'"
  | release: "tr_state r = THROTTLE_STATE_THROTTLED \<Longrightarrow>
      elapsed_at_least now_ns (tr_state_entered_ns r) (tc_min_throttle_duration_ms cfg) \<Longrightarrow>
      tr_state r' = THROTTLE_STATE_COOLDOWN \<Longrightarrow> tr_state_entered_ns r' = now_ns \<Longrightarrow>
      record_trans cfg now_ns r r'"
  | expire: "tr_state r = THROTTLE_STATE_COOLDOWN \<Longrightarrow>
      elapsed_at_least now_ns (tr_state_entered_ns r) (tc_cooldown_duration_ms cfg) \<Longrightarrow>
      tr_state r' = THROTTLE_STATE_NONE \<Longrightarrow> tr_state_entered_ns r' = now_ns \<Longrightarrow>
      record_trans cfg now_ns r r'"

inductive_simps record_trans_iff: "record_trans cfg now_ns r r'"

definition move_line :: "string \<Rightarrow> pid_t \<Rightarrow> proc_group \<Rightarrow> string \<times> string" where
  "move_line base pid g = (control_file_path base g ''cgroup.procs'', pid_line pid)"

text \<open>Either no process moves and the record stays on its side, or one move is written and the
  record changes sides accordingly.\<close>

definition record_effect ::
  "string \<Rightarrow> throttle_controller_config \<Rightarrow> throttle_record \<Rightarrow> world \<Rightarrow> throttle_record \<Rightarrow> world \<Rightarrow> bool" where
  "record_effect base cfg r w r' w' \<longleftrightarrow>
     w_writes w' = w_writes w \<and> (tc_dry_run cfg \<or> (throttled r' \<longleftrightarrow> throttled r))
   \<or> \<not> tc_dry_run cfg \<and> w_writes w' = w_writes w @ [move_line base (tr_pid r) (tc_throttled_group cfg)] \<and>
       throttled r'
   \<or> \<not> tc_dry_run cfg \<and> w_writes w' = w_writes w @ [move_line base (tr_pid r) (tc_normal_group cfg)] \<and>
       \<not> throttled r'"

lemma move_pid_cases:
  assumes "move_pid os base cfg pid g w = (rc, w')"
  shows "rc = THROTTLE_CONTROLLER_OK \<and> tc_dry_run cfg \<and> w' = w
       \<or> rc = THROTTLE_CONTROLLER_OK \<and> \<not> tc_dry_run cfg \<and> w_writes w' = w_writes w @ [move_line base pid g]
       \<or> rc = THROTTLE_CONTROLLER_ERR_CGROUP \<and> \<not> tc_dry_run cfg \<and> w_writes w' = w_writes w"
proof (cases "tc_dry_run cfg")
  case True
  with assms show ?thesis by (simp add: move_pid_def)
next
  case False
  obtain k v where kv: "cgroup_move_pid os base pid g w = (k, v)" by (rule prod.exhaust)
  from cgroup_move_pid_cases [OF kv] False assms kv show ?thesis
    by (auto simp: move_pid_def move_line_def split: if_splits)
qed

lemma throttle_record_pid_cases:
  assumes "throttle_record_pid os base cfg now r st w = (rc, r', st', w')"
  shows "tr_pid r' = tr_pid r"
    and "rc = THROTTLE_CONTROLLER_OK \<and> throttled r' \<and> tr_state_entered_ns r' = now \<and>
           (tc_dry_run cfg \<and> w' = w \<or> \<not> tc_dry_run cfg \<and>
              w_writes w' = w_writes w @ [move_line base (tr_pid r) (tc_throttled_group cfg)])
       \<or> rc = THROTTLE_CONTROLLER_ERR_CGROUP \<and> tr_state r' = tr_state r \<and>
           tr_state_entered_ns r' = tr_state_entered_ns r \<and> \<not> tc_dry_run cfg \<and> w_writes w' = w_writes w"
proof -
  obtain k v where kv: "move_pid os base cfg (tr_pid r) (tc_throttled_group cfg) w = (k, v)"
    by (rule prod.exhaust)
  note simps = throttle_record_pid_def kv Let_def
  show "tr_pid r' = tr_pid r" using assms by (auto simp: simps split: if_splits)
  show "rc = THROTTLE_CONTROLLER_OK \<and> throttled r' \<and> tr_state_entered_ns r' = now \<and>
           (tc_dry_run cfg \<and> w' = w \<or> \<not> tc_dry_run cfg \<and>
              w_writes w' = w_writes w @ [move_line base (tr_pid r) (tc_throttled_group cfg)])
       \<or> rc = THROTTLE_CONTROLLER_ERR_CGROUP \<and> tr_state r' = tr_state r \<and>
           tr_state_entered_ns r' = tr_state_entered_ns r \<and> \<not> tc_dry_run cfg \<and> w_writes w' = w_writes w"
    using move_pid_cases [OF kv] assms by (auto simp: simps)
qed

lemma release_record_pid_cases:
  assumes "release_record_pid os base cfg now stale r st w = (rc, r', st', w')"
  shows "tr_pid r' = tr_pid r"
    and "rc = THROTTLE_CONTROLLER_OK \<and> tr_state r' = THROTTLE_STATE_COOLDOWN \<and> tr_state_entered_ns r' = now \<and>
           (tc_dry_run cfg \<and> w' = w \<or> \<not> tc_dry_run cfg \<and>
              w_writes w' = w_writes w @ [move_line base (tr_pid r) (tc_normal_group cfg)])
       \<or> rc = THROTTLE_CONTROLLER_ERR_CGROUP \<and> tr_state r' = tr_state r \<and>
           tr_state_entered_ns r' = tr_state_entered_ns r \<and> \<not> tc_dry_run cfg \<and> w_writes w' = w_writes w"
proof -
  obtain k v where kv: "move_pid os base cfg (tr_pid r) (tc_normal_group cfg) w = (k, v)"
    by (rule prod.exhaust)
  note simps = release_record_pid_def kv Let_def
  show "tr_pid r' = tr_pid r" using assms by (auto simp: simps split: if_splits)
  show "rc = THROTTLE_CONTROLLER_OK \<and> tr_state r' = THROTTLE_STATE_COOLDOWN \<and> tr_state_entered_ns r' = now \<and>
           (tc_dry_run cfg \<and> w' = w \<or> \<not> tc_dry_run cfg \<and>
              w_writes w' = w_writes w @ [move_line base (tr_pid r) (tc_normal_group cfg)])
       \<or> rc = THROTTLE_CONTROLLER_ERR_CGROUP \<and> tr_state r' = tr_state r \<and>
           tr_state_entered_ns r' = tr_state_entered_ns r \<and> \<not> tc_dry_run cfg \<and> w_writes w' = w_writes w"
    using move_pid_cases [OF kv] assms by (auto simp: simps)
qed

subsection \<open>The record steps of the code\<close>

text \<open>A step keeps the process id, follows the step relation and has one of the two effects.\<close>

definition good_step ::
  "string \<Rightarrow> throttle_controller_config \<Rightarrow> u64 \<Rightarrow> throttle_record \<Rightarrow> world \<Rightarrow> throttle_record \<Rightarrow> world \<Rightarrow> bool" where
  "good_step base cfg now r w r' w' \<longleftrightarrow>
     tr_pid r' = tr_pid r \<and> record_trans cfg now r r' \<and> record_effect base cfg r w r' w'"

lemma good_step_idle:
  "tr_pid r' = tr_pid r \<Longrightarrow> tr_state r' = tr_state r \<Longrightarrow>
   tr_state_entered_ns r' = tr_state_entered_ns r \<Longrightarrow> good_step base cfg now r w r' w"
  by (simp add: good_step_def record_trans.stay record_effect_def)

lemma touch_record_same [simp]:
  "tr_pid (touch_record now c r) = tr_pid r" "tr_state (touch_record now c r) = tr_state r"
  "tr_state_entered_ns (touch_record now c r) = tr_state_entered_ns r"
  by (simp_all add: touch_record_def)

lemma step_none_good:
  assumes "tr_state r = THROTTLE_STATE_NONE"
    and "step_none os base cfg now c r st w ov = (ov', r', st', w')"
  shows "good_step base cfg now r w r' w'"
proof (cases "candidate_requests_throttle cfg c")
  case True
  with assms(2) obtain rc where
    "throttle_record_pid os base cfg now r st w = (rc, r', st', w')"
    by (auto simp: step_none_def split: prod.splits)
  from throttle_record_pid_cases [OF this] assms(1) show ?thesis
    by (auto simp: good_step_def record_trans_iff record_effect_def)
next
  case False
  with assms(2) show ?thesis by (auto simp: step_none_def intro: good_step_idle)
qed

lemma release_good:
  assumes "throttled r"
    and "elapsed_at_least now (tr_state_entered_ns r) (tc_min_throttle_duration_ms cfg)"
    and "release_record_pid os base cfg now stale r st w = (rc, r', st', w')"
  shows "good_step base cfg now r w r' w'"
  using release_record_pid_cases [OF assms(3)] assms(1,2)
  by (auto simp: good_step_def record_trans_iff record_effect_def)

lemma step_throttled_good:
  assumes "throttled r"
    and "step_throttled os base cfg now r st w ov = (ov', r', st', w')"
  shows "good_step base cfg now r w r' w'"
proof (cases "fle (tr_last_final_score r) (tc_low_score_threshold cfg) \<and>
              elapsed_at_least now (tr_state_entered_ns r) (tc_min_throttle_duration_ms cfg)")
  case True
  with assms(2) obtain rc where
    "release_record_pid os base cfg now False r st w = (rc, r', st', w')"
    by (auto simp: step_throttled_def Let_def split: prod.splits)
  with assms(1) True show ?thesis by (blast intro: release_good)
next
  case False
  with assms(2) show ?thesis by (auto simp: step_throttled_def Let_def intro: good_step_idle)
qed

lemma step_cooldown_good:
  assumes "tr_state r = THROTTLE_STATE_COOLDOWN"
    and "step_cooldown os base cfg now c r st w ov = (ov', r', st', w')"
  shows "good_step base cfg now r w r' w'"
proof (cases "elapsed_at_least now (tr_state_entered_ns r) (tc_cooldown_duration_ms cfg)")
  case False
  with assms(2) show ?thesis by (auto simp: step_cooldown_def intro: good_step_idle)
next
  case over: True
  define r1 where "r1 = r\<lparr>tr_state := THROTTLE_STATE_NONE, tr_state_entered_ns := now\<rparr>"
  show ?thesis
  proof (cases "candidate_requests_throttle cfg c")
    case True
    with assms(2) over obtain rc where
      "throttle_record_pid os base cfg now r1 st w = (rc, r', st', w')"
      by (auto simp: step_cooldown_def r1_def split: prod.splits)
    from throttle_record_pid_cases [OF this] assms(1) over show ?thesis
      by (auto simp: good_step_def record_trans_iff record_effect_def r1_def)
  next
    case False
    with assms over show ?thesis
      by (auto simp: step_cooldown_def good_step_def record_trans_iff record_effect_def)
  qed
qed

lemma step_record_good:
  assumes "step_record os base cfg now c r st w ov = (ov', r', st', w')"
  shows "good_step base cfg now r w r' w'"
proof (cases "tr_state r")
  case (THROTTLE_STATE_OTHER k)
  with assms show ?thesis by (auto simp: step_record_def intro: good_step_idle)
qed (use assms in \<open>auto simp: step_record_def intro: step_none_good step_throttled_good step_cooldown_good\<close>)

lemma unseen_record_good:
  assumes "unseen_record os base cfg now r st w ov = (ov', r', st', w')"
  shows "good_step base cfg now r w r' w'"
proof -
  let ?min = "elapsed_at_least now (tr_state_entered_ns r) (tc_min_throttle_duration_ms cfg)"
  let ?stale = "elapsed_at_least now (tr_last_seen_ns r) (tc_stale_after_ms cfg)"
  consider "tr_seen_in_last_apply r"
    | (rel) "\<not> tr_seen_in_last_apply r" "throttled r" "?stale \<and> ?min"
    | "\<not> tr_seen_in_last_apply r" "throttled r" "\<not> (?stale \<and> ?min)"
    | (exp) "\<not> tr_seen_in_last_apply r" "tr_state r = THROTTLE_STATE_COOLDOWN"
        "elapsed_at_least now (tr_state_entered_ns r) (tc_cooldown_duration_ms cfg)"
    | "\<not> tr_seen_in_last_apply r" "\<not> throttled r"
        "\<not> (tr_state r = THROTTLE_STATE_COOLDOWN \<and>
            elapsed_at_least now (tr_state_entered_ns r) (tc_cooldown_duration_ms cfg))"
    by blast
  then show ?thesis
  proof cases
    case rel
    with assms obtain rc where "release_record_pid os base cfg now True r st w = (rc, r', st', w')"
      by (auto simp: unseen_record_def Let_def split: prod.splits)
    with rel show ?thesis by (blast intro: release_good)
  next
    case exp
    with assms show ?thesis
      by (auto simp: unseen_record_def good_step_def record_trans_iff record_effect_def)
  qed (use assms in \<open>auto simp: unseen_record_def Let_def good_step_idle\<close>)
qed

subsection \<open>Where the kernel has placed a process\<close>

text \<open>The group named by the last completed write of a process id to a \<open>cgroup.procs\<close> file.\<close>

definition move_target :: "string \<Rightarrow> pid_t \<Rightarrow> string \<times> string \<Rightarrow> proc_group option" where
  "move_target base pid entry =
     (if snd entry \<noteq> pid_line pid then None
      else find (\<lambda>g. fst entry = control_file_path base g ''cgroup.procs'')
             [GROUP_PROTECTED, GROUP_BACKGROUND, GROUP_THROTTLED])"

definition placement :: "string \<Rightarrow> (string \<times> string) list \<Rightarrow> pid_t \<Rightarrow> proc_group option" where
  "placement base ws pid =
     foldl (\<lambda>acc e. case move_target base pid e of None \<Rightarrow> acc | Some g \<Rightarrow> Some g) None ws"

lemma placement_Nil [simp]: "placement base [] pid = None"
  by (simp add: placement_def)

lemma placement_snoc:
  "placement base (ws @ [e]) pid =
     (case move_target base pid e of None \<Rightarrow> placement base ws pid | Some g \<Rightarrow> Some g)"
  by (simp add: placement_def split: option.split)

lemma move_target_move:
  "managed_group g \<Longrightarrow> 0 < p \<Longrightarrow> 0 < q \<Longrightarrow>
   move_target base q (move_line base p g) = (if p = q then Some g else None)"
  by (cases g) (auto simp: move_target_def move_line_def control_file_path_def dest: pid_line_inj)

lemma placement_move:
  assumes "managed_group g" "0 < p" "0 < q"
  shows "placement base (ws @ [move_line base p g]) q = (if p = q then Some g else placement base ws q)"
  using assms by (simp add: placement_snoc move_target_move)

lemma placement_other_file:
  assumes "file \<noteq> []" "last file \<noteq> CHR ''s''"
  shows "placement base (ws @ [(control_file_path base g file, text)]) pid = placement base ws pid"
proof -
  have "control_file_path base g file \<noteq> control_file_path base h ''cgroup.procs''" for h
  proof
    assume "control_file_path base g file = control_file_path base h ''cgroup.procs''"
    then have "last (control_file_path base g file) = last (control_file_path base h ''cgroup.procs'')"
      by simp
    with assms show False by (simp add: control_file_path_def)
  qed
  then show ?thesis by (simp add: placement_snoc move_target_def)
qed

subsection \<open>The invariant of the record table\<close>

definition good_state :: "throttle_record \<Rightarrow> bool" where
  "good_state r \<longleftrightarrow> tr_state r \<in> {THROTTLE_STATE_NONE, THROTTLE_STATE_THROTTLED, THROTTLE_STATE_COOLDOWN}"

definition agree :: "string \<Rightarrow> throttle_controller_config \<Rightarrow> throttle_record list \<Rightarrow> world \<Rightarrow> bool" where
  "agree base cfg rs w \<longleftrightarrow>
     (\<forall>pid > 0. placement base (w_writes w) pid = Some (tc_throttled_group cfg) \<longleftrightarrow>
                (\<exists>r \<in> set rs. tr_pid r = pid \<and> throttled r))"

definition groups_ok :: "throttle_controller_config \<Rightarrow> bool" where
  "groups_ok cfg \<longleftrightarrow> managed_group (tc_normal_group cfg) \<and> managed_group (tc_throttled_group cfg) \<and>
     tc_normal_group cfg \<noteq> tc_throttled_group cfg"

definition table_inv :: "string \<Rightarrow> throttle_controller_config \<Rightarrow> throttle_record list \<Rightarrow> world \<Rightarrow> bool" where
  "table_inv base cfg rs w \<longleftrightarrow>
     groups_ok cfg \<and> distinct (map tr_pid rs) \<and> (\<forall>r \<in> set rs. 0 < tr_pid r \<and> good_state r) \<and>
     (tc_dry_run cfg \<or> agree base cfg rs w)"

lemma validate_config_groups_ok: "validate_config (Some cfg) = THROTTLE_CONTROLLER_OK \<Longrightarrow> groups_ok cfg"
  by (auto simp: validate_config_def groups_ok_def split: if_splits)

lemma record_trans_good_state: "record_trans cfg now r r' \<Longrightarrow> good_state r \<Longrightarrow> good_state r'"
  by (auto simp: record_trans_iff good_state_def)

lemma agree_update:
  assumes g: "groups_ok cfg" and dry: "\<not> tc_dry_run cfg"
    and dist: "distinct (map tr_pid (xs @ r # ys))" and pos: "0 < tr_pid r"
    and pid: "tr_pid r' = tr_pid r"
    and ag: "agree base cfg (xs @ r # ys) w" and eff: "record_effect base cfg r w r' w'"
  shows "agree base cfg (xs @ r' # ys) w'"
  unfolding agree_def
proof (intro allI impI)
  fix q :: pid_t
  assume q: "0 < q"
  let ?T = "tc_throttled_group cfg"
  from ag q have old: "placement base (w_writes w) q = Some ?T \<longleftrightarrow>
      (\<exists>s \<in> set (xs @ r # ys). tr_pid s = q \<and> throttled s)" by (simp add: agree_def)
  have "tr_pid r \<notin> tr_pid ` set (xs @ ys)" using dist by auto
  then have others: "tr_pid s \<noteq> tr_pid r" if "s \<in> set (xs @ ys)" for s
    using that by (metis imageI)
  have new: "placement base (w_writes w') q = Some ?T \<longleftrightarrow>
      (if q = tr_pid r then throttled r' else placement base (w_writes w) q = Some ?T)"
  proof -
    have r: "placement base (w_writes w) (tr_pid r) = Some ?T \<longleftrightarrow> throttled r"
      using ag pos others by (auto simp: agree_def)
    from eff dry consider "w_writes w' = w_writes w" "throttled r' \<longleftrightarrow> throttled r"
      | "w_writes w' = w_writes w @ [move_line base (tr_pid r) ?T]" "throttled r'"
      | "w_writes w' = w_writes w @ [move_line base (tr_pid r) (tc_normal_group cfg)]" "\<not> throttled r'"
      by (auto simp: record_effect_def)
    then show ?thesis
      using g pos q r by cases (simp_all add: groups_ok_def placement_move)
  qed
  show "placement base (w_writes w') q = Some ?T \<longleftrightarrow>
      (\<exists>s \<in> set (xs @ r' # ys). tr_pid s = q \<and> throttled s)"
    using new old others pid by auto
qed

lemma table_inv_step:
  assumes inv: "table_inv base cfg (xs @ r # ys) w" and pid: "tr_pid r' = tr_pid r"
    and good: "good_state r \<Longrightarrow> good_state r'" and eff: "record_effect base cfg r w r' w'"
  shows "table_inv base cfg (xs @ r' # ys) w'"
  using assms agree_update [of cfg xs r ys r' base w w']
  by (auto simp: table_inv_def)

lemma good_step_table_inv:
  "good_step base cfg now r w r' w' \<Longrightarrow> table_inv base cfg (xs @ r # ys) w \<Longrightarrow>
   table_inv base cfg (xs @ r' # ys) w'"
  by (rule table_inv_step [of base cfg xs r]) (auto simp: good_step_def intro: record_trans_good_state)

subsection \<open>Loops over the table\<close>

text \<open>
  The interface of a per-record operation: it keeps a table invariant when it replaces
  one record of the table. Every loop over the table then keeps the invariant.
\<close>

locale record_operation =
  fixes f :: "throttle_record \<Rightarrow> throttle_controller_stats option \<Rightarrow> world \<Rightarrow> throttle_controller_rc \<Rightarrow> record_step"
    and I :: "throttle_record list \<Rightarrow> world \<Rightarrow> bool"
    and R :: "throttle_record \<Rightarrow> throttle_record \<Rightarrow> bool"
  assumes step_inv: "I (xs @ r # ys) w \<Longrightarrow> f r st w ov = (ov', r', st', w') \<Longrightarrow> I (xs @ r' # ys) w'"
    and step_rel: "f r st w ov = (ov', r', st', w') \<Longrightarrow> R r r'"
begin

lemma loop_inv:
  "I (xs @ rs) w \<Longrightarrow> for_records f rs st w ov = (ov', rs', st', w') \<Longrightarrow> I (xs @ rs') w'"
proof (induction rs arbitrary: xs st w ov rs')
  case Nil
  then show ?case by simp
next
  case (Cons r rs)
  from Cons.prems(2) obtain ov1 r1 st1 w1 rs1 where
    f: "f r st w ov = (ov1, r1, st1, w1)" and
    rest: "for_records f rs st1 w1 ov1 = (ov', rs1, st', w')" and rs': "rs' = r1 # rs1"
    by (auto split: prod.splits)
  from step_inv [OF Cons.prems(1) f] have "I ((xs @ [r1]) @ rs) w1" by simp
  from Cons.IH [OF this rest] show ?case by (simp add: rs')
qed

lemma loop_rel: "for_records f rs st w ov = (ov', rs', st', w') \<Longrightarrow> list_all2 R rs rs'"
proof (induction rs arbitrary: st w ov rs')
  case Nil
  then show ?case by simp
next
  case (Cons r rs)
  then show ?case by (auto split: prod.splits dest: step_rel)
qed

end

lemma unseen_record_seen:
  "tr_seen_in_last_apply r \<Longrightarrow> unseen_record os base cfg now r st w ov = (ov, r, st, w)"
  by (simp add: unseen_record_def)

interpretation unseen_loop:
  record_operation "unseen_record os base cfg now" "table_inv base cfg"
    "\<lambda>r r'. tr_pid r' = tr_pid r \<and> record_trans cfg now r r' \<and> (tr_seen_in_last_apply r \<longrightarrow> r' = r)"
  for os base cfg now
proof
  fix xs r ys w st ov ov' r' st' w'
  assume "table_inv base cfg (xs @ r # ys) w" "unseen_record os base cfg now r st w ov = (ov', r', st', w')"
  then show "table_inv base cfg (xs @ r' # ys) w'"
    by (blast intro: good_step_table_inv unseen_record_good)
next
  fix r st w ov ov' r' st' w'
  assume "unseen_record os base cfg now r st w ov = (ov', r', st', w')"
  with unseen_record_good [OF this]
  show "tr_pid r' = tr_pid r \<and> record_trans cfg now r r' \<and> (tr_seen_in_last_apply r \<longrightarrow> r' = r)"
    by (auto simp: good_step_def unseen_record_seen)
qed

lemma release_record_effect:
  assumes "release_record os base cfg now r st w ov = (ov', r', st', w')"
  shows "tr_pid r' = tr_pid r" "good_state r \<Longrightarrow> good_state r'" "record_effect base cfg r w r' w'"
    "throttled r' \<Longrightarrow> throttled r" "\<not> throttled r \<Longrightarrow> r' = r"
proof -
  have cases: "r' = r \<and> w' = w \<and> \<not> throttled r \<or>
      throttled r \<and> (\<exists>rc. release_record_pid os base cfg now False r st w = (rc, r', st', w'))"
    using assms by (auto simp: release_record_def split: if_splits prod.splits)
  show "tr_pid r' = tr_pid r" using cases by (auto dest: release_record_pid_cases(1))
  show "good_state r \<Longrightarrow> good_state r'" "record_effect base cfg r w r' w'"
    "throttled r' \<Longrightarrow> throttled r" "\<not> throttled r \<Longrightarrow> r' = r"
    using cases by (auto simp: good_state_def record_effect_def dest!: release_record_pid_cases(2))
qed

text \<open>The only error a step on a record in a proper state can report is a failed cgroup write.\<close>

definition move_rc :: "throttle_controller_rc \<Rightarrow> bool" where
  "move_rc rc \<longleftrightarrow> rc = THROTTLE_CONTROLLER_OK \<or> rc = THROTTLE_CONTROLLER_ERR_CGROUP"

lemma release_loop_done:
  "for_records (release_record os base cfg now) rs st w ov = (ov', rs', st', w') \<Longrightarrow>
   (move_rc ov \<longrightarrow> move_rc ov') \<and>
   (ov' = THROTTLE_CONTROLLER_OK \<longrightarrow> ov = THROTTLE_CONTROLLER_OK \<and> (\<forall>r \<in> set rs'. \<not> throttled r))"
proof (induction rs arbitrary: st w ov rs')
  case Nil
  then show ?case by simp
next
  case (Cons r rs)
  from Cons.prems obtain ov1 r1 st1 w1 rs1 where
    step: "release_record os base cfg now r st w ov = (ov1, r1, st1, w1)" and
    rest: "for_records (release_record os base cfg now) rs st1 w1 ov1 = (ov', rs1, st', w')"
    and rs': "rs' = r1 # rs1" by (auto split: prod.splits)
  have "(move_rc ov \<longrightarrow> move_rc ov1) \<and>
        (ov1 = THROTTLE_CONTROLLER_OK \<longrightarrow> ov = THROTTLE_CONTROLLER_OK \<and> \<not> throttled r1)"
  proof (cases "throttled r")
    case False
    with step show ?thesis by (auto simp: release_record_def)
  next
    case True
    with step obtain rc where
      "release_record_pid os base cfg now False r st w = (rc, r1, st1, w1)" "ov1 = keep_error rc ov"
      by (auto simp: release_record_def split: prod.splits)
    then show ?thesis
      by (auto simp: keep_error_def move_rc_def dest!: release_record_pid_cases(2) split: if_splits)
  qed
  with Cons.IH [OF rest] rs' show ?case by auto
qed

interpretation release_loop:
  record_operation "release_record os base cfg now" "table_inv base cfg"
    "\<lambda>r r'. tr_pid r' = tr_pid r \<and> (throttled r' \<longrightarrow> throttled r)"
  for os base cfg now
proof
  fix xs r ys w st ov ov' r' st' w'
  assume "table_inv base cfg (xs @ r # ys) w" and step: "release_record os base cfg now r st w ov = (ov', r', st', w')"
  then show "table_inv base cfg (xs @ r' # ys) w'"
    by (blast intro: table_inv_step release_record_effect [OF step])
next
  fix r st w ov ov' r' st' w'
  assume "release_record os base cfg now r st w ov = (ov', r', st', w')"
  from release_record_effect [OF this] show "tr_pid r' = tr_pid r \<and> (throttled r' \<longrightarrow> throttled r)"
    by blast
qed

subsection \<open>Validation of the candidate list\<close>

lemma candidate_valid_iff:
  "candidate_valid c \<longleftrightarrow> 0 < ic_pid c \<and> unit_score (ic_activity_score c) \<and>
     unit_score (ic_overlap_score c) \<and> unit_score (ic_final_score c)"
  by (auto simp: candidate_valid_def unit_score_iff)

definition pids :: "throttle_controller \<Rightarrow> pid_t set" where
  "pids c = tr_pid ` set (tk_records c)"

lemma find_record_None: "find_record c pid = None \<longleftrightarrow> pid \<notin> pids c"
  by (auto simp: find_record_def pids_def)

lemma find_record_Some:
  "find_record c pid = Some i \<Longrightarrow> i < length (tk_records c) \<and> tr_pid (tk_records c ! i) = pid"
  by (auto simp: find_record_def dest: first_index_SomeD)

lemma prevalidate_loop_Inr:
  "prevalidate_loop c earlier cs n = Inr m \<longleftrightarrow>
     (\<forall>x \<in> set cs. candidate_valid x) \<and> distinct (map ic_pid cs) \<and>
     ic_pid ` set cs \<inter> ic_pid ` set earlier = {} \<and>
     m = n + length (filter (\<lambda>x. ic_pid x \<notin> pids c) cs)"
  by (induction c earlier cs n rule: prevalidate_loop.induct)
    (auto simp: list_ex_iff find_record_None)

lemma prevalidate_OK:
  "prevalidate_candidates c csp = THROTTLE_CONTROLLER_OK \<Longrightarrow>
   \<exists>cs. csp = Some cs \<and> (\<forall>x \<in> set cs. candidate_valid x) \<and> distinct (map ic_pid cs) \<and>
     length (filter (\<lambda>x. ic_pid x \<notin> pids c) cs) \<le> tk_record_cap c - length (tk_records c)"
proof -
  assume ok: "prevalidate_candidates c csp = THROTTLE_CONTROLLER_OK"
  have loop: "prevalidate_loop c e cs n \<noteq> Inl THROTTLE_CONTROLLER_OK" for e cs n
    by (induction c e cs n rule: prevalidate_loop.induct) auto
  from ok obtain cs where cs: "csp = Some cs" by (auto simp: prevalidate_candidates_def split: option.splits)
  with ok loop [of "[]" cs 0] obtain m where
    m: "prevalidate_loop c [] cs 0 = Inr m" "m \<le> tk_record_cap c - length (tk_records c)"
    by (auto simp: prevalidate_candidates_def split: sum.splits if_splits)
  from m(1) have "(\<forall>x \<in> set cs. candidate_valid x) \<and> distinct (map ic_pid cs) \<and>
      m = length (filter (\<lambda>x. ic_pid x \<notin> pids c) cs)"
    by (simp add: prevalidate_loop_Inr)
  with cs m(2) show ?thesis by auto
qed

text \<open>A list of valid candidates without repetition is refused for lack of space only.\<close>

lemma prevalidate_valid:
  assumes "\<forall>x \<in> set cs. candidate_valid x" "distinct (map ic_pid cs)"
  shows "prevalidate_candidates c (Some cs) =
    (if tk_record_cap c - length (tk_records c) < length (filter (\<lambda>x. ic_pid x \<notin> pids c) cs)
     then THROTTLE_CONTROLLER_ERR_NO_SPACE else THROTTLE_CONTROLLER_OK)"
proof -
  have "prevalidate_loop c [] cs 0 = Inr (length (filter (\<lambda>x. ic_pid x \<notin> pids c) cs))"
    using assms by (simp add: prevalidate_loop_Inr)
  then show ?thesis by (simp add: prevalidate_candidates_def)
qed

subsection \<open>The candidate loop\<close>

text \<open>Where a record of the new table comes from: one transition of a record of the old
  table, or of a new record that starts in state NONE.\<close>

definition origin ::
  "throttle_controller_config \<Rightarrow> u64 \<Rightarrow> throttle_record list \<Rightarrow> throttle_record \<Rightarrow> bool" where
  "origin cfg now old r' \<longleftrightarrow>
     (\<exists>r \<in> set old. tr_pid r = tr_pid r' \<and> record_trans cfg now r r') \<or>
     (tr_pid r' \<notin> tr_pid ` set old \<and>
      (\<exists>r. tr_pid r = tr_pid r' \<and> tr_state r = THROTTLE_STATE_NONE \<and> record_trans cfg now r r'))"

text \<open>The records not yet seen are untouched, the seen ones have made one transition.\<close>

definition seen_inv ::
  "throttle_controller_config \<Rightarrow> u64 \<Rightarrow> throttle_record list \<Rightarrow> pid_t set \<Rightarrow> throttle_record list \<Rightarrow> bool" where
  "seen_inv cfg now old seen rs \<longleftrightarrow>
     tr_pid ` set old \<subseteq> tr_pid ` set rs \<and>
     (\<forall>r \<in> set rs. if tr_seen_in_last_apply r then tr_pid r \<in> seen \<and> origin cfg now old r
                   else tr_pid r \<notin> seen \<and> r \<in> set old)"

definition loop_inv ::
  "string \<Rightarrow> u64 \<Rightarrow> throttle_record list \<Rightarrow> pid_t set \<Rightarrow> interference_candidate list \<Rightarrow>
   throttle_controller \<Rightarrow> world \<Rightarrow> bool" where
  "loop_inv base now old seen cs c w \<longleftrightarrow>
     table_inv base (tk_cfg c) (tk_records c) w \<and> seen_inv (tk_cfg c) now old seen (tk_records c) \<and>
     length (tk_records c) + length (filter (\<lambda>x. ic_pid x \<notin> pids c) cs) \<le> tk_record_cap c"

lemma touch_record_seen [simp]: "tr_seen_in_last_apply (touch_record now c r)"
  by (simp add: touch_record_def)

lemma throttle_record_pid_seen:
  "throttle_record_pid os base cfg now r st w = (rc, r', st', w') \<Longrightarrow>
   tr_seen_in_last_apply r' = tr_seen_in_last_apply r"
  by (auto simp: throttle_record_pid_def Let_def split: prod.splits if_splits)

lemma release_record_pid_seen:
  "release_record_pid os base cfg now stale r st w = (rc, r', st', w') \<Longrightarrow>
   tr_seen_in_last_apply r' = tr_seen_in_last_apply r"
  by (auto simp: release_record_pid_def Let_def split: prod.splits if_splits)

lemma step_record_seen:
  "step_record os base cfg now c r st w ov = (ov', r', st', w') \<Longrightarrow>
   tr_seen_in_last_apply r' = tr_seen_in_last_apply r"
  by (auto simp: step_record_def step_none_def step_throttled_def step_cooldown_def Let_def
      split: throttle_state.splits if_splits prod.splits
      dest: throttle_record_pid_seen release_record_pid_seen)

lemma keep_error_move_rc: "move_rc rc \<Longrightarrow> move_rc ov \<Longrightarrow> move_rc (keep_error rc ov)"
  by (simp add: keep_error_def)

lemma throttle_record_pid_rc: "throttle_record_pid os base cfg now r st w = (rc, r', st', w') \<Longrightarrow> move_rc rc"
  by (drule throttle_record_pid_cases(2)) (auto simp: move_rc_def)

lemma release_record_pid_rc: "release_record_pid os base cfg now stale r st w = (rc, r', st', w') \<Longrightarrow> move_rc rc"
  by (drule release_record_pid_cases(2)) (auto simp: move_rc_def)

lemmas pid_action_rc = throttle_record_pid_rc release_record_pid_rc

lemma step_record_rc:
  "step_record os base cfg now c r st w ov = (ov', r', st', w') \<Longrightarrow> good_state r \<Longrightarrow> move_rc ov \<Longrightarrow> move_rc ov'"
  by (auto simp: step_record_def step_none_def step_throttled_def step_cooldown_def Let_def good_state_def
      split: throttle_state.splits if_splits prod.splits
      dest!: pid_action_rc intro: keep_error_move_rc)

lemma unseen_record_rc:
  "unseen_record os base cfg now r st w ov = (ov', r', st', w') \<Longrightarrow> move_rc ov \<Longrightarrow> move_rc ov'"
  by (auto simp: unseen_record_def Let_def split: if_splits prod.splits
      dest!: pid_action_rc intro: keep_error_move_rc)

lemma for_records_unseen_rc:
  "for_records (unseen_record os base cfg now) rs st w ov = (ov', rs', st', w') \<Longrightarrow> move_rc ov \<Longrightarrow> move_rc ov'"
  by (induction rs arbitrary: st w ov rs') (auto split: prod.splits dest: unseen_record_rc)

text \<open>The record a candidate is applied to.\<close>

definition fresh_record :: "pid_t \<Rightarrow> u64 \<Rightarrow> throttle_record" where
  "fresh_record pid now_ns = throttle_controller_record_reset\<lparr>
     tr_pid := pid, tr_state := THROTTLE_STATE_NONE, tr_first_seen_ns := now_ns,
     tr_last_seen_ns := now_ns, tr_state_entered_ns := now_ns, tr_reason := set_reason ''new record''\<rparr>"

lemma fresh_record_simps [simp]:
  "tr_pid (fresh_record pid now) = pid" "tr_state (fresh_record pid now) = THROTTLE_STATE_NONE"
  "tr_seen_in_last_apply (fresh_record pid now) = False"
  by (simp_all add: fresh_record_def throttle_controller_record_reset_def)

lemma create_record_eq:
  "create_record c pid now =
     (if tk_record_cap c \<le> length (tk_records c) then None
      else Some (c\<lparr>tk_records := tk_records c @ [fresh_record pid now]\<rparr>, length (tk_records c)))"
  by (simp add: create_record_def fresh_record_def)

text \<open>The list in which the candidate's record has been found or appended, cut at that record.\<close>

lemma find_or_create_cut:
  assumes room: "pid \<notin> pids c \<Longrightarrow> length (tk_records c) < tk_record_cap c"
  obtains c1 i xs r ys where
    "find_or_create c pid now = Some (c1, i)" "tk_records c1 = xs @ r # ys" "length xs = i"
    "tr_pid r = pid" "c1 = c\<lparr>tk_records := xs @ r # ys\<rparr>"
    "(pid \<in> pids c \<and> tk_records c = xs @ r # ys) \<or>
     (pid \<notin> pids c \<and> tk_records c = xs \<and> ys = [] \<and> r = fresh_record pid now)"
proof (cases "find_record c pid")
  case None
  with room have "length (tk_records c) < tk_record_cap c" "pid \<notin> pids c" by (simp_all add: find_record_None)
  with None show thesis
    by (intro that [of "c\<lparr>tk_records := tk_records c @ [fresh_record pid now]\<rparr>" "length (tk_records c)"
          "tk_records c" "fresh_record pid now" "[]"])
      (simp_all add: find_or_create_def create_record_eq)
next
  case (Some i)
  from find_record_Some [OF Some] have i: "i < length (tk_records c)" "tr_pid (tk_records c ! i) = pid" by auto
  then have cut: "tk_records c = take i (tk_records c) @ tk_records c ! i # drop (Suc i) (tk_records c)"
    by (simp add: id_take_nth_drop)
  have "pid \<in> pids c" using i by (auto simp: pids_def)
  with Some i cut show thesis
    by (intro that [of c i "take i (tk_records c)" "tk_records c ! i" "drop (Suc i) (tk_records c)"])
      (simp_all add: find_or_create_def)
qed

lemma table_inv_fresh:
  assumes "table_inv base cfg rs w" "0 < pid" "pid \<notin> tr_pid ` set rs"
  shows "table_inv base cfg (rs @ [fresh_record pid now]) w"
  using assms by (auto simp: table_inv_def agree_def good_state_def)

lemma seen_inv_step:
  assumes seen: "seen_inv cfg now old seen rs"
    and rs: "rs = xs @ r # ys \<or> (rs = xs \<and> ys = [] \<and> tr_pid r \<notin> tr_pid ` set rs \<and> tr_state r = THROTTLE_STATE_NONE)"
    and dist: "distinct (map tr_pid (xs @ r # ys))"
    and new: "tr_pid r \<notin> seen" and r': "tr_seen_in_last_apply r'" "tr_pid r' = tr_pid r" "record_trans cfg now r r'"
  shows "seen_inv cfg now old (insert (tr_pid r) seen) (xs @ r' # ys)"
proof -
  from seen have sub: "tr_pid ` set old \<subseteq> tr_pid ` set rs" by (simp add: seen_inv_def)
  have "origin cfg now old r'"
  proof (cases "rs = xs @ r # ys")
    case True
    with seen new have "r \<in> set old" by (auto simp: seen_inv_def split: if_splits)
    with r' show ?thesis by (auto simp: origin_def)
  next
    case False
    with rs sub r' show ?thesis by (auto simp: origin_def)
  qed
  moreover have "tr_pid ` set rs \<subseteq> tr_pid ` set (xs @ r' # ys)"
    using rs r'(2) by auto
  with sub have "tr_pid ` set old \<subseteq> tr_pid ` set (xs @ r' # ys)" by (rule order_trans)
  moreover have "if tr_seen_in_last_apply s then tr_pid s \<in> insert (tr_pid r) seen \<and> origin cfg now old s
                 else tr_pid s \<notin> insert (tr_pid r) seen \<and> s \<in> set old" if s: "s \<in> set (xs @ r' # ys)" for s
  proof (cases "s = r'")
    case True
    with r' \<open>origin cfg now old r'\<close> show ?thesis by simp
  next
    case False
    with s rs have "s \<in> set rs" by auto
    moreover have "tr_pid s \<noteq> tr_pid r" using False s dist by (auto simp: image_iff)
    ultimately show ?thesis using seen unfolding seen_inv_def by (metis insert_iff)
  qed
  ultimately show ?thesis unfolding seen_inv_def by blast
qed

lemma apply_candidate_loop_inv:
  assumes inv: "loop_inv base now old seen (x # cs) c w"
    and x: "0 < ic_pid x" "ic_pid x \<notin> seen" "ic_pid x \<notin> ic_pid ` set cs"
  obtains c' st' w' ov' where
    "apply_candidate os base now x (c, st, w, ov) = Inr (c', st', w', ov')"
    "loop_inv base now old (insert (ic_pid x) seen) cs c' w'"
    "tk_cfg c' = tk_cfg c" "tk_record_cap c' = tk_record_cap c" "tk_initialized c' = tk_initialized c"
    "move_rc ov \<longrightarrow> move_rc ov'"
proof -
  let ?pid = "ic_pid x"
  from inv have room: "?pid \<notin> pids c \<Longrightarrow> length (tk_records c) < tk_record_cap c"
    by (simp add: loop_inv_def)
  obtain c1 i xs r ys where
    c1: "find_or_create c ?pid now = Some (c1, i)" "tk_records c1 = xs @ r # ys" "length xs = i"
      "tr_pid r = ?pid" "c1 = c\<lparr>tk_records := xs @ r # ys\<rparr>" and
    kind: "(?pid \<in> pids c \<and> tk_records c = xs @ r # ys) \<or>
           (?pid \<notin> pids c \<and> tk_records c = xs \<and> ys = [] \<and> r = fresh_record ?pid now)"
    using room by (rule find_or_create_cut)
  obtain ov' r' st' w' where
    step: "step_record os base (tk_cfg c) now x (touch_record now x r)
             (map_option (\<lambda>s. s\<lparr>ts_records_seen := Suc (ts_records_seen s)\<rparr>) st) w ov = (ov', r', st', w')"
    by (rule prod_cases4)
  define c' where "c' = c\<lparr>tk_records := xs @ r' # ys\<rparr>"
  have nth: "tk_records c1 ! i = r" using c1(2,3) by (metis nth_append_length)
  have upd: "(tk_records c1)[i := r'] = xs @ r' # ys" using c1(2,3) by (metis list_update_length)
  have app: "apply_candidate os base now x (c, st, w, ov) = Inr (c', st', w', ov')"
    using c1(1) nth upd step by (simp add: apply_candidate_def c'_def c1(5))
  have good: "good_step base (tk_cfg c) now r w r' w'"
    using step_record_good [OF step]
    by (simp add: good_step_def record_effect_def record_trans_iff)
  have r'seen: "tr_seen_in_last_apply r'" using step_record_seen [OF step] by simp
  have tab0: "table_inv base (tk_cfg c) (xs @ r # ys) w"
    using kind inv x(1) table_inv_fresh [of base "tk_cfg c" xs w ?pid now]
    by (auto simp: loop_inv_def pids_def)
  then have "good_state (touch_record now x r)" by (simp add: table_inv_def good_state_def)
  with step have rc: "move_rc ov \<longrightarrow> move_rc ov'" by (blast intro: step_record_rc)
  from good_step_table_inv [OF good tab0] have tab: "table_inv base (tk_cfg c) (xs @ r' # ys) w'" .
  have seen: "seen_inv (tk_cfg c) now old (insert ?pid seen) (xs @ r' # ys)"
    using seen_inv_step [of "tk_cfg c" now old seen "tk_records c" xs r ys r'] inv kind x(2) c1(4) good r'seen tab0
    by (auto simp: loop_inv_def good_step_def pids_def table_inv_def)
  have p': "pids c' = insert ?pid (pids c)"
    using kind c1(4) good by (auto simp: pids_def c'_def good_step_def)
  have "filter (\<lambda>y. ic_pid y \<notin> pids c') cs = filter (\<lambda>y. ic_pid y \<notin> pids c) cs"
    using x(3) by (intro filter_cong) (auto simp: p' image_iff)
  then have "length (tk_records c') + length (filter (\<lambda>y. ic_pid y \<notin> pids c') cs) \<le> tk_record_cap c'"
    using inv kind by (auto simp: loop_inv_def c'_def)
  with app tab seen rc show thesis
    by (intro that [of c' st' w' ov']) (auto simp: loop_inv_def c'_def)
qed

lemma apply_loop_inv:
  assumes "loop_inv base now old seen cs c w" "\<forall>x \<in> set cs. 0 < ic_pid x"
    "distinct (map ic_pid cs)" "seen \<inter> ic_pid ` set cs = {}"
  shows "\<exists>c' st' w' ov'. apply_loop os base now cs (c, st, w, ov) = Inr (c', st', w', ov') \<and>
    loop_inv base now old (seen \<union> ic_pid ` set cs) [] c' w' \<and>
    tk_cfg c' = tk_cfg c \<and> tk_record_cap c' = tk_record_cap c \<and> tk_initialized c' = tk_initialized c \<and>
    (move_rc ov \<longrightarrow> move_rc ov')"
  using assms
proof (induction cs arbitrary: c seen st w ov)
  case Nil
  then show ?case by simp
next
  case (Cons x cs)
  from Cons.prems have x: "0 < ic_pid x" "ic_pid x \<notin> seen" "ic_pid x \<notin> ic_pid ` set cs" by auto
  obtain c1 st1 w1 ov1 where
    one: "apply_candidate os base now x (c, st, w, ov) = Inr (c1, st1, w1, ov1)"
      "loop_inv base now old (insert (ic_pid x) seen) cs c1 w1"
      "tk_cfg c1 = tk_cfg c" "tk_record_cap c1 = tk_record_cap c" "tk_initialized c1 = tk_initialized c"
      "move_rc ov \<longrightarrow> move_rc ov1"
    using Cons.prems(1) x by (rule apply_candidate_loop_inv)
  from Cons.IH [OF one(2), of st1 ov1] Cons.prems x one show ?case by auto
qed

lemma apply_candidateE:
  assumes "apply_candidate os base now x (c, st, w, ov) = Inr (c', st', w', ov')"
  obtains xs r ys r' where
    "c' = c\<lparr>tk_records := xs @ r' # ys\<rparr>" "tr_pid r = ic_pid x"
    "step_record os base (tk_cfg c) now x (touch_record now x r)
       (map_option (\<lambda>s. s\<lparr>ts_records_seen := Suc (ts_records_seen s)\<rparr>) st) w ov = (ov', r', st', w')"
    "tk_records c = xs @ r # ys \<or>
     (tk_records c = xs \<and> ys = [] \<and> ic_pid x \<notin> pids c \<and> r = fresh_record (ic_pid x) now)"
proof -
  let ?st = "map_option (\<lambda>s. s\<lparr>ts_records_seen := Suc (ts_records_seen s)\<rparr>) st"
  have "ic_pid x \<notin> pids c \<Longrightarrow> length (tk_records c) < tk_record_cap c"
    using assms
    by (auto simp: apply_candidate_def find_or_create_def find_record_None [symmetric] create_record_eq
        split: if_splits)
  then obtain c1 i xs r ys where
    fc: "find_or_create c (ic_pid x) now = Some (c1, i)" and
    cut: "tk_records c1 = xs @ r # ys" "length xs = i" "tr_pid r = ic_pid x"
      "c1 = c\<lparr>tk_records := xs @ r # ys\<rparr>" and
    kind: "(ic_pid x \<in> pids c \<and> tk_records c = xs @ r # ys) \<or>
     (ic_pid x \<notin> pids c \<and> tk_records c = xs \<and> ys = [] \<and> r = fresh_record (ic_pid x) now)"
    by (rule find_or_create_cut)
  obtain ov1 r' st1 w1 where
    step: "step_record os base (tk_cfg c) now x (touch_record now x r) ?st w ov = (ov1, r', st1, w1)"
    by (rule prod_cases4)
  have nth: "tk_records c1 ! i = r" using cut(1,2) by (metis nth_append_length)
  have upd: "(tk_records c1)[i := r'] = xs @ r' # ys" using cut(1,2) by (metis list_update_length)
  have "Inr (c', st', w', ov') = Inr (c\<lparr>tk_records := xs @ r' # ys\<rparr>, st1, w1, ov1)"
    using assms fc nth upd step by (simp add: apply_candidate_def cut(4))
  with step kind cut(3) show thesis by (intro that [of xs r' ys r]) auto
qed

lemma apply_candidate_pids:
  assumes "apply_candidate os base now x (c, st, w, ov) = Inr (c', st', w', ov')"
  shows "pids c' = insert (ic_pid x) (pids c)"
  using assms
proof (rule apply_candidateE)
  fix xs r ys r'
  assume c': "c' = c\<lparr>tk_records := xs @ r' # ys\<rparr>" and r: "tr_pid r = ic_pid x"
    and step: "step_record os base (tk_cfg c) now x (touch_record now x r)
       (map_option (\<lambda>s. s\<lparr>ts_records_seen := Suc (ts_records_seen s)\<rparr>) st) w ov = (ov', r', st', w')"
    and kind: "tk_records c = xs @ r # ys \<or>
      (tk_records c = xs \<and> ys = [] \<and> ic_pid x \<notin> pids c \<and> r = fresh_record (ic_pid x) now)"
  from step_record_good [OF step] r have "tr_pid r' = ic_pid x" by (simp add: good_step_def)
  with c' kind r show "pids c' = insert (ic_pid x) (pids c)" by (auto simp: pids_def)
qed

lemma apply_loop_pids:
  "apply_loop os base now cs (c, st, w, ov) = Inr (c', st', w', ov') \<Longrightarrow> pids c' = pids c \<union> ic_pid ` set cs"
proof (induction cs arbitrary: c st w ov)
  case Nil
  then show ?case by simp
next
  case (Cons x cs)
  from Cons.prems obtain c1 st1 w1 ov1 where
    one: "apply_candidate os base now x (c, st, w, ov) = Inr (c1, st1, w1, ov1)" and
    rest: "apply_loop os base now cs (c1, st1, w1, ov1) = Inr (c', st', w', ov')"
    by (auto split: sum.splits)
  from Cons.IH [OF rest] apply_candidate_pids [OF one] show ?case by auto
qed

lemma apply_unseen_inv:
  assumes inv: "loop_inv base now old seen [] c w"
    and app: "apply_unseen os base now (c, st, w, ov) = (c', st', w', ov')"
  shows "table_inv base (tk_cfg c) (tk_records c') w'" "tk_cfg c' = tk_cfg c"
    "tk_record_cap c' = tk_record_cap c" "tk_initialized c' = tk_initialized c"
    "length (tk_records c') \<le> tk_record_cap c"
    "\<forall>r' \<in> set (tk_records c'). origin (tk_cfg c) now old r'" "tr_pid ` set old \<subseteq> pids c'"
    "pids c' = pids c" "move_rc ov \<Longrightarrow> move_rc ov'"
proof -
  obtain ov1 rs st1 w1 where
    loop: "for_records (unseen_record os base (tk_cfg c) now) (tk_records c) st w ov = (ov1, rs, st1, w1)"
    by (rule prod_cases4)
  with app have c': "c' = c\<lparr>tk_records := rs\<rparr>" "w' = w1" "ov' = ov1" by (simp_all add: apply_unseen_def)
  show "move_rc ov \<Longrightarrow> move_rc ov'" using loop by (simp add: c' for_records_unseen_rc)
  have tab: "table_inv base (tk_cfg c) ([] @ rs) w1"
    by (rule unseen_loop.loop_inv [OF _ loop]) (use inv in \<open>simp add: loop_inv_def\<close>)
  note rel = unseen_loop.loop_rel [OF loop]
  have seen: "seen_inv (tk_cfg c) now old seen (tk_records c)" using inv by (simp add: loop_inv_def)
  show "table_inv base (tk_cfg c) (tk_records c') w'" using tab by (simp add: c')
  show "tk_cfg c' = tk_cfg c" "tk_record_cap c' = tk_record_cap c" "tk_initialized c' = tk_initialized c"
    by (simp_all add: c')
  show "length (tk_records c') \<le> tk_record_cap c"
    using inv rel by (simp add: loop_inv_def c' list_all2_lengthD)
  have "map tr_pid rs = map tr_pid (tk_records c)"
    using rel by (auto simp: list_all2_conv_all_nth intro!: nth_equalityI)
  then have "tr_pid ` set rs = tr_pid ` set (tk_records c)" by (metis set_map)
  with seen show "tr_pid ` set old \<subseteq> pids c'" "pids c' = pids c" by (simp_all add: pids_def c' seen_inv_def)
  show "\<forall>r' \<in> set (tk_records c'). origin (tk_cfg c) now old r'"
  proof
    fix r'
    assume "r' \<in> set (tk_records c')"
    then obtain i where i: "i < length rs" "r' = rs ! i" by (auto simp: c' in_set_conv_nth)
    let ?r = "tk_records c ! i"
    from i rel have r: "?r \<in> set (tk_records c)" "tr_pid r' = tr_pid ?r"
      "record_trans (tk_cfg c) now ?r r'" "tr_seen_in_last_apply ?r \<longrightarrow> r' = ?r"
      by (auto simp: list_all2_conv_all_nth)
    show "origin (tk_cfg c) now old r'"
    proof (cases "tr_seen_in_last_apply ?r")
      case True
      with seen r show ?thesis unfolding seen_inv_def by metis
    next
      case False
      with seen r(1) have "?r \<in> set old" unfolding seen_inv_def by metis
      with r show ?thesis unfolding origin_def by metis
    qed
  qed
qed

subsection \<open>The controller\<close>

definition controller_inv :: "string \<Rightarrow> throttle_controller \<Rightarrow> world \<Rightarrow> bool" where
  "controller_inv base c w \<longleftrightarrow>
     tk_initialized c \<and> validate_config (Some (tk_cfg c)) = THROTTLE_CONTROLLER_OK \<and>
     length (tk_records c) \<le> tk_record_cap c \<and> table_inv base (tk_cfg c) (tk_records c) w"

lemma table_inv_writes: "w_writes w' = w_writes w \<Longrightarrow> table_inv base cfg rs w' = table_inv base cfg rs w"
  by (simp add: table_inv_def agree_def)

lemma controller_now_ns_writes: "controller_now_ns os c w = (x, w') \<Longrightarrow> w_writes w' = w_writes w"
  by (auto simp: controller_now_ns_def monotonic_now_ns_def clock_gettime_def split: option.splits prod.splits)

lemma controller_now_ns_Inl: "controller_now_ns os c w = (Inl rc, w') \<Longrightarrow> rc = THROTTLE_CONTROLLER_ERR_TIME"
  by (auto simp: controller_now_ns_def monotonic_now_ns_def clock_gettime_def split: option.splits prod.splits)

definition unseen :: "throttle_record \<Rightarrow> throttle_record" where
  "unseen r = r\<lparr>tr_seen_in_last_apply := False\<rparr>"

lemma unseen_simps [simp]:
  "tr_pid (unseen r) = tr_pid r" "tr_state (unseen r) = tr_state r"
  "tr_state_entered_ns (unseen r) = tr_state_entered_ns r" "\<not> tr_seen_in_last_apply (unseen r)"
  by (simp_all add: unseen_def)

lemma map_pid_unseen [simp]: "map (tr_pid \<circ> unseen) rs = map tr_pid rs"
  by simp

lemma table_inv_unseen: "table_inv base cfg (map unseen rs) w = table_inv base cfg rs w"
  by (simp add: table_inv_def agree_def good_state_def)

lemma origin_unseen: "origin cfg now (map unseen rs) r' = origin cfg now rs r'"
  by (simp add: origin_def record_trans_iff image_image)

lemma start_loop_inv:
  assumes inv: "controller_inv base c w"
    and pre: "prevalidate_candidates c (Some cs) = THROTTLE_CONTROLLER_OK"
    and now: "controller_now_ns os c w = (x, w1)"
  shows "loop_inv base n (map unseen (tk_records c)) {} cs (c\<lparr>tk_records := map unseen (tk_records c)\<rparr>) w1"
proof -
  have pids1: "pids (c\<lparr>tk_records := map unseen (tk_records c)\<rparr>) = pids c" by (simp add: pids_def image_image)
  have "length (filter (\<lambda>x. ic_pid x \<notin> pids c) cs) \<le> tk_record_cap c - length (tk_records c)"
    using prevalidate_OK [OF pre] by simp
  then show ?thesis
    using inv
    by (auto simp: loop_inv_def seen_inv_def pids1 controller_inv_def table_inv_unseen
        table_inv_writes [OF controller_now_ns_writes [OF now]])
qed

text \<open>
  An interval on a controller in good order either rejects its input and changes nothing, or it
  handles every candidate: the invariant holds again, each record made at most one
  guarded transition, no record was lost and each candidate has one.
\<close>

lemma apply_candidates_cases:
  assumes inv: "controller_inv base c w"
    and app: "throttle_controller_apply_candidates os base (Some c) csp stats w = (rc, cp', stats', w')"
  shows "(\<not> move_rc rc \<and> cp' = Some c \<and> w_writes w' = w_writes w \<and>
      rc = (if prevalidate_candidates c csp = THROTTLE_CONTROLLER_OK then THROTTLE_CONTROLLER_ERR_TIME
            else prevalidate_candidates c csp)) \<or>
    (\<exists>c' cs now w1. csp = Some cs \<and> prevalidate_candidates c csp = THROTTLE_CONTROLLER_OK \<and>
       controller_now_ns os c w = (Inr now, w1) \<and> move_rc rc \<and> cp' = Some c' \<and>
       controller_inv base c' w' \<and> tk_cfg c' = tk_cfg c \<and> tk_record_cap c' = tk_record_cap c \<and>
       (\<forall>r' \<in> set (tk_records c'). origin (tk_cfg c) now (tk_records c) r') \<and>
       pids c' = pids c \<union> ic_pid ` set cs)"
proof (cases "prevalidate_candidates c csp = THROTTLE_CONTROLLER_OK")
  case False
  have "prevalidate_loop c e cs n \<noteq> Inl THROTTLE_CONTROLLER_ERR_CGROUP" for e cs n
    by (induction c e cs n rule: prevalidate_loop.induct) auto
  then have "prevalidate_candidates c csp \<noteq> THROTTLE_CONTROLLER_ERR_CGROUP"
    by (auto simp: prevalidate_candidates_def split: option.splits sum.splits)
  with False app inv show ?thesis
    by (auto simp: throttle_controller_apply_candidates_def controller_inv_def move_rc_def Let_def)
next
  case pre: True
  from prevalidate_OK [OF pre] obtain cs where
    cs: "csp = Some cs" "\<forall>x \<in> set cs. candidate_valid x" "distinct (map ic_pid cs)"
      "length (filter (\<lambda>x. ic_pid x \<notin> pids c) cs) \<le> tk_record_cap c - length (tk_records c)" by blast
  obtain t w1 where now: "controller_now_ns os c w = (t, w1)" by (rule prod.exhaust)
  show ?thesis
  proof (cases t)
    case (Inl e)
    from controller_now_ns_Inl [of os c w e w1] now Inl have e: "e = THROTTLE_CONTROLLER_ERR_TIME" by simp
    with app inv pre now Inl controller_now_ns_writes [OF now] show ?thesis
      by (auto simp: throttle_controller_apply_candidates_def controller_inv_def move_rc_def)
  next
    case (Inr n)
    define c1 where "c1 = c\<lparr>tk_records := map unseen (tk_records c)\<rparr>"
    define st1 where "st1 = map_option (\<lambda>s. s\<lparr>ts_candidate_count := length cs\<rparr>)
                             (map_option (\<lambda>_. throttle_controller_stats_reset) stats)"
    have pids1: "pids c1 = pids c" by (simp add: c1_def pids_def image_image)
    have recs1: "tk_records c1 = map unseen (tk_records c)" "tk_cfg c1 = tk_cfg c"
      "tk_record_cap c1 = tk_record_cap c" by (simp_all add: c1_def)
    have "loop_inv base n (map unseen (tk_records c)) {} cs c1 w1"
      using start_loop_inv [OF inv _ now] pre cs(1) by (simp add: c1_def)
    then obtain c2 st2 w2 ov2 where loop:
      "apply_loop os base n cs (c1, st1, w1, THROTTLE_CONTROLLER_OK) = Inr (c2, st2, w2, ov2)"
      "loop_inv base n (map unseen (tk_records c)) (ic_pid ` set cs) [] c2 w2"
      "tk_cfg c2 = tk_cfg c1" "tk_record_cap c2 = tk_record_cap c1" "tk_initialized c2 = tk_initialized c1"
      "move_rc ov2"
      using apply_loop_inv [of base n "map unseen (tk_records c)" "{}" cs c1 w1 os st1 THROTTLE_CONTROLLER_OK] cs(2,3)
      by (auto simp: candidate_valid_iff move_rc_def)
    obtain c3 st3 w3 ov3 where un: "apply_unseen os base n (c2, st2, w2, ov2) = (c3, st3, w3, ov3)"
      by (rule prod_cases4)
    note un_inv = apply_unseen_inv [OF loop(2) un]
    have res: "rc = ov3" "cp' = Some c3" "w' = w3"
      using app inv pre now Inr loop(1) un
      by (simp_all add: throttle_controller_apply_candidates_def controller_inv_def cs(1) c1_def st1_def
          unseen_def [abs_def])
    have "pids c2 = pids c \<union> ic_pid ` set cs"
      using apply_loop_pids [OF loop(1)] pids1 by simp
    with inv pre now Inr res un_inv loop(3-6) cs(1) show ?thesis
      by (auto simp: controller_inv_def c1_def origin_unseen)
  qed
qed

text \<open>Releasing all records.\<close>

lemma release_all_cases:
  assumes inv: "controller_inv base c w"
    and rel: "throttle_controller_release_all os base (Some c) stats w = (rc, cp', stats', w')"
  shows "(rc = THROTTLE_CONTROLLER_ERR_TIME \<and> cp' = Some c \<and> w_writes w' = w_writes w) \<or>
    (\<exists>c'. move_rc rc \<and> cp' = Some c' \<and> controller_inv base c' w' \<and> tk_cfg c' = tk_cfg c \<and>
       pids c' = pids c \<and> (rc = THROTTLE_CONTROLLER_OK \<longrightarrow> (\<forall>r \<in> set (tk_records c'). \<not> throttled r)))"
proof -
  obtain t w1 where now: "controller_now_ns os c w = (t, w1)" by (rule prod.exhaust)
  show ?thesis
  proof (cases t)
    case (Inl e)
    from controller_now_ns_Inl [of os c w e w1] now Inl have "e = THROTTLE_CONTROLLER_ERR_TIME" by simp
    with rel inv now Inl controller_now_ns_writes [OF now] show ?thesis
      by (auto simp: throttle_controller_release_all_def controller_inv_def)
  next
    case (Inr n)
    obtain ov rs st2 w2 where
      loop: "for_records (release_record os base (tk_cfg c) n) (tk_records c)
               (map_option (\<lambda>_. throttle_controller_stats_reset) stats) w1 THROTTLE_CONTROLLER_OK = (ov, rs, st2, w2)"
      by (rule prod_cases4)
    have res: "rc = ov" "cp' = Some (c\<lparr>tk_records := rs\<rparr>)" "w' = w2"
      using rel inv now Inr loop by (auto simp: throttle_controller_release_all_def controller_inv_def)
    have "table_inv base (tk_cfg c) ([] @ rs) w2"
      by (rule release_loop.loop_inv [OF _ loop])
        (use inv in \<open>simp add: controller_inv_def table_inv_writes [OF controller_now_ns_writes [OF now]]\<close>)
    moreover note rel = release_loop.loop_rel [OF loop]
    have "map tr_pid rs = map tr_pid (tk_records c)"
      using rel by (auto simp: list_all2_conv_all_nth intro!: nth_equalityI)
    then have "tr_pid ` set rs = tr_pid ` set (tk_records c)" by (metis set_map)
    moreover have "length rs = length (tk_records c)" using rel by (simp add: list_all2_lengthD)
    moreover have "move_rc ov \<and> (ov = THROTTLE_CONTROLLER_OK \<longrightarrow> (\<forall>r \<in> set rs. \<not> throttled r))"
      using release_loop_done [OF loop] by (simp add: move_rc_def)
    ultimately show ?thesis using inv res by (auto simp: controller_inv_def pids_def)
  qed
qed

subsection \<open>Initialisation and runs\<close>

lemma throttle_controller_init_OK:
  assumes "throttle_controller_init rnd os base cfgp w = (THROTTLE_CONTROLLER_OK, c, w')"
    and "\<forall>pid > 0. placement base (w_writes w) pid \<noteq> Some (tc_throttled_group (tk_cfg c))"
  shows "controller_inv base c w'"
proof -
  define cfg where "cfg = (case cfgp of None \<Rightarrow> throttle_controller_config_default rnd | Some c \<Rightarrow> c)"
  note init = throttle_controller_init_def cfg_def [symmetric] Let_def
  have ok: "validate_config (Some cfg) = THROTTLE_CONTROLLER_OK"
    using assms(1) by (auto simp: init split: if_splits)
  obtain m w1 where mem: "sys_calloc os (tc_max_records cfg) w = (m, w1)" by (rule prod.exhaust)
  obtain k1 w2 where k1: "(if \<not> tc_dry_run cfg \<and> tc_configure_throttled_cpu_max cfg
      then cgroup_set_cpu_max os base (tc_throttled_group cfg) (Some (cstr (tc_throttled_cpu_max cfg))) w1
      else (0, w1)) = (k1, w2)" by (rule prod.exhaust)
  obtain k2 w3 where k2: "(if \<not> tc_dry_run cfg \<and> tc_configure_protected_memory_low cfg
      then cgroup_set_memory_low os base (tc_protected_group cfg) (Some (cstr (tc_protected_memory_low cfg))) w2
      else (0, w2)) = (k2, w3)" by (rule prod.exhaust)
  have c: "c = throttle_controller_zero\<lparr>tk_cfg := cfg, tk_record_cap := tc_max_records cfg, tk_initialized := True\<rparr>"
    and w': "w' = w3"
    using assms(1) ok mem k1 k2 by (auto simp: init split: if_splits)
  have "placement base (w_writes w1) pid = placement base (w_writes w) pid" for pid
    using mem by (auto simp: sys_calloc_def)
  moreover have "placement base (w_writes w2) pid = placement base (w_writes w1) pid" for pid
    using k1 cgroup_write_control_cases [of os base "tc_throttled_group cfg" "''cpu.max''"
        "cstr (tc_throttled_cpu_max cfg)" w1 k1 w2]
    by (auto simp: cgroup_set_cpu_max_def placement_other_file split: if_splits)
  moreover have "placement base (w_writes w3) pid = placement base (w_writes w2) pid" for pid
    using k2 cgroup_write_control_cases [of os base "tc_protected_group cfg" "''memory.low''"
        "cstr (tc_protected_memory_low cfg)" w2 k2 w3]
    by (auto simp: cgroup_set_memory_low_def placement_other_file split: if_splits)
  ultimately show ?thesis
    using assms(2) ok validate_config_groups_ok [OF ok]
    by (simp add: controller_inv_def c w' throttle_controller_zero_def table_inv_def agree_def)
qed

text \<open>The runs of a controller: initialisation, then intervals and rollbacks in any order, against
  any answers of the operating system, with calls of other components that write no control file in between.\<close>

inductive throttle_run :: "string \<Rightarrow> throttle_controller \<Rightarrow> world \<Rightarrow> bool" for base :: string where
  start: "throttle_controller_init rnd os base cfgp w = (THROTTLE_CONTROLLER_OK, c, w') \<Longrightarrow>
    \<forall>pid > 0. placement base (w_writes w) pid \<noteq> Some (tc_throttled_group (tk_cfg c)) \<Longrightarrow>
    throttle_run base c w'"
| interval: "throttle_run base c w \<Longrightarrow>
    throttle_controller_apply_candidates os base (Some c) csp stats w = (rc, Some c', stats', w') \<Longrightarrow>
    throttle_run base c' w'"
| rollback: "throttle_run base c w \<Longrightarrow>
    throttle_controller_release_all os base (Some c) stats w = (rc, Some c', stats', w') \<Longrightarrow>
    throttle_run base c' w'"
| elsewhere: "throttle_run base c w \<Longrightarrow> w_writes w' = w_writes w \<Longrightarrow> throttle_run base c w'"

lemma controller_inv_writes: "controller_inv base c w \<Longrightarrow> w_writes w' = w_writes w \<Longrightarrow> controller_inv base c w'"
  by (simp add: controller_inv_def table_inv_def agree_def)

lemma throttle_run_inv: "throttle_run base c w \<Longrightarrow> controller_inv base c w"
proof (induction rule: throttle_run.induct)
  case (start rnd os cfgp w c w')
  then show ?case by (rule throttle_controller_init_OK)
next
  case (interval c w os csp stats rc c' stats' w')
  from apply_candidates_cases [OF interval.IH interval.hyps(2)] interval.IH show ?case
    by (auto intro: controller_inv_writes)
next
  case (rollback c w os stats rc c' stats' w')
  from release_all_cases [OF rollback.IH rollback.hyps(2)] rollback.IH show ?case
    by (auto intro: controller_inv_writes)
next
  case (elsewhere c w w')
  from elsewhere.IH elsewhere.hyps(2) show ?case by (rule controller_inv_writes)
qed

end
