(* ===== verification/Throttle_Properties.thy ===== *)
theory Throttle_Properties
  imports Throttle_Correct
begin

text \<open>
  What the throttle controller guarantees to the daemon, over its public operations. The
  proofs combine the case lemmas of \<open>Throttle_Correct\<close> with three further facts on the loops:
  where a throttled record comes from, what happens to a record no candidate mentions, and how
  the statistics count.
\<close>

subsection \<open>Looking up records\<close>

lemma get_record_Some_iff:
  assumes "controller_inv base c w"
  shows "throttle_controller_get_record (Some c) pid = Some r \<longleftrightarrow> r \<in> set (tk_records c) \<and> tr_pid r = pid"
proof -
  have init: "tk_initialized c" and dist: "distinct (map tr_pid (tk_records c))"
    and pos: "\<forall>r \<in> set (tk_records c). 0 < tr_pid r"
    using assms by (auto simp: controller_inv_def table_inv_def)
  show ?thesis
  proof
    assume "throttle_controller_get_record (Some c) pid = Some r"
    then show "r \<in> set (tk_records c) \<and> tr_pid r = pid"
      by (auto simp: throttle_controller_get_record_def split: if_splits dest!: find_record_Some)
  next
    assume r: "r \<in> set (tk_records c) \<and> tr_pid r = pid"
    then have "pid \<in> pids c" by (auto simp: pids_def)
    then obtain i where i: "find_record c pid = Some i" by (metis find_record_None not_None_eq)
    from r obtain j where j: "j < length (tk_records c)" "r = tk_records c ! j"
      by (auto simp: in_set_conv_nth)
    with r dist find_record_Some [OF i] have "i = j" by (metis distinct_nth_inj)
    moreover have "0 < pid" using r pos by auto
    ultimately show "throttle_controller_get_record (Some c) pid = Some r"
      using i j init by (simp add: throttle_controller_get_record_def)
  qed
qed

lemma get_record_None_iff:
  assumes "controller_inv base c w"
  shows "throttle_controller_get_record (Some c) pid = None \<longleftrightarrow> pid \<notin> pids c"
  using get_record_Some_iff [OF assms, of pid] unfolding pids_def
  by (metis (no_types, lifting) imageE imageI not_Some_eq)

lemma controller_inv_placement:
  assumes inv: "controller_inv base c w" and "\<not> tc_dry_run (tk_cfg c)" "0 < pid"
  shows "placement base (w_writes w) pid = Some (tc_throttled_group (tk_cfg c)) \<longleftrightarrow>
    (\<exists>r. throttle_controller_get_record (Some c) pid = Some r \<and> throttled r)"
  using assms by (auto simp: get_record_Some_iff [OF inv] controller_inv_def table_inv_def agree_def)

lemma origin_cases:
  "origin cfg now old r' \<Longrightarrow>
     (\<exists>r \<in> set old. tr_pid r = tr_pid r' \<and> record_trans cfg now r r') \<or>
     (tr_pid r' \<notin> tr_pid ` set old \<and> tr_state r' \<in> {THROTTLE_STATE_NONE, THROTTLE_STATE_THROTTLED})"
  unfolding origin_def by (elim disjE conjE exE) (simp_all add: record_trans_iff, auto)

subsection \<open>Throttling happens on request only\<close>

definition requested :: "throttle_controller_config \<Rightarrow> interference_candidate list \<Rightarrow> pid_t \<Rightarrow> bool" where
  "requested cfg cs pid \<longleftrightarrow> (\<exists>x \<in> set cs. ic_pid x = pid \<and> candidate_requests_throttle cfg x)"

definition throttled_pids :: "throttle_controller \<Rightarrow> pid_t set" where
  "throttled_pids c = tr_pid ` set (filter throttled (tk_records c))"

lemma step_record_request:
  assumes "step_record os base cfg now x r st w ov = (ov', r', st', w')" "throttled r'"
  shows "throttled r \<or> candidate_requests_throttle cfg x"
  using assms
  by (auto simp: step_record_def step_none_def step_throttled_def step_cooldown_def Let_def
      split: throttle_state.splits if_splits prod.splits)

lemma apply_candidate_request:
  assumes "apply_candidate os base now x (c, st, w, ov) = Inr (c', st', w', ov')"
  shows "tk_cfg c' = tk_cfg c \<and> throttled_pids c' \<subseteq> throttled_pids c \<union> {pid. requested (tk_cfg c) [x] pid}"
  using assms
proof (rule apply_candidateE)
  fix xs r ys r'
  assume c': "c' = c\<lparr>tk_records := xs @ r' # ys\<rparr>" and r: "tr_pid r = ic_pid x"
    and step: "step_record os base (tk_cfg c) now x (touch_record now x r)
       (map_option (\<lambda>s. s\<lparr>ts_records_seen := Suc (ts_records_seen s)\<rparr>) st) w ov = (ov', r', st', w')"
    and kind: "tk_records c = xs @ r # ys \<or>
      (tk_records c = xs \<and> ys = [] \<and> ic_pid x \<notin> pids c \<and> r = fresh_record (ic_pid x) now)"
  from step_record_request [OF step] have "throttled r' \<Longrightarrow> throttled r \<or> requested (tk_cfg c) [x] (ic_pid x)"
    by (auto simp: requested_def)
  moreover from step_record_good [OF step] r have "tr_pid r' = ic_pid x" by (simp add: good_step_def)
  moreover have "throttled r \<Longrightarrow> tk_records c = xs @ r # ys" using kind by auto
  then have "throttled r \<Longrightarrow> ic_pid x \<in> throttled_pids c"
    unfolding throttled_pids_def r [symmetric] by (auto intro!: imageI)
  moreover have "throttled_pids c' \<subseteq> throttled_pids c \<union> (if throttled r' then {tr_pid r'} else {})"
    using c' kind by (auto simp: throttled_pids_def)
  ultimately show "tk_cfg c' = tk_cfg c \<and>
      throttled_pids c' \<subseteq> throttled_pids c \<union> {pid. requested (tk_cfg c) [x] pid}"
    using c' by (auto split: if_splits)
qed

lemma apply_loop_request:
  "apply_loop os base now cs (c, st, w, ov) = Inr (c', st', w', ov') \<Longrightarrow>
   tk_cfg c' = tk_cfg c \<and> throttled_pids c' \<subseteq> throttled_pids c \<union> {pid. requested (tk_cfg c) cs pid}"
proof (induction cs arbitrary: c st w ov)
  case Nil
  then show ?case by simp
next
  case (Cons x cs)
  from Cons.prems obtain c1 st1 w1 ov1 where
    one: "apply_candidate os base now x (c, st, w, ov) = Inr (c1, st1, w1, ov1)" and
    rest: "apply_loop os base now cs (c1, st1, w1, ov1) = Inr (c', st', w', ov')"
    by (auto split: sum.splits)
  from Cons.IH [OF rest] apply_candidate_request [OF one] show ?case
    by (auto simp: requested_def)
qed

lemma unseen_record_throttled:
  "unseen_record os base cfg now r st w ov = (ov', r', st', w') \<Longrightarrow> throttled r' \<Longrightarrow> throttled r"
  by (auto simp: unseen_record_def Let_def split: if_splits prod.splits)

lemma unseen_loop_throttled:
  assumes "for_records (unseen_record os base cfg now) rs st w ov = (ov', rs', st', w')"
  shows "tr_pid ` set (filter throttled rs') \<subseteq> tr_pid ` set (filter throttled rs)"
  using assms
proof (induction rs arbitrary: st w ov rs')
  case Nil
  then show ?case by simp
next
  case (Cons r rs)
  from Cons.prems obtain ov1 r1 st1 w1 rs1 where
    step: "unseen_record os base cfg now r st w ov = (ov1, r1, st1, w1)" and
    rest: "for_records (unseen_record os base cfg now) rs st1 w1 ov1 = (ov', rs1, st', w')"
    and rs': "rs' = r1 # rs1" by (auto split: prod.splits)
  have "tr_pid r1 = tr_pid r" using unseen_record_good [OF step] by (simp add: good_step_def)
  with Cons.IH [OF rest] unseen_record_throttled [OF step] show ?case by (auto simp: rs')
qed

text \<open>The parts of an interval that is not rejected.\<close>

lemma apply_candidates_parts:
  assumes inv: "controller_inv base c w"
    and app: "throttle_controller_apply_candidates os base (Some c) (Some cs) stats w = (rc, Some c', stats', w')"
    and ok: "move_rc rc"
  obtains now w1 c2 st2 w2 ov2 where
    "controller_now_ns os c w = (Inr now, w1)"
    "prevalidate_candidates c (Some cs) = THROTTLE_CONTROLLER_OK"
    "apply_loop os base now cs (c\<lparr>tk_records := map unseen (tk_records c)\<rparr>,
       map_option (\<lambda>_. throttle_controller_stats_reset\<lparr>ts_candidate_count := length cs\<rparr>) stats, w1,
       THROTTLE_CONTROLLER_OK) = Inr (c2, st2, w2, ov2)"
    "apply_unseen os base now (c2, st2, w2, ov2) = (c', stats', w', rc)"
    "loop_inv base now (map unseen (tk_records c)) (ic_pid ` set cs) [] c2 w2"
    "tk_cfg c2 = tk_cfg c"
proof -
  from apply_candidates_cases [OF inv app] ok obtain now w1 where
    now: "controller_now_ns os c w = (Inr now, w1)" and
    pre: "prevalidate_candidates c (Some cs) = THROTTLE_CONTROLLER_OK" by auto
  let ?c1 = "c\<lparr>tk_records := map unseen (tk_records c)\<rparr>"
  let ?st1 = "map_option (\<lambda>_. throttle_controller_stats_reset\<lparr>ts_candidate_count := length cs\<rparr>) stats"
  from start_loop_inv [OF inv pre now] prevalidate_OK [OF pre]
  obtain c2 st2 w2 ov2 where loop:
    "apply_loop os base now cs (?c1, ?st1, w1, THROTTLE_CONTROLLER_OK) = Inr (c2, st2, w2, ov2)"
    "loop_inv base now (map unseen (tk_records c)) (ic_pid ` set cs) [] c2 w2" "tk_cfg c2 = tk_cfg c"
    using apply_loop_inv [of base now "map unseen (tk_records c)" "{}" cs ?c1 w1 os ?st1 THROTTLE_CONTROLLER_OK]
    by (auto simp: candidate_valid_iff)
  have "apply_unseen os base now (c2, st2, w2, ov2) = (c', stats', w', rc)"
    using app inv pre now loop(1)
    by (simp add: throttle_controller_apply_candidates_def controller_inv_def
        unseen_def [abs_def] option.map_comp comp_def split: prod.splits)
  with now pre loop show thesis by (intro that)
qed

lemma accepted_interval:
  assumes inv: "controller_inv base c w"
    and app: "throttle_controller_apply_candidates os base (Some c) (Some cs) stats w = (rc, cp', stats', w')"
    and pre: "prevalidate_candidates c (Some cs) = THROTTLE_CONTROLLER_OK"
    and now: "controller_now_ns os c w = (Inr now, w1)"
  obtains c' where "move_rc rc" "cp' = Some c'" "controller_inv base c' w'" "tk_cfg c' = tk_cfg c"
    "pids c' = pids c \<union> ic_pid ` set cs"
proof -
  let ?c1 = "c\<lparr>tk_records := map unseen (tk_records c)\<rparr>"
  let ?st1 = "map_option (\<lambda>_. throttle_controller_stats_reset\<lparr>ts_candidate_count := length cs\<rparr>) stats"
  from start_loop_inv [OF inv pre now] prevalidate_OK [OF pre]
  obtain c2 st2 w2 ov2 where loop:
    "apply_loop os base now cs (?c1, ?st1, w1, THROTTLE_CONTROLLER_OK) = Inr (c2, st2, w2, ov2)"
    "loop_inv base now (map unseen (tk_records c)) (ic_pid ` set cs) [] c2 w2" "move_rc ov2"
    using apply_loop_inv [of base now "map unseen (tk_records c)" "{}" cs ?c1 w1 os ?st1 THROTTLE_CONTROLLER_OK]
    by (auto simp: candidate_valid_iff move_rc_def)
  have "rc = snd (snd (snd (apply_unseen os base now (c2, st2, w2, ov2))))"
    using app inv pre now loop(1)
    by (auto simp: throttle_controller_apply_candidates_def controller_inv_def
        unseen_def [abs_def] option.map_comp comp_def split: prod.splits)
  with loop(2,3) have "move_rc rc"
    by (metis apply_unseen_inv(9) prod_cases4 snd_conv)
  with apply_candidates_cases [OF inv app] show thesis by (auto intro: that)
qed

subsection \<open>A record no candidate mentions\<close>

lemma unseen_loop_member:
  assumes "for_records (unseen_record os base cfg now) rs st w ov = (ov', rs', st', w')" "r \<in> set rs"
  shows "\<exists>r' st1 w1 ov1 ov2 st2 w2. r' \<in> set rs' \<and> unseen_record os base cfg now r st1 w1 ov1 = (ov2, r', st2, w2)"
  using assms
proof (induction rs arbitrary: st w ov rs')
  case Nil
  then show ?case by simp
next
  case (Cons a rs)
  from Cons.prems(1) obtain ov1 r1 st1 w1 rs1 where
    step: "unseen_record os base cfg now a st w ov = (ov1, r1, st1, w1)" and
    rest: "for_records (unseen_record os base cfg now) rs st1 w1 ov1 = (ov', rs1, st', w')"
    and rs': "rs' = r1 # rs1" by (auto split: prod.splits)
  show ?case
  proof (cases "r = a")
    case True
    with step rs' show ?thesis by (metis list.set_intros(1))
  next
    case False
    with Cons.prems(2) Cons.IH [OF rest] rs' show ?thesis by (metis list.set_intros(2) set_ConsD)
  qed
qed

lemma unseen_record_release:
  assumes "unseen_record os base cfg now r st w ov = (ov', r', st', w')"
    and "\<not> tr_seen_in_last_apply r" "throttled r"
    and "elapsed_at_least now (tr_last_seen_ns r) (tc_stale_after_ms cfg)"
    and "elapsed_at_least now (tr_state_entered_ns r) (tc_min_throttle_duration_ms cfg)"
    and "\<forall>v path text. os_write os v path text = W_OK" "base_ok base" "groups_ok cfg"
    and "0 < tr_pid r" "tr_pid r < 2 ^ 31"
  shows "tr_state r' = THROTTLE_STATE_COOLDOWN \<and> tr_pid r' = tr_pid r"
proof -
  from assms(1-5) obtain rc where
    rel: "release_record_pid os base cfg now True r st w = (rc, r', st', w')"
    by (auto simp: unseen_record_def split: prod.splits)
  have "fst (move_pid os base cfg (tr_pid r) (tc_normal_group cfg) w) = THROTTLE_CONTROLLER_OK"
    using cgroup_move_pid_succeeds [of os base "tc_normal_group cfg" "tr_pid r" w] assms(6-10)
    by (auto simp: move_pid_def groups_ok_def split: prod.splits)
  with rel show ?thesis
    by (auto simp: release_record_pid_def split: prod.splits)
qed

text \<open>After the candidate loop, a record that no candidate mentions is still what it was.\<close>

lemma loop_inv_untouched:
  assumes "loop_inv base now old seen [] c w" "r \<in> set old" "tr_pid r \<notin> seen"
    and "distinct (map tr_pid old)"
  shows "r \<in> set (tk_records c)"
proof -
  have seen: "seen_inv (tk_cfg c) now old seen (tk_records c)" using assms(1) by (simp add: loop_inv_def)
  then obtain s where s: "s \<in> set (tk_records c)" "tr_pid s = tr_pid r"
    using assms(2) unfolding seen_inv_def by (metis (no_types, lifting) imageE imageI subsetD)
  with seen assms(3) have "s \<in> set old" unfolding seen_inv_def by metis
  with s(2) assms(2,4) have "s = r" by (metis in_set_conv_nth distinct_nth_inj)
  with s show ?thesis by simp
qed

subsection \<open>What the statistics count\<close>

definition outcomes :: "throttle_controller_stats \<Rightarrow> nat" where
  "outcomes s = ts_throttle_actions s + ts_release_actions s + ts_kept_throttled s +
     ts_skipped_low_score s + ts_skipped_cooldown s + ts_errors s"

text \<open>\<open>counted k st st' ov ov'\<close>: \<open>k\<close> more outcomes, and an error is counted exactly when the
  overall code has become an error.\<close>

definition counted :: "nat \<Rightarrow> throttle_controller_stats option \<Rightarrow> throttle_controller_stats option \<Rightarrow>
    throttle_controller_rc \<Rightarrow> throttle_controller_rc \<Rightarrow> bool" where
  "counted k st st' ov ov' \<longleftrightarrow>
     (case st of None \<Rightarrow> st' = None
      | Some s \<Rightarrow> (\<exists>s'. st' = Some s' \<and> outcomes s' = outcomes s + k \<and>
          ((ov = THROTTLE_CONTROLLER_OK \<longleftrightarrow> ts_errors s = 0) \<longrightarrow>
           (ov' = THROTTLE_CONTROLLER_OK \<longleftrightarrow> ts_errors s' = 0))))"

lemma counted_refl: "counted 0 st st ov ov"
  by (auto simp: counted_def split: option.split)

lemma counted_trans:
  "counted k st st1 ov ov1 \<Longrightarrow> counted l st1 st' ov1 ov' \<Longrightarrow> counted (k + l) st st' ov ov'"
  by (auto simp: counted_def split: option.splits)

lemma throttle_record_pid_counted:
  assumes "throttle_record_pid os base cfg now r st w = (rc, r', st', w')"
  shows "counted (Suc 0) st st' ov (keep_error rc ov)"
proof -
  obtain k v where "move_pid os base cfg (tr_pid r) (tc_throttled_group cfg) w = (k, v)"
    by (rule prod.exhaust)
  with assms show ?thesis
    by (auto simp: throttle_record_pid_def counted_def keep_error_def outcomes_def set_stats_error_def
        split: option.split if_splits)
qed

lemma release_record_pid_counted:
  assumes "release_record_pid os base cfg now stale r st w = (rc, r', st', w')"
  shows "counted (Suc 0) st st' ov (keep_error rc ov)"
proof -
  obtain k v where "move_pid os base cfg (tr_pid r) (tc_normal_group cfg) w = (k, v)"
    by (rule prod.exhaust)
  with assms show ?thesis
    by (auto simp: release_record_pid_def counted_def keep_error_def outcomes_def set_stats_error_def
        split: option.split if_splits)
qed

lemma counted_map:
  assumes "\<And>s. outcomes (f s) = Suc (outcomes s)" "\<And>s. ts_errors (f s) = ts_errors s"
  shows "counted (Suc 0) st (map_option f st) ov ov"
  using assms by (auto simp: counted_def split: option.split)

lemma step_record_counted:
  assumes "step_record os base cfg now x r st w ov = (ov', r', st', w')" "good_state r"
  shows "counted (Suc 0) st st' ov ov'"
  using assms
  by (auto simp: step_record_def step_none_def step_throttled_def step_cooldown_def good_state_def Let_def
      outcomes_def split: throttle_state.splits if_splits prod.splits
      intro: throttle_record_pid_counted release_record_pid_counted intro!: counted_map )

lemma unseen_record_counted:
  assumes "unseen_record os base cfg now r st w ov = (ov', r', st', w')"
  shows "counted (if \<not> tr_seen_in_last_apply r \<and> throttled r then Suc 0 else 0) st st' ov ov'"
  using assms
  by (auto simp: unseen_record_def Let_def outcomes_def counted_refl split: if_splits prod.splits
      intro: release_record_pid_counted  intro!: counted_map )

lemma unseen_loop_counted:
  assumes "for_records (unseen_record os base cfg now) rs st w ov = (ov', rs', st', w')"
  shows "counted (length (filter (\<lambda>r. \<not> tr_seen_in_last_apply r \<and> throttled r) rs)) st st' ov ov'"
  using assms
proof (induction rs arbitrary: st w ov rs')
  case Nil
  then show ?case by (simp add: counted_refl)
next
  case (Cons r rs)
  from Cons.prems obtain ov1 r1 st1 w1 rs1 where
    step: "unseen_record os base cfg now r st w ov = (ov1, r1, st1, w1)" and
    rest: "for_records (unseen_record os base cfg now) rs st1 w1 ov1 = (ov', rs1, st', w')"
    by (auto split: prod.splits)
  from counted_trans [OF unseen_record_counted [OF step] Cons.IH [OF rest]] show ?case
    by (auto split: if_splits)
qed

text \<open>The two input counters.\<close>

definition seen_counts :: "throttle_controller_stats option \<Rightarrow> (nat \<times> nat) option" where
  "seen_counts st = map_option (\<lambda>s. (ts_candidate_count s, ts_records_seen s)) st"

lemma seen_counts_map [simp]:
  "seen_counts (map_option f st) = map_option (\<lambda>s. (ts_candidate_count (f s), ts_records_seen (f s))) st"
  "seen_counts (set_stats_error st rc reason) = seen_counts st"
  by (simp_all add: seen_counts_def set_stats_error_def option.map_comp comp_def)

lemma pid_action_seen_counts:
  "throttle_record_pid os base cfg now r st w = (rc, r', st', w') \<Longrightarrow> seen_counts st' = seen_counts st"
  "release_record_pid os base cfg now stale r st w = (rc, r', st', w') \<Longrightarrow> seen_counts st' = seen_counts st"
  by (auto simp: throttle_record_pid_def release_record_pid_def Let_def seen_counts_def set_stats_error_def
      option.map_comp comp_def split: prod.splits if_splits)

lemma step_record_seen_counts:
  "step_record os base cfg now x r st w ov = (ov', r', st', w') \<Longrightarrow> seen_counts st' = seen_counts st"
  by (auto simp: step_record_def step_none_def step_throttled_def step_cooldown_def Let_def
      seen_counts_def [of st] split: throttle_state.splits if_splits prod.splits dest!: pid_action_seen_counts)

lemma unseen_record_seen_counts:
  "unseen_record os base cfg now r st w ov = (ov', r', st', w') \<Longrightarrow> seen_counts st' = seen_counts st"
  by (auto simp: unseen_record_def Let_def seen_counts_def option.map_comp comp_def
      split: if_splits prod.splits dest!: pid_action_seen_counts)

lemma unseen_loop_seen_counts:
  "for_records (unseen_record os base cfg now) rs st w ov = (ov', rs', st', w') \<Longrightarrow>
   seen_counts st' = seen_counts st"
  by (induction rs arbitrary: st w ov rs') (auto split: prod.splits dest: unseen_record_seen_counts)

lemma apply_loop_counted:
  assumes "apply_loop os base now cs (c, st, w, ov) = Inr (c', st', w', ov')"
    and "\<forall>r \<in> set (tk_records c). good_state r"
  shows "counted (length cs) st st' ov ov' \<and>
    seen_counts st' = map_option (\<lambda>s. (ts_candidate_count s, ts_records_seen s + length cs)) st"
  using assms
proof (induction cs arbitrary: c st w ov)
  case Nil
  then show ?case by (simp add: counted_refl seen_counts_def)
next
  case (Cons x cs)
  from Cons.prems(1) obtain c1 st1 w1 ov1 where
    one: "apply_candidate os base now x (c, st, w, ov) = Inr (c1, st1, w1, ov1)" and
    rest: "apply_loop os base now cs (c1, st1, w1, ov1) = Inr (c', st', w', ov')"
    by (auto split: sum.splits)
  let ?st = "map_option (\<lambda>s. s\<lparr>ts_records_seen := Suc (ts_records_seen s)\<rparr>) st"
  from one obtain xs r ys r' where
    c1: "c1 = c\<lparr>tk_records := xs @ r' # ys\<rparr>" and
    step: "step_record os base (tk_cfg c) now x (touch_record now x r) ?st w ov = (ov1, r', st1, w1)" and
    kind: "tk_records c = xs @ r # ys \<or>
      (tk_records c = xs \<and> ys = [] \<and> ic_pid x \<notin> pids c \<and> r = fresh_record (ic_pid x) now)"
    by (rule apply_candidateE) blast
  have r: "good_state (touch_record now x r)" using kind Cons.prems(2) by (auto simp: good_state_def)
  have "good_state r'" using step_record_good [OF step] r by (auto simp: good_step_def intro: record_trans_good_state)
  with c1 kind Cons.prems(2) have "\<forall>r \<in> set (tk_records c1). good_state r" by auto
  note IH = Cons.IH [OF rest this]
  have "counted 0 st ?st ov ov" by (auto simp: counted_def outcomes_def split: option.split)
  from counted_trans [OF counted_trans [OF this step_record_counted [OF step r]]] IH
  have "counted (length (x # cs)) st st' ov ov'" by simp
  moreover have "seen_counts st1 = map_option (\<lambda>s. (ts_candidate_count s, Suc (ts_records_seen s))) st"
    using step_record_seen_counts [OF step] by simp
  ultimately show ?case using IH by (cases st; cases st1) (auto simp: seen_counts_def)
qed

lemma filter_unseen_mentioned:
  assumes inv: "loop_inv base now (map unseen (tk_records c)) (ic_pid ` set cs) [] c2 w2"
    and dist: "distinct (map tr_pid (tk_records c))"
  shows "length (filter (\<lambda>r. \<not> tr_seen_in_last_apply r \<and> throttled r) (tk_records c2)) =
         length (filter (\<lambda>r. throttled r \<and> tr_pid r \<notin> ic_pid ` set cs) (tk_records c))"
proof -
  let ?f = "filter (\<lambda>r. \<not> tr_seen_in_last_apply r \<and> throttled r) (tk_records c2)"
  let ?g = "filter (\<lambda>r. throttled r \<and> tr_pid r \<notin> ic_pid ` set cs) (tk_records c)"
  have d2: "distinct (map tr_pid ?f)"
    using inv by (simp add: loop_inv_def table_inv_def distinct_map_filter)
  have "set ?f = unseen ` set ?g"
  proof (intro equalityI subsetI)
    fix r
    assume r: "r \<in> set ?f"
    then have "tr_pid r \<notin> ic_pid ` set cs" "r \<in> set (map unseen (tk_records c))"
      using inv by (auto simp: loop_inv_def seen_inv_def)
    with r show "r \<in> unseen ` set ?g" by auto
  next
    fix r
    assume "r \<in> unseen ` set ?g"
    then obtain s where s: "r = unseen s" "s \<in> set (tk_records c)" "throttled s" "tr_pid s \<notin> ic_pid ` set cs"
      by auto
    with loop_inv_untouched [OF inv, of r] dist have "r \<in> set (tk_records c2)" by simp
    with s show "r \<in> set ?f" by simp
  qed
  then have "tr_pid ` set ?f = tr_pid ` set ?g" by (simp only: image_image unseen_simps)
  then have "card (set (map tr_pid ?f)) = card (set (map tr_pid ?g))" by (simp only: set_map)
  with d2 dist show ?thesis by (simp only: distinct_card distinct_map_filter length_map)
qed

subsection \<open>A concrete run\<close>

text \<open>Initialisation with the default configuration, then one interval with one candidate that asks
  for throttling of process 7.\<close>

definition demo_candidate :: interference_candidate where
  "demo_candidate = interference_candidate_reset\<lparr>ic_pid := 7, ic_final_score := Fin 1, ic_active := True,
     ic_should_throttle := True\<rparr>"

definition demo_start :: "throttle_controller \<times> world" where
  "demo_start = snd (throttle_controller_init Fin os_fine ''/b'' None world0)"

definition demo_next :: "throttle_controller \<times> world" where
  "demo_next = (case throttle_controller_apply_candidates os_fine ''/b'' (Some (fst demo_start))
     (Some [demo_candidate]) None (snd demo_start) of (rc, cp, st, w) \<Rightarrow> (the cp, w))"

lemmas demo_defs = demo_start_def throttle_controller_init_def validate_config_def Let_def
  throttle_controller_config_default_def snprintf_s_def valid_control_value_def bounded_strlen_def
  cstr_def NUL_def THROTTLE_CONTROLLER_VALUE_MAX_def os_defs os_fine_def cgroup_set_cpu_max_def
  cgroup_write_control_def cgroup_control_path_def cgroup_group_dir_def CGROUP_PATH_MAX_def world0_def
  throttle_controller_zero_def

lemma demo_init:
  "throttle_controller_init Fin os_fine ''/b'' None world0 = (THROTTLE_CONTROLLER_OK, demo_start)"
  by (simp add: demo_defs)

lemma demo_start_eq:
  "demo_start = (throttle_controller_zero\<lparr>tk_cfg := throttle_controller_config_default Fin,
      tk_record_cap := 256, tk_initialized := True\<rparr>,
    \<lparr>w_calls = 2, w_open = 0, w_writes = [(''/b/throttled/cpu.max'', ''20000 100000'' @ [CHR 0x0A])], w_log = []\<rparr>)"
  by (simp add: demo_defs)

lemma demo_start_run: "throttle_run ''/b'' (fst demo_start) (snd demo_start)"
proof (rule throttle_run.start)
  show "throttle_controller_init Fin os_fine ''/b'' None world0 =
      (THROTTLE_CONTROLLER_OK, fst demo_start, snd demo_start)"
    by (simp add: demo_init)
qed (simp add: world0_def)

definition demo_record :: throttle_record where
  "demo_record = (touch_record 2000000000 demo_candidate (fresh_record 7 2000000000))\<lparr>
     tr_state := THROTTLE_STATE_THROTTLED, tr_state_entered_ns := 2000000000,
     tr_last_action_ns := 2000000000, tr_last_error := THROTTLE_CONTROLLER_OK,
     tr_reason := snprintf_s THROTTLE_CONTROLLER_REASON_MAX
       (''throttled: final='' @ show_fixed 4 (Fin 1) @ '' activity='' @ show_fixed 4 (Fin 0) @
        '' overlap='' @ show_fixed 4 (Fin 0))\<rparr>"

lemma show_nat_7: "show_nat 7 = ''7''"
  by (simp add: show_nat.simps dec_digit_def char_of_eq_iff take_bit_eq_mod)

lemma demo_interval_eq:
  "throttle_controller_apply_candidates os_fine ''/b'' (Some (fst demo_start)) (Some [demo_candidate]) None
     (snd demo_start) =
   (THROTTLE_CONTROLLER_OK, Some ((fst demo_start)\<lparr>tk_records := [demo_record]\<rparr>), None,
     \<lparr>w_calls = 4, w_open = 0,
      w_writes = w_writes (snd demo_start) @ [(''/b/throttled/cgroup.procs'', ''7'' @ [CHR 0x0A])], w_log = []\<rparr>)"
  by (simp add: demo_start_eq throttle_controller_apply_candidates_def prevalidate_candidates_def
      candidate_valid_iff demo_candidate_def interference_candidate_reset_def find_record_def
      throttle_controller_zero_def throttle_controller_config_default_def controller_now_ns_def
      monotonic_now_ns_def os_defs os_fine_def apply_candidate_def find_or_create_def create_record_eq
      step_record_def step_none_def candidate_requests_throttle_def throttle_record_pid_def move_pid_def
      cgroup_move_pid_def CGROUP_VALUE_MAX_def snprintf_s_def cgroup_write_control_def
      cgroup_control_path_def cgroup_group_dir_def CGROUP_PATH_MAX_def show_int_def show_nat_7
      keep_error_def demo_record_def apply_unseen_def unseen_record_def touch_record_def)

lemma demo_next_eq: "demo_next = ((fst demo_start)\<lparr>tk_records := [demo_record]\<rparr>,
     \<lparr>w_calls = 4, w_open = 0,
      w_writes = w_writes (snd demo_start) @ [(''/b/throttled/cgroup.procs'', ''7'' @ [CHR 0x0A])], w_log = []\<rparr>)"
  by (simp add: demo_next_def demo_interval_eq)

lemma demo_interval:
  "throttle_controller_apply_candidates os_fine ''/b'' (Some (fst demo_start)) (Some [demo_candidate]) None
     (snd demo_start) = (THROTTLE_CONTROLLER_OK, Some (fst demo_next), None, snd demo_next)"
  by (simp add: demo_interval_eq demo_next_eq)

lemma demo_start_now:
  "controller_now_ns os_fine (fst demo_start) (snd demo_start) = (Inr 2000000000, tick (snd demo_start))"
  by (simp add: demo_start_eq controller_now_ns_def monotonic_now_ns_def clock_gettime_def os_fine_def
      throttle_controller_config_default_def throttle_controller_zero_def)

lemma demo_start_get: "throttle_controller_get_record (Some (fst demo_start)) 7 = None"
  by (simp add: demo_start_eq throttle_controller_get_record_def find_record_def throttle_controller_zero_def)

lemma demo_next_run: "throttle_run ''/b'' (fst demo_next) (snd demo_next)"
  by (rule throttle_run.interval [OF demo_start_run demo_interval])

lemma demo_record_simps [simp]:
  "tr_pid demo_record = 7" "tr_state demo_record = THROTTLE_STATE_THROTTLED"
  "tr_state_entered_ns demo_record = 2000000000" "tr_last_seen_ns demo_record = 2000000000"
  by (simp_all add: demo_record_def touch_record_def)

lemma demo_next_simps [simp]:
  "tk_records (fst demo_next) = [demo_record]" "tk_initialized (fst demo_next)"
  "tk_cfg (fst demo_next) = throttle_controller_config_default Fin" "tk_record_cap (fst demo_next) = 256"
  "w_calls (snd demo_next) = 4"
  by (simp_all add: demo_next_eq demo_start_eq)

lemma demo_next_get: "throttle_controller_get_record (Some (fst demo_next)) 7 = Some demo_record"
  by (simp add: throttle_controller_get_record_def find_record_def)

lemma demo_cfg_simps [simp]:
  "\<not> tc_dry_run (throttle_controller_config_default Fin)"
  "tc_throttled_group (throttle_controller_config_default Fin) = GROUP_THROTTLED"
  "tc_min_throttle_duration_ms (throttle_controller_config_default Fin) = 3000"
  "tc_stale_after_ms (throttle_controller_config_default Fin) = 2000"
  "tc_clock_fn (throttle_controller_config_default Fin) = None"
  by (simp_all add: throttle_controller_config_default_def)

text \<open>An operating system whose clock shows 60 seconds.\<close>

definition os_late :: os where
  "os_late = os_fine\<lparr>os_clock := \<lambda>_. Some (60, 0)\<rparr>"

lemma demo_late_now:
  "controller_now_ns os_late (fst demo_next) w = (Inr 60000000000, tick w)"
  by (simp add: controller_now_ns_def monotonic_now_ns_def clock_gettime_def os_late_def)

subsection \<open>Properties\<close>

text \<open>C1: After any sequence of operations on a controller that was initialised successfully, whatever
  the operating system answered, a process is in the throttled group (by the last completed
  write to a \<open>cgroup.procs\<close> file) exactly when the controller has a record of it in state THROTTLED.\<close>

theorem throttle_run_placement:
  assumes "throttle_run base c w" and "\<not> tc_dry_run (tk_cfg c)" and "0 < pid"
  shows "placement base (w_writes w) pid = Some (tc_throttled_group (tk_cfg c)) \<longleftrightarrow>
    (\<exists>r. throttle_controller_get_record (Some c) pid = Some r \<and> tr_state r = THROTTLE_STATE_THROTTLED)"
  using controller_inv_placement [OF throttle_run_inv [OF assms(1)] assms(2,3)] .

theorem throttle_run_placement_witness:
  "placement ''/b'' (w_writes (snd demo_next)) 7 = Some GROUP_THROTTLED"
  using throttle_run_placement [OF demo_next_run, of 7] demo_next_get by simp

text \<open>C21: A controller stays well formed over every run. It is initialised with an accepted configuration, whose two groups are different managed
  cgroups; it never holds more records than its table has room for; no process has two records, every
  record is of a positive process id, and its state is one of the three of the state machine, never a value outside the enumeration.\<close>

theorem controller_wellformed:
  assumes "throttle_run base c w"
  shows "tk_initialized c \<and> validate_config (Some (tk_cfg c)) = THROTTLE_CONTROLLER_OK \<and>
    managed_group (tc_normal_group (tk_cfg c)) \<and> managed_group (tc_throttled_group (tk_cfg c)) \<and>
    tc_normal_group (tk_cfg c) \<noteq> tc_throttled_group (tk_cfg c) \<and>
    length (tk_records c) \<le> tk_record_cap c \<and> distinct (map tr_pid (tk_records c)) \<and>
    (\<forall>r \<in> set (tk_records c). 0 < tr_pid r \<and>
       tr_state r \<in> {THROTTLE_STATE_NONE, THROTTLE_STATE_THROTTLED, THROTTLE_STATE_COOLDOWN})"
  using throttle_run_inv [OF assms] by (auto simp: controller_inv_def table_inv_def groups_ok_def good_state_def)

theorem controller_wellformed_witness:
  "tk_initialized (fst demo_next) \<and> distinct (map tr_pid (tk_records (fst demo_next)))"
  using controller_wellformed [OF demo_next_run] by blast

text \<open>C3: In one interval a record makes at most one transition of its state machine, and only when
  the timing guard of that transition holds at the time read at the start of the interval; a process that
  had no record starts in state NONE and may enter THROTTLED.\<close>

theorem interval_transitions:
  assumes "throttle_run base c w"
    and "throttle_controller_apply_candidates os base (Some c) csp stats w = (rc, Some c', stats', w')"
    and "controller_now_ns os c w = (Inr now, w1)"
    and "throttle_controller_get_record (Some c') pid = Some r'"
  shows "(\<exists>r. throttle_controller_get_record (Some c) pid = Some r \<and> record_trans (tk_cfg c) now r r') \<or>
    (throttle_controller_get_record (Some c) pid = None \<and>
     tr_state r' \<in> {THROTTLE_STATE_NONE, THROTTLE_STATE_THROTTLED})"
proof -
  note inv = throttle_run_inv [OF assms(1)]
  from apply_candidates_cases [OF inv assms(2)] show ?thesis
  proof (elim disjE exE conjE)
    assume "Some c' = Some c"
    with assms(4) show ?thesis by (auto intro: record_trans.stay)
  next
    fix c'' cs now' w1'
    assume "controller_now_ns os c w = (Inr now', w1')" "Some c' = Some c''" "controller_inv base c'' w'"
      and o: "\<forall>r' \<in> set (tk_records c''). origin (tk_cfg c) now' (tk_records c) r'"
    with assms(3,4) get_record_Some_iff [of base c' w' pid r']
    have "origin (tk_cfg c) now (tk_records c) r'" "tr_pid r' = pid" by auto
    with origin_cases show ?thesis
      by (metis get_record_Some_iff [OF inv] get_record_None_iff [OF inv] pids_def)
  qed
qed

theorem interval_transitions_witness:
  "tr_state demo_record \<in> {THROTTLE_STATE_NONE, THROTTLE_STATE_THROTTLED}"
  using interval_transitions [OF demo_start_run demo_interval demo_start_now demo_next_get]
  by (simp add: demo_start_get)

text \<open>C10: A process that is throttled stays throttled, with its entry time unchanged, in every interval that
  takes place before the minimum throttle duration is over.\<close>

theorem minimum_throttle_time:
  assumes "throttle_run base c w"
    and "throttle_controller_get_record (Some c) pid = Some r" and "tr_state r = THROTTLE_STATE_THROTTLED"
    and "throttle_controller_apply_candidates os base (Some c) csp stats w = (rc, Some c', stats', w')"
    and "controller_now_ns os c w = (Inr now, w1)"
    and "unat now < unat (tr_state_entered_ns r) + unat (ms_to_ns (tc_min_throttle_duration_ms (tk_cfg c)))"
  shows "\<exists>r'. throttle_controller_get_record (Some c') pid = Some r' \<and>
    tr_state r' = THROTTLE_STATE_THROTTLED \<and> tr_state_entered_ns r' = tr_state_entered_ns r"
proof -
  note inv = throttle_run_inv [OF assms(1)]
  have r: "r \<in> set (tk_records c)" "tr_pid r = pid" using assms(2) by (simp_all add: get_record_Some_iff [OF inv])
  have hold: "\<not> elapsed_at_least now (tr_state_entered_ns r) (tc_min_throttle_duration_ms (tk_cfg c))"
    using assms(6) by (simp add: elapsed_at_least_iff)
  from apply_candidates_cases [OF inv assms(4)] show ?thesis
  proof (elim disjE exE conjE)
    assume "Some c' = Some c"
    with assms(2,3) show ?thesis by auto
  next
    fix c'' cs now' w1'
    assume n: "controller_now_ns os c w = (Inr now', w1')" and c': "Some c' = Some c''"
      and inv': "controller_inv base c'' w'" and p: "pids c'' = pids c \<union> ic_pid ` set cs"
      and o: "\<forall>r' \<in> set (tk_records c''). origin (tk_cfg c) now' (tk_records c) r'"
    from r have "pid \<in> pids c" by (auto simp: pids_def)
    then have "pid \<in> pids c''" by (simp add: p)
    then obtain r' where r': "throttle_controller_get_record (Some c'') pid = Some r'"
      using get_record_None_iff [OF inv', of pid] by auto
    then have mem: "r' \<in> set (tk_records c'')" "tr_pid r' = pid" by (simp_all add: get_record_Some_iff [OF inv'])
    with o r obtain s where "s \<in> set (tk_records c)" "tr_pid s = pid" "record_trans (tk_cfg c) now' s r'"
      unfolding origin_def by (metis imageI)
    moreover from this(1,2) have "s = r"
      using assms(2) by (metis get_record_Some_iff [OF inv] option.inject)
    ultimately show ?thesis
      using assms(3,5) n c' hold r' by (auto simp: record_trans_iff)
  qed
qed

theorem minimum_throttle_time_witness:
  "\<exists>cp st w r'. throttle_controller_apply_candidates os_fine ''/b'' (Some (fst demo_next)) (Some []) None
       (snd demo_next) = (THROTTLE_CONTROLLER_OK, Some cp, st, w) \<and>
     throttle_controller_get_record (Some cp) 7 = Some r' \<and> tr_state r' = THROTTLE_STATE_THROTTLED"
proof -
  have now: "controller_now_ns os_fine (fst demo_next) (snd demo_next) = (Inr 4000000000, tick (snd demo_next))"
    by (simp add: controller_now_ns_def monotonic_now_ns_def clock_gettime_def os_fine_def)
  have hold: "\<not> elapsed_at_least 4000000000 2000000000 3000" by code_simp
  then have lt: "unat (4000000000 :: u64) < unat (2000000000 :: u64) + unat (ms_to_ns 3000)"
    by (simp add: elapsed_at_least_iff)
  obtain c' st' w' where app: "throttle_controller_apply_candidates os_fine ''/b'' (Some (fst demo_next)) (Some []) None
       (snd demo_next) = (THROTTLE_CONTROLLER_OK, Some c', st', w')"
    using now hold
    by (simp add: throttle_controller_apply_candidates_def prevalidate_candidates_def apply_unseen_def
        unseen_record_def Let_def)
  from minimum_throttle_time [OF demo_next_run demo_next_get _ app now] lt app show ?thesis by auto
qed

lemma throttled_on_request:
  assumes "throttle_run base c w"
    and "throttle_controller_apply_candidates os base (Some c) csp stats w = (rc, Some c', stats', w')"
    and "throttle_controller_get_record (Some c') pid = Some r'" and "tr_state r' = THROTTLE_STATE_THROTTLED"
  shows "(\<exists>r. throttle_controller_get_record (Some c) pid = Some r \<and> tr_state r = THROTTLE_STATE_THROTTLED) \<or>
    (\<exists>cs x. csp = Some cs \<and> x \<in> set cs \<and> ic_pid x = pid \<and> ic_active x \<and> ic_should_throttle x \<and>
       fle (tc_high_score_threshold (tk_cfg c)) (ic_final_score x))"
proof -
  note inv = throttle_run_inv [OF assms(1)]
  from apply_candidates_cases [OF inv assms(2)] show ?thesis
  proof (elim disjE exE conjE)
    assume "Some c' = Some c"
    with assms(3,4) show ?thesis by auto
  next
    fix c'' cs now' w1'
    assume cs: "csp = Some cs" and rc: "move_rc rc" and c': "Some c' = Some c''" and inv': "controller_inv base c'' w'"
    from assms(2) cs have app:
      "throttle_controller_apply_candidates os base (Some c) (Some cs) stats w = (rc, Some c', stats', w')" by simp
    obtain now w1 c2 st2 w2 ov2 where
      loop: "apply_loop os base now cs (c\<lparr>tk_records := map unseen (tk_records c)\<rparr>,
        map_option (\<lambda>_. throttle_controller_stats_reset\<lparr>ts_candidate_count := length cs\<rparr>) stats, w1,
        THROTTLE_CONTROLLER_OK) = Inr (c2, st2, w2, ov2)" and
      un: "apply_unseen os base now (c2, st2, w2, ov2) = (c', stats', w', rc)"
      by (rule apply_candidates_parts [OF inv app rc])
    from un have "throttled_pids c' \<subseteq> throttled_pids c2"
      by (auto simp: apply_unseen_def throttled_pids_def simp del: set_filter split: prod.splits
          dest!: unseen_loop_throttled)
    moreover have "throttled_pids (c\<lparr>tk_records := map unseen (tk_records c)\<rparr>) = throttled_pids c"
      by (simp add: throttled_pids_def filter_map comp_def image_image del: set_filter)
    with apply_loop_request [OF loop] have "throttled_pids c2 \<subseteq> throttled_pids c \<union> {pid. requested (tk_cfg c) cs pid}"
      by simp
    moreover have "pid \<in> throttled_pids c'"
      using assms(3,4) c' get_record_Some_iff [OF inv', of pid r'] by (auto simp: throttled_pids_def)
    ultimately have "pid \<in> throttled_pids c \<or> requested (tk_cfg c) cs pid" by blast
    with cs show ?thesis
      by (auto simp: throttled_pids_def requested_def candidate_requests_throttle_def get_record_Some_iff [OF inv])
  qed
qed

text \<open>C6: An interval throttles a process only on request: a process whose record is THROTTLED afterwards
  was throttled before, or the list has a candidate for it that the detector marked active
  and to be throttled and whose final score reaches the high threshold.\<close>

theorem throttled_on_request_only:
  assumes "throttle_run base c w"
    and "throttle_controller_apply_candidates os base (Some c) csp stats w = (rc, Some c', stats', w')"
    and "throttle_controller_get_record (Some c') pid = Some r'" and "tr_state r' = THROTTLE_STATE_THROTTLED"
  shows "(\<exists>r. throttle_controller_get_record (Some c) pid = Some r \<and> tr_state r = THROTTLE_STATE_THROTTLED) \<or>
    (\<exists>cs x. csp = Some cs \<and> x \<in> set cs \<and> ic_pid x = pid \<and> ic_active x \<and> ic_should_throttle x \<and>
       fle (tc_high_score_threshold (tk_cfg c)) (ic_final_score x))"
  using assms by (rule throttled_on_request)

theorem throttled_on_request_only_witness:
  "\<exists>x \<in> set [demo_candidate]. ic_pid x = 7 \<and> ic_should_throttle x"
  using throttled_on_request_only [OF demo_start_run demo_interval demo_next_get] demo_start_get by auto

text \<open>C13: An interval is all or nothing with respect to its input. With one of the codes
  INVALID_ARG, NO_SPACE and TIME it has changed no record and moved no process; otherwise, with OK or
  CGROUP, every candidate of the list has a record and no record was dropped. In particular the record capacity
  never runs out in the middle of the list.\<close>

theorem interval_all_or_nothing:
  assumes "throttle_run base c w"
    and "throttle_controller_apply_candidates os base (Some c) csp stats w = (rc, cp', stats', w')"
  shows "(rc \<notin> {THROTTLE_CONTROLLER_OK, THROTTLE_CONTROLLER_ERR_CGROUP} \<and> cp' = Some c \<and> w_writes w' = w_writes w) \<or>
    (rc \<in> {THROTTLE_CONTROLLER_OK, THROTTLE_CONTROLLER_ERR_CGROUP} \<and>
     (\<exists>c' cs. cp' = Some c' \<and> csp = Some cs \<and> length (tk_records c') \<le> tk_record_cap c' \<and>
        (\<forall>pid. throttle_controller_get_record cp' pid \<noteq> None \<longleftrightarrow>
           throttle_controller_get_record (Some c) pid \<noteq> None \<or> pid \<in> ic_pid ` set cs)))"
proof -
  note inv = throttle_run_inv [OF assms(1)]
  from apply_candidates_cases [OF inv assms(2)] show ?thesis
  proof (elim disjE exE conjE)
    fix c' cs now' w1'
    assume a: "csp = Some cs" "move_rc rc" "cp' = Some c'" and inv': "controller_inv base c' w'"
      and p: "pids c' = pids c \<union> ic_pid ` set cs"
    have "throttle_controller_get_record cp' pid \<noteq> None \<longleftrightarrow>
        throttle_controller_get_record (Some c) pid \<noteq> None \<or> pid \<in> ic_pid ` set cs" for pid
      using a(3) p get_record_None_iff [OF inv', of pid] get_record_None_iff [OF inv, of pid] by simp
    with a inv' show ?thesis by (auto simp: move_rc_def controller_inv_def)
  qed (simp add: move_rc_def)
qed

theorem interval_all_or_nothing_witness:
  "throttle_controller_get_record (Some (fst demo_next)) 7 \<noteq> None"
  using interval_all_or_nothing [OF demo_start_run demo_interval] by (auto simp: demo_candidate_def)

text \<open>C11: Nothing stays throttled by neglect. When no candidate of an accepted interval mentions a throttled process,
  the stale period since it was last seen and its minimum throttle duration are over, and the writes
  of the interval succeed, the process leaves the throttled group in this interval.\<close>

theorem stale_process_released:
  assumes "throttle_run base c w"
    and "throttle_controller_get_record (Some c) pid = Some r" and "tr_state r = THROTTLE_STATE_THROTTLED"
    and "prevalidate_candidates c (Some cs) = THROTTLE_CONTROLLER_OK" and "pid \<notin> ic_pid ` set cs"
    and "controller_now_ns os c w = (Inr now, w1)"
    and "elapsed_at_least now (tr_last_seen_ns r) (tc_stale_after_ms (tk_cfg c))"
    and "elapsed_at_least now (tr_state_entered_ns r) (tc_min_throttle_duration_ms (tk_cfg c))"
    and "\<forall>v path text. os_write os v path text = W_OK" and "base_ok base" and "pid < 2 ^ 31"
  shows "\<exists>rc c' stats' w' r'.
    throttle_controller_apply_candidates os base (Some c) (Some cs) stats w = (rc, Some c', stats', w') \<and>
    throttle_controller_get_record (Some c') pid = Some r' \<and> tr_state r' = THROTTLE_STATE_COOLDOWN \<and>
    (\<not> tc_dry_run (tk_cfg c) \<longrightarrow> placement base (w_writes w') pid \<noteq> Some (tc_throttled_group (tk_cfg c)))"
proof -
  note inv = throttle_run_inv [OF assms(1)]
  have r: "r \<in> set (tk_records c)" "tr_pid r = pid" using assms(2) by (simp_all add: get_record_Some_iff [OF inv])
  have tab: "table_inv base (tk_cfg c) (tk_records c) w" using inv by (simp add: controller_inv_def)
  obtain rc cp' stats' w' where
    app: "throttle_controller_apply_candidates os base (Some c) (Some cs) stats w = (rc, cp', stats', w')"
    by (rule prod_cases4)
  obtain c' where rc: "move_rc rc" "cp' = Some c'" and inv': "controller_inv base c' w'" and cfg: "tk_cfg c' = tk_cfg c"
    using accepted_interval [OF inv app assms(4,6)] by blast
  obtain now' w1' c2 st2 w2 ov2 where
    now: "controller_now_ns os c w = (Inr now', w1')" and
    un: "apply_unseen os base now' (c2, st2, w2, ov2) = (c', stats', w', rc)" and
    li: "loop_inv base now' (map unseen (tk_records c)) (ic_pid ` set cs) [] c2 w2" and c2: "tk_cfg c2 = tk_cfg c"
    using app rc by (auto intro: apply_candidates_parts [OF inv, of os cs stats rc c' stats' w'])
  have "unseen r \<in> set (tk_records c2)"
    using loop_inv_untouched [OF li, of "unseen r"] r assms(5) tab by (simp add: table_inv_def)
  moreover from un obtain rs where
    loop: "for_records (unseen_record os base (tk_cfg c) now) (tk_records c2) st2 w2 ov2 = (rc, rs, stats', w')"
    and c': "tk_records c' = rs"
    using now assms(6) by (auto simp: apply_unseen_def c2 split: prod.splits)
  ultimately obtain r' st3 w3 ov3 ov4 st4 w4 where
    r': "r' \<in> set rs" and step: "unseen_record os base (tk_cfg c) now (unseen r) st3 w3 ov3 = (ov4, r', st4, w4)"
    by (blast dest: unseen_loop_member)
  have "tr_state r' = THROTTLE_STATE_COOLDOWN \<and> tr_pid r' = tr_pid (unseen r)"
    using unseen_record_release [OF step] assms(3,7-11) r tab
    by (auto simp: table_inv_def unseen_def)
  with r' c' r have get: "throttle_controller_get_record (Some c') pid = Some r'"
    "tr_state r' = THROTTLE_STATE_COOLDOWN" by (simp_all add: get_record_Some_iff [OF inv'])
  moreover have "\<not> tc_dry_run (tk_cfg c) \<longrightarrow> placement base (w_writes w') pid \<noteq> Some (tc_throttled_group (tk_cfg c))"
    using controller_inv_placement [OF inv', of pid] get r tab by (auto simp: cfg table_inv_def)
  ultimately show ?thesis using app rc by blast
qed

theorem stale_process_released_witness:
  "\<exists>rc c' stats' w' r'.
    throttle_controller_apply_candidates os_late ''/b'' (Some (fst demo_next)) (Some []) None (snd demo_next) =
      (rc, Some c', stats', w') \<and>
    throttle_controller_get_record (Some c') 7 = Some r' \<and> tr_state r' = THROTTLE_STATE_COOLDOWN \<and>
    placement ''/b'' (w_writes w') 7 \<noteq> Some GROUP_THROTTLED"
proof -
  have "elapsed_at_least 60000000000 2000000000 2000" "elapsed_at_least 60000000000 2000000000 3000"
    by code_simp+
  then show ?thesis
    using stale_process_released [OF demo_next_run demo_next_get _ _ _ demo_late_now, of "[]" None]
    by (simp add: prevalidate_candidates_def base_ok_def os_late_def os_fine_def)
qed

text \<open>C22: The statistics of an accepted interval account for everything that happened: each candidate and each throttled
  process that no candidate mentions is counted in exactly one of the outcome counters (throttled, released,
  kept, skipped twice over, failed), every candidate is counted as seen, and an error is
  counted exactly when the interval returns an error.\<close>

theorem interval_accounting:
  assumes "throttle_run base c w"
    and "throttle_controller_apply_candidates os base (Some c) (Some cs) (Some st) w = (rc, Some c', Some st', w')"
    and "rc \<in> {THROTTLE_CONTROLLER_OK, THROTTLE_CONTROLLER_ERR_CGROUP}"
  shows "ts_throttle_actions st' + ts_release_actions st' + ts_kept_throttled st' + ts_skipped_low_score st' +
      ts_skipped_cooldown st' + ts_errors st' =
    length cs + length (filter (\<lambda>r. throttled r \<and> tr_pid r \<notin> ic_pid ` set cs) (tk_records c)) \<and>
    ts_candidate_count st' = length cs \<and> ts_records_seen st' = length cs \<and>
    (rc = THROTTLE_CONTROLLER_OK \<longleftrightarrow> ts_errors st' = 0)"
proof -
  note inv = throttle_run_inv [OF assms(1)]
  then have tab: "table_inv base (tk_cfg c) (tk_records c) w" by (simp add: controller_inv_def)
  let ?st = "Some (throttle_controller_stats_reset\<lparr>ts_candidate_count := length cs\<rparr>)"
  have rc: "move_rc rc" using assms(3) by (simp add: move_rc_def)
  obtain now w1 c2 st2 w2 ov2 where
    loop: "apply_loop os base now cs (c\<lparr>tk_records := map unseen (tk_records c)\<rparr>, ?st, w1,
        THROTTLE_CONTROLLER_OK) = Inr (c2, st2, w2, ov2)" and
    un: "apply_unseen os base now (c2, st2, w2, ov2) = (c', Some st', w', rc)" and
    li: "loop_inv base now (map unseen (tk_records c)) (ic_pid ` set cs) [] c2 w2"
    by (rule apply_candidates_parts [OF inv assms(2) rc, unfolded option.map])
  have "\<forall>r \<in> set (map unseen (tk_records c)). good_state r"
    using tab by (auto simp: table_inv_def good_state_def)
  then have 1: "counted (length cs) ?st st2 THROTTLE_CONTROLLER_OK ov2"
    "seen_counts st2 = Some (length cs, length cs)"
    using apply_loop_counted [OF loop] by (simp_all add: throttle_controller_stats_reset_def)
  from un obtain rs where
    unl: "for_records (unseen_record os base (tk_cfg c2) now) (tk_records c2) st2 w2 ov2 = (rc, rs, Some st', w')"
    by (auto simp: apply_unseen_def split: prod.splits)
  have "counted (length cs + length (filter (\<lambda>r. throttled r \<and> tr_pid r \<notin> ic_pid ` set cs) (tk_records c)))
      ?st (Some st') THROTTLE_CONTROLLER_OK rc"
    using counted_trans [OF 1(1) unseen_loop_counted [OF unl]] filter_unseen_mentioned [OF li] tab
    by (simp add: table_inv_def)
  moreover have "seen_counts (Some st') = Some (length cs, length cs)"
    using unseen_loop_seen_counts [OF unl] 1(2) by simp
  ultimately show ?thesis
    by (simp add: counted_def outcomes_def seen_counts_def throttle_controller_stats_reset_def)
qed

theorem interval_accounting_witness:
  "\<exists>c' st' w'. throttle_controller_apply_candidates os_fine ''/b'' (Some (fst demo_next)) (Some [])
      (Some throttle_controller_stats_reset) (snd demo_next) = (THROTTLE_CONTROLLER_OK, Some c', Some st', w') \<and>
    ts_throttle_actions st' + ts_release_actions st' + ts_kept_throttled st' + ts_skipped_low_score st' +
      ts_skipped_cooldown st' + ts_errors st' = 1 \<and> ts_errors st' = 0"
proof -
  have now: "controller_now_ns os_fine (fst demo_next) (snd demo_next) = (Inr 4000000000, tick (snd demo_next))"
    by (simp add: controller_now_ns_def monotonic_now_ns_def clock_gettime_def os_fine_def)
  have hold: "\<not> elapsed_at_least 4000000000 2000000000 3000" by code_simp
  obtain c' st' w' where app: "throttle_controller_apply_candidates os_fine ''/b'' (Some (fst demo_next)) (Some [])
      (Some throttle_controller_stats_reset) (snd demo_next) = (THROTTLE_CONTROLLER_OK, Some c', Some st', w')"
    using now hold
    by (simp add: throttle_controller_apply_candidates_def prevalidate_candidates_def apply_unseen_def
        unseen_record_def Let_def)
  from interval_accounting [OF demo_next_run app] app show ?thesis by auto
qed

text \<open>Rolling back: unless the clock fails (then nothing changes), \<open>release_all\<close> keeps every record, releases
  every process it can move back, and after the code OK no process is left in the throttled group.\<close>

theorem release_all_releases:
  assumes "throttle_run base c w"
    and "throttle_controller_release_all os base (Some c) stats w = (rc, cp', stats', w')"
  shows "(rc = THROTTLE_CONTROLLER_ERR_TIME \<and> cp' = Some c \<and> w_writes w' = w_writes w) \<or>
    (\<exists>c'. cp' = Some c' \<and> rc \<in> {THROTTLE_CONTROLLER_OK, THROTTLE_CONTROLLER_ERR_CGROUP} \<and>
       (\<forall>pid. throttle_controller_get_record cp' pid \<noteq> None \<longleftrightarrow> throttle_controller_get_record (Some c) pid \<noteq> None) \<and>
       (rc = THROTTLE_CONTROLLER_OK \<longrightarrow> (\<forall>r \<in> set (tk_records c'). tr_state r \<noteq> THROTTLE_STATE_THROTTLED)) \<and>
       (rc = THROTTLE_CONTROLLER_OK \<and> \<not> tc_dry_run (tk_cfg c) \<longrightarrow>
          (\<forall>pid > 0. placement base (w_writes w') pid \<noteq> Some (tc_throttled_group (tk_cfg c)))))"
proof -
  note inv = throttle_run_inv [OF assms(1)]
  from release_all_cases [OF inv assms(2)] show ?thesis
  proof (elim disjE exE conjE)
    fix c'
    assume c': "move_rc rc" "cp' = Some c'" "controller_inv base c' w'" "tk_cfg c' = tk_cfg c" "pids c' = pids c"
      and ok: "rc = THROTTLE_CONTROLLER_OK \<longrightarrow> (\<forall>r \<in> set (tk_records c'). \<not> throttled r)"
    have "placement base (w_writes w') pid \<noteq> Some (tc_throttled_group (tk_cfg c))"
      if "rc = THROTTLE_CONTROLLER_OK" "\<not> tc_dry_run (tk_cfg c)" "0 < pid" for pid
      using controller_inv_placement [OF c'(3), of pid] get_record_Some_iff [OF c'(3), of pid] ok that c'(4) by auto
    then show ?thesis
      using c' ok by (auto simp: move_rc_def get_record_None_iff [OF inv] get_record_None_iff [OF c'(3)])
  qed simp
qed

theorem release_all_releases_witness:
  "\<exists>rc c' st' w'. throttle_controller_release_all os_late ''/b'' (Some (fst demo_next)) None (snd demo_next) =
      (rc, Some c', st', w') \<and> throttle_controller_get_record (Some c') 7 \<noteq> None"
proof -
  obtain rc cp' st' w' where
    rel: "throttle_controller_release_all os_late ''/b'' (Some (fst demo_next)) None (snd demo_next) = (rc, cp', st', w')"
    by (rule prod_cases4)
  from release_all_releases [OF demo_next_run rel] demo_next_get
  obtain c' where "cp' = Some c'" "throttle_controller_get_record cp' 7 \<noteq> None" by blast
  with rel show ?thesis by blast
qed

text \<open>The timing test is exact for all 64-bit arguments: it holds when the duration, in nanoseconds and
  saturated at the largest 64-bit value, has passed since the start; a clock that runs backwards never satisfies
  it by wrap-around.\<close>

theorem elapsed_at_least_exact:
  "elapsed_at_least now_ns start_ns duration_ms \<longleftrightarrow>
   unat start_ns + min (unat duration_ms * 1000000) (2 ^ 64 - 1) \<le> unat now_ns"
proof (cases "unat duration_ms \<le> 18446744073709")
  case True
  then show ?thesis by (simp add: elapsed_at_least_iff ms_to_ns_small)
next
  case False
  then have "ms_to_ns duration_ms = - 1" by (simp add: ms_to_ns_large)
  with False show ?thesis by (simp add: elapsed_at_least_iff min_def unat_u64_max)
qed

end
