(* ===== verification/Process_Table.thy ===== *)
theory Process_Table
  imports Cgroup
begin

text \<open>
  The process table (\<open>protected-daemon/src/process.c\<close>, \<open>process.h\<close>) and the event record of
  \<open>protected_daemon.h\<close>: an open-addressing hash table of fixed size with linear probing and
  tombstones. The arrays \<open>proc_table\<close> and \<open>slot_states\<close> are functions of the slot number,
  \<open>occupied_count\<close> is a counter; a pointer into the table is the slot number, so that two
  pointers to the same entry stay the same entry when it is overwritten.
\<close>

subsection \<open>Data\<close>

definition TASK_COMM_LEN :: nat where "TASK_COMM_LEN = 16"
definition PROC_MAX :: nat where "PROC_MAX = 32768"
definition PROC_PATH_MAX :: nat where "PROC_PATH_MAX = 4096"
definition CMDLINE_MAX :: nat where "CMDLINE_MAX = 4096"

text \<open>The field \<open>type\<close> is a plain \<open>int\<close>; the last constructor stands for every other value.\<close>

datatype event_type = EVENT_EXEC | EVENT_FORK | EVENT_EXIT | EVENT_OTHER int

record event =
  ev_type :: event_type
  ev_pid :: pid_t
  ev_ppid :: pid_t
  ev_child_pid :: pid_t
  ev_uid :: u32
  ev_comm :: string

datatype process_result =
    PROCESS_OK | PROCESS_ERR_INVALID_ARG | PROCESS_ERR_NO_SPACE | PROCESS_ERR_INCONSISTENT

record proc_info =
  pi_used :: bool
  pi_pid :: pid_t
  pi_ppid :: pid_t
  pi_uid :: u32
  pi_exec_seen :: bool
  pi_exited :: bool
  pi_is_protected :: bool
  pi_inherited_protected :: bool
  pi_group :: proc_group
  pi_comm :: string
  pi_exe_path :: string
  pi_cmdline :: string

text \<open>\<open>memset(p, 0, sizeof(*p))\<close>; the first enumerator of the groups is GROUP_PROTECTED.\<close>

definition proc_info_zero :: proc_info where
  "proc_info_zero =
     \<lparr>pi_used = False, pi_pid = 0, pi_ppid = 0, pi_uid = 0, pi_exec_seen = False, pi_exited = False,
      pi_is_protected = False, pi_inherited_protected = False, pi_group = GROUP_PROTECTED,
      pi_comm = [], pi_exe_path = [], pi_cmdline = []\<rparr>"

datatype process_slot_state = PROCESS_SLOT_EMPTY | PROCESS_SLOT_OCCUPIED | PROCESS_SLOT_TOMBSTONE

record proc_tab =
  proc_table :: "nat \<Rightarrow> proc_info"
  slot_states :: "nat \<Rightarrow> process_slot_state"
  occupied_count :: nat

subsection \<open>Probing\<close>

text \<open>\<open>PROC_MAX\<close> divides \<open>2 ^ 64\<close>, so the conversion to \<open>uint64_t\<close> leaves the remainder unchanged.\<close>

definition process_hash :: "pid_t \<Rightarrow> nat" where
  "process_hash pid = nat (pid mod int PROC_MAX)"

text \<open>The slots \<open>(start + probe) % PROC_MAX\<close> in the order of the loops.\<close>

definition probe_seq :: "pid_t \<Rightarrow> nat list" where
  "probe_seq pid = map (\<lambda>probe. (process_hash pid + probe) mod PROC_MAX) [0..<PROC_MAX]"

fun probe_existing :: "proc_tab \<Rightarrow> pid_t \<Rightarrow> nat list \<Rightarrow> nat option" where
  "probe_existing st pid [] = None"
| "probe_existing st pid (idx # rest) =
     (if slot_states st idx = PROCESS_SLOT_EMPTY then None
      else if slot_states st idx = PROCESS_SLOT_OCCUPIED \<and> pi_used (proc_table st idx) \<and>
              pi_pid (proc_table st idx) = pid then Some idx
      else probe_existing st pid rest)"

text \<open>\<open>Some idx\<close> is the return value 1 with \<open>*slot_out = idx\<close>.\<close>

definition find_existing_slot :: "proc_tab \<Rightarrow> pid_t \<Rightarrow> nat option" where
  "find_existing_slot st pid = (if pid \<le> 0 then None else probe_existing st pid (probe_seq pid))"

text \<open>\<open>first_tombstone\<close> is an option instead of the sentinel \<open>PROC_MAX\<close>. A result
  \<open>Some (slot, found)\<close> is the return value 0.\<close>

fun probe_upsert :: "proc_tab \<Rightarrow> pid_t \<Rightarrow> nat option \<Rightarrow> nat list \<Rightarrow> (nat \<times> bool) option" where
  "probe_upsert st pid first_tombstone [] = map_option (\<lambda>t. (t, False)) first_tombstone"
| "probe_upsert st pid first_tombstone (idx # rest) =
     (case slot_states st idx of
        PROCESS_SLOT_OCCUPIED \<Rightarrow>
          if pi_used (proc_table st idx) \<and> pi_pid (proc_table st idx) = pid then Some (idx, True)
          else probe_upsert st pid first_tombstone rest
      | PROCESS_SLOT_TOMBSTONE \<Rightarrow>
          probe_upsert st pid (if first_tombstone = None then Some idx else first_tombstone) rest
      | PROCESS_SLOT_EMPTY \<Rightarrow>
          Some (case first_tombstone of None \<Rightarrow> idx | Some t \<Rightarrow> t, False))"

definition find_upsert_slot :: "proc_tab \<Rightarrow> pid_t \<Rightarrow> (nat \<times> bool) option" where
  "find_upsert_slot st pid = (if pid \<le> 0 then None else probe_upsert st pid None (probe_seq pid))"

definition prepare_upsert :: "proc_tab \<Rightarrow> pid_t \<Rightarrow> (proc_tab \<times> nat \<times> bool) option" where
  "prepare_upsert st pid =
     (case find_upsert_slot st pid of
        None \<Rightarrow> None
      | Some (idx, found) \<Rightarrow>
          if \<not> found
          then if PROC_MAX \<le> occupied_count st then None
               else Some (st\<lparr>proc_table := (proc_table st)(idx := proc_info_zero),
                             slot_states := (slot_states st)(idx := PROCESS_SLOT_OCCUPIED),
                             occupied_count := Suc (occupied_count st)\<rparr>, idx, found)
          else Some (st, idx, found))"

subsection \<open>The operations of the table\<close>

definition process_table_reset :: proc_tab where
  "process_table_reset =
     \<lparr>proc_table = (\<lambda>_. proc_info_zero), slot_states = (\<lambda>_. PROCESS_SLOT_EMPTY), occupied_count = 0\<rparr>"

definition process_table_count :: "proc_tab \<Rightarrow> nat" where
  "process_table_count st = occupied_count st"

definition process_table_capacity :: nat where
  "process_table_capacity = PROC_MAX"

definition process_get :: "proc_tab \<Rightarrow> pid_t \<Rightarrow> nat option" where
  "process_get st pid = find_existing_slot st pid"

text \<open>The two readers of \<open>/proc\<close>. The path always fits its 256 bytes, but the test is kept.\<close>

definition process_read_exe :: "os \<Rightarrow> proc_info \<Rightarrow> world \<Rightarrow> int \<times> proc_info \<times> world" where
  "process_read_exe os p w =
     (if pi_pid p \<le> 0 then (-1, p, w)
      else let path = ''/proc/'' @ show_int (pi_pid p) @ ''/exe''
           in if 256 \<le> length path then (-1, p\<lparr>pi_exe_path := []\<rparr>, w)
              else case sys_readlink os path w of
                     (None, w') \<Rightarrow> (-1, p\<lparr>pi_exe_path := []\<rparr>, w')
                   | (Some target, w') \<Rightarrow> (0, p\<lparr>pi_exe_path := take (PROC_PATH_MAX - 1) target\<rparr>, w'))"

definition process_read_cmdline :: "os \<Rightarrow> proc_info \<Rightarrow> world \<Rightarrow> int \<times> proc_info \<times> world" where
  "process_read_cmdline os p w =
     (if pi_pid p \<le> 0 then (-1, p, w)
      else let path = ''/proc/'' @ show_int (pi_pid p) @ ''/cmdline''
           in if 256 \<le> length path then (-1, p\<lparr>pi_cmdline := []\<rparr>, w)
              else case fopen_r os path w of
                     (None, w1) \<Rightarrow> (-1, p\<lparr>pi_cmdline := []\<rparr>, w1)
                   | (Some contents, w1) \<Rightarrow>
                       (let buf = take (CMDLINE_MAX - 1) contents;
                            (closed, w2) = fclose_r os w1
                        in if \<not> closed then (-1, p\<lparr>pi_cmdline := []\<rparr>, w2)
                           else if buf = [] then (-1, p\<lparr>pi_cmdline := []\<rparr>, w2)
                           else (0, p\<lparr>pi_cmdline := map (\<lambda>c. if c = NUL then CHR '' '' else c) buf\<rparr>, w2)))"

text \<open>Both upserts return the slot the returned pointer designates.\<close>

definition process_upsert_exec ::
  "os \<Rightarrow> proc_tab \<Rightarrow> event option \<Rightarrow> world \<Rightarrow> proc_tab \<times> nat option \<times> world" where
  "process_upsert_exec os st ep w =
     (case ep of
        None \<Rightarrow> (st, None, w)
      | Some e \<Rightarrow>
          if ev_pid e \<le> 0 then (st, None, w)
          else case prepare_upsert st (ev_pid e) of
            None \<Rightarrow> (st, None, w)
          | Some (st1, idx, found) \<Rightarrow>
              (let old = proc_table st1 idx;
                   p1 = proc_info_zero\<lparr>pi_used := True, pi_pid := ev_pid e, pi_ppid := ev_ppid e,
                          pi_uid := ev_uid e, pi_exec_seen := True,
                          pi_is_protected := (if found then pi_is_protected old else False),
                          pi_inherited_protected := (if found then pi_inherited_protected old else False),
                          pi_group := (if found then pi_group old else GROUP_UNKNOWN),
                          pi_comm := snprintf_s TASK_COMM_LEN (cstr (ev_comm e))\<rparr>;
                   (_, p2, w1) = process_read_exe os p1 w;
                   (_, p3, w2) = process_read_cmdline os p2 w1
               in (st1\<lparr>proc_table := (proc_table st1)(idx := p3)\<rparr>, Some idx, w2)))"

text \<open>The parent pointer is taken before the child's entry is prepared and read after it was written:
  when both ids are equal, the parent read is the fresh child.\<close>

definition process_upsert_fork :: "proc_tab \<Rightarrow> event option \<Rightarrow> proc_tab \<times> nat option" where
  "process_upsert_fork st ep =
     (case ep of
        None \<Rightarrow> (st, None)
      | Some e \<Rightarrow>
          if ev_pid e \<le> 0 \<or> ev_child_pid e \<le> 0 then (st, None)
          else let parent = process_get st (ev_pid e)
          in case prepare_upsert st (ev_child_pid e) of
               None \<Rightarrow> (st, None)
             | Some (st1, idx, _) \<Rightarrow>
                 (let child = proc_info_zero\<lparr>pi_used := True, pi_pid := ev_child_pid e, pi_ppid := ev_pid e,
                        pi_uid := ev_uid e, pi_group := GROUP_UNKNOWN,
                        pi_comm := snprintf_s TASK_COMM_LEN (cstr (ev_comm e))\<rparr>;
                      tab = (proc_table st1)(idx := child);
                      inherits = (case parent of None \<Rightarrow> False
                                  | Some i \<Rightarrow> pi_used (tab i) \<and> pi_is_protected (tab i));
                      child' = (if inherits
                                then child\<lparr>pi_is_protected := True, pi_inherited_protected := True,
                                           pi_group := GROUP_PROTECTED\<rparr>
                                else child)
                  in (st1\<lparr>proc_table := tab(idx := child')\<rparr>, Some idx)))"

definition process_remove :: "proc_tab \<Rightarrow> pid_t \<Rightarrow> proc_tab" where
  "process_remove st pid =
     (case find_existing_slot st pid of
        None \<Rightarrow> st
      | Some idx \<Rightarrow>
          st\<lparr>proc_table := (proc_table st)(idx := proc_info_zero),
             slot_states := (slot_states st)(idx := PROCESS_SLOT_TOMBSTONE),
             occupied_count := (if 0 < occupied_count st then occupied_count st - 1 else occupied_count st)\<rparr>)"

subsection \<open>Snapshot\<close>

text \<open>The first pass: the number of occupied slots, \<open>None\<close> for an inconsistency.\<close>

fun snapshot_scan :: "proc_tab \<Rightarrow> nat list \<Rightarrow> nat \<Rightarrow> nat option" where
  "snapshot_scan st [] actual_count = Some actual_count"
| "snapshot_scan st (i # rest) actual_count =
     (if slot_states st i = PROCESS_SLOT_OCCUPIED
      then if \<not> pi_used (proc_table st i) \<or> pi_pid (proc_table st i) \<le> 0 then None
           else snapshot_scan st rest (Suc actual_count)
      else if pi_used (proc_table st i) then None
      else snapshot_scan st rest actual_count)"

text \<open>\<open>capacity\<close> is \<open>None\<close> for a NULL output array. The result is the code and the entries
  written, whose number is \<open>*out_count\<close>.\<close>

definition process_snapshot :: "proc_tab \<Rightarrow> nat option \<Rightarrow> process_result \<times> proc_info list" where
  "process_snapshot st capacity =
     (case capacity of
        None \<Rightarrow> (PROCESS_ERR_INVALID_ARG, [])
      | Some cap \<Rightarrow>
          (case snapshot_scan st [0..<PROC_MAX] 0 of
             None \<Rightarrow> (PROCESS_ERR_INCONSISTENT, [])
           | Some actual_count \<Rightarrow>
               if actual_count \<noteq> occupied_count st then (PROCESS_ERR_INCONSISTENT, [])
               else if cap < actual_count then (PROCESS_ERR_NO_SPACE, [])
               else (PROCESS_OK, map (proc_table st)
                       (filter (\<lambda>i. slot_states st i = PROCESS_SLOT_OCCUPIED) [0..<PROC_MAX]))))"

end
