(* ===== verification/Process_Correct.thy ===== *)
theory Process_Correct
  imports Process_Table
begin

text \<open>
  Correctness of the process table. The invariant says that the slot states, the entries and the
  counter agree, that no process has two entries, and that every entry can be reached: the slots
  before it on its probe sequence are not empty. Under it, probing is exact, and the table is a
  finite map from process ids to entries; the operations of the code refine the operations of that map.
\<close>

subsection \<open>Probing\<close>

definition entry_of :: "proc_tab \<Rightarrow> pid_t \<Rightarrow> nat \<Rightarrow> bool" where
  "entry_of st pid i \<longleftrightarrow> slot_states st i = PROCESS_SLOT_OCCUPIED \<and> pi_used (proc_table st i) \<and>
     pi_pid (proc_table st i) = pid"

text \<open>A slot that a probe sequence reaches without meeting an empty slot.\<close>

definition reaches :: "proc_tab \<Rightarrow> nat list \<Rightarrow> nat \<Rightarrow> bool" where
  "reaches st is i \<longleftrightarrow> (\<exists>xs ys. is = xs @ i # ys \<and> (\<forall>x \<in> set xs. slot_states st x \<noteq> PROCESS_SLOT_EMPTY))"

lemma PROC_MAX_pos [simp]: "0 < PROC_MAX"
  by (simp add: PROC_MAX_def)

lemma set_probe_seq [simp]: "set (probe_seq pid) = {..<PROC_MAX}"
proof
  show "set (probe_seq pid) \<subseteq> {..<PROC_MAX}" by (auto simp: probe_seq_def)
  show "{..<PROC_MAX} \<subseteq> set (probe_seq pid)"
  proof
    fix i
    assume i: "i \<in> {..<PROC_MAX}"
    have h: "process_hash pid < PROC_MAX" by (simp add: process_hash_def nat_less_iff)
    define k where "k = (i + PROC_MAX - process_hash pid) mod PROC_MAX"
    have "(process_hash pid + k) mod PROC_MAX = (process_hash pid + (i + PROC_MAX - process_hash pid)) mod PROC_MAX"
      by (simp add: k_def mod_add_right_eq)
    also have "\<dots> = i" using i h by simp
    finally have "i = (process_hash pid + k) mod PROC_MAX" ..
    moreover have "k \<in> set [0..<PROC_MAX]" by (simp add: k_def)
    ultimately show "i \<in> set (probe_seq pid)" unfolding probe_seq_def set_map by (rule image_eqI)
  qed
qed

lemma probe_existing_Some:
  "probe_existing st pid is = Some i \<Longrightarrow> i \<in> set is \<and> entry_of st pid i"
  by (induction "is") (auto simp: entry_of_def split: if_splits)

lemma probe_existing_reach:
  "(\<forall>x \<in> set xs. slot_states st x \<noteq> PROCESS_SLOT_EMPTY) \<Longrightarrow> entry_of st pid i \<Longrightarrow>
   probe_existing st pid (xs @ i # ys) \<noteq> None"
  by (induction xs) (auto simp: entry_of_def)

lemma probe_upsert_existing:
  "probe_upsert st pid ft is = Some (i, True) \<Longrightarrow> probe_existing st pid is = Some i"
  "probe_upsert st pid ft is = Some (i, False) \<Longrightarrow> probe_existing st pid is = None"
  "probe_upsert st pid ft is = None \<Longrightarrow> probe_existing st pid is = None"
  by (induction "is" arbitrary: ft) (auto split: process_slot_state.splits if_splits)

lemma reaches_Cons:
  "reaches st (j # is) i \<longleftrightarrow> i = j \<or> slot_states st j \<noteq> PROCESS_SLOT_EMPTY \<and> reaches st is i"
proof
  assume "reaches st (j # is) i"
  then obtain xs ys where "j # is = xs @ i # ys" "\<forall>x \<in> set xs. slot_states st x \<noteq> PROCESS_SLOT_EMPTY"
    by (auto simp: reaches_def)
  then show "i = j \<or> slot_states st j \<noteq> PROCESS_SLOT_EMPTY \<and> reaches st is i"
    by (cases xs) (auto simp: reaches_def)
next
  assume "i = j \<or> slot_states st j \<noteq> PROCESS_SLOT_EMPTY \<and> reaches st is i"
  then show "reaches st (j # is) i"
  proof
    assume "i = j"
    then show ?thesis unfolding reaches_def by (intro exI [of _ "[]"] exI [of _ "is"]) simp
  next
    assume "slot_states st j \<noteq> PROCESS_SLOT_EMPTY \<and> reaches st is i"
    then obtain xs ys where "is = xs @ i # ys" "slot_states st j \<noteq> PROCESS_SLOT_EMPTY"
      "\<forall>x \<in> set xs. slot_states st x \<noteq> PROCESS_SLOT_EMPTY" by (auto simp: reaches_def)
    then show ?thesis unfolding reaches_def by (intro exI [of _ "j # xs"] exI [of _ ys]) simp
  qed
qed

text \<open>A new entry goes to a free slot that its probe sequence reaches.\<close>

lemma probe_upsert_free:
  "probe_upsert st pid ft is = Some (i, False) \<Longrightarrow>
   ft = Some i \<or> (ft = None \<and> i \<in> set is \<and> slot_states st i \<noteq> PROCESS_SLOT_OCCUPIED \<and> reaches st is i)"
proof (induction "is" arbitrary: ft)
  case Nil
  then show ?case by auto
next
  case (Cons j "is")
  from Cons.prems show ?case
    by (cases "slot_states st j")
      (auto simp: reaches_Cons split: if_splits option.splits dest!: Cons.IH)
qed

lemma probe_upsert_full:
  "probe_upsert st pid ft is = None \<Longrightarrow> \<forall>i \<in> set is. slot_states st i = PROCESS_SLOT_OCCUPIED"
proof (induction "is" arbitrary: ft)
  case Nil
  then show ?case by simp
next
  case (Cons j "is")
  have tomb: "probe_upsert st pid (Some t) js \<noteq> None" for t js
    by (induction js) (auto split: process_slot_state.splits)
  from Cons.prems Cons.IH [of ft] show ?case
    by (cases "slot_states st j"; cases ft) (simp_all add: tomb split: if_splits)
qed

subsection \<open>The invariant\<close>

definition occupied :: "proc_tab \<Rightarrow> nat set" where
  "occupied st = {i. i < PROC_MAX \<and> slot_states st i = PROCESS_SLOT_OCCUPIED}"

definition tab_inv :: "proc_tab \<Rightarrow> bool" where
  "tab_inv st \<longleftrightarrow>
     (\<forall>i < PROC_MAX. if slot_states st i = PROCESS_SLOT_OCCUPIED
        then pi_used (proc_table st i) \<and> 0 < pi_pid (proc_table st i) \<and>
             reaches st (probe_seq (pi_pid (proc_table st i))) i
        else \<not> pi_used (proc_table st i)) \<and>
     inj_on (\<lambda>i. pi_pid (proc_table st i)) (occupied st) \<and>
     occupied_count st = card (occupied st)"

lemma finite_occupied [simp]: "finite (occupied st)"
  by (simp add: occupied_def)

lemma card_occupied_le: "card (occupied st) \<le> PROC_MAX"
  using card_mono [of "{..<PROC_MAX}" "occupied st"] by (auto simp: occupied_def)

lemma tab_inv_occupied:
  "tab_inv st \<Longrightarrow> i \<in> occupied st \<Longrightarrow>
   pi_used (proc_table st i) \<and> 0 < pi_pid (proc_table st i) \<and>
   reaches st (probe_seq (pi_pid (proc_table st i))) i"
  by (auto simp: tab_inv_def occupied_def)

lemma tab_inv_unique:
  "tab_inv st \<Longrightarrow> i \<in> occupied st \<Longrightarrow> j \<in> occupied st \<Longrightarrow>
   pi_pid (proc_table st i) = pi_pid (proc_table st j) \<Longrightarrow> i = j"
  by (auto simp: tab_inv_def dest: inj_onD)

text \<open>Probing is exact.\<close>

lemma find_existing_slot_iff:
  assumes inv: "tab_inv st"
  shows "find_existing_slot st pid = Some i \<longleftrightarrow> i \<in> occupied st \<and> pi_pid (proc_table st i) = pid"
proof
  assume "find_existing_slot st pid = Some i"
  then have "i < PROC_MAX \<and> entry_of st pid i"
    by (auto simp: find_existing_slot_def split: if_splits dest: probe_existing_Some)
  then show "i \<in> occupied st \<and> pi_pid (proc_table st i) = pid"
    by (auto simp: occupied_def entry_of_def)
next
  assume i: "i \<in> occupied st \<and> pi_pid (proc_table st i) = pid"
  with tab_inv_occupied [OF inv, of i] have pos: "0 < pid" and e: "entry_of st pid i"
    and "reaches st (probe_seq pid) i" by (auto simp: entry_of_def occupied_def)
  then obtain xs ys where "probe_seq pid = xs @ i # ys"
    "\<forall>x \<in> set xs. slot_states st x \<noteq> PROCESS_SLOT_EMPTY" by (auto simp: reaches_def)
  with e have "probe_existing st pid (probe_seq pid) \<noteq> None" by (metis probe_existing_reach)
  then obtain j where j: "probe_existing st pid (probe_seq pid) = Some j" by blast
  from probe_existing_Some [OF this] have "j \<in> occupied st \<and> pi_pid (proc_table st j) = pid"
    by (auto simp: occupied_def entry_of_def)
  with i inv have "j = i" by (metis tab_inv_unique)
  with j pos show "find_existing_slot st pid = Some i" by (simp add: find_existing_slot_def)
qed

lemma find_existing_slot_None:
  "tab_inv st \<Longrightarrow> find_existing_slot st pid = None \<longleftrightarrow> (\<forall>i \<in> occupied st. pi_pid (proc_table st i) \<noteq> pid)"
  by (metis find_existing_slot_iff not_Some_eq)

subsection \<open>The table as a map\<close>

text \<open>What the table holds for a process id.\<close>

definition pt_lookup :: "proc_tab \<Rightarrow> pid_t \<Rightarrow> proc_info option" where
  "pt_lookup st pid = map_option (proc_table st) (process_get st pid)"

lemma pt_lookup_Some:
  "tab_inv st \<Longrightarrow> pt_lookup st pid = Some p \<longleftrightarrow>
     (\<exists>i \<in> occupied st. pi_pid (proc_table st i) = pid \<and> p = proc_table st i)"
  by (auto simp: pt_lookup_def process_get_def find_existing_slot_iff)

lemma pt_lookup_pid: "tab_inv st \<Longrightarrow> pt_lookup st pid = Some p \<Longrightarrow> pi_pid p = pid \<and> pi_used p \<and> 0 < pid"
  by (auto simp: pt_lookup_Some dest: tab_inv_occupied)

lemma pt_lookup_slot:
  "tab_inv st \<Longrightarrow> i \<in> occupied st \<Longrightarrow> pt_lookup st (pi_pid (proc_table st i)) = Some (proc_table st i)"
  by (auto simp: pt_lookup_Some)

lemma card_dom_lookup: "tab_inv st \<Longrightarrow> card (dom (pt_lookup st)) = occupied_count st"
proof -
  assume inv: "tab_inv st"
  then have "dom (pt_lookup st) = (\<lambda>i. pi_pid (proc_table st i)) ` occupied st"
    by (auto simp: dom_def pt_lookup_Some)
  with inv show ?thesis by (simp add: card_image tab_inv_def)
qed

text \<open>Entering a value at the slot that the upsert prepared: the shape both upserts share.\<close>

definition pt_store :: "proc_tab \<Rightarrow> pid_t \<Rightarrow> proc_info \<Rightarrow> proc_tab option" where
  "pt_store st pid p =
     (case prepare_upsert st pid of
        None \<Rightarrow> None
      | Some (st1, idx, _) \<Rightarrow> Some (st1\<lparr>proc_table := (proc_table st1)(idx := p)\<rparr>))"

lemma reaches_mono:
  "reaches st is i \<Longrightarrow> (\<And>j. slot_states st j \<noteq> PROCESS_SLOT_EMPTY \<Longrightarrow> slot_states st' j \<noteq> PROCESS_SLOT_EMPTY) \<Longrightarrow>
   reaches st' is i"
  by (auto simp: reaches_def)

text \<open>The slot an upsert works on.\<close>

lemma prepare_upsert_cases:
  assumes inv: "tab_inv st" and prep: "prepare_upsert st pid = Some (st1, idx, found)"
  shows "0 < pid" "idx < PROC_MAX" "occupied st1 = insert idx (occupied st)"
    "\<And>i. i \<noteq> idx \<Longrightarrow> proc_table st1 i = proc_table st i \<and> slot_states st1 i = slot_states st i"
    "if found then st1 = st \<and> idx \<in> occupied st \<and> pi_pid (proc_table st idx) = pid
     else pt_lookup st pid = None \<and> idx \<notin> occupied st \<and> reaches st (probe_seq pid) idx \<and>
          occupied_count st1 = Suc (occupied_count st)"
    "slot_states st1 idx = PROCESS_SLOT_OCCUPIED"
proof -
  from prep have find: "find_upsert_slot st pid = Some (idx, found)"
    by (auto simp: prepare_upsert_def split: option.splits if_splits)
  then show pos: "0 < pid" by (auto simp: find_upsert_slot_def split: if_splits)
  with find have probe: "probe_upsert st pid None (probe_seq pid) = Some (idx, found)"
    by (simp add: find_upsert_slot_def)
  have slot: "if found then idx \<in> occupied st \<and> pi_pid (proc_table st idx) = pid
        else pt_lookup st pid = None \<and> idx < PROC_MAX \<and> idx \<notin> occupied st \<and> reaches st (probe_seq pid) idx"
  proof (cases found)
    case True
    with probe have "find_existing_slot st pid = Some idx"
      using pos by (simp add: find_existing_slot_def probe_upsert_existing)
    with True inv show ?thesis by (simp add: find_existing_slot_iff)
  next
    case False
    with probe have "find_existing_slot st pid = None" "idx \<in> set (probe_seq pid)"
      "slot_states st idx \<noteq> PROCESS_SLOT_OCCUPIED" "reaches st (probe_seq pid) idx"
      using pos probe_upsert_free [of st pid None "probe_seq pid" idx]
      by (simp_all add: find_existing_slot_def probe_upsert_existing)
    with False show ?thesis by (simp add: pt_lookup_def process_get_def occupied_def)
  qed
  show "idx < PROC_MAX" using slot by (auto simp: occupied_def split: if_splits)
  have st1: "st1 = (if found then st else st\<lparr>proc_table := (proc_table st)(idx := proc_info_zero),
      slot_states := (slot_states st)(idx := PROCESS_SLOT_OCCUPIED), occupied_count := Suc (occupied_count st)\<rparr>)"
    using prep find by (auto simp: prepare_upsert_def split: if_splits)
  show "occupied st1 = insert idx (occupied st)"
    using slot \<open>idx < PROC_MAX\<close> by (auto simp: st1 occupied_def)
  show "\<And>i. i \<noteq> idx \<Longrightarrow> proc_table st1 i = proc_table st i \<and> slot_states st1 i = slot_states st i"
    by (simp add: st1)
  show "if found then st1 = st \<and> idx \<in> occupied st \<and> pi_pid (proc_table st idx) = pid
     else pt_lookup st pid = None \<and> idx \<notin> occupied st \<and> reaches st (probe_seq pid) idx \<and>
          occupied_count st1 = Suc (occupied_count st)"
    using slot by (simp add: st1 split: if_splits)
  show "slot_states st1 idx = PROCESS_SLOT_OCCUPIED" using slot by (auto simp: st1 occupied_def split: if_splits)
qed

lemma pt_lookup_ext:
  assumes "tab_inv st'" "\<And>p. pt_lookup st' q = Some p \<longleftrightarrow> m = Some p"
  shows "pt_lookup st' q = m"
  using assms(2) by (cases m; cases "pt_lookup st' q") auto

lemma pt_storeE:
  assumes inv: "tab_inv st" and store: "pt_store st pid p = Some st'"
  obtains idx where "0 < pid" "occupied st' = insert idx (occupied st)"
    "\<And>i. proc_table st' i = (if i = idx then p else proc_table st i)"
    "\<And>i. slot_states st' i = (if i = idx then PROCESS_SLOT_OCCUPIED else slot_states st i)"
    "\<And>i. i \<in> occupied st \<Longrightarrow> pi_pid (proc_table st i) = pid \<longleftrightarrow> i = idx"
    "reaches st (probe_seq pid) idx"
    "occupied_count st' = (if idx \<in> occupied st then occupied_count st else Suc (occupied_count st))"
proof -
  from store obtain st1 idx found where prep: "prepare_upsert st pid = Some (st1, idx, found)"
    and st': "st' = st1\<lparr>proc_table := (proc_table st1)(idx := p)\<rparr>"
    by (auto simp: pt_store_def split: option.splits)
  note c = prepare_upsert_cases [OF inv prep]
  have pid: "pi_pid (proc_table st i) = pid \<longleftrightarrow> i = idx" if "i \<in> occupied st" for i
    using c(5) that tab_inv_unique [OF inv] inv
    by (auto simp: pt_lookup_def process_get_def find_existing_slot_None split: if_splits)
  show thesis
  proof (rule that [of idx])
    show "reaches st (probe_seq pid) idx"
      using c(5) tab_inv_occupied [OF inv] by (auto split: if_splits)
    show "occupied st' = insert idx (occupied st)" using c(3) by (simp add: st' occupied_def)
    show "occupied_count st' = (if idx \<in> occupied st then occupied_count st else Suc (occupied_count st))"
      using c(5) by (auto simp: st' split: if_splits)
  qed (use c pid in \<open>auto simp: st'\<close>)
qed

lemma pt_store_inv:
  assumes inv: "tab_inv st" and store: "pt_store st pid p = Some st'" and p: "pi_used p" "pi_pid p = pid"
  shows "tab_inv st'"
  using inv store
proof (rule pt_storeE)
  fix idx
  assume pos: "0 < pid" and occ: "occupied st' = insert idx (occupied st)"
    and tab: "\<And>i. proc_table st' i = (if i = idx then p else proc_table st i)"
    and slots: "\<And>i. slot_states st' i = (if i = idx then PROCESS_SLOT_OCCUPIED else slot_states st i)"
    and pid: "\<And>i. i \<in> occupied st \<Longrightarrow> pi_pid (proc_table st i) = pid \<longleftrightarrow> i = idx"
    and here: "reaches st (probe_seq pid) idx"
    and cnt: "occupied_count st' = (if idx \<in> occupied st then occupied_count st else Suc (occupied_count st))"
  have reach: "reaches st is i \<Longrightarrow> reaches st' is i" for i "is"
    by (erule reaches_mono) (simp add: slots)
  show "tab_inv st'"
    unfolding tab_inv_def
  proof (intro conjI allI impI)
    fix i
    assume "i < PROC_MAX"
    then show "if slot_states st' i = PROCESS_SLOT_OCCUPIED
        then pi_used (proc_table st' i) \<and> 0 < pi_pid (proc_table st' i) \<and>
             reaches st' (probe_seq (pi_pid (proc_table st' i))) i
        else \<not> pi_used (proc_table st' i)"
      using inv p pos reach here by (auto simp: tab slots tab_inv_def)
  next
    show "inj_on (\<lambda>i. pi_pid (proc_table st' i)) (occupied st')"
      unfolding inj_on_def occ tab using tab_inv_unique [OF inv] pid p(2) by (metis insert_iff)
  next
    have "occupied_count st = card (occupied st)" using inv by (simp add: tab_inv_def)
    then show "occupied_count st' = card (occupied st')" by (simp add: occ cnt insert_absorb)
  qed
qed

lemma pt_store_lookup:
  assumes inv: "tab_inv st" and store: "pt_store st pid p = Some st'" and p: "pi_used p" "pi_pid p = pid"
  shows "pt_lookup st' = (pt_lookup st)(pid \<mapsto> p)"
  using inv store
proof (rule pt_storeE)
  fix idx
  assume occ: "occupied st' = insert idx (occupied st)"
    and tab: "\<And>i. proc_table st' i = (if i = idx then p else proc_table st i)"
    and pid: "\<And>i. i \<in> occupied st \<Longrightarrow> pi_pid (proc_table st i) = pid \<longleftrightarrow> i = idx"
  note inv' = pt_store_inv [OF assms]
  have "pt_lookup st' q = (if q = pid then Some p else pt_lookup st q)" for q
  proof (cases "q = pid")
    case True
    with pt_lookup_slot [OF inv', of idx] p show ?thesis by (simp add: occ tab)
  next
    case False
    have "pt_lookup st' q = Some x \<longleftrightarrow> pt_lookup st q = Some x" for x
      unfolding pt_lookup_Some [OF inv'] pt_lookup_Some [OF inv] occ
    proof
      assume "\<exists>i \<in> insert idx (occupied st). pi_pid (proc_table st' i) = q \<and> x = proc_table st' i"
      with False p(2) show "\<exists>i \<in> occupied st. pi_pid (proc_table st i) = q \<and> x = proc_table st i"
        by (auto simp: tab split: if_splits)
    next
      assume "\<exists>i \<in> occupied st. pi_pid (proc_table st i) = q \<and> x = proc_table st i"
      then obtain i where i: "i \<in> occupied st" "pi_pid (proc_table st i) = q" "x = proc_table st i" by blast
      with pid [of i] False have "i \<noteq> idx" by simp
      with i show "\<exists>i \<in> insert idx (occupied st). pi_pid (proc_table st' i) = q \<and> x = proc_table st' i"
        by (intro bexI [of _ i]) (simp_all add: tab)
    qed
    with False show ?thesis by (intro pt_lookup_ext [OF inv']) simp
  qed
  then show "pt_lookup st' = (pt_lookup st)(pid \<mapsto> p)" by auto
qed

lemma pt_store_None:
  assumes inv: "tab_inv st"
  shows "pt_store st pid p = None \<longleftrightarrow> pid \<le> 0 \<or> (pt_lookup st pid = None \<and> occupied_count st = PROC_MAX)"
proof -
  have cnt: "occupied_count st = card (occupied st)" using inv by (simp add: tab_inv_def)
  have full: "occupied_count st = PROC_MAX" if "probe_upsert st pid None (probe_seq pid) = None"
  proof -
    from probe_upsert_full [OF that] have "occupied st = {..<PROC_MAX}" by (auto simp: occupied_def)
    with cnt show ?thesis by simp
  qed
  have le: "occupied_count st \<le> PROC_MAX" using cnt card_occupied_le by simp
  show ?thesis
  proof (cases "0 < pid")
    case False
    then show ?thesis by (simp add: pt_store_def prepare_upsert_def find_upsert_slot_def)
  next
    case pos: True
    show ?thesis
    proof (cases "probe_upsert st pid None (probe_seq pid)")
      case None
      then show ?thesis using pos full probe_upsert_existing(3) [OF None]
        by (simp add: pt_store_def prepare_upsert_def find_upsert_slot_def pt_lookup_def process_get_def find_existing_slot_def)
    next
      case (Some r)
      obtain i b where "r = (i, b)" by (cases r)
      with Some pos le show ?thesis
        using probe_upsert_existing(1,2) [of st pid None "probe_seq pid" i]
        by (cases b) (auto simp: pt_store_def prepare_upsert_def find_upsert_slot_def pt_lookup_def
            process_get_def find_existing_slot_def)
    qed
  qed
qed

lemma process_remove_inv:
  assumes inv: "tab_inv st"
  shows "tab_inv (process_remove st pid)"
proof (cases "find_existing_slot st pid")
  case None
  with inv show ?thesis by (simp add: process_remove_def)
next
  case (Some idx)
  let ?st = "process_remove st pid"
  from Some inv have idx: "idx \<in> occupied st" by (simp add: find_existing_slot_iff)
  then have pos: "0 < occupied_count st" using inv by (auto simp: tab_inv_def card_gt_0_iff)
  have tab: "proc_table ?st i = (if i = idx then proc_info_zero else proc_table st i)" for i
    using Some by (simp add: process_remove_def)
  have slots: "slot_states ?st i = (if i = idx then PROCESS_SLOT_TOMBSTONE else slot_states st i)" for i
    using Some by (simp add: process_remove_def)
  have occ: "occupied ?st = occupied st - {idx}" by (auto simp: occupied_def slots)
  have reach: "reaches st is i \<Longrightarrow> reaches ?st is i" for i "is"
    by (erule reaches_mono) (simp add: slots)
  show ?thesis
    unfolding tab_inv_def
  proof (intro conjI allI impI)
    fix i
    assume "i < PROC_MAX"
    with inv reach show "if slot_states ?st i = PROCESS_SLOT_OCCUPIED
        then pi_used (proc_table ?st i) \<and> 0 < pi_pid (proc_table ?st i) \<and>
             reaches ?st (probe_seq (pi_pid (proc_table ?st i))) i
        else \<not> pi_used (proc_table ?st i)"
      by (auto simp: tab slots tab_inv_def proc_info_zero_def)
  next
    show "inj_on (\<lambda>i. pi_pid (proc_table ?st i)) (occupied ?st)"
      using tab_inv_unique [OF inv] by (auto simp: inj_on_def occ tab)
  next
    have "occupied_count ?st = occupied_count st - 1" using Some pos by (simp add: process_remove_def)
    also have "\<dots> = card (occupied st - {idx})" using inv idx by (simp add: tab_inv_def)
    finally show "occupied_count ?st = card (occupied ?st)" by (simp only: occ)
  qed
qed

lemma process_remove_lookup:
  assumes inv: "tab_inv st"
  shows "pt_lookup (process_remove st pid) = (pt_lookup st)(pid := None)"
proof (cases "find_existing_slot st pid")
  case None
  then show ?thesis by (auto simp: process_remove_def pt_lookup_def process_get_def)
next
  case (Some idx)
  let ?st = "process_remove st pid"
  note inv' = process_remove_inv [OF inv, of pid]
  from Some inv have idx: "idx \<in> occupied st" "pi_pid (proc_table st idx) = pid"
    by (simp_all add: find_existing_slot_iff)
  have "proc_table ?st i = (if i = idx then proc_info_zero else proc_table st i)" for i
    using Some by (simp add: process_remove_def)
  moreover have "occupied ?st = occupied st - {idx}" using Some by (auto simp: occupied_def process_remove_def)
  ultimately show ?thesis
    using idx tab_inv_unique [OF inv]
    by (intro ext pt_lookup_ext [OF inv']) (auto simp: pt_lookup_Some [OF inv'] pt_lookup_Some [OF inv])
qed

lemma process_table_reset_inv: "tab_inv process_table_reset"
  by (simp add: tab_inv_def process_table_reset_def occupied_def proc_info_zero_def)

lemma process_table_reset_lookup: "pt_lookup process_table_reset = Map.empty"
proof
  fix pid
  have "occupied process_table_reset = {}" by (simp add: occupied_def process_table_reset_def)
  then show "pt_lookup process_table_reset pid = None"
    by (simp add: pt_lookup_def process_get_def find_existing_slot_None [OF process_table_reset_inv])
qed

subsection \<open>The interface the event handlers rely on\<close>

text \<open>
  A bounded map from process ids to entries: what a lookup returns after each operation, and
  when storing fails. \<open>fits\<close> is what the provider requires of an entry.
\<close>

locale pid_map =
  fixes lookup :: "'s \<Rightarrow> pid_t \<Rightarrow> 'v option"
    and inv :: "'s \<Rightarrow> bool"
    and init :: 's
    and store :: "'s \<Rightarrow> pid_t \<Rightarrow> 'v \<Rightarrow> 's option"
    and erase :: "'s \<Rightarrow> pid_t \<Rightarrow> 's"
    and fits :: "pid_t \<Rightarrow> 'v \<Rightarrow> bool"
    and capacity :: nat
  assumes init_inv: "inv init" and init_lookup: "lookup init = Map.empty"
    and store_inv: "inv s \<Longrightarrow> fits pid v \<Longrightarrow> store s pid v = Some s' \<Longrightarrow> inv s'"
    and store_lookup: "inv s \<Longrightarrow> fits pid v \<Longrightarrow> store s pid v = Some s' \<Longrightarrow> lookup s' = (lookup s)(pid \<mapsto> v)"
    and store_None: "inv s \<Longrightarrow> fits pid v \<Longrightarrow>
      store s pid v = None \<longleftrightarrow> lookup s pid = None \<and> card (dom (lookup s)) = capacity"
    and erase_inv: "inv s \<Longrightarrow> inv (erase s pid)"
    and erase_lookup: "inv s \<Longrightarrow> lookup (erase s pid) = (lookup s)(pid := None)"
    and bounded: "inv s \<Longrightarrow> finite (dom (lookup s)) \<and> card (dom (lookup s)) \<le> capacity"
begin

lemma store_present: "inv s \<Longrightarrow> fits pid v \<Longrightarrow> lookup s pid \<noteq> None \<Longrightarrow> \<exists>s'. store s pid v = Some s'"
  using store_None [of s pid v] by (cases "store s pid v") auto

text \<open>Erasing always makes room, so a table that stays below its capacity never refuses an entry.\<close>

lemma store_after_erase:
  assumes "inv s" "fits pid v" "lookup s q \<noteq> None"
  shows "\<exists>s'. store (erase s q) pid v = Some s' \<and> lookup s' = (lookup s)(q := None, pid \<mapsto> v)"
proof -
  have "card (dom (lookup (erase s q))) < capacity"
    using assms(1,3) bounded [OF assms(1)] card_Diff1_less [of "dom (lookup s)" q]
    by (simp add: erase_lookup domIff del: card_Diff_insert)
  then obtain s' where s': "store (erase s q) pid v = Some s'"
    using store_None [OF erase_inv [OF assms(1)] assms(2), of q]
    by (cases "store (erase s q) pid v") auto
  with store_lookup [OF erase_inv [OF assms(1)] assms(2) s'] assms(1) show ?thesis
    by (simp add: erase_lookup)
qed

text \<open>A sequence of stores and erasures acts like the same sequence on a map, as long as nothing is refused.\<close>

lemma sequence_lookup:
  assumes "inv s" "\<forall>(pid, v) \<in> set ops. case v of None \<Rightarrow> True | Some x \<Rightarrow> fits pid x"
    and "foldl (\<lambda>so (pid, v). case so of None \<Rightarrow> None
           | Some s \<Rightarrow> (case v of None \<Rightarrow> Some (erase s pid) | Some x \<Rightarrow> store s pid x)) (Some s) ops = Some s'"
  shows "inv s' \<and> lookup s' = foldl (\<lambda>m (pid, v). m(pid := v)) (lookup s) ops"
  using assms
proof (induction ops arbitrary: s)
  case Nil
  then show ?case by simp
next
  case (Cons op ops)
  obtain pid v where op: "op = (pid, v)" by (rule prod.exhaust)
  let ?step = "case v of None \<Rightarrow> Some (erase s pid) | Some x \<Rightarrow> store s pid x"
  have "foldl (\<lambda>so (pid, v). case so of None \<Rightarrow> None
      | Some s \<Rightarrow> (case v of None \<Rightarrow> Some (erase s pid) | Some x \<Rightarrow> store s pid x)) None ops = None"
    by (induction ops) auto
  with Cons.prems(3) op obtain s1 where s1: "?step = Some s1" by (cases "?step") auto
  with Cons.prems(1,2) op have "inv s1" "lookup s1 = (lookup s)(pid := v)"
    by (auto simp: erase_inv erase_lookup split: option.splits intro: store_inv dest: store_lookup)
  with Cons.IH [of s1] Cons.prems op s1 show ?case by simp
qed

end

interpretation ptab: pid_map pt_lookup tab_inv process_table_reset pt_store process_remove
  "\<lambda>pid p. 0 < pid \<and> pi_used p \<and> pi_pid p = pid" PROC_MAX
proof
  fix s s' :: proc_tab and pid :: pid_t and v :: proc_info
  assume inv: "tab_inv s" and fits: "0 < pid \<and> pi_used v \<and> pi_pid v = pid"
  show "pt_store s pid v = None \<longleftrightarrow> pt_lookup s pid = None \<and> card (dom (pt_lookup s)) = PROC_MAX"
    using inv fits by (auto simp: pt_store_None card_dom_lookup)
  assume "pt_store s pid v = Some s'"
  with inv fits show "tab_inv s'" "pt_lookup s' = (pt_lookup s)(pid \<mapsto> v)"
    by (auto intro: pt_store_inv simp: pt_store_lookup)
next
  fix s
  assume inv: "tab_inv s"
  have "dom (pt_lookup s) = (\<lambda>i. pi_pid (proc_table s i)) ` occupied s"
    using inv by (auto simp: dom_def pt_lookup_Some)
  moreover have "occupied_count s \<le> PROC_MAX" using inv card_occupied_le [of s] by (simp add: tab_inv_def)
  ultimately show "finite (dom (pt_lookup s)) \<and> card (dom (pt_lookup s)) \<le> PROC_MAX"
    using card_dom_lookup [OF inv] by simp
qed (simp_all add: process_table_reset_inv process_table_reset_lookup process_remove_inv process_remove_lookup)

subsection \<open>The upserts\<close>

lemma pt_store_slot:
  assumes "prepare_upsert st pid = Some (st1, idx, found)" "tab_inv st" "pi_used p" "pi_pid p = pid"
  shows "pt_store st pid p = Some (st1\<lparr>proc_table := (proc_table st1)(idx := p)\<rparr>)"
    "idx \<in> occupied (st1\<lparr>proc_table := (proc_table st1)(idx := p)\<rparr>)"
  using assms prepare_upsert_cases(2,6) [OF assms(2,1)]
  by (simp_all add: pt_store_def occupied_def)

text \<open>An entry that is changed in place but keeps its process id.\<close>

lemma pt_update:
  assumes inv: "tab_inv st" and i: "i \<in> occupied st"
    and p: "pi_used p" "pi_pid p = pi_pid (proc_table st i)"
  shows "tab_inv (st\<lparr>proc_table := (proc_table st)(i := p)\<rparr>)"
    "pt_lookup (st\<lparr>proc_table := (proc_table st)(i := p)\<rparr>) = (pt_lookup st)(pi_pid p \<mapsto> p)"
proof -
  let ?pid = "pi_pid (proc_table st i)"
  from inv i have pos: "0 < ?pid" and look: "pt_lookup st ?pid \<noteq> None"
    by (auto dest: tab_inv_occupied simp: pt_lookup_slot)
  then obtain st1 idx found where prep: "prepare_upsert st ?pid = Some (st1, idx, found)"
    using pt_store_None [OF inv, of ?pid p] by (auto simp: pt_store_def split: option.splits)
  from prepare_upsert_cases(5) [OF inv prep] look have found: "st1 = st" "idx \<in> occupied st"
    "pi_pid (proc_table st idx) = ?pid" by (auto split: if_splits)
  with inv i have "idx = i" by (metis tab_inv_unique)
  with found prep have store: "pt_store st ?pid p = Some (st\<lparr>proc_table := (proc_table st)(i := p)\<rparr>)"
    by (simp add: pt_store_def)
  show "tab_inv (st\<lparr>proc_table := (proc_table st)(i := p)\<rparr>)"
    using pt_store_inv [OF inv store p] .
  show "pt_lookup (st\<lparr>proc_table := (proc_table st)(i := p)\<rparr>) = (pt_lookup st)(pi_pid p \<mapsto> p)"
    using pt_store_lookup [OF inv store p] p(2) by simp
qed

lemma process_read_exe_same:
  "process_read_exe os p w = (rc, p', w') \<Longrightarrow> (\<exists>x. p' = p\<lparr>pi_exe_path := x\<rparr>) \<and>
   w_open w' = w_open w \<and> w_writes w' = w_writes w"
  by (auto simp: process_read_exe_def sys_readlink_def Let_def intro: exI [of _ "pi_exe_path p"]
      split: if_splits option.splits prod.splits)

lemma process_read_cmdline_same:
  "process_read_cmdline os p w = (rc, p', w') \<Longrightarrow> (\<exists>x. p' = p\<lparr>pi_cmdline := x\<rparr>) \<and>
   w_open w' = w_open w \<and> w_writes w' = w_writes w"
  by (auto simp: process_read_cmdline_def fopen_r_def fclose_r_def Let_def intro: exI [of _ "pi_cmdline p"]
      split: if_splits option.splits prod.splits)

text \<open>What exec and fork leave in the entry, as functions of what the table held before.\<close>

definition exec_entry :: "proc_info option \<Rightarrow> event \<Rightarrow> proc_info" where
  "exec_entry old e = proc_info_zero\<lparr>pi_used := True, pi_pid := ev_pid e, pi_ppid := ev_ppid e,
     pi_uid := ev_uid e, pi_exec_seen := True,
     pi_is_protected := (case old of None \<Rightarrow> False | Some p \<Rightarrow> pi_is_protected p),
     pi_inherited_protected := (case old of None \<Rightarrow> False | Some p \<Rightarrow> pi_inherited_protected p),
     pi_group := (case old of None \<Rightarrow> GROUP_UNKNOWN | Some p \<Rightarrow> pi_group p),
     pi_comm := snprintf_s TASK_COMM_LEN (cstr (ev_comm e))\<rparr>"

definition fork_entry :: "bool \<Rightarrow> event \<Rightarrow> proc_info" where
  "fork_entry inherits e =
     (let child = proc_info_zero\<lparr>pi_used := True, pi_pid := ev_child_pid e, pi_ppid := ev_pid e,
            pi_uid := ev_uid e, pi_group := GROUP_UNKNOWN,
            pi_comm := snprintf_s TASK_COMM_LEN (cstr (ev_comm e))\<rparr>
      in if inherits then child\<lparr>pi_is_protected := True, pi_inherited_protected := True,
                                pi_group := GROUP_PROTECTED\<rparr> else child)"

lemma fork_entry_folds:
  "proc_info_zero\<lparr>pi_used := True, pi_pid := ev_child_pid e, pi_ppid := ev_pid e, pi_uid := ev_uid e,
     pi_group := GROUP_UNKNOWN, pi_comm := snprintf_s TASK_COMM_LEN (cstr (ev_comm e))\<rparr> = fork_entry False e"
  "(fork_entry False e)\<lparr>pi_is_protected := True, pi_inherited_protected := True, pi_group := GROUP_PROTECTED\<rparr> =
   fork_entry True e"
  by (simp_all add: fork_entry_def)

text \<open>A process inherits protection from its parent's entry, unless that entry is its own.\<close>

definition inherits_from :: "proc_tab \<Rightarrow> event \<Rightarrow> bool" where
  "inherits_from st e \<longleftrightarrow> ev_child_pid e \<noteq> ev_pid e \<and>
     (case pt_lookup st (ev_pid e) of None \<Rightarrow> False | Some p \<Rightarrow> pi_is_protected p)"

lemma process_upsert_exec_None:
  assumes inv: "tab_inv st" and up: "process_upsert_exec os st (Some e) w = (st', None, w')"
  shows "st' = st \<and> w' = w \<and> (ev_pid e \<le> 0 \<or> pt_lookup st (ev_pid e) = None \<and> occupied_count st = PROC_MAX)"
  using up pt_store_None [OF inv, of "ev_pid e" undefined]
  by (auto simp: process_upsert_exec_def pt_store_def Let_def split: if_splits option.splits prod.splits)

lemma process_upsert_exec_Some:
  assumes inv: "tab_inv st" and up: "process_upsert_exec os st (Some e) w = (st', Some idx, w')"
  obtains exe cmd where
    "tab_inv st'" "idx \<in> occupied st'"
    "proc_table st' idx = (exec_entry (pt_lookup st (ev_pid e)) e)\<lparr>pi_exe_path := exe, pi_cmdline := cmd\<rparr>"
    "pt_lookup st' = (pt_lookup st)(ev_pid e \<mapsto> proc_table st' idx)"
    "w_open w' = w_open w" "w_writes w' = w_writes w"
proof -
  from up obtain st1 found where
    prep: "prepare_upsert st (ev_pid e) = Some (st1, idx, found)" and pos: "0 < ev_pid e"
    by (auto simp: process_upsert_exec_def Let_def split: if_splits option.splits prod.splits)
  let ?old = "pt_lookup st (ev_pid e)"
  have old: "?old = (if found then Some (proc_table st1 idx) else None)"
    using prepare_upsert_cases(5) [OF inv prep] pt_lookup_slot [OF inv, of idx] by (auto split: if_splits)
  obtain r1 p2 w1 where r1: "process_read_exe os (exec_entry ?old e) w = (r1, p2, w1)" by (rule prod_cases3)
  obtain r2 p3 w2 where r2: "process_read_cmdline os p2 w1 = (r2, p3, w2)" by (rule prod_cases3)
  from process_read_exe_same [OF r1] process_read_cmdline_same [OF r2] obtain exe cmd where
    p3: "p3 = (exec_entry ?old e)\<lparr>pi_exe_path := exe, pi_cmdline := cmd\<rparr>"
    and w: "w_open w2 = w_open w" "w_writes w2 = w_writes w" by auto
  have st': "st' = st1\<lparr>proc_table := (proc_table st1)(idx := p3)\<rparr>" and w': "w' = w2"
    using up prep pos r1 r2 old
    by (auto simp: process_upsert_exec_def exec_entry_def Let_def split: if_splits)
  have fit: "pi_used p3" "pi_pid p3 = ev_pid e" by (simp_all add: p3 exec_entry_def)
  from pt_store_slot [OF prep inv fit] have store: "pt_store st (ev_pid e) p3 = Some st'" "idx \<in> occupied st'"
    by (simp_all add: st')
  show thesis
    by (rule that [OF pt_store_inv [OF inv store(1) fit] store(2)])
      (simp_all add: pt_store_lookup [OF inv store(1) fit], simp_all add: st' p3 w w')
qed

lemma process_upsert_fork_None:
  assumes inv: "tab_inv st" and up: "process_upsert_fork st (Some e) = (st', None)"
  shows "st' = st \<and> (ev_pid e \<le> 0 \<or> ev_child_pid e \<le> 0 \<or>
    pt_lookup st (ev_child_pid e) = None \<and> occupied_count st = PROC_MAX)"
  using up pt_store_None [OF inv, of "ev_child_pid e" undefined]
  by (auto simp: process_upsert_fork_def pt_store_def Let_def split: if_splits option.splits prod.splits)

lemma process_upsert_fork_Some:
  assumes inv: "tab_inv st" and up: "process_upsert_fork st (Some e) = (st', Some idx)"
  shows "tab_inv st'" "idx \<in> occupied st'" "proc_table st' idx = fork_entry (inherits_from st e) e"
    "pt_lookup st' = (pt_lookup st)(ev_child_pid e \<mapsto> fork_entry (inherits_from st e) e)"
proof -
  from up obtain st1 found where
    prep: "prepare_upsert st (ev_child_pid e) = Some (st1, idx, found)" and pos: "0 < ev_pid e"
    by (auto simp: process_upsert_fork_def Let_def split: if_splits option.splits prod.splits)
  let ?p = "fork_entry (inherits_from st e) e"
  let ?child = "fork_entry False e"
  have inh: "(case process_get st (ev_pid e) of None \<Rightarrow> False
      | Some i \<Rightarrow> pi_used (((proc_table st1)(idx := ?child)) i) \<and>
                  pi_is_protected (((proc_table st1)(idx := ?child)) i)) = inherits_from st e"
  proof (cases "process_get st (ev_pid e)")
    case None
    then show ?thesis by (simp add: inherits_from_def pt_lookup_def)
  next
    case (Some i)
    then have i: "i \<in> occupied st" "pi_pid (proc_table st i) = ev_pid e"
      by (simp_all add: process_get_def find_existing_slot_iff [OF inv])
    have "i = idx \<longleftrightarrow> ev_child_pid e = ev_pid e"
      using prepare_upsert_cases(5) [OF inv prep] i tab_inv_unique [OF inv] pt_lookup_slot [OF inv i(1)]
      by (auto split: if_splits)
    then show ?thesis
      using Some prepare_upsert_cases(4) [OF inv prep, of i] tab_inv_occupied [OF inv i(1)]
      by (auto simp: inherits_from_def pt_lookup_def fork_entry_def proc_info_zero_def)
  qed
  have "st' = st1\<lparr>proc_table := ((proc_table st1)(idx := ?child))(idx := ?p)\<rparr>"
    using up prep pos
    by (cases "inherits_from st e")
      (simp_all add: process_upsert_fork_def Let_def fork_entry_folds inh split: if_splits)
  then have st': "st' = st1\<lparr>proc_table := (proc_table st1)(idx := ?p)\<rparr>" by simp
  have fit: "pi_used ?p" "pi_pid ?p = ev_child_pid e" by (simp_all add: fork_entry_def Let_def)
  from pt_store_slot [OF prep inv fit] have store: "pt_store st (ev_child_pid e) ?p = Some st'" "idx \<in> occupied st'"
    by (simp_all add: st')
  show "tab_inv st'" by (rule pt_store_inv [OF inv store(1) fit])
  show "pt_lookup st' = (pt_lookup st)(ev_child_pid e \<mapsto> ?p)" by (rule pt_store_lookup [OF inv store(1) fit])
  show "idx \<in> occupied st'" by (rule store(2))
  show "proc_table st' idx = ?p" by (simp add: st')
qed

subsection \<open>Snapshots\<close>

lemma snapshot_scan_Some:
  assumes "\<forall>i \<in> set is. if slot_states st i = PROCESS_SLOT_OCCUPIED
        then pi_used (proc_table st i) \<and> 0 < pi_pid (proc_table st i) else \<not> pi_used (proc_table st i)"
  shows "snapshot_scan st is n = Some (n + length (filter (\<lambda>i. slot_states st i = PROCESS_SLOT_OCCUPIED) is))"
  using assms by (induction "is" arbitrary: n) (auto split: if_splits)

lemma process_snapshot_eq:
  assumes inv: "tab_inv st"
  defines "slots \<equiv> filter (\<lambda>i. slot_states st i = PROCESS_SLOT_OCCUPIED) [0..<PROC_MAX]"
  shows "process_snapshot st (Some cap) =
    (if cap < occupied_count st then (PROCESS_ERR_NO_SPACE, []) else (PROCESS_OK, map (proc_table st) slots))"
    "set slots = occupied st" "distinct slots" "length slots = occupied_count st"
proof -
  show slots: "set slots = occupied st" "distinct slots" by (auto simp: slots_def occupied_def)
  then have "card (occupied st) = length slots" by (metis distinct_card)
  with inv show len: "length slots = occupied_count st" by (simp add: tab_inv_def)
  have "snapshot_scan st [0..<PROC_MAX] 0 = Some (0 + length slots)"
    unfolding slots_def by (rule snapshot_scan_Some) (use inv in \<open>auto simp: tab_inv_def\<close>)
  with len show "process_snapshot st (Some cap) =
      (if cap < occupied_count st then (PROCESS_ERR_NO_SPACE, []) else (PROCESS_OK, map (proc_table st) slots))"
    by (simp add: process_snapshot_def slots_def)
qed

text \<open>The tables a daemon can have: reset, then exec, fork and exit events in any order.\<close>

inductive table_run :: "proc_tab \<Rightarrow> bool" where
  reset: "table_run process_table_reset"
| exec: "table_run st \<Longrightarrow> process_upsert_exec os st ep w = (st', slot, w') \<Longrightarrow> table_run st'"
| fork: "table_run st \<Longrightarrow> process_upsert_fork st ep = (st', slot) \<Longrightarrow> table_run st'"
| remove: "table_run st \<Longrightarrow> table_run (process_remove st pid)"
| update: "table_run st \<Longrightarrow> process_get st (pi_pid p) = Some i \<Longrightarrow> pi_used p \<Longrightarrow>
    table_run (st\<lparr>proc_table := (proc_table st)(i := p)\<rparr>)"

lemma process_upsert_exec_inv:
  assumes "tab_inv st" "process_upsert_exec os st ep w = (st', slot, w')"
  shows "tab_inv st'"
proof (cases ep)
  case None
  with assms show ?thesis by (simp add: process_upsert_exec_def)
next
  case (Some e)
  with assms show ?thesis
    using process_upsert_exec_None [of st os e w st' w'] process_upsert_exec_Some [of st os e w st' _ w']
    by (cases slot) auto
qed

lemma process_upsert_fork_inv:
  assumes "tab_inv st" "process_upsert_fork st ep = (st', slot)"
  shows "tab_inv st'"
proof (cases ep)
  case None
  with assms show ?thesis by (simp add: process_upsert_fork_def)
next
  case (Some e)
  with assms show ?thesis
    using process_upsert_fork_None [of st e st'] process_upsert_fork_Some(1) [of st e st']
    by (cases slot) auto
qed

lemma table_run_inv: "table_run st \<Longrightarrow> tab_inv st"
proof (induction rule: table_run.induct)
  case (update st p i)
  then have "i \<in> occupied st \<and> pi_pid (proc_table st i) = pi_pid p"
    by (simp add: process_get_def find_existing_slot_iff)
  with update show ?case by (auto intro: pt_update(1))
qed (auto intro: process_table_reset_inv process_upsert_exec_inv process_upsert_fork_inv process_remove_inv)

subsection \<open>Properties\<close>

text \<open>C5: After any sequence of table operations, tombstones and collisions included, a lookup finds the one entry of a
  process if the table has one: the slot it returns is occupied by that process, and no answer
  means that no slot is.\<close>

theorem process_get_exact:
  assumes "table_run st"
  shows "case process_get st pid of
      Some i \<Rightarrow> i < PROC_MAX \<and> slot_states st i = PROCESS_SLOT_OCCUPIED \<and> pi_pid (proc_table st i) = pid \<and>
        (\<forall>j < PROC_MAX. slot_states st j = PROCESS_SLOT_OCCUPIED \<and> pi_pid (proc_table st j) = pid \<longrightarrow> j = i)
    | None \<Rightarrow> (\<forall>j < PROC_MAX. slot_states st j = PROCESS_SLOT_OCCUPIED \<longrightarrow> pi_pid (proc_table st j) \<noteq> pid)"
proof (cases "process_get st pid")
  case None
  with find_existing_slot_None [OF table_run_inv [OF assms], of pid] show ?thesis
    by (simp add: process_get_def occupied_def)
next
  case (Some i)
  then have "i \<in> occupied st \<and> pi_pid (proc_table st i) = pid"
    by (simp add: process_get_def find_existing_slot_iff [OF table_run_inv [OF assms]])
  with Some tab_inv_unique [OF table_run_inv [OF assms]] show ?thesis by (auto simp: occupied_def)
qed

theorem process_get_exact_witness:
  "case process_get process_table_reset 7 of
      Some i \<Rightarrow> i < PROC_MAX | None \<Rightarrow> (\<forall>j < PROC_MAX. slot_states process_table_reset j = PROCESS_SLOT_OCCUPIED \<longrightarrow>
        pi_pid (proc_table process_table_reset j) \<noteq> 7)"
  using process_get_exact [OF table_run.reset, of 7] by (simp split: option.splits)

text \<open>C4: The table refines a finite map from process ids to entries. On every table that can arise, exec, fork and remove
  change the entry of one process and of no other; exec keeps the protection flags and the group that the entry
  had, fork derives them from the parent; an upsert is refused only for an invalid id or when
  all \<open>PROC_MAX\<close> slots are taken by other processes.\<close>

theorem process_table_refines_map:
  assumes "table_run st"
  shows "(case process_upsert_exec os st (Some e) w of
        (st', Some i, w') \<Rightarrow> pt_lookup st' = (pt_lookup st)(ev_pid e \<mapsto> proc_table st' i) \<and>
          (\<exists>exe cmd. proc_table st' i =
             (exec_entry (pt_lookup st (ev_pid e)) e)\<lparr>pi_exe_path := exe, pi_cmdline := cmd\<rparr>)
      | (st', None, w') \<Rightarrow> st' = st \<and> (ev_pid e \<le> 0 \<or>
          pt_lookup st (ev_pid e) = None \<and> card (dom (pt_lookup st)) = PROC_MAX)) \<and>
    (case process_upsert_fork st (Some e) of
        (st', Some i) \<Rightarrow> pt_lookup st' = (pt_lookup st)(ev_child_pid e \<mapsto> fork_entry (inherits_from st e) e)
      | (st', None) \<Rightarrow> st' = st \<and> (ev_pid e \<le> 0 \<or> ev_child_pid e \<le> 0 \<or>
          pt_lookup st (ev_child_pid e) = None \<and> card (dom (pt_lookup st)) = PROC_MAX)) \<and>
    pt_lookup (process_remove st pid) = (pt_lookup st)(pid := None) \<and>
    process_table_count st = card (dom (pt_lookup st))"
proof -
  note inv = table_run_inv [OF assms]
  have "case process_upsert_exec os st (Some e) w of
        (st', Some i, w') \<Rightarrow> pt_lookup st' = (pt_lookup st)(ev_pid e \<mapsto> proc_table st' i) \<and>
          (\<exists>exe cmd. proc_table st' i =
             (exec_entry (pt_lookup st (ev_pid e)) e)\<lparr>pi_exe_path := exe, pi_cmdline := cmd\<rparr>)
      | (st', None, w') \<Rightarrow> st' = st \<and> (ev_pid e \<le> 0 \<or>
          pt_lookup st (ev_pid e) = None \<and> card (dom (pt_lookup st)) = PROC_MAX)"
    using process_upsert_exec_None [OF inv] process_upsert_exec_Some [OF inv]
    by (simp add: card_dom_lookup [OF inv] split: prod.split option.split) metis
  moreover have "case process_upsert_fork st (Some e) of
        (st', Some i) \<Rightarrow> pt_lookup st' = (pt_lookup st)(ev_child_pid e \<mapsto> fork_entry (inherits_from st e) e)
      | (st', None) \<Rightarrow> st' = st \<and> (ev_pid e \<le> 0 \<or> ev_child_pid e \<le> 0 \<or>
          pt_lookup st (ev_child_pid e) = None \<and> card (dom (pt_lookup st)) = PROC_MAX)"
    using process_upsert_fork_None [OF inv] process_upsert_fork_Some(4) [OF inv]
    by (simp add: card_dom_lookup [OF inv] split: prod.split option.split)
  ultimately show ?thesis
    by (simp add: ptab.erase_lookup [OF inv] process_table_count_def card_dom_lookup [OF inv])
qed

theorem process_table_refines_map_witness:
  "pt_lookup (process_remove process_table_reset 5) = (pt_lookup process_table_reset)(5 := None) \<and>
   process_table_count process_table_reset = 0"
  using process_table_refines_map [OF table_run.reset, of _ undefined undefined 5]
  by (simp add: process_table_reset_lookup)

text \<open>A snapshot is complete or refused. With room for all entries it returns OK and exactly the entries of
  the table, each once; with less room it returns NO_SPACE and writes nothing; the consistency checks of
  the code never fail on a table that can arise.\<close>

theorem process_snapshot_complete:
  assumes "table_run st"
  shows "process_snapshot st (Some cap) =
      (if cap < process_table_count st then (PROCESS_ERR_NO_SPACE, [])
       else (PROCESS_OK, snd (process_snapshot st (Some PROC_MAX)))) \<and>
    distinct (map pi_pid (snd (process_snapshot st (Some PROC_MAX)))) \<and>
    (\<forall>p. p \<in> set (snd (process_snapshot st (Some PROC_MAX))) \<longleftrightarrow> pt_lookup st (pi_pid p) = Some p) \<and>
    length (snd (process_snapshot st (Some PROC_MAX))) = process_table_count st"
proof -
  note inv = table_run_inv [OF assms]
  have le: "\<not> PROC_MAX < occupied_count st" using ptab.bounded [OF inv] card_dom_lookup [OF inv] by simp
  let ?slots = "filter (\<lambda>i. slot_states st i = PROCESS_SLOT_OCCUPIED) [0..<PROC_MAX]"
  note snap = process_snapshot_eq [OF inv]
  have out: "snd (process_snapshot st (Some PROC_MAX)) = map (proc_table st) ?slots"
    using snap(1) [of PROC_MAX] le by simp
  have "inj_on (\<lambda>i. pi_pid (proc_table st i)) (set ?slots)"
    using inv snap(2) by (simp only: tab_inv_def)
  then have "distinct (map pi_pid (map (proc_table st) ?slots))"
    using snap(3) by (simp only: distinct_map map_map comp_def)
  moreover have "p \<in> set (map (proc_table st) ?slots) \<longleftrightarrow> pt_lookup st (pi_pid p) = Some p" for p
    unfolding set_map snap(2) pt_lookup_Some [OF inv] by auto
  moreover have "length (map (proc_table st) ?slots) = process_table_count st"
    unfolding length_map process_table_count_def by (rule snap(4))
  moreover have "process_snapshot st (Some cap) = (if cap < process_table_count st then (PROCESS_ERR_NO_SPACE, [])
       else (PROCESS_OK, map (proc_table st) ?slots))"
    unfolding process_table_count_def by (rule snap(1))
  ultimately show ?thesis unfolding out by blast
qed

theorem process_snapshot_complete_witness:
  "process_snapshot process_table_reset (Some 3) = (PROCESS_OK, [])"
proof -
  have zero: "process_table_count process_table_reset = 0"
    by (simp add: process_table_count_def process_table_reset_def)
  show ?thesis
    using process_snapshot_complete [OF table_run.reset, of 3] unfolding zero by simp
qed

end
