(* ===== verification/Policy.thy ===== *)
theory Policy
  imports Process_Correct
begin

text \<open>
  The static policy (\<open>protected-daemon/src/policy.c\<close>): the list of protected command names read
  from the configuration file, and the decision which group a process belongs to. The static
  array \<open>protected_comm[0 .. protected_count)\<close> is a list of names.
\<close>

definition MAX_PROTECTED :: nat where "MAX_PROTECTED = 128"

definition trim_line :: "string \<Rightarrow> string" where
  "trim_line s = rev (dropWhile is_space (rev (dropWhile is_space (cut_line_end s))))"

text \<open>The body of the reading loop.\<close>

definition load_line :: "string list \<Rightarrow> string \<Rightarrow> string list" where
  "load_line protected_comm line0 =
     (let line = trim_line line0
      in if line = [] then protected_comm
         else if hd line = CHR ''#'' then protected_comm
         else if MAX_PROTECTED \<le> length protected_comm then protected_comm
         else protected_comm @ [snprintf_s TASK_COMM_LEN line])"

definition policy_load_config :: "os \<Rightarrow> string \<Rightarrow> world \<Rightarrow> int \<times> string list \<times> world" where
  "policy_load_config os path w =
     (case fopen_r os path w of
        (None, w1) \<Rightarrow> (-1, [], w1)
      | (Some contents, w1) \<Rightarrow>
          (let protected_comm = foldl load_line [] (fgets_all 255 contents);
               (_, w2) = fclose_r os w1
           in (0, protected_comm, w2)))"

definition policy_is_ignored :: "proc_info option \<Rightarrow> bool" where
  "policy_is_ignored pp =
     (case pp of
        None \<Rightarrow> True
      | Some p \<Rightarrow> if pi_pid p \<le> 2 then True else if cstr (pi_comm p) = [] then True else False)"

definition policy_is_protected :: "string list \<Rightarrow> proc_info option \<Rightarrow> bool" where
  "policy_is_protected protected_comm pp =
     (case pp of
        None \<Rightarrow> False
      | Some p \<Rightarrow> list_ex (\<lambda>name. pi_comm p = name) protected_comm)"

definition policy_decide_group :: "string list \<Rightarrow> proc_info option \<Rightarrow> proc_group" where
  "policy_decide_group protected_comm pp =
     (if policy_is_ignored pp then GROUP_IGNORED
      else if pi_is_protected (the pp) \<or> policy_is_protected protected_comm pp then GROUP_PROTECTED
      else GROUP_BACKGROUND)"

subsection \<open>Properties\<close>

text \<open>The entries of the file: trimmed lines that are neither empty nor comments.\<close>

definition config_entries :: "string list \<Rightarrow> string list" where
  "config_entries lines = filter (\<lambda>l. l \<noteq> [] \<and> hd l \<noteq> CHR ''#'') (map trim_line lines)"

lemma foldl_load_line:
  "length acc \<le> MAX_PROTECTED \<Longrightarrow>
   foldl load_line acc lines =
     take MAX_PROTECTED (acc @ map (snprintf_s TASK_COMM_LEN) (config_entries lines))"
proof (induction lines arbitrary: acc)
  case Nil
  then show ?case by (simp add: config_entries_def)
next
  case (Cons l lines)
  show ?case
  proof (cases "trim_line l = [] \<or> hd (trim_line l) = CHR ''#''")
    case True
    then have "load_line acc l = acc" by (auto simp: load_line_def Let_def)
    with Cons True show ?thesis by (auto simp: config_entries_def)
  next
    case False
    show ?thesis
    proof (cases "length acc < MAX_PROTECTED")
      case True
      with False have "load_line acc l = acc @ [snprintf_s TASK_COMM_LEN (trim_line l)]"
        by (simp add: load_line_def)
      with Cons.IH [of "acc @ [snprintf_s TASK_COMM_LEN (trim_line l)]"] False True show ?thesis
        by (simp add: config_entries_def)
    next
      case full: False
      with Cons.prems have len: "length acc = MAX_PROTECTED" by simp
      with False have "load_line acc l = acc" by (simp add: load_line_def)
      with Cons.IH [OF Cons.prems] len show ?thesis by simp
    qed
  qed
qed

text \<open>Loading a configuration that can be opened yields, in file order, the first 128 entries, each trimmed of blanks on both
  ends, without comments and empty lines, cut to the 15 characters the kernel keeps of a command name; one
  that cannot be opened leaves no protected name. The file is closed again.\<close>

theorem policy_load_config_entries:
  "policy_load_config os path w =
     (case fopen_r os path w of
        (None, w1) \<Rightarrow> (-1, [], w1)
      | (Some contents, w1) \<Rightarrow>
          (0, take 128 (map (take 15) (config_entries (fgets_all 255 contents))), snd (fclose_r os w1))) \<and>
   w_open (snd (snd (policy_load_config os path w))) = w_open w"
  using foldl_load_line [of "[]"]
  by (auto simp: policy_load_config_def MAX_PROTECTED_def TASK_COMM_LEN_def snprintf_s_def [abs_def]
      fopen_r_def fclose_r_def split: option.splits prod.splits)

end
