(* ===== verification/Daemon_Events.thy ===== *)
theory Daemon_Events
  imports Policy
begin

text \<open>
  The event path of the daemon: the BPF programs that turn scheduler events into records
  of the ring buffer (\<open>protected_daemon.bpf.c\<close>) and the handler that consumes them
  (\<open>handle_event\<close> of \<open>protected_daemon.c\<close>). The static variables of the daemon are one record;
  log output is left out.
\<close>

subsection \<open>The BPF programs\<close>

text \<open>What the programs read of a \<open>struct task_struct\<close>, and of the current task through the BPF helpers. A task
  is one thread; \<open>tgid\<close> names the process it belongs to.\<close>

record task_struct =
  t_pid :: pid_t
  t_tgid :: pid_t
  t_real_parent_tgid :: pid_t

record bpf_current =
  cur_uid_gid :: u64
  cur_comm :: string

text \<open>\<open>reserved\<close>: whether \<open>bpf_ringbuf_reserve\<close> found room.\<close>

definition handle_fork :: "bool \<Rightarrow> bpf_current \<Rightarrow> task_struct \<Rightarrow> task_struct \<Rightarrow> event option" where
  "handle_fork reserved cur parent child =
     (if \<not> reserved then None
      else Some \<lparr>ev_type = EVENT_FORK, ev_pid = t_tgid parent, ev_ppid = t_real_parent_tgid parent,
                 ev_child_pid = t_tgid child, ev_uid = ucast (and (cur_uid_gid cur) 0xffffffff),
                 ev_comm = cur_comm cur\<rparr>)"

definition handle_exit :: "bool \<Rightarrow> bpf_current \<Rightarrow> task_struct \<Rightarrow> event option" where
  "handle_exit reserved cur task =
     (if \<not> reserved then None
      else Some \<lparr>ev_type = EVENT_EXIT, ev_pid = t_tgid task, ev_ppid = t_real_parent_tgid task,
                 ev_child_pid = 0, ev_uid = ucast (and (cur_uid_gid cur) 0xffffffff),
                 ev_comm = cur_comm cur\<rparr>)"

definition handle_exec :: "bool \<Rightarrow> bpf_current \<Rightarrow> task_struct \<Rightarrow> event option" where
  "handle_exec reserved cur task =
     (if \<not> reserved then None
      else Some \<lparr>ev_type = EVENT_EXEC, ev_pid = t_tgid task, ev_ppid = t_real_parent_tgid task,
                 ev_child_pid = 0, ev_uid = ucast (and (cur_uid_gid cur) 0xffffffff),
                 ev_comm = cur_comm cur\<rparr>)"

subsection \<open>The handler\<close>

record daemon =
  d_tab :: proc_tab
  d_protected_comm :: "string list"
  d_daemon_pid :: pid_t

definition handle_event_exec :: "os \<Rightarrow> string \<Rightarrow> event \<Rightarrow> daemon \<Rightarrow> world \<Rightarrow> daemon \<times> world" where
  "handle_event_exec os base e d w =
     (case process_upsert_exec os (d_tab d) (Some e) w of
        (st, None, w1) \<Rightarrow> (d\<lparr>d_tab := st\<rparr>, w1)
      | (st, Some idx, w1) \<Rightarrow>
          (let p = proc_table st idx
           in if pi_pid p = d_daemon_pid d \<or> pi_ppid p = d_daemon_pid d then (d\<lparr>d_tab := st\<rparr>, w1)
              else let p1 = p\<lparr>pi_exec_seen := True\<rparr>;
                       p2 = (if policy_is_protected (d_protected_comm d) (Some p1)
                             then p1\<lparr>pi_is_protected := True\<rparr> else p1);
                       g = policy_decide_group (d_protected_comm d) (Some p2);
                       p3 = p2\<lparr>pi_group := g\<rparr>;
                       d' = d\<lparr>d_tab := st\<lparr>proc_table := (proc_table st)(idx := p3)\<rparr>\<rparr>
                   in if g = GROUP_PROTECTED
                      then (d', snd (cgroup_move_pid os base (pi_pid p3) GROUP_PROTECTED w1))
                      else (d', w1)))"

definition handle_event_fork :: "os \<Rightarrow> string \<Rightarrow> event \<Rightarrow> daemon \<Rightarrow> world \<Rightarrow> daemon \<times> world" where
  "handle_event_fork os base e d w =
     (let (st, child) = process_upsert_fork (d_tab d) (Some e);
          parent = process_get st (ev_pid e)
      in case child of
           None \<Rightarrow> (d\<lparr>d_tab := st\<rparr>, w)
         | Some idx \<Rightarrow>
             if (case parent of None \<Rightarrow> False
                 | Some i \<Rightarrow> pi_used (proc_table st i) \<and> pi_is_protected (proc_table st i))
             then let p = (proc_table st idx)\<lparr>pi_is_protected := True, pi_inherited_protected := True,
                            pi_group := GROUP_PROTECTED\<rparr>
                  in (d\<lparr>d_tab := st\<lparr>proc_table := (proc_table st)(idx := p)\<rparr>\<rparr>,
                      snd (cgroup_move_pid os base (pi_pid p) GROUP_PROTECTED w))
             else (d\<lparr>d_tab := st\<rparr>, w))"

definition handle_event :: "os \<Rightarrow> string \<Rightarrow> event \<Rightarrow> daemon \<Rightarrow> world \<Rightarrow> daemon \<times> world" where
  "handle_event os base e d w =
     (case ev_type e of
        EVENT_EXEC \<Rightarrow> handle_event_exec os base e d w
      | EVENT_FORK \<Rightarrow> handle_event_fork os base e d w
      | EVENT_EXIT \<Rightarrow> (d\<lparr>d_tab := process_remove (d_tab d) (ev_pid e)\<rparr>, w)
      | EVENT_OTHER _ \<Rightarrow> (d, w))"

subsection \<open>What the handler does to the table\<close>

text \<open>The entry after an exec event, as a function of the entry before.\<close>

definition classify :: "string list \<Rightarrow> proc_info \<Rightarrow> proc_info" where
  "classify names p =
     (let p1 = p\<lparr>pi_exec_seen := True\<rparr>;
          p2 = (if policy_is_protected names (Some p1) then p1\<lparr>pi_is_protected := True\<rparr> else p1)
      in p2\<lparr>pi_group := policy_decide_group names (Some p2)\<rparr>)"

definition own_process :: "daemon \<Rightarrow> event \<Rightarrow> bool" where
  "own_process d e \<longleftrightarrow> ev_pid e = d_daemon_pid d \<or> ev_ppid e = d_daemon_pid d"

lemma exec_entry_simps [simp]:
  "pi_pid (exec_entry old e) = ev_pid e" "pi_ppid (exec_entry old e) = ev_ppid e"
  "pi_used (exec_entry old e)" "pi_comm (exec_entry old e) = snprintf_s TASK_COMM_LEN (cstr (ev_comm e))"
  "pi_is_protected (exec_entry old e) = (case old of None \<Rightarrow> False | Some p \<Rightarrow> pi_is_protected p)"
  "pi_inherited_protected (exec_entry old e) = (case old of None \<Rightarrow> False | Some p \<Rightarrow> pi_inherited_protected p)"
  "pi_group (exec_entry old e) = (case old of None \<Rightarrow> GROUP_UNKNOWN | Some p \<Rightarrow> pi_group p)"
  by (simp_all add: exec_entry_def)

lemma classify_simps [simp]:
  "pi_pid (classify names p) = pi_pid p" "pi_used (classify names p) = pi_used p"
  "pi_comm (classify names p) = pi_comm p"
  "pi_is_protected (classify names p) = (pi_is_protected p \<or> pi_comm p \<in> set names)"
  "pi_inherited_protected (classify names p) = pi_inherited_protected p"
  "pi_group (classify names p) =
     (if pi_pid p \<le> 2 \<or> cstr (pi_comm p) = [] then GROUP_IGNORED
      else if pi_is_protected p \<or> pi_comm p \<in> set names then GROUP_PROTECTED else GROUP_BACKGROUND)"
  by (auto simp: classify_def Let_def policy_decide_group_def policy_is_ignored_def policy_is_protected_def
      list_ex_iff)

lemma handle_event_exec_classify:
  assumes "process_upsert_exec os (d_tab d) (Some e) w = (st, Some idx, w1)"
    and "\<not> (pi_pid (proc_table st idx) = d_daemon_pid d \<or> pi_ppid (proc_table st idx) = d_daemon_pid d)"
  shows "handle_event_exec os base e d w =
    (d\<lparr>d_tab := st\<lparr>proc_table := (proc_table st)(idx := classify (d_protected_comm d) (proc_table st idx))\<rparr>\<rparr>,
     if pi_group (classify (d_protected_comm d) (proc_table st idx)) = GROUP_PROTECTED
     then snd (cgroup_move_pid os base (pi_pid (proc_table st idx)) GROUP_PROTECTED w1) else w1)"
  using assms unfolding handle_event_exec_def classify_def Let_def
  by (cases "policy_is_protected (d_protected_comm d) (Some ((proc_table st idx)\<lparr>pi_exec_seen := True\<rparr>))") simp_all

lemma handle_event_exec_cases:
  assumes inv: "tab_inv (d_tab d)" and h: "handle_event_exec os base e d w = (d', w')"
  obtains (refused) "d' = d" "w' = w" "ev_pid e \<le> 0 \<or> pt_lookup (d_tab d) (ev_pid e) = None \<and>
      card (dom (pt_lookup (d_tab d))) = PROC_MAX"
  | (entered) p exe cmd w1 where "0 < ev_pid e" "tab_inv (d_tab d')"
      "p = (exec_entry (pt_lookup (d_tab d) (ev_pid e)) e)\<lparr>pi_exe_path := exe, pi_cmdline := cmd\<rparr>"
      "pt_lookup (d_tab d') = (pt_lookup (d_tab d))(ev_pid e \<mapsto>
         (if own_process d e then p else classify (d_protected_comm d) p))"
      "w_writes w1 = w_writes w" "w_open w1 = w_open w"
      "w' = (if \<not> own_process d e \<and> pi_group (classify (d_protected_comm d) p) = GROUP_PROTECTED
             then snd (cgroup_move_pid os base (ev_pid e) GROUP_PROTECTED w1) else w1)"
      "d_protected_comm d' = d_protected_comm d" "d_daemon_pid d' = d_daemon_pid d"
proof -
  obtain st slot w1 where up: "process_upsert_exec os (d_tab d) (Some e) w = (st, slot, w1)" by (rule prod_cases3)
  show thesis
  proof (cases slot)
    case None
    with up process_upsert_exec_None [OF inv, of os e w st w1] h card_dom_lookup [OF inv] show thesis
      by (intro refused) (auto simp: handle_event_exec_def)
  next
    case (Some idx)
    from up Some process_upsert_exec_Some [OF inv] obtain exe cmd where
      st: "tab_inv st" "idx \<in> occupied st"
      "proc_table st idx = (exec_entry (pt_lookup (d_tab d) (ev_pid e)) e)\<lparr>pi_exe_path := exe, pi_cmdline := cmd\<rparr>"
      "pt_lookup st = (pt_lookup (d_tab d))(ev_pid e \<mapsto> proc_table st idx)"
      "w_open w1 = w_open w" "w_writes w1 = w_writes w" by metis
    let ?p = "proc_table st idx"
    have pid: "pi_pid ?p = ev_pid e" "pi_ppid ?p = ev_ppid e" by (simp_all add: st(3))
    have pos: "0 < ev_pid e" using tab_inv_occupied [OF st(1,2)] pid by simp
    let ?q = "classify (d_protected_comm d) ?p"
    have res: "d' = (if own_process d e then d\<lparr>d_tab := st\<rparr>
          else d\<lparr>d_tab := st\<lparr>proc_table := (proc_table st)(idx := ?q)\<rparr>\<rparr>)"
      "w' = (if \<not> own_process d e \<and> pi_group ?q = GROUP_PROTECTED
             then snd (cgroup_move_pid os base (ev_pid e) GROUP_PROTECTED w1) else w1)"
    proof -
      have "(d', w') = (if own_process d e then (d\<lparr>d_tab := st\<rparr>, w1)
        else (d\<lparr>d_tab := st\<lparr>proc_table := (proc_table st)(idx := ?q)\<rparr>\<rparr>,
              if pi_group ?q = GROUP_PROTECTED then snd (cgroup_move_pid os base (ev_pid e) GROUP_PROTECTED w1) else w1))"
      proof (cases "own_process d e")
        case True
        with h up Some pid show ?thesis by (simp add: own_process_def handle_event_exec_def)
      next
        case False
        with h up Some pid handle_event_exec_classify [of os d e w st idx w1 base] show ?thesis
          by (simp add: own_process_def del: classify_simps)
      qed
      then show "d' = (if own_process d e then d\<lparr>d_tab := st\<rparr>
          else d\<lparr>d_tab := st\<lparr>proc_table := (proc_table st)(idx := ?q)\<rparr>\<rparr>)"
        "w' = (if \<not> own_process d e \<and> pi_group ?q = GROUP_PROTECTED
               then snd (cgroup_move_pid os base (ev_pid e) GROUP_PROTECTED w1) else w1)"
        by (simp_all del: classify_simps split: if_splits)
    qed
    have upd: "tab_inv (st\<lparr>proc_table := (proc_table st)(idx := ?q)\<rparr>)"
      "pt_lookup (st\<lparr>proc_table := (proc_table st)(idx := ?q)\<rparr>) = (pt_lookup st)(ev_pid e \<mapsto> ?q)"
      using pt_update [OF st(1,2), of ?q] tab_inv_occupied [OF st(1,2)] pid by simp_all
    show thesis
      by (rule entered [OF pos _ st(3) _ st(6,5) res(2)]) (use res(1) st(1,4) upd in \<open>auto\<close>)
  qed
qed

lemma handle_event_fork_cases:
  assumes inv: "tab_inv (d_tab d)" and h: "handle_event_fork os base e d w = (d', w')"
  obtains (refused) "d' = d" "w' = w" "ev_pid e \<le> 0 \<or> ev_child_pid e \<le> 0 \<or>
      pt_lookup (d_tab d) (ev_child_pid e) = None \<and> card (dom (pt_lookup (d_tab d))) = PROC_MAX"
  | (entered) "0 < ev_child_pid e" "tab_inv (d_tab d')"
      "pt_lookup (d_tab d') = (pt_lookup (d_tab d))(ev_child_pid e \<mapsto> fork_entry (inherits_from (d_tab d) e) e)"
      "w' = (if inherits_from (d_tab d) e
             then snd (cgroup_move_pid os base (ev_child_pid e) GROUP_PROTECTED w) else w)"
      "d_protected_comm d' = d_protected_comm d" "d_daemon_pid d' = d_daemon_pid d"
proof -
  obtain st slot where up: "process_upsert_fork (d_tab d) (Some e) = (st, slot)" by (rule prod.exhaust)
  show thesis
  proof (cases slot)
    case None
    with up process_upsert_fork_None [OF inv, of e st] h card_dom_lookup [OF inv] show thesis
      by (intro refused) (auto simp: handle_event_fork_def)
  next
    case (Some idx)
    let ?f = "fork_entry (inherits_from (d_tab d) e) e"
    note st = process_upsert_fork_Some [OF inv up [unfolded Some]]
    have f: "pi_pid ?f = ev_child_pid e" "pi_is_protected ?f = inherits_from (d_tab d) e"
      by (simp_all add: fork_entry_def Let_def proc_info_zero_def)
    have parent: "(case process_get st (ev_pid e) of None \<Rightarrow> False
        | Some i \<Rightarrow> pi_used (proc_table st i) \<and> pi_is_protected (proc_table st i)) =
        (case pt_lookup st (ev_pid e) of None \<Rightarrow> False | Some p \<Rightarrow> pi_is_protected p)"
    proof (cases "process_get st (ev_pid e)")
      case None
      then show ?thesis by (simp add: pt_lookup_def)
    next
      case (Some i)
      then have "pt_lookup st (ev_pid e) = Some (proc_table st i)" by (simp add: pt_lookup_def)
      with pt_lookup_pid [OF st(1) this] Some show ?thesis by simp
    qed
    also have "\<dots> = inherits_from (d_tab d) e"
    proof (cases "ev_child_pid e = ev_pid e")
      case True
      then show ?thesis unfolding st(4) by (simp add: f(2))
    next
      case False
      then show ?thesis unfolding st(4) by (simp add: inherits_from_def)
    qed
    finally have inh: "(case process_get st (ev_pid e) of None \<Rightarrow> False
        | Some i \<Rightarrow> pi_used (proc_table st i) \<and> pi_is_protected (proc_table st i)) = inherits_from (d_tab d) e" .
    have same: "inherits_from (d_tab d) e \<Longrightarrow> ?f\<lparr>pi_is_protected := True, pi_inherited_protected := True,
        pi_group := GROUP_PROTECTED\<rparr> = ?f" by (simp add: fork_entry_def Let_def)
    have idem: "(proc_table st)(idx := ?f) = proc_table st" by (rule fun_upd_idem) (rule st(3))
    have "d' = d\<lparr>d_tab := st\<rparr> \<and> w' = (if inherits_from (d_tab d) e
             then snd (cgroup_move_pid os base (ev_child_pid e) GROUP_PROTECTED w) else w)"
    proof (cases "inherits_from (d_tab d) e")
      case True
      from h up Some inh True have "(d', w') =
          (d\<lparr>d_tab := st\<lparr>proc_table := (proc_table st)(idx := (proc_table st idx)\<lparr>pi_is_protected := True,
             pi_inherited_protected := True, pi_group := GROUP_PROTECTED\<rparr>)\<rparr>\<rparr>,
           snd (cgroup_move_pid os base (pi_pid (proc_table st idx)) GROUP_PROTECTED w))"
        by (simp add: handle_event_fork_def)
      then show ?thesis unfolding st(3) same [OF True] idem f(1) by (simp add: True)
    next
      case False
      with h up Some inh show ?thesis by (simp add: handle_event_fork_def)
    qed
    then have "d' = d\<lparr>d_tab := st\<rparr>" "w' = (if inherits_from (d_tab d) e
             then snd (cgroup_move_pid os base (ev_child_pid e) GROUP_PROTECTED w) else w)" by simp_all
    moreover have "0 < ev_child_pid e" using tab_inv_occupied [OF st(1,2)] st(3) f(1) by simp
    ultimately show thesis using st(1,4) by (intro entered) auto
  qed
qed

subsection \<open>Runs of the daemon\<close>

text \<open>The flags of an entry agree: inherited protection is protection, the protected group holds exactly
  protected processes (a protected process with an ignored id or an empty name apart), and the static policy
  never puts a process into the throttled group.\<close>

definition entry_ok :: "proc_info \<Rightarrow> bool" where
  "entry_ok p \<longleftrightarrow> (pi_inherited_protected p \<longrightarrow> pi_is_protected p) \<and>
     (pi_group p = GROUP_PROTECTED \<longrightarrow> pi_is_protected p) \<and>
     (pi_is_protected p \<longrightarrow> pi_group p \<in> {GROUP_PROTECTED, GROUP_IGNORED}) \<and> pi_group p \<noteq> GROUP_THROTTLED"

definition daemon_inv :: "daemon \<Rightarrow> bool" where
  "daemon_inv d \<longleftrightarrow> tab_inv (d_tab d) \<and> (\<forall>pid p. pt_lookup (d_tab d) pid = Some p \<longrightarrow> entry_ok p)"

lemma entry_ok_exec:
  "(\<And>p. old = Some p \<Longrightarrow> entry_ok p) \<Longrightarrow> entry_ok (exec_entry old e \<lparr>pi_exe_path := exe, pi_cmdline := cmd\<rparr>)"
  by (auto simp: entry_ok_def split: option.splits)

lemma entry_ok_classify: "entry_ok p \<Longrightarrow> entry_ok (classify names p)"
  by (auto simp: entry_ok_def)

lemma entry_ok_fork: "entry_ok (fork_entry inherits e)"
  by (simp add: entry_ok_def fork_entry_def Let_def proc_info_zero_def)

lemma handle_event_inv [wf_intros]:
  assumes inv: "daemon_inv d" and h: "handle_event os base e d w = (d', w')"
  shows "daemon_inv d'"
proof -
  have tab: "tab_inv (d_tab d)" and ok: "\<And>pid p. pt_lookup (d_tab d) pid = Some p \<Longrightarrow> entry_ok p"
    using inv by (auto simp: daemon_inv_def)
  show ?thesis
  proof (cases "ev_type e")
    case EVENT_EXEC
    with h have "handle_event_exec os base e d w = (d', w')" by (simp add: handle_event_def)
    with tab show ?thesis
    proof (cases rule: handle_event_exec_cases)
      case refused
      with inv show ?thesis by simp
    next
      case (entered p exe cmd w1)
      have "entry_ok p" using ok by (auto simp: entered(3) intro: entry_ok_exec)
      with entered ok show ?thesis by (auto simp: daemon_inv_def entry_ok_classify split: if_splits)
    qed
  next
    case EVENT_FORK
    with h have "handle_event_fork os base e d w = (d', w')" by (simp add: handle_event_def)
    with tab show ?thesis
      by (cases rule: handle_event_fork_cases)
        (use inv ok in \<open>auto simp: daemon_inv_def entry_ok_fork split: if_splits\<close>)
  next
    case EVENT_EXIT
    with h have "d' = d\<lparr>d_tab := process_remove (d_tab d) (ev_pid e)\<rparr>" by (simp add: handle_event_def)
    with tab ok show ?thesis
      by (auto simp: daemon_inv_def ptab.erase_inv ptab.erase_lookup split: if_splits)
  next
    case (EVENT_OTHER k)
    with h inv show ?thesis by (simp add: handle_event_def)
  qed
qed

inductive daemon_run :: "string \<Rightarrow> daemon \<Rightarrow> world \<Rightarrow> bool" for base :: string where
  start: "d_tab d = process_table_reset \<Longrightarrow> daemon_run base d w"
| poll: "daemon_run base d w \<Longrightarrow> daemon_run base d (tick w)"
| event: "daemon_run base d w \<Longrightarrow> handle_event os base e d w = (d', w') \<Longrightarrow> daemon_run base d' w'"

lemma daemon_run_inv: "daemon_run base d w \<Longrightarrow> daemon_inv d"
proof (induction rule: daemon_run.induct)
  case (start d w)
  then show ?case by (simp add: daemon_inv_def process_table_reset_inv process_table_reset_lookup)
qed (assumption, rule handle_event_inv)

text \<open>A daemon that watches the names \<open>srv\<close> and has seen a process 100 of that name start.\<close>

definition demo_daemon0 :: daemon where
  "demo_daemon0 = \<lparr>d_tab = process_table_reset, d_protected_comm = [''srv''], d_daemon_pid = 50\<rparr>"

definition demo_exec :: event where
  "demo_exec = \<lparr>ev_type = EVENT_EXEC, ev_pid = 100, ev_ppid = 1, ev_child_pid = 0, ev_uid = 0, ev_comm = ''srv''\<rparr>"

definition demo_daemon1 :: "daemon \<times> world" where
  "demo_daemon1 = handle_event os_fine ''/b'' demo_exec demo_daemon0 world0"

lemma demo_daemon0_run: "daemon_run ''/b'' demo_daemon0 w"
  by (rule daemon_run.start) (simp add: demo_daemon0_def)

lemma demo_daemon1_run: "daemon_run ''/b'' (fst demo_daemon1) (snd demo_daemon1)"
  by (rule daemon_run.event [OF demo_daemon0_run [of world0], of os_fine demo_exec])
    (simp add: demo_daemon1_def)

lemma demo_daemon1_simps:
  "\<exists>p. pt_lookup (d_tab (fst demo_daemon1)) 100 = Some p \<and> pi_is_protected p"
  "dom (pt_lookup (d_tab (fst demo_daemon1))) = {100}"
proof -
  have inv: "tab_inv (d_tab demo_daemon0)" using daemon_run_inv [OF demo_daemon0_run] by (simp add: daemon_inv_def)
  have h: "handle_event_exec os_fine ''/b'' demo_exec demo_daemon0 world0 = (fst demo_daemon1, snd demo_daemon1)"
    by (simp add: demo_daemon1_def handle_event_def demo_exec_def)
  have look: "pt_lookup (d_tab demo_daemon0) = Map.empty"
    by (simp add: demo_daemon0_def process_table_reset_lookup)
  from inv h have "(\<exists>p. pt_lookup (d_tab (fst demo_daemon1)) 100 = Some p \<and> pi_is_protected p) \<and>
      dom (pt_lookup (d_tab (fst demo_daemon1))) = {100}"
  proof (cases rule: handle_event_exec_cases)
    case refused
    then show ?thesis using look PROC_MAX_pos by (simp add: demo_exec_def del: PROC_MAX_pos)
  next
    case (entered p exe cmd w1)
    have p: "pi_comm p = ''srv''"
      by (simp add: entered(3) demo_exec_def snprintf_s_def TASK_COMM_LEN_def cstr_def NUL_def)
    have "\<not> own_process demo_daemon0 demo_exec" "ev_pid demo_exec = 100" "d_protected_comm demo_daemon0 = [''srv'']"
      by (simp_all add: own_process_def demo_daemon0_def demo_exec_def)
    with entered(4) look p show ?thesis by simp
  qed
  then show "\<exists>p. pt_lookup (d_tab (fst demo_daemon1)) 100 = Some p \<and> pi_is_protected p"
    "dom (pt_lookup (d_tab (fst demo_daemon1))) = {100}" by auto
qed

subsection \<open>Properties\<close>

text \<open>C34: Whatever events arrive and whatever the operating system answers, the table entries stay consistent: an
  entry with inherited protection is protected, an entry in the protected group is protected, a protected entry is in the
  protected group unless the process is ignored by policy, and no entry is ever classified into the
  throttled group by the event handler.\<close>

theorem daemon_entries_consistent:
  assumes "daemon_run base d w" and "process_get (d_tab d) pid = Some i"
  shows "let p = proc_table (d_tab d) i in
    pi_pid p = pid \<and> (pi_inherited_protected p \<longrightarrow> pi_is_protected p) \<and>
    (pi_group p = GROUP_PROTECTED \<longrightarrow> pi_is_protected p) \<and>
    (pi_is_protected p \<longrightarrow> pi_group p \<in> {GROUP_PROTECTED, GROUP_IGNORED}) \<and> pi_group p \<noteq> GROUP_THROTTLED"
proof -
  note inv = daemon_run_inv [OF assms(1), unfolded daemon_inv_def]
  have look: "pt_lookup (d_tab d) pid = Some (proc_table (d_tab d) i)"
    using assms(2) by (simp add: pt_lookup_def)
  with inv have "entry_ok (proc_table (d_tab d) i)" by blast
  moreover have "pi_pid (proc_table (d_tab d) i) = pid" using pt_lookup_pid look inv by blast
  ultimately show ?thesis by (simp add: entry_ok_def)
qed

theorem daemon_entries_consistent_witness:
  "\<exists>i. process_get (d_tab (fst demo_daemon1)) 100 = Some i \<and> pi_pid (proc_table (d_tab (fst demo_daemon1)) i) = 100"
proof -
  from demo_daemon1_simps(1) obtain i where i: "process_get (d_tab (fst demo_daemon1)) 100 = Some i"
    by (auto simp: pt_lookup_def)
  with daemon_entries_consistent [OF demo_daemon1_run i] show ?thesis by (simp add: Let_def)
qed

text \<open>C32: Exec classifies. After an exec event of a process that is neither the daemon nor a child of it, and unless the table is
  full, the entry is ignored for the process ids up to 2 and empty names, protected if it was
  protected before or its name is configured, and background otherwise; the process is moved to the protected
  cgroup exactly in the protected case; all other entries are untouched.\<close>

theorem exec_event_classifies:
  assumes "daemon_run base d w" and "ev_type e = EVENT_EXEC" and "0 < ev_pid e"
    and "ev_pid e \<noteq> d_daemon_pid d" and "ev_ppid e \<noteq> d_daemon_pid d"
    and "pt_lookup (d_tab d) (ev_pid e) \<noteq> None \<or> process_table_count (d_tab d) < PROC_MAX"
    and "handle_event os base e d w = (d', w')"
  shows "\<exists>p w1. pt_lookup (d_tab d') = (pt_lookup (d_tab d))(ev_pid e \<mapsto> p) \<and> w_writes w1 = w_writes w \<and>
    pi_comm p = take 15 (cstr (ev_comm e)) \<and>
    pi_group p = (if ev_pid e \<le> 2 \<or> cstr (ev_comm e) = [] then GROUP_IGNORED
       else if (\<exists>q. pt_lookup (d_tab d) (ev_pid e) = Some q \<and> pi_is_protected q) \<or>
               take 15 (cstr (ev_comm e)) \<in> set (d_protected_comm d) then GROUP_PROTECTED
       else GROUP_BACKGROUND) \<and>
    w' = (if pi_group p = GROUP_PROTECTED then snd (cgroup_move_pid os base (ev_pid e) GROUP_PROTECTED w1) else w1)"
proof -
  have inv: "tab_inv (d_tab d)" using daemon_run_inv [OF assms(1)] by (simp add: daemon_inv_def)
  have h: "handle_event_exec os base e d w = (d', w')" using assms(2,7) by (simp add: handle_event_def)
  have own: "\<not> own_process d e" using assms(4,5) by (simp add: own_process_def)
  from inv h show ?thesis
  proof (cases rule: handle_event_exec_cases)
    case refused
    with assms(3,6) card_dom_lookup [OF inv] show ?thesis by (simp add: process_table_count_def)
  next
    case (entered p exe cmd w1)
    have name: "pi_comm p = take 15 (cstr (ev_comm e))" "pi_pid p = ev_pid e"
      by (simp_all add: entered(3) snprintf_s_def TASK_COMM_LEN_def)
    have "cstr (take 15 (cstr (ev_comm e))) = take 15 (cstr (ev_comm e))"
      by (rule cstr_id) (metis cstr_no_NUL in_set_takeD)
    then have empty: "cstr (pi_comm p) = [] \<longleftrightarrow> cstr (ev_comm e) = []" by (simp add: name)
    have prot: "pi_is_protected p \<longleftrightarrow> (\<exists>q. pt_lookup (d_tab d) (ev_pid e) = Some q \<and> pi_is_protected q)"
      by (auto simp: entered(3) split: option.splits)
    let ?q = "classify (d_protected_comm d) p"
    have "pt_lookup (d_tab d') = (pt_lookup (d_tab d))(ev_pid e \<mapsto> ?q)" using entered(4) own by simp
    moreover have "w' = (if pi_group ?q = GROUP_PROTECTED
        then snd (cgroup_move_pid os base (ev_pid e) GROUP_PROTECTED w1) else w1)"
      using entered(7) own by simp
    ultimately show ?thesis using entered(5) name empty prot
      by (intro exI [of _ ?q] exI [of _ w1]) simp
  qed
qed

theorem exec_event_classifies_witness:
  "\<exists>p. pt_lookup (d_tab (fst demo_daemon1)) 100 = Some p \<and> pi_group p = GROUP_PROTECTED"
proof -
  have e: "ev_type demo_exec = EVENT_EXEC" "0 < ev_pid demo_exec" "ev_pid demo_exec \<noteq> d_daemon_pid demo_daemon0"
    "ev_ppid demo_exec \<noteq> d_daemon_pid demo_daemon0"
    by (simp_all add: demo_exec_def demo_daemon0_def)
  have room: "pt_lookup (d_tab demo_daemon0) (ev_pid demo_exec) \<noteq> None \<or>
      process_table_count (d_tab demo_daemon0) < PROC_MAX"
    by (simp add: process_table_count_def demo_daemon0_def process_table_reset_def)
  have h: "handle_event os_fine ''/b'' demo_exec demo_daemon0 world0 = (fst demo_daemon1, snd demo_daemon1)"
    by (simp add: demo_daemon1_def)
  obtain p where p: "pt_lookup (d_tab (fst demo_daemon1)) = (pt_lookup (d_tab demo_daemon0))(ev_pid demo_exec \<mapsto> p)"
    "pi_group p = (if ev_pid demo_exec \<le> 2 \<or> cstr (ev_comm demo_exec) = [] then GROUP_IGNORED
       else if (\<exists>q. pt_lookup (d_tab demo_daemon0) (ev_pid demo_exec) = Some q \<and> pi_is_protected q) \<or>
               take 15 (cstr (ev_comm demo_exec)) \<in> set (d_protected_comm demo_daemon0) then GROUP_PROTECTED
       else GROUP_BACKGROUND)"
    using exec_event_classifies [OF demo_daemon0_run e room h] by blast
  have "cstr (ev_comm demo_exec) = ''srv''" "ev_pid demo_exec = 100" "d_protected_comm demo_daemon0 = [''srv'']"
    by (simp_all add: demo_exec_def demo_daemon0_def cstr_def NUL_def)
  with p show ?thesis by simp
qed

text \<open>C33: Protection is inherited. When a protected process forks a new process, and unless the table is full, the child's
  entry is protected, marked as inherited and in the protected group, and the child is moved to the
  protected cgroup.\<close>

theorem fork_event_inherits:
  assumes "daemon_run base d w" and "ev_type e = EVENT_FORK" and "0 < ev_child_pid e"
    and "pt_lookup (d_tab d) (ev_pid e) = Some q" and "pi_is_protected q" and "ev_child_pid e \<noteq> ev_pid e"
    and "pt_lookup (d_tab d) (ev_child_pid e) \<noteq> None \<or> process_table_count (d_tab d) < PROC_MAX"
    and "handle_event os base e d w = (d', w')"
  shows "\<exists>p. pt_lookup (d_tab d') = (pt_lookup (d_tab d))(ev_child_pid e \<mapsto> p) \<and>
    pi_is_protected p \<and> pi_inherited_protected p \<and> pi_group p = GROUP_PROTECTED \<and> pi_ppid p = ev_pid e \<and>
    w' = snd (cgroup_move_pid os base (ev_child_pid e) GROUP_PROTECTED w)"
proof -
  have inv: "tab_inv (d_tab d)" using daemon_run_inv [OF assms(1)] by (simp add: daemon_inv_def)
  have h: "handle_event_fork os base e d w = (d', w')" using assms(2,8) by (simp add: handle_event_def)
  have inh: "inherits_from (d_tab d) e" using assms(4-6) by (simp add: inherits_from_def)
  have pos: "0 < ev_pid e" using pt_lookup_pid [OF inv assms(4)] by simp
  from inv h show ?thesis
  proof (cases rule: handle_event_fork_cases)
    case refused
    with pos assms(3,7) card_dom_lookup [OF inv] show ?thesis by (simp add: process_table_count_def)
  next
    case entered
    with inh show ?thesis
      by (intro exI [of _ "fork_entry True e"]) (simp add: fork_entry_def)
  qed
qed

theorem fork_event_inherits_witness:
  "\<exists>d' w' p. handle_event os_fine ''/b'' (demo_exec\<lparr>ev_type := EVENT_FORK, ev_child_pid := 101\<rparr>)
      (fst demo_daemon1) (snd demo_daemon1) = (d', w') \<and>
    pt_lookup (d_tab d') 101 = Some p \<and> pi_inherited_protected p \<and> pi_group p = GROUP_PROTECTED"
proof -
  let ?e = "demo_exec\<lparr>ev_type := EVENT_FORK, ev_child_pid := 101\<rparr>"
  obtain d' w' where h: "handle_event os_fine ''/b'' ?e (fst demo_daemon1) (snd demo_daemon1) = (d', w')"
    by (rule prod.exhaust)
  obtain q where q: "pt_lookup (d_tab (fst demo_daemon1)) (ev_pid ?e) = Some q" "pi_is_protected q"
    using demo_daemon1_simps(1) by (auto simp: demo_exec_def)
  have "tab_inv (d_tab (fst demo_daemon1))"
    using daemon_run_inv [OF demo_daemon1_run] by (simp add: daemon_inv_def)
  from card_dom_lookup [OF this] have "process_table_count (d_tab (fst demo_daemon1)) < PROC_MAX"
    by (simp add: process_table_count_def demo_daemon1_simps(2) PROC_MAX_def)
  from fork_event_inherits [OF demo_daemon1_run _ _ q _ _ h] this h show ?thesis
    by (auto simp: demo_exec_def)
qed

text \<open>C35: Creating a thread revokes the protection of its process. The fork program reports the thread group of parent and
  child, which are the same for a new thread; the handler then overwrites the entry of the process with a fresh
  child entry, and the parent it consults for inheritance is that same, already cleared entry.\<close>

theorem thread_creation_drops_protection:
  assumes "daemon_run base d w"
    and "pt_lookup (d_tab d) (t_tgid parent) = Some q" and "pi_is_protected q"
    and "t_tgid thread = t_tgid parent"
    and "handle_fork True cur parent thread = Some e" and "handle_event os base e d w = (d', w')"
  shows "\<exists>p. pt_lookup (d_tab d') (t_tgid parent) = Some p \<and> \<not> pi_is_protected p \<and>
    pi_group p = GROUP_UNKNOWN \<and> \<not> pi_exec_seen p \<and> pi_ppid p = t_tgid parent \<and> w' = w"
proof -
  have inv: "tab_inv (d_tab d)" using daemon_run_inv [OF assms(1)] by (simp add: daemon_inv_def)
  have e: "ev_type e = EVENT_FORK" "ev_pid e = t_tgid parent" "ev_child_pid e = t_tgid parent"
    using assms(4,5) by (auto simp: handle_fork_def)
  have h: "handle_event_fork os base e d w = (d', w')" using assms(6) e by (simp add: handle_event_def)
  have no: "\<not> inherits_from (d_tab d) e" using e by (simp add: inherits_from_def)
  have pos: "0 < t_tgid parent" using pt_lookup_pid [OF inv assms(2)] by simp
  from inv h show ?thesis
  proof (cases rule: handle_event_fork_cases)
    case refused
    with pos assms(2) e show ?thesis by simp
  next
    case entered
    with no e show ?thesis
      by (intro exI [of _ "fork_entry False e"]) (simp add: fork_entry_def proc_info_zero_def)
  qed
qed

theorem thread_creation_drops_protection_witness:
  "\<exists>q e d' w' p. pt_lookup (d_tab (fst demo_daemon1)) 100 = Some q \<and> pi_is_protected q \<and>
    handle_fork True \<lparr>cur_uid_gid = 0, cur_comm = ''srv''\<rparr> \<lparr>t_pid = 100, t_tgid = 100, t_real_parent_tgid = 1\<rparr>
      \<lparr>t_pid = 101, t_tgid = 100, t_real_parent_tgid = 1\<rparr> = Some e \<and>
    handle_event os_fine ''/b'' e (fst demo_daemon1) (snd demo_daemon1) = (d', w') \<and>
    pt_lookup (d_tab d') 100 = Some p \<and> \<not> pi_is_protected p"
proof -
  let ?cur = "\<lparr>cur_uid_gid = 0, cur_comm = ''srv''\<rparr>"
  let ?p = "\<lparr>t_pid = 100, t_tgid = 100, t_real_parent_tgid = 1\<rparr>"
  let ?t = "\<lparr>t_pid = 101, t_tgid = 100, t_real_parent_tgid = 1\<rparr>"
  obtain q where q: "pt_lookup (d_tab (fst demo_daemon1)) (t_tgid ?p) = Some q" "pi_is_protected q"
    using demo_daemon1_simps(1) by auto
  obtain e where e: "handle_fork True ?cur ?p ?t = Some e" by (simp add: handle_fork_def)
  obtain d' w' where h: "handle_event os_fine ''/b'' e (fst demo_daemon1) (snd demo_daemon1) = (d', w')"
    by (rule prod.exhaust)
  from thread_creation_drops_protection [OF demo_daemon1_run q _ e h] q e h show ?thesis by auto
qed

text \<open>The exit of any thread removes the entry of its process, since the exit program reports the thread group
  for every exiting thread and the handler removes that entry, whether or not the process goes on.\<close>

theorem thread_exit_removes_process:
  assumes "daemon_run base d w" and "handle_exit True cur thread = Some e"
    and "handle_event os base e d w = (d', w')"
  shows "pt_lookup (d_tab d') = (pt_lookup (d_tab d))(t_tgid thread := None) \<and> w' = w"
proof -
  have inv: "tab_inv (d_tab d)" using daemon_run_inv [OF assms(1)] by (simp add: daemon_inv_def)
  from assms(2,3) inv show ?thesis
    by (auto simp: handle_exit_def handle_event_def ptab.erase_lookup)
qed

theorem thread_exit_removes_process_witness:
  "\<exists>e d' w'. handle_exit True \<lparr>cur_uid_gid = 0, cur_comm = ''srv''\<rparr>
      \<lparr>t_pid = 101, t_tgid = 100, t_real_parent_tgid = 1\<rparr> = Some e \<and>
    handle_event os_fine ''/b'' e (fst demo_daemon1) (snd demo_daemon1) = (d', w') \<and>
    pt_lookup (d_tab d') 100 = None"
proof -
  let ?cur = "\<lparr>cur_uid_gid = 0, cur_comm = ''srv''\<rparr>"
  let ?t = "\<lparr>t_pid = 101, t_tgid = 100, t_real_parent_tgid = 1\<rparr>"
  obtain e where e: "handle_exit True ?cur ?t = Some e" by (simp add: handle_exit_def)
  obtain d' w' where h: "handle_event os_fine ''/b'' e (fst demo_daemon1) (snd demo_daemon1) = (d', w')"
    by (rule prod.exhaust)
  from thread_exit_removes_process [OF demo_daemon1_run e h] e h show ?thesis by auto
qed

end
