(* ===== verification/Proc_Activity.thy ===== *)
theory Proc_Activity
  imports OS_World
begin

text \<open>
  Process activity (\<open>protected-daemon/src/proc_activity.c\<close>, \<open>proc_activity.h\<close>): a sample is read from
  \<open>/proc/[pid]/stat\<close>, two samples give rates and scores between 0 and 1. The signed 64-bit fields and \<open>long\<close>
  values are integers; the accumulated counters keep their 64-bit width. Text buffers hold the characters before the
  terminator, so a zeroed buffer is the empty string.
\<close>

subsection \<open>Data\<close>

definition PROC_ACTIVITY_COMM_MAX :: nat where "PROC_ACTIVITY_COMM_MAX = 64"
definition PROC_ACTIVITY_REASON_MAX :: nat where "PROC_ACTIVITY_REASON_MAX = 128"
definition PROC_ACTIVITY_NSEC_PER_SEC :: u64 where "PROC_ACTIVITY_NSEC_PER_SEC = 1000000000"
definition PROC_ACTIVITY_STAT_LINE_MAX :: nat where "PROC_ACTIVITY_STAT_LINE_MAX = 4096"

datatype proc_activity_rc =
    PROC_ACTIVITY_OK
  | PROC_ACTIVITY_ERR_INVALID_ARG
  | PROC_ACTIVITY_ERR_OPEN
  | PROC_ACTIVITY_ERR_READ
  | PROC_ACTIVITY_ERR_PARSE
  | PROC_ACTIVITY_ERR_SYSCONF
  | PROC_ACTIVITY_ERR_PID_REUSED
  | PROC_ACTIVITY_ERR_NON_MONOTONIC_TIME

record proc_activity_config =
  pc_active_cpu_ratio_threshold :: cdouble
  pc_active_faults_per_sec_threshold :: cdouble
  pc_min_rss_pages :: u64
  pc_major_fault_weight :: cdouble
  pc_cpu_ratio_full_scale :: cdouble
  pc_faults_per_sec_full_scale :: cdouble
  pc_rss_mib_full_scale :: cdouble

record proc_activity_sample =
  ps_pid :: pid_t
  ps_comm :: string
  ps_state :: char
  ps_valid :: bool
  ps_timestamp_ns :: u64
  ps_clock_ticks_per_sec :: int
  ps_page_size :: u64
  ps_minflt :: u64
  ps_majflt :: u64
  ps_utime_ticks :: u64
  ps_stime_ticks :: u64
  ps_starttime_ticks :: u64
  ps_vsize_bytes :: u64
  ps_rss_pages :: int
  ps_num_threads :: int

record proc_activity_delta =
  pd_pid :: pid_t
  pd_valid :: bool
  pd_active :: bool
  pd_pid_reused :: bool
  pd_elapsed_sec :: cdouble
  pd_cpu_ticks_delta :: u64
  pd_cpu_seconds :: cdouble
  pd_cpu_ratio :: cdouble
  pd_minflt_delta :: u64
  pd_majflt_delta :: u64
  pd_weighted_faults :: cdouble
  pd_faults_per_sec :: cdouble
  pd_rss_mib :: cdouble
  pd_cpu_score :: cdouble
  pd_fault_score :: cdouble
  pd_rss_score :: cdouble
  pd_total_score :: cdouble
  pd_reason :: string

definition proc_activity_config_default :: "rounding \<Rightarrow> proc_activity_config" where
  "proc_activity_config_default rnd =
     \<lparr>pc_active_cpu_ratio_threshold = rnd (2 / 100), pc_active_faults_per_sec_threshold = Fin 100,
      pc_min_rss_pages = 256, pc_major_fault_weight = Fin 8, pc_cpu_ratio_full_scale = Fin (1 / 4),
      pc_faults_per_sec_full_scale = Fin 1000, pc_rss_mib_full_scale = Fin 256\<rparr>"

definition proc_activity_sample_reset :: proc_activity_sample where
  "proc_activity_sample_reset =
     \<lparr>ps_pid = 0, ps_comm = [], ps_state = NUL, ps_valid = False, ps_timestamp_ns = 0,
      ps_clock_ticks_per_sec = 0, ps_page_size = 0, ps_minflt = 0, ps_majflt = 0, ps_utime_ticks = 0,
      ps_stime_ticks = 0, ps_starttime_ticks = 0, ps_vsize_bytes = 0, ps_rss_pages = 0, ps_num_threads = 0\<rparr>"

definition proc_activity_delta_reset :: proc_activity_delta where
  "proc_activity_delta_reset =
     \<lparr>pd_pid = 0, pd_valid = False, pd_active = False, pd_pid_reused = False, pd_elapsed_sec = Fin 0,
      pd_cpu_ticks_delta = 0, pd_cpu_seconds = Fin 0, pd_cpu_ratio = Fin 0, pd_minflt_delta = 0,
      pd_majflt_delta = 0, pd_weighted_faults = Fin 0, pd_faults_per_sec = Fin 0, pd_rss_mib = Fin 0,
      pd_cpu_score = Fin 0, pd_fault_score = Fin 0, pd_rss_score = Fin 0, pd_total_score = Fin 0,
      pd_reason = []\<rparr>"

subsection \<open>Helpers\<close>

definition get_time_ns :: "os \<Rightarrow> world \<Rightarrow> (proc_activity_rc + u64) \<times> world" where
  "get_time_ns os w =
     (case clock_gettime os w of
        (None, w') \<Rightarrow> (Inl PROC_ACTIVITY_ERR_READ, w')
      | (Some (sec, nsec), w') \<Rightarrow> (Inr (of_int sec * PROC_ACTIVITY_NSEC_PER_SEC + of_int nsec), w'))"

definition clamp01 :: "cdouble \<Rightarrow> cdouble" where
  "clamp01 value = (if flt value (Fin 0) then Fin 0 else if flt (Fin 1) value then Fin 1 else value)"

definition skip_spaces :: "string \<Rightarrow> string" where
  "skip_spaces p = dropWhile (\<lambda>c. c = CHR '' '') p"

text \<open>The loop of \<open>parse_stat_values\<close>; \<open>cap\<close> is the room left in \<open>vals\<close>.\<close>

fun parse_stat_loop :: "nat \<Rightarrow> string \<Rightarrow> proc_activity_rc + int list" where
  "parse_stat_loop 0 p = Inr []"
| "parse_stat_loop (Suc cap) p =
     (if p = [] \<or> hd p = CHR 0x0A then Inr []
      else let (value, erange, endptr) = strtoll 10 p
      in if p = endptr then Inr []
         else if erange then Inl PROC_ACTIVITY_ERR_PARSE
         else map_sum id ((#) value) (parse_stat_loop cap (skip_spaces endptr)))"

definition parse_stat_values :: "string \<Rightarrow> nat \<Rightarrow> proc_activity_rc + int list" where
  "parse_stat_values p vals_cap = parse_stat_loop vals_cap (skip_spaces p)"

definition checked_u64 :: "int \<Rightarrow> proc_activity_rc + u64" where
  "checked_u64 value = (if value < 0 then Inl PROC_ACTIVITY_ERR_PARSE else Inr (of_int value))"

text \<open>\<open>rc = checked_u64(value, &out->field); if (rc != PROC_ACTIVITY_OK) return rc;\<close> and what follows.\<close>

definition checked_store ::
  "int \<Rightarrow> (u64 \<Rightarrow> proc_activity_sample \<Rightarrow> proc_activity_sample) \<Rightarrow>
   (proc_activity_sample \<Rightarrow> proc_activity_rc \<times> proc_activity_sample) \<Rightarrow>
   proc_activity_sample \<Rightarrow> proc_activity_rc \<times> proc_activity_sample" where
  "checked_store value store rest out =
     (case checked_u64 value of Inl rc \<Rightarrow> (rc, out) | Inr v \<Rightarrow> rest (store v out))"

text \<open>\<open>strchr\<close> and \<open>strrchr\<close> as positions.\<close>

definition last_index :: "('a \<Rightarrow> bool) \<Rightarrow> 'a list \<Rightarrow> nat option" where
  "last_index P xs = map_option (\<lambda>i. length xs - 1 - i) (first_index P (rev xs))"

subsection \<open>Sampling\<close>

definition store_stat_values ::
  "pid_t \<Rightarrow> int \<Rightarrow> int \<Rightarrow> int list \<Rightarrow> proc_activity_sample \<Rightarrow> proc_activity_rc \<times> proc_activity_sample" where
  "store_stat_values pid page_size clock_ticks vals out =
     checked_store (vals ! 6) (\<lambda>v. ps_minflt_update (\<lambda>_. v))
     (checked_store (vals ! 8) (\<lambda>v. ps_majflt_update (\<lambda>_. v))
     (checked_store (vals ! 10) (\<lambda>v. ps_utime_ticks_update (\<lambda>_. v))
     (checked_store (vals ! 11) (\<lambda>v. ps_stime_ticks_update (\<lambda>_. v))
     (checked_store (vals ! 18) (\<lambda>v. ps_starttime_ticks_update (\<lambda>_. v))
     (checked_store (vals ! 19) (\<lambda>v. ps_vsize_bytes_update (\<lambda>_. v))
     (\<lambda>out. (PROC_ACTIVITY_OK,
        out\<lparr>ps_num_threads := vals ! 16, ps_rss_pages := vals ! 20, ps_valid := True\<rparr>)))))))
       (out\<lparr>ps_pid := pid, ps_clock_ticks_per_sec := clock_ticks, ps_page_size := of_int page_size\<rparr>)"

definition parse_stat_line ::
  "pid_t \<Rightarrow> int \<Rightarrow> int \<Rightarrow> string \<Rightarrow> proc_activity_sample \<Rightarrow> proc_activity_rc \<times> proc_activity_sample" where
  "parse_stat_line pid page_size clock_ticks line out =
     (case (first_index (\<lambda>c. c = CHR ''('') line, last_index (\<lambda>c. c = CHR '')'') line) of
        (Some lparen, Some rparen) \<Rightarrow>
          if rparen \<le> lparen then (PROC_ACTIVITY_ERR_PARSE, out)
          else let comm_len = (if PROC_ACTIVITY_COMM_MAX \<le> rparen - lparen - 1 then PROC_ACTIVITY_COMM_MAX - 1
                               else rparen - lparen - 1);
                   out1 = out\<lparr>ps_comm := take comm_len (drop (Suc lparen) line)\<rparr>;
                   p = skip_spaces (drop (Suc rparen) line)
          in if p = [] \<or> hd p = CHR 0x0A then (PROC_ACTIVITY_ERR_PARSE, out1)
          else let out2 = out1\<lparr>ps_state := hd p\<rparr>
          in (case parse_stat_values (tl p) 21 of
                Inl rc \<Rightarrow> (rc, out2)
              | Inr vals \<Rightarrow>
                  if length vals < 21 then (PROC_ACTIVITY_ERR_PARSE, out2)
                  else store_stat_values pid page_size clock_ticks vals out2)
      | _ \<Rightarrow> (PROC_ACTIVITY_ERR_PARSE, out))"

text \<open>After a line was read the file is not closed: the world keeps its count of open files.\<close>

definition proc_activity_sample_now ::
  "os \<Rightarrow> pid_t \<Rightarrow> proc_activity_sample option \<Rightarrow> world \<Rightarrow>
   proc_activity_rc \<times> proc_activity_sample option \<times> world" where
  "proc_activity_sample_now os pid outp w =
     (if outp = None then (PROC_ACTIVITY_ERR_INVALID_ARG, outp, w)
      else if pid \<le> 0 then (PROC_ACTIVITY_ERR_INVALID_ARG, outp, w)
      else let out = proc_activity_sample_reset;
               (page_size, w1) = sysconf os SC_PAGESIZE w;
               (clock_ticks, w2) = sysconf os SC_CLK_TCK w1
      in if page_size \<le> 0 \<or> clock_ticks \<le> 0 then (PROC_ACTIVITY_ERR_SYSCONF, Some out, w2)
      else case get_time_ns os w2 of
        (Inl rc, w3) \<Rightarrow> (rc, Some out, w3)
      | (Inr now, w3) \<Rightarrow>
          (let out1 = out\<lparr>ps_timestamp_ns := now\<rparr>;
               stat_path = ''/proc/'' @ show_int pid @ ''/stat''
           in if 256 \<le> length stat_path then (PROC_ACTIVITY_ERR_INVALID_ARG, Some out1, w3)
           else case fopen_r os stat_path w3 of
             (None, w4) \<Rightarrow> (PROC_ACTIVITY_ERR_OPEN, Some out1, w4)
           | (Some contents, w4) \<Rightarrow>
               if contents = [] then (PROC_ACTIVITY_ERR_READ, Some out1, snd (fclose_r os w4))
               else let line = cstr (fst (fgets (PROC_ACTIVITY_STAT_LINE_MAX - 1) contents));
                        (rc, out2) = parse_stat_line pid page_size clock_ticks line out1
                    in (rc, Some out2, w4)))"

subsection \<open>Comparing two samples\<close>

definition total_score :: "rounding \<Rightarrow> cdouble \<Rightarrow> cdouble \<Rightarrow> cdouble \<Rightarrow> cdouble" where
  "total_score rnd cpu_score fault_score rss_score =
     fadd rnd (fadd rnd (fmul rnd (rnd (2 / 10)) cpu_score) (fmul rnd (rnd (5 / 10)) fault_score))
       (fmul rnd (rnd (3 / 10)) rss_score)"

text \<open>The rates and scores, stored in \<open>*out\<close> once the counters have been checked.\<close>

definition delta_rates ::
  "rounding \<Rightarrow> proc_activity_sample \<Rightarrow> proc_activity_sample \<Rightarrow> proc_activity_config \<Rightarrow> int \<Rightarrow>
   proc_activity_delta \<Rightarrow> proc_activity_delta" where
  "delta_rates rnd old_sample new_sample cfg clock_ticks out =
     (let cpu_ticks_delta = (ps_utime_ticks new_sample + ps_stime_ticks new_sample) -
                            (ps_utime_ticks old_sample + ps_stime_ticks old_sample);
          cpu_seconds = fdiv rnd (double_of_u64 rnd cpu_ticks_delta) (double_of_int rnd clock_ticks);
          cpu_ratio = fdiv rnd cpu_seconds (pd_elapsed_sec out);
          minflt_delta = ps_minflt new_sample - ps_minflt old_sample;
          majflt_delta = ps_majflt new_sample - ps_majflt old_sample;
          weighted_faults = fadd rnd (double_of_u64 rnd minflt_delta)
                              (fmul rnd (pc_major_fault_weight cfg) (double_of_u64 rnd majflt_delta));
          faults_per_sec = fdiv rnd weighted_faults (pd_elapsed_sec out);
          rss_mib = (if 0 < ps_rss_pages new_sample \<and> 0 < ps_page_size new_sample
                     then fdiv rnd (fmul rnd (double_of_int rnd (ps_rss_pages new_sample))
                                             (double_of_u64 rnd (ps_page_size new_sample))) (Fin 1048576)
                     else Fin 0);
          cpu_score = clamp01 (fdiv rnd cpu_ratio (pc_cpu_ratio_full_scale cfg));
          fault_score = clamp01 (fdiv rnd faults_per_sec (pc_faults_per_sec_full_scale cfg));
          rss_score = clamp01 (fdiv rnd rss_mib (pc_rss_mib_full_scale cfg))
      in out\<lparr>pd_cpu_ticks_delta := cpu_ticks_delta, pd_cpu_seconds := cpu_seconds, pd_cpu_ratio := cpu_ratio,
             pd_minflt_delta := minflt_delta, pd_majflt_delta := majflt_delta,
             pd_weighted_faults := weighted_faults, pd_faults_per_sec := faults_per_sec, pd_rss_mib := rss_mib,
             pd_cpu_score := cpu_score, pd_fault_score := fault_score, pd_rss_score := rss_score,
             pd_total_score := total_score rnd cpu_score fault_score rss_score\<rparr>)"

text \<open>\<open>(int64_t)cfg->min_rss_pages\<close> reads the 64 bits as a signed number.\<close>

definition delta_verdict ::
  "proc_activity_sample \<Rightarrow> proc_activity_config \<Rightarrow> proc_activity_delta \<Rightarrow> proc_activity_delta" where
  "delta_verdict new_sample cfg out =
     (let rss_large_enough = sint (pc_min_rss_pages cfg) \<le> ps_rss_pages new_sample;
          cpu_active = fle (pc_active_cpu_ratio_threshold cfg) (pd_cpu_ratio out);
          fault_active = fle (pc_active_faults_per_sec_threshold cfg) (pd_faults_per_sec out);
          state_active = (ps_state new_sample = CHR ''R'' \<or> ps_state new_sample = CHR ''D'');
          rss = show_fixed 2 (pd_rss_mib out) @ ''MiB'';
          rates = ''cpu='' @ show_fixed 4 (pd_cpu_ratio out) @ '' faults/s='' @ show_fixed 2 (pd_faults_per_sec out) @
                  '' rss='' @ rss @ '' state='' @ cstr [ps_state new_sample];
          reason = (\<lambda>text. snprintf_s PROC_ACTIVITY_REASON_MAX text)
      in if ps_state new_sample = CHR ''Z''
         then out\<lparr>pd_active := False, pd_reason := reason (''inactive: zombie state=Z rss='' @ rss), pd_valid := True\<rparr>
         else if \<not> rss_large_enough
         then out\<lparr>pd_active := False,
                  pd_reason := reason (''inactive: rss too small rss_pages='' @ show_int (ps_rss_pages new_sample) @
                                       '' threshold='' @ show_nat (unat (pc_min_rss_pages cfg))),
                  pd_valid := True\<rparr>
         else if cpu_active \<or> fault_active \<or> state_active
         then out\<lparr>pd_active := True, pd_reason := reason (''active: '' @ rates), pd_valid := True\<rparr>
         else out\<lparr>pd_active := False, pd_reason := reason (''inactive: below threshold '' @ rates), pd_valid := True\<rparr>)"

definition proc_activity_compute_delta ::
  "rounding \<Rightarrow> proc_activity_sample option \<Rightarrow> proc_activity_sample option \<Rightarrow> proc_activity_config option \<Rightarrow>
   proc_activity_delta option \<Rightarrow> proc_activity_rc \<times> proc_activity_delta option" where
  "proc_activity_compute_delta rnd oldp newp cfgp outp =
     (if oldp = None \<or> newp = None \<or> cfgp = None \<or> outp = None then (PROC_ACTIVITY_ERR_INVALID_ARG, outp)
      else let old_sample = the oldp; new_sample = the newp; cfg = the cfgp; out = proc_activity_delta_reset
      in if \<not> ps_valid old_sample \<or> \<not> ps_valid new_sample then (PROC_ACTIVITY_ERR_INVALID_ARG, Some out)
      else if ps_pid old_sample \<noteq> ps_pid new_sample then (PROC_ACTIVITY_ERR_INVALID_ARG, Some out)
      else let out1 = out\<lparr>pd_pid := ps_pid new_sample\<rparr>
      in if ps_starttime_ticks old_sample \<noteq> ps_starttime_ticks new_sample
      then (PROC_ACTIVITY_ERR_PID_REUSED,
            Some (out1\<lparr>pd_pid_reused := True,
                       pd_reason := snprintf_s PROC_ACTIVITY_REASON_MAX ''pid reused: starttime changed''\<rparr>))
      else if ps_timestamp_ns new_sample \<le> ps_timestamp_ns old_sample
      then (PROC_ACTIVITY_ERR_NON_MONOTONIC_TIME, Some out1)
      else let elapsed_ns = ps_timestamp_ns new_sample - ps_timestamp_ns old_sample;
               out2 = out1\<lparr>pd_elapsed_sec := fdiv rnd (double_of_u64 rnd elapsed_ns)
                                              (double_of_u64 rnd PROC_ACTIVITY_NSEC_PER_SEC)\<rparr>
      in if fle (pd_elapsed_sec out2) (Fin 0) then (PROC_ACTIVITY_ERR_NON_MONOTONIC_TIME, Some out2)
      else if ps_utime_ticks new_sample + ps_stime_ticks new_sample <
              ps_utime_ticks old_sample + ps_stime_ticks old_sample then (PROC_ACTIVITY_ERR_PARSE, Some out2)
      else if ps_minflt new_sample < ps_minflt old_sample \<or> ps_majflt new_sample < ps_majflt old_sample
      then (PROC_ACTIVITY_ERR_PARSE, Some out2)
      else let clock_ticks = (if ps_clock_ticks_per_sec new_sample \<le> 0 then ps_clock_ticks_per_sec old_sample
                              else ps_clock_ticks_per_sec new_sample)
      in if clock_ticks \<le> 0 then (PROC_ACTIVITY_ERR_SYSCONF, Some out2)
      else (PROC_ACTIVITY_OK,
            Some (delta_verdict new_sample cfg (delta_rates rnd old_sample new_sample cfg clock_ticks out2))))"

fun proc_activity_strerror :: "proc_activity_rc \<Rightarrow> string" where
  "proc_activity_strerror PROC_ACTIVITY_OK = ''ok''"
| "proc_activity_strerror PROC_ACTIVITY_ERR_INVALID_ARG = ''invalid argument''"
| "proc_activity_strerror PROC_ACTIVITY_ERR_OPEN = ''failed to open proc stat''"
| "proc_activity_strerror PROC_ACTIVITY_ERR_READ = ''failed to read proc stat or clock''"
| "proc_activity_strerror PROC_ACTIVITY_ERR_PARSE = ''failed to parse proc stat''"
| "proc_activity_strerror PROC_ACTIVITY_ERR_SYSCONF = ''failed to read system configuration''"
| "proc_activity_strerror PROC_ACTIVITY_ERR_PID_REUSED = ''pid reused''"
| "proc_activity_strerror PROC_ACTIVITY_ERR_NON_MONOTONIC_TIME = ''non-monotonic timestamp''"

end
