(* ===== verification/C_Sort.thy ===== *)
theory C_Sort
  imports OS_World
begin

text \<open>
  The library function \<open>qsort\<close>. It is modelled by a stable insertion sort driven by the comparison function of the caller; for
  a comparison function that is a total preorder, the result is the one every stable sort gives. The locale states what a
  comparison function must promise on the elements that occur, and what sorting and cutting after \<open>k\<close> elements then give. The
  two rankings of the daemon are its interpretations.
\<close>

fun qsort_insert :: "('a \<Rightarrow> 'a \<Rightarrow> int) \<Rightarrow> 'a \<Rightarrow> 'a list \<Rightarrow> 'a list" where
  "qsort_insert compar x [] = [x]"
| "qsort_insert compar x (y # ys) = (if compar x y \<le> 0 then x # y # ys else y # qsort_insert compar x ys)"

definition qsort :: "('a \<Rightarrow> 'a \<Rightarrow> int) \<Rightarrow> 'a list \<Rightarrow> 'a list" where
  "qsort compar xs = foldr (qsort_insert compar) xs []"

lemma mset_qsort_insert: "mset (qsort_insert compar x xs) = add_mset x (mset xs)"
  by (induction xs) auto

lemma mset_qsort [simp]: "mset (qsort compar xs) = mset xs"
  unfolding qsort_def by (induction xs) (simp_all add: mset_qsort_insert)

lemma set_qsort [simp]: "set (qsort compar xs) = set xs"
  using mset_qsort [of compar xs] by (rule mset_eq_setD)

lemma length_qsort [simp]: "length (qsort compar xs) = length xs"
  using mset_qsort [of compar xs] by (rule mset_eq_length)

lemma mset_map_qsort: "mset (map f (qsort compar xs)) = mset (map f xs)"
  by simp

lemma distinct_map_qsort [simp]: "distinct (map f (qsort compar xs)) = distinct (map f xs)"
  by (rule mset_eq_imp_distinct_iff [OF mset_map_qsort])

lemma qsort_Nil [simp]: "qsort compar [] = []"
  by (simp add: qsort_def)

text \<open>The comparison that both rankings make: larger scores first, equal scores by process id.\<close>

definition rank_compare :: "('a \<Rightarrow> cdouble) \<Rightarrow> ('a \<Rightarrow> pid_t) \<Rightarrow> 'a \<Rightarrow> 'a \<Rightarrow> int" where
  "rank_compare score pid a b =
     (if flt (score a) (score b) then 1
      else if flt (score b) (score a) then -1
      else if pid b < pid a then 1
      else if pid a < pid b then -1
      else 0)"

locale comparison =
  fixes compar :: "'a \<Rightarrow> 'a \<Rightarrow> int" and good :: "'a \<Rightarrow> bool"
  assumes compar_total: "good x \<Longrightarrow> good y \<Longrightarrow> compar x y \<le> 0 \<or> compar y x \<le> 0"
    and compar_trans: "good x \<Longrightarrow> good y \<Longrightarrow> good z \<Longrightarrow> compar x y \<le> 0 \<Longrightarrow> compar y z \<le> 0 \<Longrightarrow> compar x z \<le> 0"
begin

lemma sorted_insert:
  "good x \<Longrightarrow> list_all good xs \<Longrightarrow> sorted_wrt (\<lambda>a b. compar a b \<le> 0) xs \<Longrightarrow>
   sorted_wrt (\<lambda>a b. compar a b \<le> 0) (qsort_insert compar x xs)"
proof (induction xs)
  case (Cons y ys)
  show ?case
  proof (cases "compar x y \<le> 0")
    case True
    then have "\<forall>z \<in> set ys. compar x z \<le> 0"
      using Cons.prems compar_trans [of x y] by (auto simp: list_all_iff)
    with True Cons.prems show ?thesis by simp
  next
    case False
    with Cons.prems have "compar y x \<le> 0" using compar_total by auto
    moreover have "set (qsort_insert compar x ys) = insert x (set ys)"
      using mset_qsort_insert [of compar x ys] by (metis set_mset_mset set_mset_add_mset_insert)
    ultimately show ?thesis using False Cons by auto
  qed
qed simp

lemma sorted_qsort:
  "list_all good xs \<Longrightarrow> sorted_wrt (\<lambda>a b. compar a b \<le> 0) (qsort compar xs)"
proof (induction xs)
  case Nil
  then show ?case by simp
next
  case (Cons x xs)
  then have "list_all good (qsort compar xs)" by (simp add: list_all_iff)
  with Cons show ?case by (simp add: qsort_def sorted_insert)
qed

text \<open>Cutting a sorted list keeps a best part: whatever is dropped ranks after whatever is kept.\<close>

lemma top_k:
  assumes "list_all good xs" "x \<in> set (take k (qsort compar xs))" "y \<in> set (drop k (qsort compar xs))"
  shows "compar x y \<le> 0"
proof -
  have "sorted_wrt (\<lambda>a b. compar a b \<le> 0) (take k (qsort compar xs) @ drop k (qsort compar xs))"
    using sorted_qsort [OF assms(1)] by simp
  with assms(2,3) show ?thesis by (simp only: sorted_wrt_append)
qed

end

lemma rank_compare_le:
  "score a \<noteq> NaN \<Longrightarrow> score b \<noteq> NaN \<Longrightarrow>
   rank_compare score pid a b \<le> 0 \<longleftrightarrow> flt (score b) (score a) \<or> (score a = score b \<and> pid a \<le> pid b)"
  by (cases "score a"; cases "score b") (auto simp: rank_compare_def)

lemma flt_trans: "flt a b \<Longrightarrow> flt b c \<Longrightarrow> flt a c"
  by (cases a; cases b; cases c) auto

lemma flt_trichotomy: "a \<noteq> NaN \<Longrightarrow> b \<noteq> NaN \<Longrightarrow> flt a b \<or> a = b \<or> flt b a"
  by (cases a; cases b) auto

lemma rank_comparison: "comparison (rank_compare score pid) (\<lambda>x. score x \<noteq> NaN)"
proof
  fix x y :: 'a
  assume "score x \<noteq> NaN" "score y \<noteq> NaN"
  then show "rank_compare score pid x y \<le> 0 \<or> rank_compare score pid y x \<le> 0"
    using flt_trichotomy [of "score x" "score y"] by (auto simp: rank_compare_le)
next
  fix x y z :: 'a
  assume "score x \<noteq> NaN" "score y \<noteq> NaN" "score z \<noteq> NaN"
    and "rank_compare score pid x y \<le> 0" "rank_compare score pid y z \<le> 0"
  then show "rank_compare score pid x z \<le> 0"
    by (auto simp: rank_compare_le dest: flt_trans)
qed

interpretation rank: comparison "rank_compare score pid" "\<lambda>x. score x \<noteq> NaN"
  by (rule rank_comparison)

end
