(* ===== verification/Addr_Translate.thy ===== *)
theory Addr_Translate
  imports OS_World
begin

unbundle bit_operations_syntax

text \<open>
  Translation of virtual to physical addresses through \<open>/proc/[pid]/pagemap\<close>
  (\<open>protected-daemon/src/addr_translate.c\<close>, \<open>addr_translate.h\<close>). The context and the result pointer are options;
  a result that the code has filled before it returns an error is part of the answer.
\<close>

datatype addr_translate_rc =
    ADDR_TRANSLATE_OK
  | ADDR_TRANSLATE_ERR_INVALID_ARG
  | ADDR_TRANSLATE_ERR_PAGE_SIZE
  | ADDR_TRANSLATE_ERR_OPEN
  | ADDR_TRANSLATE_ERR_READ
  | ADDR_TRANSLATE_ERR_NOT_PRESENT
  | ADDR_TRANSLATE_ERR_SWAPPED
  | ADDR_TRANSLATE_ERR_PFN_UNAVAILABLE
  | ADDR_TRANSLATE_ERR_OVERFLOW

record addr_translate_ctx =
  ac_pid :: pid_t
  ac_pagemap_fd :: int
  ac_page_size :: u64

record addr_translation =
  at_pid :: pid_t
  at_virtual_address :: u64
  at_physical_address :: u64
  at_page_size :: u64
  at_page_index :: u64
  at_page_offset :: u64
  at_pagemap_entry :: u64
  at_pfn :: u64
  at_present :: bool
  at_swapped :: bool
  at_soft_dirty :: bool
  at_exclusively_mapped :: bool
  at_uffd_wp :: bool
  at_guard_region :: bool
  at_file_or_shared_anon :: bool

definition addr_translation_zero :: addr_translation where
  "addr_translation_zero =
     \<lparr>at_pid = 0, at_virtual_address = 0, at_physical_address = 0, at_page_size = 0, at_page_index = 0,
      at_page_offset = 0, at_pagemap_entry = 0, at_pfn = 0, at_present = False, at_swapped = False,
      at_soft_dirty = False, at_exclusively_mapped = False, at_uffd_wp = False, at_guard_region = False,
      at_file_or_shared_anon = False\<rparr>"

definition PAGEMAP_ENTRY_BYTES :: u64 where "PAGEMAP_ENTRY_BYTES = 8"
definition PAGEMAP_PFN_MASK :: u64 where "PAGEMAP_PFN_MASK = push_bit 55 1 - 1"
definition PAGEMAP_SOFT_DIRTY_BIT :: u64 where "PAGEMAP_SOFT_DIRTY_BIT = push_bit 55 1"
definition PAGEMAP_EXCLUSIVE_BIT :: u64 where "PAGEMAP_EXCLUSIVE_BIT = push_bit 56 1"
definition PAGEMAP_UFFD_WP_BIT :: u64 where "PAGEMAP_UFFD_WP_BIT = push_bit 57 1"
definition PAGEMAP_GUARD_BIT :: u64 where "PAGEMAP_GUARD_BIT = push_bit 58 1"
definition PAGEMAP_FILE_SHARED_BIT :: u64 where "PAGEMAP_FILE_SHARED_BIT = push_bit 61 1"
definition PAGEMAP_SWAPPED_BIT :: u64 where "PAGEMAP_SWAPPED_BIT = push_bit 62 1"
definition PAGEMAP_PRESENT_BIT :: u64 where "PAGEMAP_PRESENT_BIT = push_bit 63 1"

definition get_page_size :: "os \<Rightarrow> world \<Rightarrow> u64 \<times> world" where
  "get_page_size os w =
     (let (ps, w') = sysconf os SC_PAGESIZE w in if ps \<le> 0 then (0, w') else (of_int ps, w'))"

definition addr_translate_reset :: addr_translate_ctx where
  "addr_translate_reset = \<lparr>ac_pid = -1, ac_pagemap_fd = -1, ac_page_size = 0\<rparr>"

definition addr_translate_open ::
  "os \<Rightarrow> addr_translate_ctx option \<Rightarrow> pid_t \<Rightarrow> world \<Rightarrow>
   addr_translate_rc \<times> addr_translate_ctx option \<times> world" where
  "addr_translate_open os ctxp pid w =
     (if ctxp = None \<or> pid \<le> 0 then (ADDR_TRANSLATE_ERR_INVALID_ARG, ctxp, w)
      else let (page_size, w1) = get_page_size os w
      in if page_size = 0 then (ADDR_TRANSLATE_ERR_PAGE_SIZE, Some addr_translate_reset, w1)
      else let path = ''/proc/'' @ show_int pid @ ''/pagemap''
      in if 64 \<le> length path then (ADDR_TRANSLATE_ERR_INVALID_ARG, Some addr_translate_reset, w1)
      else let (fd, w2) = sys_open os path w1
      in if fd < 0 then (ADDR_TRANSLATE_ERR_OPEN, Some addr_translate_reset, w2)
      else (ADDR_TRANSLATE_OK, Some \<lparr>ac_pid = pid, ac_pagemap_fd = fd, ac_page_size = page_size\<rparr>, w2))"

definition addr_translate_close ::
  "addr_translate_ctx option \<Rightarrow> world \<Rightarrow> addr_translate_ctx option \<times> world" where
  "addr_translate_close ctxp w =
     (case ctxp of
        None \<Rightarrow> (None, w)
      | Some ctx \<Rightarrow>
          (Some addr_translate_reset, if 0 \<le> ac_pagemap_fd ctx then sys_close w else w))"

definition decode_u64_le :: "u8 list \<Rightarrow> u64" where
  "decode_u64_le bytes =
     ucast (bytes ! 0) OR push_bit 8 (ucast (bytes ! 1)) OR push_bit 16 (ucast (bytes ! 2)) OR
     push_bit 24 (ucast (bytes ! 3)) OR push_bit 32 (ucast (bytes ! 4)) OR push_bit 40 (ucast (bytes ! 5)) OR
     push_bit 48 (ucast (bytes ! 6)) OR push_bit 56 (ucast (bytes ! 7))"

text \<open>The list \<open>pread\<close> delivers is what it stored in the buffer; an error is the empty list.\<close>

definition read_pagemap_entry ::
  "os \<Rightarrow> addr_translate_ctx \<Rightarrow> u64 \<Rightarrow> world \<Rightarrow> (addr_translate_rc + u64) \<times> world" where
  "read_pagemap_entry os ctx page_index w =
     (if ac_pagemap_fd ctx < 0 then (Inl ADDR_TRANSLATE_ERR_INVALID_ARG, w)
      else if (- 1) div PAGEMAP_ENTRY_BYTES < page_index then (Inl ADDR_TRANSLATE_ERR_OVERFLOW, w)
      else let offset = page_index * PAGEMAP_ENTRY_BYTES
      in if 0x7fffffffffffffff < offset then (Inl ADDR_TRANSLATE_ERR_OVERFLOW, w)
      else let (bytes, w') = sys_pread os (ac_pagemap_fd ctx) offset w
      in if length bytes \<noteq> 8 then (Inl ADDR_TRANSLATE_ERR_READ, w')
      else (Inr (decode_u64_le bytes), w'))"

definition addr_translate_va_to_pa ::
  "os \<Rightarrow> addr_translate_ctx option \<Rightarrow> u64 \<Rightarrow> addr_translation option \<Rightarrow> world \<Rightarrow>
   addr_translate_rc \<times> addr_translation option \<times> world" where
  "addr_translate_va_to_pa os ctxp virtual_address outp w =
     (case (ctxp, outp) of
        (Some ctx, Some _) \<Rightarrow>
          if ac_pid ctx \<le> 0 \<or> ac_pagemap_fd ctx < 0 \<or> ac_page_size ctx = 0
          then (ADDR_TRANSLATE_ERR_INVALID_ARG, outp, w)
          else let page_index = virtual_address div ac_page_size ctx;
                   page_offset = virtual_address mod ac_page_size ctx
          in case read_pagemap_entry os ctx page_index w of
               (Inl rc, w') \<Rightarrow> (rc, Some addr_translation_zero, w')
             | (Inr entry, w') \<Rightarrow>
                 (let out = addr_translation_zero\<lparr>
                        at_pid := ac_pid ctx, at_virtual_address := virtual_address,
                        at_page_size := ac_page_size ctx, at_page_index := page_index,
                        at_page_offset := page_offset, at_pagemap_entry := entry,
                        at_present := (entry AND PAGEMAP_PRESENT_BIT \<noteq> 0),
                        at_swapped := (entry AND PAGEMAP_SWAPPED_BIT \<noteq> 0),
                        at_soft_dirty := (entry AND PAGEMAP_SOFT_DIRTY_BIT \<noteq> 0),
                        at_exclusively_mapped := (entry AND PAGEMAP_EXCLUSIVE_BIT \<noteq> 0),
                        at_uffd_wp := (entry AND PAGEMAP_UFFD_WP_BIT \<noteq> 0),
                        at_guard_region := (entry AND PAGEMAP_GUARD_BIT \<noteq> 0),
                        at_file_or_shared_anon := (entry AND PAGEMAP_FILE_SHARED_BIT \<noteq> 0)\<rparr>
                  in if \<not> at_present out
                     then (if at_swapped out then ADDR_TRANSLATE_ERR_SWAPPED else ADDR_TRANSLATE_ERR_NOT_PRESENT,
                           Some out, w')
                     else let pfn = entry AND PAGEMAP_PFN_MASK; out1 = out\<lparr>at_pfn := pfn\<rparr>
                     in if pfn = 0 then (ADDR_TRANSLATE_ERR_PFN_UNAVAILABLE, Some out1, w')
                     else if (- 1 - page_offset) div ac_page_size ctx < pfn
                     then (ADDR_TRANSLATE_ERR_OVERFLOW, Some out1, w')
                     else (ADDR_TRANSLATE_OK,
                           Some (out1\<lparr>at_physical_address := pfn * ac_page_size ctx + page_offset\<rparr>), w'))
      | _ \<Rightarrow> (ADDR_TRANSLATE_ERR_INVALID_ARG, outp, w))"

definition addr_translate_pid_va_to_pa ::
  "os \<Rightarrow> pid_t \<Rightarrow> u64 \<Rightarrow> addr_translation option \<Rightarrow> world \<Rightarrow>
   addr_translate_rc \<times> addr_translation option \<times> world" where
  "addr_translate_pid_va_to_pa os pid virtual_address outp w =
     (let (rc, ctx, w1) = addr_translate_open os (Some addr_translate_reset) pid w
      in if rc \<noteq> ADDR_TRANSLATE_OK then (rc, outp, w1)
         else let (rc', out, w2) = addr_translate_va_to_pa os ctx virtual_address outp w1;
                  (_, w3) = addr_translate_close ctx w2
              in (rc', out, w3))"

fun addr_translate_strerror :: "addr_translate_rc \<Rightarrow> string" where
  "addr_translate_strerror ADDR_TRANSLATE_OK = ''success''"
| "addr_translate_strerror ADDR_TRANSLATE_ERR_INVALID_ARG = ''invalid argument''"
| "addr_translate_strerror ADDR_TRANSLATE_ERR_PAGE_SIZE = ''failed to determine page size''"
| "addr_translate_strerror ADDR_TRANSLATE_ERR_OPEN = ''failed to open /proc/[pid]/pagemap''"
| "addr_translate_strerror ADDR_TRANSLATE_ERR_READ = ''failed to read pagemap entry''"
| "addr_translate_strerror ADDR_TRANSLATE_ERR_NOT_PRESENT = ''page is not present''"
| "addr_translate_strerror ADDR_TRANSLATE_ERR_SWAPPED = ''page is swapped out''"
| "addr_translate_strerror ADDR_TRANSLATE_ERR_PFN_UNAVAILABLE = ''PFN unavailable or zero page''"
| "addr_translate_strerror ADDR_TRANSLATE_ERR_OVERFLOW = ''address calculation overflow''"

subsection \<open>Little-endian decoding\<close>

lemma bit_decode_u64_le:
  assumes "length bytes = 8" "k < 64"
  shows "bit (decode_u64_le bytes) k \<longleftrightarrow> bit (bytes ! (k div 8)) (k mod 8)"
proof -
  have byte: "bit (push_bit n (ucast (b :: u8) :: u64)) k \<longleftrightarrow> k div 8 = j \<and> bit b (k mod 8)"
    if "n = 8 * j" "j < 8" for n j b
  proof (cases "k div 8 = j")
    case True
    then have "k = 8 * j + k mod 8" by (metis mult_div_mod_eq)
    then have "k - 8 * j = k mod 8" "8 * j \<le> k" by linarith+
    moreover have "k mod 8 < 64" by (rule less_trans [of _ 8]) simp_all
    ultimately show ?thesis using True assms(2) by (simp add: that(1) bit_push_bit_iff bit_ucast_iff)
  next
    case False
    then have "k < 8 * j \<or> 8 \<le> k - 8 * j" by linarith
    then have "\<not> (8 * j \<le> k \<and> bit b (k - 8 * j))"
      using bit_imp_le_length [of b "k - 8 * j"] by auto
    with False show ?thesis by (auto simp: that(1) bit_push_bit_iff bit_ucast_iff)
  qed
  have zero: "bit (ucast (b :: u8) :: u64) k \<longleftrightarrow> k div 8 = 0 \<and> bit b (k mod 8)" for b
    using byte [of 0 0 b] by (simp only: push_bit_0_id id_apply mult_0_right)
  obtain q where q: "k div 8 = q" by simp
  with assms(2) have "q = 0 \<or> q = 1 \<or> q = 2 \<or> q = 3 \<or> q = 4 \<or> q = 5 \<or> q = 6 \<or> q = 7" by linarith
  then show ?thesis
    unfolding decode_u64_le_def bit_or_iff zero byte [of 8 1, simplified] byte [of 16 2, simplified]
      byte [of 24 3, simplified] byte [of 32 4, simplified] byte [of 40 5, simplified]
      byte [of 48 6, simplified] byte [of 56 7, simplified] q
    by (elim disjE) simp_all
qed

text \<open>The bytes of a word, lowest first, as the kernel writes a pagemap entry.\<close>

definition encode_u64_le :: "u64 \<Rightarrow> u8 list" where
  "encode_u64_le v = map (\<lambda>j. ucast (drop_bit (8 * j) v)) [0..<8]"

lemma decode_encode_u64_le: "decode_u64_le (encode_u64_le v) = v"
proof (rule bit_eqI)
  fix k
  assume "possible_bit TYPE(u64) k"
  then have k: "k < 64" by (simp add: possible_bit_word)
  have "bit (decode_u64_le (encode_u64_le v)) k \<longleftrightarrow> bit (encode_u64_le v ! (k div 8)) (k mod 8)"
    using k by (simp add: bit_decode_u64_le encode_u64_le_def)
  also have "\<dots> \<longleftrightarrow> bit v (8 * (k div 8) + k mod 8)"
    using nth_upt [of 0 "k div 8" 8] k by (simp add: encode_u64_le_def bit_ucast_iff bit_drop_bit_eq)
  finally show "bit (decode_u64_le (encode_u64_le v)) k \<longleftrightarrow> bit v k" by simp
qed

lemma encode_decode_u64_le:
  assumes "length bytes = 8"
  shows "encode_u64_le (decode_u64_le bytes) = bytes"
proof (rule nth_equalityI)
  show "length (encode_u64_le (decode_u64_le bytes)) = length bytes" by (simp add: encode_u64_le_def assms)
next
  fix j
  assume "j < length (encode_u64_le (decode_u64_le bytes))"
  then have j: "j < 8" by (simp add: encode_u64_le_def)
  show "encode_u64_le (decode_u64_le bytes) ! j = bytes ! j"
  proof (rule bit_eqI)
    fix k
    assume "possible_bit TYPE(u8) k"
    then have k: "k < 8" by (simp add: possible_bit_word)
    have "bit (encode_u64_le (decode_u64_le bytes) ! j) k \<longleftrightarrow> bit (decode_u64_le bytes) (8 * j + k)"
      using j k by (simp add: encode_u64_le_def bit_ucast_iff bit_drop_bit_eq)
    also have "\<dots> \<longleftrightarrow> bit (bytes ! ((8 * j + k) div 8)) ((8 * j + k) mod 8)"
      using j k by (intro bit_decode_u64_le assms) simp
    also have "\<dots> \<longleftrightarrow> bit (bytes ! j) k" using k by simp
    finally show "bit (encode_u64_le (decode_u64_le bytes) ! j) k \<longleftrightarrow> bit (bytes ! j) k" .
  qed
qed

subsection \<open>Address arithmetic\<close>

lemma pfn_mask: "unat (entry AND PAGEMAP_PFN_MASK) = unat entry mod 2 ^ 55"
proof -
  have "PAGEMAP_PFN_MASK = mask 55" by (simp add: PAGEMAP_PFN_MASK_def mask_eq_exp_minus_1 push_bit_of_1)
  then have "entry AND PAGEMAP_PFN_MASK = take_bit 55 entry" by (simp only: take_bit_eq_mask)
  then have "unat (entry AND PAGEMAP_PFN_MASK) = take_bit 55 (unat entry)" by (simp only: unsigned_take_bit_eq)
  then show ?thesis by (simp only: take_bit_eq_mod [of 55 "unat entry"])
qed

text \<open>The overflow test is exact: below the bound, product and sum do not wrap.\<close>

lemma pa_no_overflow:
  fixes pfn ps off :: u64
  assumes "\<not> (- 1 - off) div ps < pfn"
  shows "unat (pfn * ps + off) = unat pfn * unat ps + unat off"
proof -
  have "unat pfn \<le> unat (- 1 - off) div unat ps"
    using assms by (simp add: word_less_nat_alt unat_div not_less)
  then have "unat pfn * unat ps \<le> unat (- 1 - off)"
    by (metis div_times_less_eq_dividend le_trans mult_le_mono1)
  moreover have "unat (- 1 - off) = 18446744073709551615 - unat off"
    by (simp add: unat_u64_sub unat_u64_max)
  ultimately have sum: "unat pfn * unat ps + unat off \<le> 18446744073709551615"
    using unat_lt64 [of off] by linarith
  then have "unat (pfn * ps) = unat pfn * unat ps" by (intro unat_u64_mult) simp
  with sum show ?thesis by (simp add: unat_u64_add)
qed

lemma pa_overflow:
  fixes pfn ps off :: u64
  assumes "(- 1 - off) div ps < pfn" "ps \<noteq> 0"
  shows "2 ^ 64 \<le> unat pfn * unat ps + unat off"
proof -
  have ps: "0 < unat ps" using assms(2) by (simp add: unat_gt_0)
  have "unat (- 1 - off) div unat ps < unat pfn"
    using assms(1) by (simp add: word_less_nat_alt unat_div)
  then have "unat (- 1 - off) < unat pfn * unat ps" using ps by (simp add: div_less_iff_less_mult)
  moreover have "unat (- 1 - off) = 18446744073709551615 - unat off"
    by (simp add: unat_u64_sub unat_u64_max)
  ultimately show ?thesis using unat_lt64 [of off] by simp
qed

lemma read_pagemap_entry_open [frame]:
  "read_pagemap_entry os ctx i w = (r, w') \<Longrightarrow> w_open w' = w_open w"
  by (auto simp: read_pagemap_entry_def sys_pread_def Let_def split: if_splits)

lemma va_to_pa_open [frame]:
  "addr_translate_va_to_pa os ctx va out w = (rc, out', w') \<Longrightarrow> w_open w' = w_open w"
  by (auto simp: addr_translate_va_to_pa_def Let_def split: option.splits if_splits prod.splits sum.splits
      dest: read_pagemap_entry_open)

lemma addr_translate_open_cases:
  assumes "addr_translate_open os (Some c) pid w = (rc, cp, w')"
  shows "(rc \<noteq> ADDR_TRANSLATE_OK \<and> w_open w' = w_open w) \<or>
    (\<exists>ctx. rc = ADDR_TRANSLATE_OK \<and> cp = Some ctx \<and> ac_pid ctx = pid \<and> 0 < pid \<and> 0 \<le> ac_pagemap_fd ctx \<and>
       ac_page_size ctx \<noteq> 0 \<and> w_open w' = Suc (w_open w))"
  using assms
  by (auto simp: addr_translate_open_def get_page_size_def sysconf_def sys_open_def Let_def split: if_splits)

subsection \<open>Properties\<close>

text \<open>Decoding the eight bytes of a pagemap entry inverts their little-endian encoding, in both directions.\<close>

theorem decode_u64_le_roundtrip:
  "decode_u64_le (encode_u64_le v) = v \<and>
   (length bytes = 8 \<longrightarrow> encode_u64_le (decode_u64_le bytes) = bytes)"
  by (simp add: decode_encode_u64_le encode_decode_u64_le)

theorem decode_u64_le_roundtrip_witness:
  "encode_u64_le (decode_u64_le [1, 2, 3, 4, 5, 6, 7, 8]) = [1, 2, 3, 4, 5, 6, 7, 8]"
  using decode_u64_le_roundtrip [of _ "[1, 2, 3, 4, 5, 6, 7, 8]"] by simp

text \<open>A successful translation is arithmetically exact: the pagemap entry was read at eight times the page number, the page is
  present, the frame number is its low 55 bits and not zero, and the physical address is frame number times page size plus page
  offset as a natural number, with no 64-bit wrap-around anywhere. The overflow code is returned exactly when
  that number does not fit.\<close>

theorem va_to_pa_exact:
  assumes "addr_translate_va_to_pa os (Some ctx) va (Some out) w = (rc, Some t, w')"
    and "0 < ac_pid ctx" and "0 \<le> ac_pagemap_fd ctx" and "ac_page_size ctx \<noteq> 0"
    and "unat (va div ac_page_size ctx) * 8 < 2 ^ 63"
    and "os_pread os w (ac_pagemap_fd ctx) (of_nat (8 * (unat va div unat (ac_page_size ctx)))) = encode_u64_le entry"
  shows "at_pagemap_entry t = entry \<and> at_present t = bit entry 63 \<and> at_swapped t = bit entry 62 \<and>
    (rc = ADDR_TRANSLATE_OK \<longleftrightarrow> bit entry 63 \<and> unat entry mod 2 ^ 55 \<noteq> 0 \<and>
       (unat entry mod 2 ^ 55) * unat (ac_page_size ctx) + unat va mod unat (ac_page_size ctx) < 2 ^ 64) \<and>
    (rc = ADDR_TRANSLATE_OK \<longrightarrow>
       unat (at_physical_address t) =
         (unat entry mod 2 ^ 55) * unat (ac_page_size ctx) + unat va mod unat (ac_page_size ctx))"
proof -
  let ?i = "va div ac_page_size ctx" and ?o = "va mod ac_page_size ctx"
  have i: "unat ?i = unat va div unat (ac_page_size ctx)" "unat ?o = unat va mod unat (ac_page_size ctx)"
    by (simp_all add: unat_div unat_mod)
  have off: "?i * PAGEMAP_ENTRY_BYTES = of_nat (8 * (unat va div unat (ac_page_size ctx)))"
    by (simp add: PAGEMAP_ENTRY_BYTES_def flip: i(1)) (simp add: of_nat_unat mult.commute)
  have small: "unat (?i * PAGEMAP_ENTRY_BYTES) = unat ?i * 8"
    using assms(5) by (simp add: PAGEMAP_ENTRY_BYTES_def unat_u64_mult)
  have no1: "\<not> (- 1) div PAGEMAP_ENTRY_BYTES < ?i"
    using assms(5) by (simp add: PAGEMAP_ENTRY_BYTES_def word_less_nat_alt unat_div unat_u64_max)
  have no2: "\<not> 0x7fffffffffffffff < ?i * PAGEMAP_ENTRY_BYTES"
    using assms(5) small by (simp add: word_less_nat_alt)
  have read: "read_pagemap_entry os ctx ?i w = (Inr entry, tick w)"
    using assms(3,6) no1 no2
    by (simp add: read_pagemap_entry_def sys_pread_def off Let_def decode_encode_u64_le)
      (simp add: encode_u64_le_def)
  have bits: "entry AND PAGEMAP_PRESENT_BIT \<noteq> 0 \<longleftrightarrow> bit entry 63" "entry AND PAGEMAP_SWAPPED_BIT \<noteq> 0 \<longleftrightarrow> bit entry 62"
    unfolding PAGEMAP_PRESENT_BIT_def PAGEMAP_SWAPPED_BIT_def by (rule and_push_bit_1_nonzero)+
  let ?p = "entry AND PAGEMAP_PFN_MASK"
  have p0: "?p = 0 \<longleftrightarrow> unat entry mod 2 ^ 55 = 0" using pfn_mask [of entry] by (metis unat_0 unat_eq_zero)
  show ?thesis
  proof (cases "(- 1 - ?o) div ac_page_size ctx < ?p")
    case True
    from pa_overflow [OF True assms(4)] assms(1-4) read bits p0 show ?thesis
      by (auto simp: addr_translate_va_to_pa_def Let_def pfn_mask i True split: if_splits)
  next
    case False
    from pa_no_overflow [OF False] assms(1-4) read bits p0 unat_lt64 [of "?p * ac_page_size ctx + ?o"] show ?thesis
      by (auto simp: addr_translate_va_to_pa_def Let_def pfn_mask i False split: if_splits)
  qed
qed

theorem va_to_pa_exact_witness:
  "\<exists>t w'. addr_translate_va_to_pa (os_fine\<lparr>os_pread := \<lambda>_ _ _. encode_u64_le 0x8000000000000001\<rparr>)
      (Some \<lparr>ac_pid = 5, ac_pagemap_fd = 3, ac_page_size = 4096\<rparr>) 0x1234 (Some addr_translation_zero) world0 =
      (ADDR_TRANSLATE_OK, Some t, w') \<and> unat (at_physical_address t) = 0x1234"
proof -
  let ?os = "os_fine\<lparr>os_pread := \<lambda>_ _ _. encode_u64_le 0x8000000000000001\<rparr>"
  let ?ctx = "\<lparr>ac_pid = 5, ac_pagemap_fd = 3, ac_page_size = 4096\<rparr>"
  obtain rc tp w' where
    tr: "addr_translate_va_to_pa ?os (Some ?ctx) 0x1234 (Some addr_translation_zero) world0 = (rc, tp, w')"
    by (rule prod_cases3)
  have "tp \<noteq> None"
    using tr by (auto simp: addr_translate_va_to_pa_def Let_def split: if_splits prod.splits sum.splits)
  then obtain t where t: "tp = Some t" by blast
  have bits: "bit (0x8000000000000001 :: u64) 63" by simp
  from va_to_pa_exact [OF tr [unfolded t], of "0x8000000000000001"] tr t bits show ?thesis
    by simp
qed

text \<open>The one-shot translation leaves no file open, whatever fails on the way.\<close>

theorem one_shot_translation_closes:
  "w_open (snd (snd (addr_translate_pid_va_to_pa os pid va out w))) = w_open w"
proof -
  obtain rc cp w1 where op: "addr_translate_open os (Some addr_translate_reset) pid w = (rc, cp, w1)"
    by (rule prod_cases3)
  obtain rc2 out2 w2 where tr: "addr_translate_va_to_pa os cp va out w1 = (rc2, out2, w2)"
    by (rule prod_cases3)
  from addr_translate_open_cases [OF op] va_to_pa_open [OF tr] op tr show ?thesis
    by (auto simp: addr_translate_pid_va_to_pa_def addr_translate_close_def sys_close_def split: if_splits)
qed

end
