(* ===== verification/Dram_Mapping.thy ===== *)
theory Dram_Mapping
  imports C_String
begin

unbundle bit_operations_syntax

text \<open>
  The recovered mapping from physical addresses to bank classes (\<open>protected-daemon/src/dram_mapping.c\<close>,
  \<open>dram_mapping.h\<close>) and the calibration result it is built from (\<open>calibration.h\<close>). Bit \<open>i\<close> of the
  class of an address is the parity of the address under mask \<open>i\<close>. An array of masks is a
  function of the index, of which the first \<open>mask_count\<close> values are meaningful.
\<close>

subsection \<open>The calibration result\<close>

definition CALIBRATION_MAX_BANK_MASKS :: nat where "CALIBRATION_MAX_BANK_MASKS = 32"
definition CALIBRATION_MASK_SET_ID_MAX :: nat where "CALIBRATION_MASK_SET_ID_MAX = 65"
definition CALIBRATION_ERROR_MESSAGE_MAX :: nat where "CALIBRATION_ERROR_MESSAGE_MAX = 256"

record calibration_metrics =
  cm_tp :: u64
  cm_tn :: u64
  cm_fp :: u64
  cm_fn :: u64
  cm_accuracy :: cdouble
  cm_precision :: cdouble
  cm_recall :: cdouble
  cm_f1 :: cdouble

record calibration_result =
  cr_status_success :: bool
  cr_acceptance_passed :: bool
  cr_bank_masks :: "nat \<Rightarrow> u64"
  cr_bank_mask_count :: nat
  cr_mask_set_id :: string
  cr_holdout :: calibration_metrics
  cr_worker_exit_code :: int
  cr_error_message :: string

subsection \<open>The mapping\<close>

definition DRAM_MAPPING_MAX_MASKS :: nat where "DRAM_MAPPING_MAX_MASKS = CALIBRATION_MAX_BANK_MASKS"
definition DRAM_MAPPING_MASK_SET_ID_MAX :: nat where "DRAM_MAPPING_MASK_SET_ID_MAX = CALIBRATION_MASK_SET_ID_MAX"

datatype dram_mapping_rc =
    DRAM_MAPPING_OK
  | DRAM_MAPPING_ERR_INVALID_ARG
  | DRAM_MAPPING_ERR_NOT_READY
  | DRAM_MAPPING_ERR_CALIBRATION_REJECTED
  | DRAM_MAPPING_ERR_MASK_COUNT
  | DRAM_MAPPING_ERR_ZERO_MASK
  | DRAM_MAPPING_ERR_DUPLICATE_MASK
  | DRAM_MAPPING_ERR_MASK_SET_ID

record dram_mapping =
  dm_masks :: "nat \<Rightarrow> u64"
  dm_mask_count :: nat
  dm_mask_set_id :: string
  dm_ready :: bool

text \<open>The builtin \<open>__builtin_parityll\<close>: the number of one bits modulo 2.\<close>

definition parity64 :: "u64 \<Rightarrow> u64" where
  "parity64 v = of_bool (odd (length (filter (bit v) [0..<64])))"

text \<open>The branch for other compilers.\<close>

definition parity64_portable :: "u64 \<Rightarrow> u64" where
  "parity64_portable value0 =
     (let value1 = value0 XOR drop_bit 32 value0;
          value2 = value1 XOR drop_bit 16 value1;
          value3 = value2 XOR drop_bit 8 value2;
          value4 = value3 XOR drop_bit 4 value3
      in drop_bit (unat (value4 AND 0xF)) 0x6996 AND 1)"

definition dram_mapping_reset :: dram_mapping where
  "dram_mapping_reset = \<lparr>dm_masks = (\<lambda>_. 0), dm_mask_count = 0, dm_mask_set_id = [], dm_ready = False\<rparr>"

definition dram_mapping_is_ready :: "dram_mapping option \<Rightarrow> bool" where
  "dram_mapping_is_ready mp = (case mp of None \<Rightarrow> False | Some m \<Rightarrow> dm_ready m \<and> 0 < dm_mask_count m)"

text \<open>The loop over the masks; the inner loop compares with the masks before index \<open>i\<close>.\<close>

fun validate_masks :: "(nat \<Rightarrow> u64) \<Rightarrow> nat list \<Rightarrow> dram_mapping_rc" where
  "validate_masks masks [] = DRAM_MAPPING_OK"
| "validate_masks masks (i # rest) =
     (if masks i = 0 then DRAM_MAPPING_ERR_ZERO_MASK
      else if list_ex (\<lambda>j. masks i = masks j) [0..<i] then DRAM_MAPPING_ERR_DUPLICATE_MASK
      else validate_masks masks rest)"

definition validate_calibration_result :: "calibration_result \<Rightarrow> dram_mapping_rc" where
  "validate_calibration_result result =
     (if \<not> cr_status_success result \<or> \<not> cr_acceptance_passed result then DRAM_MAPPING_ERR_CALIBRATION_REJECTED
      else if cr_bank_mask_count result = 0 \<or> DRAM_MAPPING_MAX_MASKS < cr_bank_mask_count result
      then DRAM_MAPPING_ERR_MASK_COUNT
      else let id_len = bounded_strlen (cr_mask_set_id result) DRAM_MAPPING_MASK_SET_ID_MAX
           in if id_len = 0 \<or> DRAM_MAPPING_MASK_SET_ID_MAX \<le> id_len then DRAM_MAPPING_ERR_MASK_SET_ID
              else validate_masks (cr_bank_masks result) [0..<cr_bank_mask_count result])"

text \<open>The mapping pointer and its target: \<open>None\<close> is NULL.\<close>

definition dram_mapping_init_from_calibration ::
  "dram_mapping option \<Rightarrow> calibration_result option \<Rightarrow> dram_mapping_rc \<times> dram_mapping option" where
  "dram_mapping_init_from_calibration mp rp =
     (case (mp, rp) of
        (Some _, Some result) \<Rightarrow>
          (let rc = validate_calibration_result result
           in if rc \<noteq> DRAM_MAPPING_OK then (rc, Some dram_mapping_reset)
              else let id_len = bounded_strlen (cr_mask_set_id result) DRAM_MAPPING_MASK_SET_ID_MAX
                   in (DRAM_MAPPING_OK,
                       Some (dram_mapping_reset\<lparr>
                         dm_masks := (\<lambda>i. if i < cr_bank_mask_count result then cr_bank_masks result i else 0),
                         dm_mask_count := cr_bank_mask_count result,
                         dm_mask_set_id := take id_len (cr_mask_set_id result),
                         dm_ready := True\<rparr>)))
      | _ \<Rightarrow> (DRAM_MAPPING_ERR_INVALID_ARG, mp))"

definition dram_mapping_bank_class_fast :: "dram_mapping \<Rightarrow> u64 \<Rightarrow> u64" where
  "dram_mapping_bank_class_fast mapping physical_address =
     foldl (\<lambda>bank_class i. bank_class OR push_bit i (parity64 (physical_address AND dm_masks mapping i)))
       0 [0..<dm_mask_count mapping]"

text \<open>The result pointer is never NULL in the daemon; the value is returned on success.\<close>

definition dram_mapping_bank_class :: "dram_mapping option \<Rightarrow> u64 \<Rightarrow> dram_mapping_rc + u64" where
  "dram_mapping_bank_class mp physical_address =
     (case mp of
        None \<Rightarrow> Inl DRAM_MAPPING_ERR_INVALID_ARG
      | Some mapping \<Rightarrow>
          if \<not> dram_mapping_is_ready mp then Inl DRAM_MAPPING_ERR_NOT_READY
          else Inr (dram_mapping_bank_class_fast mapping physical_address))"

definition dram_mapping_same_bank_class :: "dram_mapping option \<Rightarrow> u64 \<Rightarrow> u64 \<Rightarrow> dram_mapping_rc + bool" where
  "dram_mapping_same_bank_class mp pa1 pa2 =
     (case mp of
        None \<Rightarrow> Inl DRAM_MAPPING_ERR_INVALID_ARG
      | Some mapping \<Rightarrow>
          if \<not> dram_mapping_is_ready mp then Inl DRAM_MAPPING_ERR_NOT_READY
          else let diff = pa1 XOR pa2
               in Inr (\<not> list_ex (\<lambda>i. parity64 (diff AND dm_masks mapping i) \<noteq> 0) [0..<dm_mask_count mapping]))"

fun dram_mapping_strerror :: "dram_mapping_rc \<Rightarrow> string" where
  "dram_mapping_strerror DRAM_MAPPING_OK = ''success''"
| "dram_mapping_strerror DRAM_MAPPING_ERR_INVALID_ARG = ''invalid argument''"
| "dram_mapping_strerror DRAM_MAPPING_ERR_NOT_READY = ''DRAM mapping is not ready''"
| "dram_mapping_strerror DRAM_MAPPING_ERR_CALIBRATION_REJECTED = ''calibration result was not accepted''"
| "dram_mapping_strerror DRAM_MAPPING_ERR_MASK_COUNT = ''invalid bank-mask count''"
| "dram_mapping_strerror DRAM_MAPPING_ERR_ZERO_MASK = ''zero bank mask is not allowed''"
| "dram_mapping_strerror DRAM_MAPPING_ERR_DUPLICATE_MASK = ''duplicate bank mask''"
| "dram_mapping_strerror DRAM_MAPPING_ERR_MASK_SET_ID = ''invalid mask-set id''"

subsection \<open>Parity\<close>

text \<open>The parity of the lowest \<open>n\<close> bits.\<close>

definition parity_low :: "nat \<Rightarrow> u64 \<Rightarrow> bool" where
  "parity_low n v \<longleftrightarrow> odd (length (filter (bit v) [0..<n]))"

lemma parity_low_0 [simp]: "\<not> parity_low 0 v"
  by (simp add: parity_low_def)

lemma parity_low_Suc [simp]: "parity_low (Suc n) v \<longleftrightarrow> parity_low n v \<noteq> bit v n"
  by (simp add: parity_low_def)

lemma parity64_low: "parity64 v = of_bool (parity_low 64 v)"
  by (simp add: parity64_def parity_low_def)

lemma parity_low_xor: "parity_low n (a XOR b) \<longleftrightarrow> parity_low n a \<noteq> parity_low n b"
  by (induction n) (auto simp: bit_xor_iff)

lemma parity_low_add: "parity_low (m + n) v \<longleftrightarrow> parity_low m v \<noteq> parity_low n (drop_bit m v)"
  by (induction n) (auto simp: bit_drop_bit_eq)

lemma parity_low_fold: "parity_low n (v XOR drop_bit n v) \<longleftrightarrow> parity_low (n + n) v"
  by (simp add: parity_low_xor parity_low_add)

lemma parity_low_4: "drop_bit (unat (v AND 0xF)) 0x6996 AND 1 = (of_bool (parity_low 4 v) :: u64)"
proof -
  have "v AND 0xF = take_bit 4 v" by (simp add: take_bit_eq_mask mask_eq_exp_minus_1)
  also have "\<dots> = of_bool (bit v 0) + 2 * (of_bool (bit v 1) + 2 * (of_bool (bit v 2) + 2 * of_bool (bit v 3)))"
    using horner_sum_bit_eq_take_bit [of v 4] by (simp add: upt_rec numeral_eq_Suc)
  finally have low: "v AND 0xF = \<dots>" .
  have p: "parity_low 4 v \<longleftrightarrow> (((bit v 0 \<noteq> bit v 1) \<noteq> bit v 2) \<noteq> bit v 3)"
    by (simp add: numeral_eq_Suc)
  show ?thesis
    unfolding low p
    by (cases "bit v 0"; cases "bit v 1"; cases "bit v 2"; cases "bit v 3"; simp; code_simp)
qed

lemma parity_low_and_xor:
  "parity_low n ((a XOR b) AND m) \<longleftrightarrow> parity_low n (a AND m) \<noteq> parity_low n (b AND m)"
proof -
  have "(a XOR b) AND m = (a AND m) XOR (b AND m)" by (simp add: bit_eq_iff bit_simps) blast
  then show ?thesis by (simp add: parity_low_xor)
qed

subsection \<open>Classes bit by bit\<close>

lemma bit_foldl_or:
  assumes "n \<le> 64"
  shows "bit (foldl (\<lambda>c i. c OR push_bit i (of_bool (P i))) (0 :: u64) [0..<n]) k \<longleftrightarrow> k < n \<and> P k"
  using assms
proof (induction n)
  case 0
  then show ?case by simp
next
  case (Suc n)
  then show ?case by (auto simp: bit_or_iff bit_push_bit_iff bit_of_bool_iff less_Suc_eq)
qed

lemma bank_class_bit:
  assumes "dm_mask_count m \<le> 64"
  shows "bit (dram_mapping_bank_class_fast m pa) k \<longleftrightarrow>
    k < dm_mask_count m \<and> parity_low 64 (pa AND dm_masks m k)"
  using bit_foldl_or [OF assms] by (simp add: dram_mapping_bank_class_fast_def parity64_low)

text \<open>Classes are linear, and a class is below \<open>2 ^ mask_count\<close>.\<close>

lemma bank_class_xor:
  assumes "dm_mask_count m \<le> 64"
  shows "dram_mapping_bank_class_fast m (pa XOR pb) = dram_mapping_bank_class_fast m pa XOR dram_mapping_bank_class_fast m pb"
  by (rule bit_eqI) (auto simp: bank_class_bit [OF assms] bit_xor_iff parity_low_and_xor)

lemma bank_class_less:
  assumes "dm_mask_count m \<le> 64"
  shows "unat (dram_mapping_bank_class_fast m pa) < 2 ^ dm_mask_count m"
proof -
  have "take_bit (dm_mask_count m) (dram_mapping_bank_class_fast m pa) = dram_mapping_bank_class_fast m pa"
    by (rule bit_eqI) (auto simp: bit_take_bit_iff bank_class_bit [OF assms])
  then show ?thesis by (metis take_bit_nat_less_exp unsigned_take_bit_eq)
qed

lemma validate_masks_OK:
  "validate_masks masks is = DRAM_MAPPING_OK \<longleftrightarrow>
   (\<forall>i \<in> set is. masks i \<noteq> 0 \<and> (\<forall>j < i. masks i \<noteq> masks j))"
  by (induction "is") (auto simp: list_ex_iff)

text \<open>What the checks establish of a mapping that is ready.\<close>

definition mapping_ok :: "dram_mapping \<Rightarrow> bool" where
  "mapping_ok m \<longleftrightarrow> 0 < dm_mask_count m \<and> dm_mask_count m \<le> DRAM_MAPPING_MAX_MASKS \<and>
     (\<forall>i < dm_mask_count m. dm_masks m i \<noteq> 0) \<and> inj_on (dm_masks m) {..<dm_mask_count m} \<and>
     dm_mask_set_id m \<noteq> [] \<and> length (dm_mask_set_id m) < DRAM_MAPPING_MASK_SET_ID_MAX"

lemma validate_calibration_result_OK:
  "validate_calibration_result r = DRAM_MAPPING_OK \<longleftrightarrow>
     cr_status_success r \<and> cr_acceptance_passed r \<and> 0 < cr_bank_mask_count r \<and>
     cr_bank_mask_count r \<le> DRAM_MAPPING_MAX_MASKS \<and>
     0 < bounded_strlen (cr_mask_set_id r) DRAM_MAPPING_MASK_SET_ID_MAX \<and>
     bounded_strlen (cr_mask_set_id r) DRAM_MAPPING_MASK_SET_ID_MAX < DRAM_MAPPING_MASK_SET_ID_MAX \<and>
     (\<forall>i < cr_bank_mask_count r. cr_bank_masks r i \<noteq> 0 \<and> (\<forall>j < i. cr_bank_masks r i \<noteq> cr_bank_masks r j))"
  by (auto simp: validate_calibration_result_def Let_def validate_masks_OK)

lemma init_from_calibration_OK:
  assumes "validate_calibration_result r = DRAM_MAPPING_OK"
  obtains m where "dram_mapping_init_from_calibration (Some m0) (Some r) = (DRAM_MAPPING_OK, Some m)" "mapping_ok m"
    "dm_ready m" "\<forall>i < dm_mask_count m. dm_masks m i = cr_bank_masks r i"
proof -
  from assms have v: "0 < cr_bank_mask_count r" "cr_bank_mask_count r \<le> DRAM_MAPPING_MAX_MASKS"
    "0 < bounded_strlen (cr_mask_set_id r) DRAM_MAPPING_MASK_SET_ID_MAX"
    "bounded_strlen (cr_mask_set_id r) DRAM_MAPPING_MASK_SET_ID_MAX < DRAM_MAPPING_MASK_SET_ID_MAX"
    "\<forall>i < cr_bank_mask_count r. cr_bank_masks r i \<noteq> 0 \<and> (\<forall>j < i. cr_bank_masks r i \<noteq> cr_bank_masks r j)"
    by (simp_all add: validate_calibration_result_OK)
  let ?m = "dram_mapping_reset\<lparr>dm_masks := (\<lambda>i. if i < cr_bank_mask_count r then cr_bank_masks r i else 0),
      dm_mask_count := cr_bank_mask_count r,
      dm_mask_set_id := take (bounded_strlen (cr_mask_set_id r) DRAM_MAPPING_MASK_SET_ID_MAX) (cr_mask_set_id r),
      dm_ready := True\<rparr>"
  have inj: "inj_on (dm_masks ?m) {..<cr_bank_mask_count r}"
    using v(5) by (auto simp: inj_on_def) (metis nat_neq_iff)
  have "cr_mask_set_id r \<noteq> []" using v(3) by (auto simp: bounded_strlen_def cstr_def)
  with v inj have "mapping_ok ?m" by (auto simp: mapping_ok_def)
  with assms show ?thesis by (intro that [of ?m]) (simp_all add: dram_mapping_init_from_calibration_def Let_def)
qed

lemma init_from_calibration_refused:
  "validate_calibration_result r \<noteq> DRAM_MAPPING_OK \<Longrightarrow>
   dram_mapping_init_from_calibration (Some m0) (Some r) = (validate_calibration_result r, Some dram_mapping_reset)"
  by (simp add: dram_mapping_init_from_calibration_def Let_def)

text \<open>A concrete calibration result with two masks.\<close>

definition demo_calibration :: calibration_result where
  "demo_calibration = \<lparr>cr_status_success = True, cr_acceptance_passed = True,
     cr_bank_masks = (\<lambda>i. if i = 0 then 0x2040 else 0x44000), cr_bank_mask_count = 2,
     cr_mask_set_id = ''id'', cr_holdout = \<lparr>cm_tp = 0, cm_tn = 0, cm_fp = 0, cm_fn = 0,
       cm_accuracy = Fin 1, cm_precision = Fin 1, cm_recall = Fin 1, cm_f1 = Fin 1\<rparr>,
     cr_worker_exit_code = 0, cr_error_message = []\<rparr>"

definition demo_mapping :: dram_mapping where
  "demo_mapping = \<lparr>dm_masks = (\<lambda>i. if i < 2 then if i = 0 then 0x2040 else 0x44000 else 0),
     dm_mask_count = 2, dm_mask_set_id = ''id'', dm_ready = True\<rparr>"

lemma demo_mapping_init:
  "dram_mapping_init_from_calibration (Some m) (Some demo_calibration) = (DRAM_MAPPING_OK, Some demo_mapping)"
  by (simp add: dram_mapping_init_from_calibration_def validate_calibration_result_def demo_calibration_def
      demo_mapping_def dram_mapping_reset_def bounded_strlen_def cstr_def NUL_def DRAM_MAPPING_MAX_MASKS_def
      CALIBRATION_MAX_BANK_MASKS_def DRAM_MAPPING_MASK_SET_ID_MAX_def CALIBRATION_MASK_SET_ID_MAX_def
      upt_rec [of 0 2] upt_rec [of "Suc 0" 2] upt_rec [of "Suc (Suc 0)" 2] cong: if_cong)

subsection \<open>Properties\<close>

text \<open>C40: The portable parity by folding and table lookup computes the same function as the compiler builtin.\<close>

theorem parity64_portable_correct: "parity64_portable v = parity64 v"
proof -
  define v1 where "v1 = v XOR drop_bit 32 v"
  define v2 where "v2 = v1 XOR drop_bit 16 v1"
  define v3 where "v3 = v2 XOR drop_bit 8 v2"
  define v4 where "v4 = v3 XOR drop_bit 4 v3"
  note fold = parity_low_fold [of 32, simplified] parity_low_fold [of 16, simplified]
    parity_low_fold [of 8, simplified] parity_low_fold [of 4, simplified]
  have "parity_low 4 v4 = parity_low 64 v"
    unfolding v4_def fold v3_def v2_def v1_def ..
  moreover have "parity64_portable v = drop_bit (unat (v4 AND 0xF)) 0x6996 AND 1"
    by (simp only: parity64_portable_def Let_def v1_def v2_def v3_def v4_def)
  ultimately show ?thesis by (simp only: parity_low_4 parity64_low)
qed

text \<open>Bit \<open>i\<close> of a bank class is the parity of the address under mask \<open>i\<close>, all bits above the mask count are
  zero, so the class is below \<open>2 ^ mask_count\<close>; and the class is linear: the class of the exclusive or of two
  addresses is the exclusive or of their classes.\<close>

theorem bank_class_bits_linear:
  assumes "dram_mapping_init_from_calibration (Some m0) (Some r) = (DRAM_MAPPING_OK, Some m)"
  shows "(\<forall>i. bit (dram_mapping_bank_class_fast m pa) i \<longleftrightarrow>
        i < dm_mask_count m \<and> parity64 (pa AND dm_masks m i) = 1) \<and>
    unat (dram_mapping_bank_class_fast m pa) < 2 ^ dm_mask_count m \<and>
    dram_mapping_bank_class_fast m (pa XOR pb) =
      dram_mapping_bank_class_fast m pa XOR dram_mapping_bank_class_fast m pb"
proof -
  have n: "dm_mask_count m \<le> 64"
    using assms
    by (auto simp: dram_mapping_init_from_calibration_def Let_def validate_calibration_result_OK
        DRAM_MAPPING_MAX_MASKS_def CALIBRATION_MAX_BANK_MASKS_def split: if_splits)
  then show ?thesis
    using bank_class_bit [OF n] bank_class_xor [OF n] bank_class_less [OF n] by (simp add: parity64_low)
qed

theorem bank_class_bits_linear_witness:
  "unat (dram_mapping_bank_class_fast demo_mapping 0x44040) < 4"
  using bank_class_bits_linear [OF demo_mapping_init] by (simp add: demo_mapping_def)

text \<open>C39: The direct comparison of two addresses through their exclusive or agrees with comparing their classes.\<close>

theorem same_bank_class_iff:
  assumes "dram_mapping_init_from_calibration (Some m0) (Some r) = (DRAM_MAPPING_OK, Some m)"
  shows "dram_mapping_same_bank_class (Some m) pa1 pa2 =
    Inr (dram_mapping_bank_class (Some m) pa1 = dram_mapping_bank_class (Some m) pa2)"
proof -
  have n: "dm_mask_count m \<le> 64" and ready: "dram_mapping_is_ready (Some m)"
    using assms
    by (auto simp: dram_mapping_init_from_calibration_def Let_def validate_calibration_result_OK
        dram_mapping_is_ready_def DRAM_MAPPING_MAX_MASKS_def CALIBRATION_MAX_BANK_MASKS_def split: if_splits)
  have "(\<not> list_ex (\<lambda>i. parity64 ((pa1 XOR pa2) AND dm_masks m i) \<noteq> 0) [0..<dm_mask_count m]) \<longleftrightarrow>
      dram_mapping_bank_class_fast m pa1 = dram_mapping_bank_class_fast m pa2"
  proof
    have nz: "parity64 x \<noteq> 0 \<longleftrightarrow> parity_low 64 x" for x by (simp add: parity64_low)
    {
      assume "\<not> list_ex (\<lambda>i. parity64 ((pa1 XOR pa2) AND dm_masks m i) \<noteq> 0) [0..<dm_mask_count m]"
      then show "dram_mapping_bank_class_fast m pa1 = dram_mapping_bank_class_fast m pa2"
        unfolding nz by (intro bit_eqI) (auto simp: list_ex_iff parity_low_and_xor bank_class_bit [OF n])
    next
      assume eq: "dram_mapping_bank_class_fast m pa1 = dram_mapping_bank_class_fast m pa2"
      have "parity_low 64 (pa1 AND dm_masks m i) = parity_low 64 (pa2 AND dm_masks m i)"
        if "i < dm_mask_count m" for i
        using bank_class_bit [OF n, of pa1 i] bank_class_bit [OF n, of pa2 i] that by (simp add: eq)
      then show "\<not> list_ex (\<lambda>i. parity64 ((pa1 XOR pa2) AND dm_masks m i) \<noteq> 0) [0..<dm_mask_count m]"
        unfolding nz by (auto simp: list_ex_iff parity_low_and_xor)
    }
  qed
  with ready show ?thesis
    by (simp add: dram_mapping_same_bank_class_def dram_mapping_bank_class_def)
qed

theorem same_bank_class_iff_witness:
  "dram_mapping_same_bank_class (Some demo_mapping) 0x1000 0x1000 = Inr True"
  using same_bank_class_iff [OF demo_mapping_init] by simp

text \<open>Initialisation fails closed. A mapping is ready afterwards exactly when the code is OK; it then has between 1 and 32 masks,
  none zero and no two equal, and a terminated non-empty identifier; with every other code the
  mapping holds no mask and is not ready.\<close>

theorem init_from_calibration_fail_closed:
  assumes "dram_mapping_init_from_calibration (Some m0) (Some r) = (rc, mp)"
  shows "\<exists>m. mp = Some m \<and> (dram_mapping_is_ready mp \<longleftrightarrow> rc = DRAM_MAPPING_OK) \<and>
    (if rc = DRAM_MAPPING_OK
     then cr_status_success r \<and> cr_acceptance_passed r \<and> mapping_ok m \<and>
       (\<forall>i. i < dm_mask_count m \<longrightarrow> dm_masks m i = cr_bank_masks r i)
     else m = dram_mapping_reset)"
proof (cases "validate_calibration_result r = DRAM_MAPPING_OK")
  case False
  with assms init_from_calibration_refused [OF False, of m0] show ?thesis
    by (auto simp: dram_mapping_is_ready_def dram_mapping_reset_def)
next
  case True
  then have "cr_status_success r" "cr_acceptance_passed r" by (simp_all add: validate_calibration_result_OK)
  moreover obtain m where "dram_mapping_init_from_calibration (Some m0) (Some r) = (DRAM_MAPPING_OK, Some m)" "mapping_ok m"
      "dm_ready m" "\<forall>i < dm_mask_count m. dm_masks m i = cr_bank_masks r i"
    by (rule init_from_calibration_OK [OF True, of m0])
  ultimately show ?thesis using assms by (auto simp: dram_mapping_is_ready_def mapping_ok_def)
qed

theorem init_from_calibration_fail_closed_witness:
  "mapping_ok demo_mapping"
  using init_from_calibration_fail_closed [OF demo_mapping_init] by simp

end
