(* ===== verification/Bank_Profile.thy ===== *)
theory Bank_Profile
  imports Addr_Translate Dram_Mapping
begin

text \<open>
  Bank profiles (\<open>protected-daemon/src/bank_profile.c\<close>, \<open>bank_profile.h\<close>): the histogram of the bank
  classes of a process's pages, sampled through \<open>/proc/[pid]/maps\<close> and the page map, and the operations on histograms.
  The array \<open>entries[0 .. entry_count)\<close> is a list. The 64-bit counters keep their width;
  \<open>size_t\<close> configuration values are 64-bit words as well because the code adds them to page numbers.
\<close>

subsection \<open>Data\<close>

definition BANK_PROFILE_MAX_ENTRIES :: nat where "BANK_PROFILE_MAX_ENTRIES = 4096"
definition BANK_PROFILE_ERROR_MESSAGE_MAX :: nat where "BANK_PROFILE_ERROR_MESSAGE_MAX = 256"

datatype bank_profile_rc =
    BANK_PROFILE_OK
  | BANK_PROFILE_ERR_INVALID_ARG
  | BANK_PROFILE_ERR_NOT_READY
  | BANK_PROFILE_ERR_PAGE_SIZE
  | BANK_PROFILE_ERR_OPEN_MAPS
  | BANK_PROFILE_ERR_ADDR_OPEN
  | BANK_PROFILE_ERR_TOO_MANY_CLASSES
  | BANK_PROFILE_ERR_NO_SAMPLES
  | BANK_PROFILE_ERR_IO

record bank_profile_config =
  bc_max_pages_to_sample :: u64
  bc_sample_stride_pages :: u64
  bc_include_anonymous :: bool
  bc_include_heap :: bool
  bc_include_stack :: bool
  bc_include_file_backed :: bool
  bc_include_readonly :: bool

record bank_profile_entry =
  be_bank_class :: u64
  be_page_count :: u64
  be_byte_count :: u64

record bank_profile =
  bp_pid :: pid_t
  bp_page_size :: u64
  bp_regions_seen :: u64
  bp_regions_selected :: u64
  bp_pages_seen :: u64
  bp_pages_considered :: u64
  bp_pages_sampled :: u64
  bp_pages_translated :: u64
  bp_pages_skipped_not_present :: u64
  bp_pages_skipped_swapped :: u64
  bp_pages_skipped_pfn_unavailable :: u64
  bp_pages_skipped_translation_error :: u64
  bp_pages_skipped_mapping_error :: u64
  bp_entries :: "bank_profile_entry list"
  bp_dominant_bank_class :: u64
  bp_dominant_page_count :: u64
  bp_dominant_fraction :: cdouble
  bp_error_message :: string

record maps_region =
  mr_start :: u64
  mr_end :: u64
  mr_perms :: string
  mr_pathname :: string

definition bank_profile_config_default :: bank_profile_config where
  "bank_profile_config_default =
     \<lparr>bc_max_pages_to_sample = 4096, bc_sample_stride_pages = 16, bc_include_anonymous = True,
      bc_include_heap = True, bc_include_stack = True, bc_include_file_backed = False,
      bc_include_readonly = False\<rparr>"

definition bank_profile_reset :: bank_profile where
  "bank_profile_reset =
     \<lparr>bp_pid = 0, bp_page_size = 0, bp_regions_seen = 0, bp_regions_selected = 0, bp_pages_seen = 0,
      bp_pages_considered = 0, bp_pages_sampled = 0, bp_pages_translated = 0,
      bp_pages_skipped_not_present = 0, bp_pages_skipped_swapped = 0,
      bp_pages_skipped_pfn_unavailable = 0, bp_pages_skipped_translation_error = 0,
      bp_pages_skipped_mapping_error = 0, bp_entries = [], bp_dominant_bank_class = 0,
      bp_dominant_page_count = 0, bp_dominant_fraction = Fin 0, bp_error_message = []\<rparr>"

definition profile_set_error :: "bank_profile \<Rightarrow> string \<Rightarrow> bank_profile" where
  "profile_set_error profile message =
     profile\<lparr>bp_error_message := snprintf_s BANK_PROFILE_ERROR_MESSAGE_MAX message\<rparr>"

subsection \<open>Lines of \<open>/proc/[pid]/maps\<close>\<close>

definition is_space_or_newline :: "char \<Rightarrow> bool" where
  "is_space_or_newline c \<longleftrightarrow> c = CHR '' '' \<or> c = CHR 0x09 \<or> c = CHR 0x0A \<or> c = CHR 0x0D"

definition trim_trailing_space :: "string \<Rightarrow> string" where
  "trim_trailing_space s = rev (dropWhile is_space_or_newline (rev s))"

definition skip_leading_space :: "string \<Rightarrow> string" where
  "skip_leading_space s = dropWhile (\<lambda>c. c = CHR '' '' \<or> c = CHR 0x09) s"

text \<open>The conversions of \<open>sscanf\<close> that the format uses, each with what remains of the input.\<close>

definition scan_llx :: "string \<Rightarrow> (u64 \<times> string) option" where
  "scan_llx s = (if scan_number 16 s = None then None else let (v, _, r) = strtoull 16 s in Some (v, r))"

definition scan_llu :: "string \<Rightarrow> (u64 \<times> string) option" where
  "scan_llu s = (if scan_number 10 s = None then None else let (v, _, r) = strtoull 10 s in Some (v, r))"

definition scan_char :: "char \<Rightarrow> string \<Rightarrow> string option" where
  "scan_char c s = (case s of [] \<Rightarrow> None | d # r \<Rightarrow> if c = d then Some r else None)"

definition scan_word :: "nat \<Rightarrow> string \<Rightarrow> (string \<times> string) option" where
  "scan_word width s =
     (let t = dropWhile is_space s; v = take width (takeWhile (\<lambda>c. \<not> is_space c) t)
      in if v = [] then None else Some (v, drop (length v) t))"

text \<open>\<open>sscanf(line, "%llx-%llx %7s %llx %31s %llu %n", ...)\<close>: start, end, permissions and the text after
  the consumed part, when all six conversions succeed.\<close>

definition scan_maps_line :: "string \<Rightarrow> (u64 \<times> u64 \<times> string \<times> string) option" where
  "scan_maps_line line =
     Option.bind (scan_llx line) (\<lambda>(start, r1).
     Option.bind (scan_char CHR ''-'' r1) (\<lambda>r2.
     Option.bind (scan_llx r2) (\<lambda>(end_addr, r3).
     Option.bind (scan_word 7 r3) (\<lambda>(perms, r4).
     Option.bind (scan_llx r4) (\<lambda>(offset, r5).
     Option.bind (scan_word 31 r5) (\<lambda>(dev, r6).
     Option.bind (scan_llu r6) (\<lambda>(inode, r7).
       Some (start, end_addr, perms, dropWhile is_space r7))))))))"

definition parse_maps_line :: "string \<Rightarrow> maps_region option" where
  "parse_maps_line line =
     (case scan_maps_line (cstr line) of
        None \<Rightarrow> None
      | Some (start, end_addr, perms, rest) \<Rightarrow>
          if end_addr \<le> start then None
          else Some \<lparr>mr_start = start, mr_end = end_addr, mr_perms = perms,
                     mr_pathname = trim_trailing_space (snprintf_s 256 (skip_leading_space rest))\<rparr>)"

definition path_is_empty :: "string \<Rightarrow> bool" where
  "path_is_empty path \<longleftrightarrow> path = []"

definition path_is_heap :: "string \<Rightarrow> bool" where
  "path_is_heap path \<longleftrightarrow> path = ''[heap]''"

definition path_is_stack :: "string \<Rightarrow> bool" where
  "path_is_stack path \<longleftrightarrow> take 6 path = ''[stack''"

definition path_is_bracketed_special :: "string \<Rightarrow> bool" where
  "path_is_bracketed_special path \<longleftrightarrow> take 1 path = ''[''"

definition path_is_file_backed :: "string \<Rightarrow> bool" where
  "path_is_file_backed path \<longleftrightarrow> path \<noteq> [] \<and> take 1 path \<noteq> ''[''"

definition region_is_selected :: "maps_region \<Rightarrow> bank_profile_config \<Rightarrow> bool" where
  "region_is_selected region cfg =
     (if take 1 (mr_perms region) \<noteq> ''r'' then False
      else if \<not> bc_include_readonly cfg \<and> take 1 (drop 1 (mr_perms region)) \<noteq> ''w'' then False
      else if path_is_heap (mr_pathname region) then bc_include_heap cfg
      else if path_is_stack (mr_pathname region) then bc_include_stack cfg
      else if path_is_empty (mr_pathname region) then bc_include_anonymous cfg
      else if path_is_file_backed (mr_pathname region) then bc_include_file_backed cfg
      else if path_is_bracketed_special (mr_pathname region) then False
      else False)"

subsection \<open>Histograms\<close>

definition bank_profile_merge_counters :: "bank_profile \<Rightarrow> bank_profile \<Rightarrow> bank_profile" where
  "bank_profile_merge_counters dst src =
     dst\<lparr>bp_regions_seen := bp_regions_seen dst + bp_regions_seen src,
         bp_regions_selected := bp_regions_selected dst + bp_regions_selected src,
         bp_pages_seen := bp_pages_seen dst + bp_pages_seen src,
         bp_pages_considered := bp_pages_considered dst + bp_pages_considered src,
         bp_pages_sampled := bp_pages_sampled dst + bp_pages_sampled src,
         bp_pages_translated := bp_pages_translated dst + bp_pages_translated src,
         bp_pages_skipped_not_present := bp_pages_skipped_not_present dst + bp_pages_skipped_not_present src,
         bp_pages_skipped_swapped := bp_pages_skipped_swapped dst + bp_pages_skipped_swapped src,
         bp_pages_skipped_pfn_unavailable :=
           bp_pages_skipped_pfn_unavailable dst + bp_pages_skipped_pfn_unavailable src,
         bp_pages_skipped_translation_error :=
           bp_pages_skipped_translation_error dst + bp_pages_skipped_translation_error src,
         bp_pages_skipped_mapping_error :=
           bp_pages_skipped_mapping_error dst + bp_pages_skipped_mapping_error src\<rparr>"

definition profile_add_bank_class_count ::
  "bank_profile \<Rightarrow> u64 \<Rightarrow> u64 \<Rightarrow> u64 \<Rightarrow> bank_profile_rc \<times> bank_profile" where
  "profile_add_bank_class_count profile bank_class page_count byte_count =
     (if page_count = 0 \<and> byte_count = 0 then (BANK_PROFILE_OK, profile)
      else case first_index (\<lambda>e. be_bank_class e = bank_class) (bp_entries profile) of
        Some i \<Rightarrow>
          (let e = bp_entries profile ! i
           in (BANK_PROFILE_OK,
               profile\<lparr>bp_entries := (bp_entries profile)[i :=
                 e\<lparr>be_page_count := be_page_count e + page_count,
                   be_byte_count := be_byte_count e + byte_count\<rparr>]\<rparr>))
      | None \<Rightarrow>
          if BANK_PROFILE_MAX_ENTRIES \<le> length (bp_entries profile)
          then (BANK_PROFILE_ERR_TOO_MANY_CLASSES, profile_set_error profile ''too many unique bank classes'')
          else (BANK_PROFILE_OK,
                profile\<lparr>bp_entries := bp_entries profile @
                  [\<lparr>be_bank_class = bank_class, be_page_count = page_count, be_byte_count = byte_count\<rparr>]\<rparr>))"

definition profile_add_bank_class :: "bank_profile \<Rightarrow> u64 \<Rightarrow> u64 \<Rightarrow> bank_profile_rc \<times> bank_profile" where
  "profile_add_bank_class profile bank_class bytes = profile_add_bank_class_count profile bank_class 1 bytes"

text \<open>The loop of \<open>profile_finalize\<close>: total, maximal count and its class.\<close>

fun finalize_scan :: "bank_profile_entry list \<Rightarrow> u64 \<times> u64 \<times> u64 \<Rightarrow> u64 \<times> u64 \<times> u64" where
  "finalize_scan [] acc = acc"
| "finalize_scan (e # es) (total_pages, max_count, max_class) =
     finalize_scan es
       (total_pages + be_page_count e,
        if max_count < be_page_count e then be_page_count e else max_count,
        if max_count < be_page_count e then be_bank_class e else max_class)"

definition profile_finalize :: "rounding \<Rightarrow> bank_profile \<Rightarrow> bank_profile" where
  "profile_finalize rnd profile =
     (let (total_pages, max_count, max_class) = finalize_scan (bp_entries profile) (0, 0, 0)
      in profile\<lparr>bp_dominant_bank_class := max_class, bp_dominant_page_count := max_count,
                 bp_dominant_fraction :=
                   (if 0 < total_pages then fdiv rnd (double_of_u64 rnd max_count) (double_of_u64 rnd total_pages)
                    else Fin 0)\<rparr>)"

definition bank_profile_count_for_class :: "bank_profile option \<Rightarrow> u64 \<Rightarrow> u64" where
  "bank_profile_count_for_class pp bank_class =
     (case pp of
        None \<Rightarrow> 0
      | Some profile \<Rightarrow>
          (case first_index (\<lambda>e. be_bank_class e = bank_class) (bp_entries profile) of
             None \<Rightarrow> 0
           | Some i \<Rightarrow> be_page_count (bp_entries profile ! i)))"

fun merge_entries :: "bank_profile_entry list \<Rightarrow> bank_profile \<Rightarrow> bank_profile_rc \<times> bank_profile" where
  "merge_entries [] dst = (BANK_PROFILE_OK, dst)"
| "merge_entries (e # es) dst =
     (case profile_add_bank_class_count dst (be_bank_class e) (be_page_count e) (be_byte_count e) of
        (BANK_PROFILE_OK, dst') \<Rightarrow> merge_entries es dst'
      | (rc, dst') \<Rightarrow> (rc, dst'))"

text \<open>\<open>dst\<close> and \<open>src\<close> are different objects, as at every call of the daemon.\<close>

definition bank_profile_merge ::
  "rounding \<Rightarrow> bank_profile option \<Rightarrow> bank_profile option \<Rightarrow> bank_profile_rc \<times> bank_profile option" where
  "bank_profile_merge rnd dstp srcp =
     (case (dstp, srcp) of
        (Some dst, Some src) \<Rightarrow>
          if bp_entries src = [] then (BANK_PROFILE_OK, dstp)
          else if bp_page_size src = 0
          then (BANK_PROFILE_ERR_PAGE_SIZE, Some (profile_set_error dst ''source profile has invalid page size''))
          else if bp_page_size dst \<noteq> 0 \<and> bp_page_size dst \<noteq> bp_page_size src
          then (BANK_PROFILE_ERR_PAGE_SIZE,
                Some (profile_set_error dst ''cannot merge profiles with different page sizes''))
          else let dst1 = (if bp_page_size dst = 0 then dst\<lparr>bp_page_size := bp_page_size src\<rparr> else dst)\<lparr>bp_pid := 0\<rparr>
          in case merge_entries (bp_entries src) dst1 of
               (BANK_PROFILE_OK, dst2) \<Rightarrow>
                 (BANK_PROFILE_OK, Some (profile_finalize rnd (bank_profile_merge_counters dst2 src)))
             | (rc, dst2) \<Rightarrow> (rc, Some dst2)
      | _ \<Rightarrow> (BANK_PROFILE_ERR_INVALID_ARG, dstp))"

text \<open>The two loops of the overlap score.\<close>

fun overlap_scan_a :: "bank_profile \<Rightarrow> bank_profile_entry list \<Rightarrow> u64 \<times> u64 \<Rightarrow> u64 \<times> u64" where
  "overlap_scan_a b [] acc = acc"
| "overlap_scan_a b (e # es) (intersection, union_count) =
     (let count_a = be_page_count e; count_b = bank_profile_count_for_class (Some b) (be_bank_class e)
      in overlap_scan_a b es
           (intersection + (if count_a < count_b then count_a else count_b),
            union_count + (if count_b < count_a then count_a else count_b)))"

fun overlap_scan_b :: "bank_profile \<Rightarrow> bank_profile_entry list \<Rightarrow> u64 \<Rightarrow> u64" where
  "overlap_scan_b a [] union_count = union_count"
| "overlap_scan_b a (e # es) union_count =
     overlap_scan_b a es
       (if list_ex (\<lambda>d. be_bank_class d = be_bank_class e) (bp_entries a) then union_count
        else union_count + be_page_count e)"

text \<open>On success the score and the number of common pages.\<close>

definition bank_profile_overlap_score ::
  "rounding \<Rightarrow> bank_profile option \<Rightarrow> bank_profile option \<Rightarrow> bank_profile_rc + (cdouble \<times> u64)" where
  "bank_profile_overlap_score rnd ap bp =
     (case (ap, bp) of
        (Some a, Some b) \<Rightarrow>
          if bp_entries a = [] \<or> bp_entries b = [] then Inl BANK_PROFILE_ERR_INVALID_ARG
          else let (intersection, union_a) = overlap_scan_a b (bp_entries a) (0, 0);
                   union_count = overlap_scan_b a (bp_entries b) union_a
          in if union_count = 0 then Inl BANK_PROFILE_ERR_NO_SAMPLES
             else Inr (fdiv rnd (double_of_u64 rnd intersection) (double_of_u64 rnd union_count), intersection)
      | _ \<Rightarrow> Inl BANK_PROFILE_ERR_INVALID_ARG)"

subsection \<open>Sampling\<close>

definition count_translation_skip :: "bank_profile \<Rightarrow> addr_translate_rc \<Rightarrow> bank_profile" where
  "count_translation_skip profile rc =
     (case rc of
        ADDR_TRANSLATE_ERR_NOT_PRESENT \<Rightarrow>
          profile\<lparr>bp_pages_skipped_not_present := bp_pages_skipped_not_present profile + 1\<rparr>
      | ADDR_TRANSLATE_ERR_SWAPPED \<Rightarrow>
          profile\<lparr>bp_pages_skipped_swapped := bp_pages_skipped_swapped profile + 1\<rparr>
      | ADDR_TRANSLATE_ERR_PFN_UNAVAILABLE \<Rightarrow>
          profile\<lparr>bp_pages_skipped_pfn_unavailable := bp_pages_skipped_pfn_unavailable profile + 1\<rparr>
      | _ \<Rightarrow>
          profile\<lparr>bp_pages_skipped_translation_error := bp_pages_skipped_translation_error profile + 1\<rparr>)"

text \<open>The body of the page loop.\<close>

definition sample_page ::
  "os \<Rightarrow> addr_translate_ctx \<Rightarrow> dram_mapping \<Rightarrow> u64 \<Rightarrow> bank_profile \<Rightarrow> world \<Rightarrow>
   bank_profile_rc \<times> bank_profile \<times> world" where
  "sample_page os ctx mapping va profile0 w =
     (let profile = profile0\<lparr>bp_pages_considered := bp_pages_considered profile0 + 1,
                             bp_pages_sampled := bp_pages_sampled profile0 + 1\<rparr>;
          (rc, tr, w') = addr_translate_va_to_pa os (Some ctx) va (Some addr_translation_zero) w
      in if rc \<noteq> ADDR_TRANSLATE_OK then (BANK_PROFILE_OK, count_translation_skip profile rc, w')
         else let profile1 = profile\<lparr>bp_pages_translated := bp_pages_translated profile + 1\<rparr>
         in case dram_mapping_bank_class (Some mapping) (at_physical_address (the tr)) of
              Inl _ \<Rightarrow> (BANK_PROFILE_OK,
                profile1\<lparr>bp_pages_skipped_mapping_error := bp_pages_skipped_mapping_error profile1 + 1\<rparr>, w')
            | Inr bank_class \<Rightarrow>
                (let (rc', profile2) = profile_add_bank_class profile1 bank_class (bp_page_size profile1)
                 in (rc', profile2, w')))"

definition sample_limit_reached :: "bank_profile_config \<Rightarrow> bank_profile \<Rightarrow> bool" where
  "sample_limit_reached cfg profile \<longleftrightarrow>
     0 < bc_max_pages_to_sample cfg \<and> bc_max_pages_to_sample cfg \<le> bp_pages_sampled profile"

text \<open>\<open>page_idx += stride\<close> may wrap, so the loop is not structurally bounded: \<open>None\<close> is a loop that
  never ends.\<close>

partial_function (option) sample_loop ::
  "os \<Rightarrow> addr_translate_ctx \<Rightarrow> dram_mapping \<Rightarrow> bank_profile_config \<Rightarrow> u64 \<Rightarrow> u64 \<Rightarrow> u64 \<Rightarrow> u64 \<Rightarrow>
   bank_profile \<Rightarrow> world \<Rightarrow> (bank_profile_rc \<times> bank_profile \<times> world) option" where
  "sample_loop os ctx mapping cfg start region_pages stride page_idx profile w =
     (if \<not> page_idx < region_pages then Some (BANK_PROFILE_OK, profile, w)
      else if sample_limit_reached cfg profile then Some (BANK_PROFILE_OK, profile, w)
      else case sample_page os ctx mapping (start + page_idx * bp_page_size profile) profile w of
             (rc, profile', w') \<Rightarrow>
               if rc \<noteq> BANK_PROFILE_OK then Some (rc, profile', w')
               else sample_loop os ctx mapping cfg start region_pages stride (page_idx + stride) profile' w')"

definition sample_region ::
  "os \<Rightarrow> maps_region \<Rightarrow> addr_translate_ctx \<Rightarrow> dram_mapping \<Rightarrow> bank_profile_config \<Rightarrow> bank_profile \<Rightarrow> world \<Rightarrow>
   (bank_profile_rc \<times> bank_profile \<times> world) option" where
  "sample_region os region ctx mapping cfg profile w =
     (let page_size = bp_page_size profile
      in if page_size = 0 then Some (BANK_PROFILE_ERR_PAGE_SIZE, profile, w)
         else let region_pages = (mr_end region - mr_start region) div page_size;
                  profile1 = profile\<lparr>bp_pages_seen := bp_pages_seen profile + region_pages\<rparr>;
                  stride = (if bc_sample_stride_pages cfg = 0 then 1 else bc_sample_stride_pages cfg)
              in sample_loop os ctx mapping cfg (mr_start region) region_pages stride 0 profile1 w)"

text \<open>The loop over the lines of the file.\<close>

fun build_loop ::
  "os \<Rightarrow> addr_translate_ctx \<Rightarrow> dram_mapping \<Rightarrow> bank_profile_config \<Rightarrow> string list \<Rightarrow> bank_profile \<Rightarrow> world \<Rightarrow>
   (bank_profile_rc \<times> bank_profile \<times> world) option" where
  "build_loop os ctx mapping cfg [] out w = Some (BANK_PROFILE_OK, out, w)"
| "build_loop os ctx mapping cfg (line # lines) out w =
     (case parse_maps_line line of
        None \<Rightarrow> build_loop os ctx mapping cfg lines out w
      | Some region \<Rightarrow>
          (let out1 = out\<lparr>bp_regions_seen := bp_regions_seen out + 1\<rparr>
           in if \<not> region_is_selected region cfg then build_loop os ctx mapping cfg lines out1 w
              else let out2 = out1\<lparr>bp_regions_selected := bp_regions_selected out1 + 1\<rparr>
              in case sample_region os region ctx mapping cfg out2 w of
                   None \<Rightarrow> None
                 | Some (rc, out3, w') \<Rightarrow>
                     if rc \<noteq> BANK_PROFILE_OK then Some (rc, out3, w')
                     else if sample_limit_reached cfg out3 then Some (BANK_PROFILE_OK, out3, w')
                     else build_loop os ctx mapping cfg lines out3 w'))"

text \<open>The result is the code with the new contents of \<open>*out\<close>; \<open>outp\<close> tells a NULL pointer.\<close>

definition bank_profile_build ::
  "rounding \<Rightarrow> os \<Rightarrow> pid_t \<Rightarrow> dram_mapping option \<Rightarrow> bank_profile_config option \<Rightarrow> bank_profile option \<Rightarrow> world \<Rightarrow>
   (bank_profile_rc \<times> bank_profile option \<times> world) option" where
  "bank_profile_build rnd os pid mappingp cfgp outp w =
     (if pid \<le> 0 \<or> mappingp = None \<or> outp = None then Some (BANK_PROFILE_ERR_INVALID_ARG, outp, w)
      else if \<not> dram_mapping_is_ready mappingp then Some (BANK_PROFILE_ERR_NOT_READY, outp, w)
      else let mapping = the mappingp;
               out = bank_profile_reset\<lparr>bp_pid := pid\<rparr>;
               cfg = (case cfgp of
                        None \<Rightarrow> bank_profile_config_default
                      | Some c \<Rightarrow> if bc_sample_stride_pages c = 0 then c\<lparr>bc_sample_stride_pages := 1\<rparr> else c);
               (page_size_long, w1) = sysconf os SC_PAGESIZE w
      in if page_size_long \<le> 0
         then Some (BANK_PROFILE_ERR_PAGE_SIZE, Some (profile_set_error out ''failed to get page size''), w1)
      else let out1 = out\<lparr>bp_page_size := of_int page_size_long\<rparr>;
               maps_path = ''/proc/'' @ show_int pid @ ''/maps''
      in if 64 \<le> length maps_path
         then Some (BANK_PROFILE_ERR_INVALID_ARG, Some (profile_set_error out1 ''failed to build maps path''), w1)
      else case fopen_r os maps_path w1 of
        (None, w2) \<Rightarrow>
          Some (BANK_PROFILE_ERR_OPEN_MAPS, Some (profile_set_error out1 ''failed to open /proc/[pid]/maps''), w2)
      | (Some contents, w2) \<Rightarrow>
          (case addr_translate_open os (Some addr_translate_reset) pid w2 of
             (rc, ctxp, w3) \<Rightarrow>
               if rc \<noteq> ADDR_TRANSLATE_OK
               then Some (BANK_PROFILE_ERR_ADDR_OPEN, Some (profile_set_error out1 (addr_translate_strerror rc)),
                          snd (fclose_r os w3))
               else case build_loop os (the ctxp) mapping cfg (fgets_all 1023 contents) out1 w3 of
                 None \<Rightarrow> None
               | Some (rc', out2, w4) \<Rightarrow>
                   (let close = (\<lambda>v. snd (fclose_r os (snd (addr_translate_close ctxp v))))
                    in if rc' \<noteq> BANK_PROFILE_OK then Some (rc', Some out2, close w4)
                       else if os_ferror os w4
                       then Some (BANK_PROFILE_ERR_IO,
                                  Some (profile_set_error out2 ''error while reading /proc/[pid]/maps''), close w4)
                       else let out3 = profile_finalize rnd out2
                       in if bp_pages_translated out3 = 0 \<or> bp_entries out3 = []
                          then Some (BANK_PROFILE_ERR_NO_SAMPLES,
                                     Some (profile_set_error out3 ''no pages were translated into bank classes''),
                                     close w4)
                          else Some (BANK_PROFILE_OK, Some out3, close w4))))"

fun bank_profile_strerror :: "bank_profile_rc \<Rightarrow> string" where
  "bank_profile_strerror BANK_PROFILE_OK = ''success''"
| "bank_profile_strerror BANK_PROFILE_ERR_INVALID_ARG = ''invalid argument''"
| "bank_profile_strerror BANK_PROFILE_ERR_NOT_READY = ''DRAM mapping is not ready''"
| "bank_profile_strerror BANK_PROFILE_ERR_PAGE_SIZE = ''failed to determine page size''"
| "bank_profile_strerror BANK_PROFILE_ERR_OPEN_MAPS = ''failed to open /proc/[pid]/maps''"
| "bank_profile_strerror BANK_PROFILE_ERR_ADDR_OPEN = ''failed to open /proc/[pid]/pagemap''"
| "bank_profile_strerror BANK_PROFILE_ERR_TOO_MANY_CLASSES = ''too many unique bank classes''"
| "bank_profile_strerror BANK_PROFILE_ERR_NO_SAMPLES = ''no usable page samples''"
| "bank_profile_strerror BANK_PROFILE_ERR_IO = ''I/O error''"

end
