(* ===== verification/Interference_Detector.thy ===== *)
theory Interference_Detector
  imports Interference_Candidate Proc_Activity C_Sort Bank_Profile
begin

text \<open>
  The interference detector (\<open>protected-daemon/src/interference_detector.c\<close>, \<open>interference_detector.h\<close>): one interval profiles the
  protected processes, ranks the active normal ones, profiles the best of them and scores their overlap with the
  protected aggregate. The array of process states is a list, updated in place by the sampling; \<open>size_t\<close>
  counters are naturals bounded by its length. Profiling may in principle not return, so the functions that profile
  return an option.
\<close>

subsection \<open>Data\<close>

definition INTERFERENCE_DETECTOR_REASON_MAX :: nat where "INTERFERENCE_DETECTOR_REASON_MAX = 256"

datatype interference_detector_rc =
    INTERFERENCE_DETECTOR_OK
  | INTERFERENCE_DETECTOR_ERR_INVALID_ARG
  | INTERFERENCE_DETECTOR_ERR_NO_MAPPING
  | INTERFERENCE_DETECTOR_ERR_NO_MEMORY
  | INTERFERENCE_DETECTOR_ERR_NO_PROTECTED_PROFILE
  | INTERFERENCE_DETECTOR_ERR_PROFILE
  | INTERFERENCE_DETECTOR_ERR_ACTIVITY

datatype interference_process_role = INTERFERENCE_PROCESS_NORMAL | INTERFERENCE_PROCESS_PROTECTED

record interference_process_state =
  ip_pid :: pid_t
  ip_role :: interference_process_role
  ip_alive :: bool
  ip_has_activity_sample :: bool
  ip_activity_sample :: proc_activity_sample

record interference_detector_config =
  id_max_normal_candidates :: nat
  id_activity_score_threshold :: cdouble
  id_overlap_score_threshold :: cdouble
  id_throttle_score_threshold :: cdouble
  id_activity_config :: proc_activity_config
  id_profile_config :: bank_profile_config

record interference_detector_stats =
  ds_process_count :: nat
  ds_protected_processes :: nat
  ds_normal_processes :: nat
  ds_protected_profiles_built :: nat
  ds_activity_samples :: nat
  ds_active_normal_candidates :: nat
  ds_normal_profiles_built :: nat
  ds_output_candidates :: nat
  ds_activity_errors :: nat
  ds_profile_errors :: nat
  ds_last_error :: interference_detector_rc
  ds_last_error_reason :: string

record active_candidate_internal =
  ai_pid :: pid_t
  ai_delta :: proc_activity_delta

text \<open>\<open>clamp01\<close> of this file is the same function as that of the activity sampler.\<close>

definition compute_final_score :: "rounding \<Rightarrow> cdouble \<Rightarrow> cdouble \<Rightarrow> cdouble" where
  "compute_final_score rnd activity_score overlap_score = fmul rnd (clamp01 activity_score) (clamp01 overlap_score)"

definition compare_active_candidate_desc :: "active_candidate_internal \<Rightarrow> active_candidate_internal \<Rightarrow> int" where
  "compare_active_candidate_desc ca cb =
     (if flt (pd_total_score (ai_delta ca)) (pd_total_score (ai_delta cb)) then 1
      else if flt (pd_total_score (ai_delta cb)) (pd_total_score (ai_delta ca)) then -1
      else if ai_pid cb < ai_pid ca then 1
      else if ai_pid ca < ai_pid cb then -1
      else 0)"

definition stats_set_error ::
  "interference_detector_stats \<Rightarrow> interference_detector_rc \<Rightarrow> string \<Rightarrow> interference_detector_stats" where
  "stats_set_error stats rc reason =
     stats\<lparr>ds_last_error := rc, ds_last_error_reason := snprintf_s INTERFERENCE_DETECTOR_REASON_MAX reason\<rparr>"

definition interference_detector_config_default :: "rounding \<Rightarrow> interference_detector_config" where
  "interference_detector_config_default rnd =
     \<lparr>id_max_normal_candidates = 16, id_activity_score_threshold = Fin 0,
      id_overlap_score_threshold = rnd (30 / 100), id_throttle_score_threshold = rnd (20 / 100),
      id_activity_config = proc_activity_config_default rnd,
      id_profile_config = bank_profile_config_default\<lparr>bc_max_pages_to_sample := 4096, bc_sample_stride_pages := 16\<rparr>\<rparr>"

definition interference_process_state_reset :: interference_process_state where
  "interference_process_state_reset =
     \<lparr>ip_pid = 0, ip_role = INTERFERENCE_PROCESS_NORMAL, ip_alive = False, ip_has_activity_sample = False,
      ip_activity_sample = proc_activity_sample_reset\<rparr>"

definition interference_detector_stats_reset :: interference_detector_stats where
  "interference_detector_stats_reset =
     \<lparr>ds_process_count = 0, ds_protected_processes = 0, ds_normal_processes = 0, ds_protected_profiles_built = 0,
      ds_activity_samples = 0, ds_active_normal_candidates = 0, ds_normal_profiles_built = 0, ds_output_candidates = 0,
      ds_activity_errors = 0, ds_profile_errors = 0, ds_last_error = INTERFERENCE_DETECTOR_OK,
      ds_last_error_reason = []\<rparr>"

subsection \<open>The protected aggregate\<close>

text \<open>The loop over the processes; the profile of one process starts from an unspecified buffer, which the build overwrites.\<close>

fun protected_loop ::
  "rounding \<Rightarrow> os \<Rightarrow> dram_mapping \<Rightarrow> interference_detector_config \<Rightarrow> interference_process_state list \<Rightarrow> bank_profile \<Rightarrow>
   interference_detector_stats \<Rightarrow> world \<Rightarrow>
   (interference_detector_rc \<times> bank_profile \<times> interference_detector_stats \<times> world) option" where
  "protected_loop rnd os mapping cfg [] aggregate stats w = Some (INTERFERENCE_DETECTOR_OK, aggregate, stats, w)"
| "protected_loop rnd os mapping cfg (p # ps) aggregate stats w =
     (if \<not> ip_alive p then protected_loop rnd os mapping cfg ps aggregate stats w
      else if ip_role p \<noteq> INTERFERENCE_PROCESS_PROTECTED then protected_loop rnd os mapping cfg ps aggregate stats w
      else let stats1 = stats\<lparr>ds_protected_processes := Suc (ds_protected_processes stats)\<rparr>
      in case bank_profile_build rnd os (ip_pid p) (Some mapping) (Some (id_profile_config cfg)) (Some bank_profile_reset) w of
        None \<Rightarrow> None
      | Some (rc, profile, w1) \<Rightarrow>
          if rc \<noteq> BANK_PROFILE_OK
          then protected_loop rnd os mapping cfg ps aggregate
                 (stats1\<lparr>ds_profile_errors := Suc (ds_profile_errors stats1)\<rparr>) w1
          else case bank_profile_merge rnd (Some aggregate) profile of
            (rc', aggregate') \<Rightarrow>
              if rc' \<noteq> BANK_PROFILE_OK
              then Some (INTERFERENCE_DETECTOR_ERR_PROFILE, the aggregate',
                         stats1\<lparr>ds_profile_errors := Suc (ds_profile_errors stats1)\<rparr>, w1)
              else protected_loop rnd os mapping cfg ps (the aggregate')
                     (stats1\<lparr>ds_protected_profiles_built := Suc (ds_protected_profiles_built stats1)\<rparr>) w1)"

definition build_protected_aggregate_profile ::
  "rounding \<Rightarrow> os \<Rightarrow> interference_process_state list \<Rightarrow> dram_mapping \<Rightarrow> interference_detector_config \<Rightarrow>
   interference_detector_stats \<Rightarrow> world \<Rightarrow>
   (interference_detector_rc \<times> bank_profile \<times> interference_detector_stats \<times> world) option" where
  "build_protected_aggregate_profile rnd os processes mapping cfg stats w =
     (case protected_loop rnd os mapping cfg processes bank_profile_reset stats w of
        None \<Rightarrow> None
      | Some (rc, aggregate, stats', w') \<Rightarrow>
          if rc \<noteq> INTERFERENCE_DETECTOR_OK then Some (rc, aggregate, stats', w')
          else if bp_entries aggregate = []
          then Some (INTERFERENCE_DETECTOR_ERR_NO_PROTECTED_PROFILE, aggregate, stats', w')
          else Some (INTERFERENCE_DETECTOR_OK, aggregate, stats', w'))"

subsection \<open>The active normal processes\<close>

text \<open>The body of the loop: the new process state, and the entry appended to \<open>active\<close> if any.\<close>

definition collect_process ::
  "rounding \<Rightarrow> os \<Rightarrow> interference_detector_config \<Rightarrow> interference_process_state \<Rightarrow> interference_detector_stats \<Rightarrow> world \<Rightarrow>
   interference_process_state \<times> active_candidate_internal option \<times> interference_detector_stats \<times> world" where
  "collect_process rnd os cfg p stats w =
     (if \<not> ip_alive p then (p, None, stats, w)
      else if ip_role p \<noteq> INTERFERENCE_PROCESS_NORMAL then (p, None, stats, w)
      else let stats1 = stats\<lparr>ds_normal_processes := Suc (ds_normal_processes stats)\<rparr>
      in case proc_activity_sample_now os (ip_pid p) (Some proc_activity_sample_reset) w of
        (rc, nowp, w1) \<Rightarrow>
          if rc \<noteq> PROC_ACTIVITY_OK
          then (p\<lparr>ip_alive := False, ip_has_activity_sample := False\<rparr>, None,
                stats1\<lparr>ds_activity_errors := Suc (ds_activity_errors stats1)\<rparr>, w1)
          else let now = the nowp;
                   stats2 = stats1\<lparr>ds_activity_samples := Suc (ds_activity_samples stats1)\<rparr>;
                   p1 = p\<lparr>ip_activity_sample := now, ip_has_activity_sample := True\<rparr>
          in if \<not> ip_has_activity_sample p then (p1, None, stats2, w1)
          else case proc_activity_compute_delta rnd (Some (ip_activity_sample p)) (Some now) (Some (id_activity_config cfg))
                      (Some proc_activity_delta_reset) of
            (rc', deltap) \<Rightarrow>
              if rc' \<noteq> PROC_ACTIVITY_OK
              then (if rc' = PROC_ACTIVITY_ERR_PID_REUSED then p1\<lparr>ip_has_activity_sample := False\<rparr> else p1, None,
                    stats2\<lparr>ds_activity_errors := Suc (ds_activity_errors stats2)\<rparr>, w1)
              else let delta = the deltap
              in if \<not> pd_active delta then (p1, None, stats2, w1)
                 else if flt (pd_total_score delta) (id_activity_score_threshold cfg) then (p1, None, stats2, w1)
                 else (p1, Some \<lparr>ai_pid = ip_pid p, ai_delta = delta\<rparr>, stats2, w1))"

fun collect_loop ::
  "rounding \<Rightarrow> os \<Rightarrow> interference_detector_config \<Rightarrow> interference_process_state list \<Rightarrow> active_candidate_internal list \<Rightarrow>
   interference_detector_stats \<Rightarrow> world \<Rightarrow>
   interference_process_state list \<times> active_candidate_internal list \<times> interference_detector_stats \<times> world" where
  "collect_loop rnd os cfg [] active stats w = ([], active, stats, w)"
| "collect_loop rnd os cfg (p # ps) active stats w =
     (case collect_process rnd os cfg p stats w of
        (p1, entry, stats1, w1) \<Rightarrow>
          (let active1 = (case entry of None \<Rightarrow> active | Some a \<Rightarrow> active @ [a]);
               (ps', active', stats', w') = collect_loop rnd os cfg ps active1 stats1 w1
           in (p1 # ps', active', stats', w')))"

definition collect_active_normal_candidates ::
  "rounding \<Rightarrow> os \<Rightarrow> interference_process_state list \<Rightarrow> interference_detector_config \<Rightarrow> interference_detector_stats \<Rightarrow> world \<Rightarrow>
   interference_detector_rc \<times> interference_process_state list \<times> active_candidate_internal list \<times>
   interference_detector_stats \<times> world" where
  "collect_active_normal_candidates rnd os processes cfg stats w =
     (let (ok, w1) = sys_calloc os (length processes) w
      in if \<not> ok then (INTERFERENCE_DETECTOR_ERR_NO_MEMORY, processes, [], stats, w1)
         else let (processes', active, stats', w') = collect_loop rnd os cfg processes [] stats w1
         in (INTERFERENCE_DETECTOR_OK, processes', qsort compare_active_candidate_desc active,
             stats'\<lparr>ds_active_normal_candidates := length active\<rparr>, w'))"

subsection \<open>One interval\<close>

definition make_interference_candidate ::
  "rounding \<Rightarrow> interference_detector_config \<Rightarrow> active_candidate_internal \<Rightarrow> cdouble \<Rightarrow> u64 \<Rightarrow> interference_candidate" where
  "make_interference_candidate rnd cfg a overlap_score common_pages =
     (let activity_score = pd_total_score (ai_delta a);
          final_score = compute_final_score rnd activity_score overlap_score;
          should_throttle = (fle (id_overlap_score_threshold cfg) overlap_score \<and>
                             fle (id_throttle_score_threshold cfg) final_score)
      in interference_candidate_reset\<lparr>
           ic_pid := ai_pid a, ic_activity_score := activity_score, ic_cpu_score := pd_cpu_score (ai_delta a),
           ic_fault_score := pd_fault_score (ai_delta a), ic_rss_score := pd_rss_score (ai_delta a),
           ic_overlap_score := overlap_score, ic_common_pages := common_pages, ic_final_score := final_score,
           ic_active := True, ic_should_throttle := should_throttle,
           ic_reason := snprintf_s INTERFERENCE_DETECTOR_REASON_MAX
             (''activity='' @ show_fixed 4 activity_score @ '' overlap='' @ show_fixed 4 overlap_score @
              '' final='' @ show_fixed 4 final_score @ '' common_pages='' @ show_nat (unat common_pages) @
              '' throttle='' @ show_bool should_throttle)\<rparr>)"

text \<open>The loop over the first \<open>limit\<close> active candidates; \<open>out\<close> is \<open>out[0 .. produced)\<close>.\<close>

fun score_loop ::
  "rounding \<Rightarrow> os \<Rightarrow> dram_mapping \<Rightarrow> interference_detector_config \<Rightarrow> bank_profile \<Rightarrow> active_candidate_internal list \<Rightarrow>
   interference_candidate list \<Rightarrow> interference_detector_stats \<Rightarrow> world \<Rightarrow>
   (interference_candidate list \<times> interference_detector_stats \<times> world) option" where
  "score_loop rnd os mapping cfg aggregate [] out stats w = Some (out, stats, w)"
| "score_loop rnd os mapping cfg aggregate (a # as) out stats w =
     (case bank_profile_build rnd os (ai_pid a) (Some mapping) (Some (id_profile_config cfg)) (Some bank_profile_reset) w of
        None \<Rightarrow> None
      | Some (rc, profile, w1) \<Rightarrow>
          if rc \<noteq> BANK_PROFILE_OK
          then score_loop rnd os mapping cfg aggregate as out (stats\<lparr>ds_profile_errors := Suc (ds_profile_errors stats)\<rparr>) w1
          else let stats1 = stats\<lparr>ds_normal_profiles_built := Suc (ds_normal_profiles_built stats)\<rparr>
          in case bank_profile_overlap_score rnd (Some aggregate) profile of
            Inl _ \<Rightarrow> score_loop rnd os mapping cfg aggregate as out
                        (stats1\<lparr>ds_profile_errors := Suc (ds_profile_errors stats1)\<rparr>) w1
          | Inr (overlap_score, common_pages) \<Rightarrow>
              score_loop rnd os mapping cfg aggregate as
                (out @ [make_interference_candidate rnd cfg a overlap_score common_pages]) stats1 w1)"

definition detector_limit :: "interference_detector_config \<Rightarrow> nat \<Rightarrow> nat \<Rightarrow> nat" where
  "detector_limit cfg active_count out_cap =
     (let limit = active_count;
          limit = (if 0 < id_max_normal_candidates cfg \<and> id_max_normal_candidates cfg < limit
                   then id_max_normal_candidates cfg else limit)
      in if out_cap < limit then out_cap else limit)"

text \<open>Result: the code, the process states, the elements of \<open>out\<close>, \<open>*out_count\<close>, \<open>*stats\<close> and the world. \<open>out_null\<close>: the array
  pointer is NULL.\<close>

definition interference_detector_run_once ::
  "rounding \<Rightarrow> os \<Rightarrow> interference_process_state list option \<Rightarrow> dram_mapping option \<Rightarrow> interference_detector_config option \<Rightarrow>
   bool \<Rightarrow> nat \<Rightarrow> nat option \<Rightarrow> interference_detector_stats option \<Rightarrow> world \<Rightarrow>
   (interference_detector_rc \<times> interference_process_state list option \<times> interference_candidate list \<times> nat option \<times>
    interference_detector_stats option \<times> world) option" where
  "interference_detector_run_once rnd os processesp mappingp cfgp out_null out_cap out_count statsp w =
     (let count0 = map_option (\<lambda>_. 0) out_count;
          ret = (\<lambda>rc ps out cnt st w'. Some (rc, ps, out, cnt, map_option (\<lambda>_. st) statsp, w'));
          st0 = interference_detector_stats_reset
      in if processesp = None \<or> mappingp = None \<or> cfgp = None \<or> out_null \<or> out_count = None
         then ret INTERFERENCE_DETECTOR_ERR_INVALID_ARG processesp [] count0 st0 w
      else let processes = the processesp; mapping = the mappingp; cfg = the cfgp
      in if 0 < length processes \<and> out_cap = 0
         then ret INTERFERENCE_DETECTOR_ERR_INVALID_ARG processesp [] count0 st0 w
      else if \<not> dram_mapping_is_ready (Some mapping)
         then ret INTERFERENCE_DETECTOR_ERR_NO_MAPPING processesp [] count0
                (stats_set_error st0 INTERFERENCE_DETECTOR_ERR_NO_MAPPING ''DRAM mapping is not ready'') w
      else let st1 = st0\<lparr>ds_process_count := length processes\<rparr>
      in case build_protected_aggregate_profile rnd os processes mapping cfg st1 w of
        None \<Rightarrow> None
      | Some (rc, aggregate, st2, w2) \<Rightarrow>
          if rc \<noteq> INTERFERENCE_DETECTOR_OK
          then ret rc processesp [] count0 (stats_set_error st2 rc ''failed to build protected aggregate profile'') w2
          else case collect_active_normal_candidates rnd os processes cfg st2 w2 of
            (rc', processes', active, st3, w3) \<Rightarrow>
              if rc' \<noteq> INTERFERENCE_DETECTOR_OK
              then ret rc' (Some processes') [] count0
                     (stats_set_error st3 rc' ''failed to collect active normal candidates'') w3
              else case score_loop rnd os mapping cfg aggregate
                          (take (detector_limit cfg (length active) out_cap) active) [] st3 w3 of
                None \<Rightarrow> None
              | Some (out, st4, w4) \<Rightarrow>
                  ret INTERFERENCE_DETECTOR_OK (Some processes') out (Some (length out))
                    (st4\<lparr>ds_output_candidates := length out\<rparr>) w4)"

fun interference_detector_strerror :: "interference_detector_rc \<Rightarrow> string" where
  "interference_detector_strerror INTERFERENCE_DETECTOR_OK = ''ok''"
| "interference_detector_strerror INTERFERENCE_DETECTOR_ERR_INVALID_ARG = ''invalid argument''"
| "interference_detector_strerror INTERFERENCE_DETECTOR_ERR_NO_MAPPING = ''DRAM mapping is not ready''"
| "interference_detector_strerror INTERFERENCE_DETECTOR_ERR_NO_MEMORY = ''out of memory''"
| "interference_detector_strerror INTERFERENCE_DETECTOR_ERR_NO_PROTECTED_PROFILE = ''no protected profile available''"
| "interference_detector_strerror INTERFERENCE_DETECTOR_ERR_PROFILE = ''bank profile error''"
| "interference_detector_strerror INTERFERENCE_DETECTOR_ERR_ACTIVITY = ''activity sampling error''"

end
