(* ===== verification/Proc_Activity_Correct.thy ===== *)
theory Proc_Activity_Correct
  imports Proc_Activity
begin

text \<open>
  Correctness of the activity sampler: it reads back exactly what the kernel prints into \<open>/proc/[pid]/stat\<close>, the scores of
  a comparison lie between 0 and 1 for every sensible configuration, and the verdict is the documented one. The file that is
  left open by a successful sample is stated as the code has it.
\<close>

text \<open>The numbers of a line, each after one space.\<close>

definition show_fields :: "int list \<Rightarrow> string" where
  "show_fields vs = concat (map (\<lambda>v. '' '' @ show_int v) vs)"

lemma show_fields_simps [simp]:
  "show_fields [] = []" "show_fields (v # vs) = CHR '' '' # show_int v @ show_fields vs"
  by (simp_all add: show_fields_def)

lemma show_int_hd: "show_int v @ t \<noteq> [] \<and> \<not> is_space (hd (show_int v @ t))"
proof -
  obtain c s where "show_nat (nat \<bar>v\<bar>) = c # s" "digit_val 10 c \<noteq> None" by (rule show_nat_Cons)
  with digit_not_special [of c] show ?thesis by (simp add: show_int_def is_space_def)
qed

lemma skip_spaces_show_int: "skip_spaces (CHR '' '' # show_int v @ t) = show_int v @ t"
proof -
  obtain c s where s: "show_int v @ t = c # s" "\<not> is_space c" using show_int_hd [of v t] by (cases "show_int v @ t") auto
  then show ?thesis unfolding s(1) by (auto simp: skip_spaces_def is_space_def)
qed

lemma show_fields_not_digit: "t = [] \<or> digit_val 10 (hd t) = None \<Longrightarrow>
    show_fields vs @ t = [] \<or> digit_val 10 (hd (show_fields vs @ t)) = None"
  by (cases vs) auto

lemma parse_stat_loop_show:
  assumes "\<forall>v \<in> set (take n vs). - (2 ^ 63) \<le> v \<and> v < 2 ^ 63" and "n \<le> length vs"
    and "t = [] \<or> digit_val 10 (hd t) = None"
  shows "parse_stat_loop n (skip_spaces (show_fields vs @ t)) = Inr (take n vs)"
  using assms(1,2)
proof (induction n arbitrary: vs)
  case (Suc n)
  then obtain v ws where vs: "vs = v # ws" by (cases vs) auto
  let ?p = "show_int v @ show_fields ws @ t"
  have str: "strtoll 10 ?p = (v, False, show_fields ws @ t)"
    using Suc.prems(1) vs show_fields_not_digit [OF assms(3)] by (intro strtoll_show_int) auto
  have len: "?p \<noteq> show_fields ws @ t" using show_int_hd [of v "[]"] by auto
  have hd: "?p \<noteq> []" "hd ?p \<noteq> CHR 0x0A"
    using show_int_hd [of v "show_fields ws @ t"] by (auto simp: is_space_def)
  have "parse_stat_loop (Suc n) ?p = map_sum id ((#) v) (parse_stat_loop n (skip_spaces (show_fields ws @ t)))"
    using hd len str by (simp del: append_is_Nil_conv)
  moreover have "parse_stat_loop n (skip_spaces (show_fields ws @ t)) = Inr (take n ws)"
    using Suc.prems vs by (intro Suc.IH) auto
  moreover have "skip_spaces (show_fields vs @ t) = ?p" by (simp add: vs skip_spaces_show_int)
  ultimately show ?case by (simp add: vs)
qed simp

subsection \<open>Reading back a line of the kernel\<close>

lemma first_index_at: "\<forall>x \<in> set a. \<not> P x \<Longrightarrow> P c \<Longrightarrow> first_index P (a @ c # b) = Some (length a)"
  by (induction a) auto

lemma last_index_at: "\<forall>x \<in> set b. \<not> P x \<Longrightarrow> P c \<Longrightarrow> last_index P (a @ c # b) = Some (length a)"
  using first_index_at [of "rev b" P c "rev a"] by (simp add: last_index_def)

lemma fgets_whole_line: "CHR 0x0A \<notin> set l \<Longrightarrow> length l < n \<Longrightarrow> fgets n (l @ [CHR 0x0A]) = (l @ [CHR 0x0A], [])"
proof (induction l arbitrary: n)
  case Nil
  then show ?case by (cases n) auto
next
  case (Cons c l)
  then show ?case by (cases n) auto
qed

lemma show_int_chars: "c \<in> set (show_int v) \<Longrightarrow> c = CHR ''-'' \<or> digit_val 10 c \<noteq> None"
  using show_nat_digits [of "nat \<bar>v\<bar>"] by (auto simp: show_int_def split: if_splits)

lemma show_int_no_special:
  "CHR ''('' \<notin> set (show_int v)" "CHR '')'' \<notin> set (show_int v)" "NUL \<notin> set (show_int v)" "CHR 0x0A \<notin> set (show_int v)"
  by (auto dest!: show_int_chars)

lemma show_fields_no_special:
  "CHR '')'' \<notin> set (show_fields vs)" "NUL \<notin> set (show_fields vs)" "CHR 0x0A \<notin> set (show_fields vs)"
  by (induction vs) (auto simp: show_int_no_special)

text \<open>The line of a process with command name \<open>comm\<close>, which may contain blanks and parentheses.\<close>

definition stat_line :: "pid_t \<Rightarrow> string \<Rightarrow> char \<Rightarrow> int list \<Rightarrow> string" where
  "stat_line pid comm st vals =
     show_int pid @ '' ('' @ comm @ '') '' @ [st] @ show_fields vals @ [CHR 0x0A]"

definition stat_sample :: "pid_t \<Rightarrow> int \<Rightarrow> int \<Rightarrow> u64 \<Rightarrow> string \<Rightarrow> char \<Rightarrow> int list \<Rightarrow> proc_activity_sample" where
  "stat_sample pid page_size clock_ticks now comm st vals =
     \<lparr>ps_pid = pid, ps_comm = take 63 comm, ps_state = st, ps_valid = True, ps_timestamp_ns = now,
      ps_clock_ticks_per_sec = clock_ticks, ps_page_size = of_int page_size, ps_minflt = of_int (vals ! 6),
      ps_majflt = of_int (vals ! 8), ps_utime_ticks = of_int (vals ! 10), ps_stime_ticks = of_int (vals ! 11),
      ps_starttime_ticks = of_int (vals ! 18), ps_vsize_bytes = of_int (vals ! 19), ps_rss_pages = vals ! 20,
      ps_num_threads = vals ! 16\<rparr>"

text \<open>The sampler reads the first 21 numbers after the state; what follows them, such as the limit of the resident set, which the
  kernel prints as \<open>2 ^ 64 - 1\<close> when there is none, is not looked at.\<close>

definition stat_fields_ok :: "int list \<Rightarrow> bool" where
  "stat_fields_ok vals \<longleftrightarrow> 21 \<le> length vals \<and> list_all (\<lambda>v. - (2 ^ 63) \<le> v \<and> v < 2 ^ 63) (take 21 vals) \<and>
     list_all (\<lambda>i. 0 \<le> vals ! i) [6, 8, 10, 11, 18, 19]"

lemma store_stat_values_ok:
  assumes "stat_fields_ok vals"
  shows "store_stat_values pid page_size clock_ticks (take 21 vals)
      (proc_activity_sample_reset\<lparr>ps_timestamp_ns := now, ps_comm := take 63 comm, ps_state := st\<rparr>) =
    (PROC_ACTIVITY_OK, stat_sample pid page_size clock_ticks now comm st vals)"
proof -
  have "checked_u64 (vals ! i) = Inr (of_int (vals ! i))" if "i \<in> {6, 8, 10, 11, 18, 19}" for i
    using that assms by (auto simp: stat_fields_ok_def checked_u64_def)
  then show ?thesis
    by (simp add: store_stat_values_def checked_store_def stat_sample_def proc_activity_sample_reset_def)
qed

lemma parse_stat_line_ok:
  assumes vals: "stat_fields_ok vals" and st: "st \<noteq> CHR '' ''" "st \<noteq> CHR 0x0A" "st \<noteq> CHR '')''"
  shows "parse_stat_line pid page_size clock_ticks (stat_line pid comm st vals)
      (proc_activity_sample_reset\<lparr>ps_timestamp_ns := now\<rparr>) =
    (PROC_ACTIVITY_OK, stat_sample pid page_size clock_ticks now comm st vals)"
proof -
  let ?line = "stat_line pid comm st vals"
  let ?tail = "CHR '' '' # st # show_fields vals @ [CHR 0x0A]"
  have l: "?line = (show_int pid @ '' '') @ CHR ''('' # comm @ CHR '')'' # ?tail"
    and r: "?line = (show_int pid @ '' ('' @ comm) @ CHR '')'' # ?tail"
    by (simp_all add: stat_line_def)
  have li: "first_index (\<lambda>c. c = CHR ''('') ?line = Some (Suc (length (show_int pid)))"
    unfolding l by (subst first_index_at) (auto dest: show_int_chars)
  have ri: "last_index (\<lambda>c. c = CHR '')'') ?line = Some (Suc (Suc (length (show_int pid) + length comm)))"
    unfolding r by (subst last_index_at) (auto simp: show_fields_no_special st)
  have parsed: "parse_stat_values (show_fields vals @ [CHR 0x0A]) 21 = Inr (take 21 vals)"
    unfolding parse_stat_values_def
    by (rule parse_stat_loop_show) (use vals in \<open>auto simp: stat_fields_ok_def list_all_iff\<close>)
  have dl: "drop (Suc (Suc (length (show_int pid)))) ?line = comm @ CHR '')'' # ?tail" by (simp add: l)
  have dr: "drop (Suc (Suc (Suc (length (show_int pid) + length comm)))) ?line = ?tail"
  proof -
    have "?line = (show_int pid @ '' ('' @ comm @ '')'') @ ?tail" by (simp add: r)
    then show ?thesis by (metis append_eq_conv_conj length_append length_Cons list.size(3) add_Suc_right add_Suc add.commute add_0)
  qed
  have comm: "take (if PROC_ACTIVITY_COMM_MAX \<le> length comm then PROC_ACTIVITY_COMM_MAX - 1 else length comm)
      (comm @ CHR '')'' # ?tail) = take 63 comm"
    by (simp add: PROC_ACTIVITY_COMM_MAX_def)
  have len: "21 \<le> length vals" using vals by (simp add: stat_fields_ok_def)
  show ?thesis
    unfolding parse_stat_line_def li ri prod.case option.case dl dr
    using st comm len
    by (simp add: Let_def skip_spaces_def parsed store_stat_values_ok [OF vals] cong: if_cong)
qed

lemma sample_now_stat_line:
  assumes "0 < pid" and "pid < 2 ^ 31"
    and "\<forall>v. os_sysconf os v SC_PAGESIZE = page_size" and "0 < page_size"
    and "\<forall>v. os_sysconf os v SC_CLK_TCK = clock_ticks" and "0 < clock_ticks"
    and "os_clock os (tick (tick w)) = Some (sec, nsec)"
    and "os_fopen os (tick (tick (tick w))) (''/proc/'' @ show_int pid @ ''/stat'') = Some (stat_line pid comm st vals)"
    and "stat_fields_ok vals" and "st \<notin> {CHR '' '', CHR 0x0A, CHR '')'', NUL}"
    and "NUL \<notin> set comm" and "CHR 0x0A \<notin> set comm" and "length (stat_line pid comm st vals) < 4096"
  shows "\<exists>w'. proc_activity_sample_now os pid (Some old) w =
    (PROC_ACTIVITY_OK,
     Some (stat_sample pid page_size clock_ticks (of_int sec * 1000000000 + of_int nsec) comm st vals), w')"
proof -
  let ?l = "show_int pid @ '' ('' @ comm @ '') '' @ [st] @ show_fields vals"
  have line: "stat_line pid comm st vals = ?l @ [CHR 0x0A]" by (simp add: stat_line_def)
  have "fgets 4095 (?l @ [CHR 0x0A]) = (?l @ [CHR 0x0A], [])"
    using assms(10-13) by (intro fgets_whole_line) (auto simp: line show_int_no_special show_fields_no_special)
  then have got: "fst (fgets (PROC_ACTIVITY_STAT_LINE_MAX - 1) (stat_line pid comm st vals)) = stat_line pid comm st vals"
    unfolding line by (simp add: PROC_ACTIVITY_STAT_LINE_MAX_def)
  have cstr: "cstr (stat_line pid comm st vals) = stat_line pid comm st vals"
    using assms(10,11) by (intro cstr_id) (auto simp: line show_int_no_special show_fields_no_special)
  have short: "\<not> 256 \<le> length (''/proc/'' @ show_int pid @ ''/stat'')"
    using length_show_pid [OF assms(1,2)] by simp
  have ne: "stat_line pid comm st vals \<noteq> []" by (simp add: stat_line_def)
  have parse: "parse_stat_line pid page_size clock_ticks (stat_line pid comm st vals)
      (proc_activity_sample_reset\<lparr>ps_timestamp_ns := of_int sec * 1000000000 + of_int nsec\<rparr>) =
    (PROC_ACTIVITY_OK, stat_sample pid page_size clock_ticks (of_int sec * 1000000000 + of_int nsec) comm st vals)"
    by (rule parse_stat_line_ok) (use assms(9,10) in auto)
  show ?thesis
    using assms(1-8) short ne
    by (simp add: proc_activity_sample_now_def get_time_ns_def sysconf_def clock_gettime_def fopen_r_def got [unfolded One_nat_def] cstr parse [simplified]
        PROC_ACTIVITY_NSEC_PER_SEC_def del: length_append)
qed

text \<open>C26: The sampler reads back what the kernel prints. When \<open>/proc/[pid]/stat\<close> holds a line of the documented form, with any
  command name (blanks and parentheses included), at least 21 numbers after the state, of which the first 21 are in the range of \<open>long long\<close> (the later ones may be
  any numbers), and no negative counter, the sample is valid and every field is the field of the line, the command name being cut
  to 63 characters.\<close>

theorem sample_now_reads_stat:
  assumes "0 < pid" and "pid < 2 ^ 31"
    and "\<forall>v. os_sysconf os v SC_PAGESIZE = page_size" and "0 < page_size"
    and "\<forall>v. os_sysconf os v SC_CLK_TCK = clock_ticks" and "0 < clock_ticks"
    and "os_clock os (tick (tick w)) = Some (sec, nsec)"
    and "os_fopen os (tick (tick (tick w))) (''/proc/'' @ show_int pid @ ''/stat'') = Some (stat_line pid comm st vals)"
    and "stat_fields_ok vals" and "st \<notin> {CHR '' '', CHR 0x0A, CHR '')'', NUL}"
    and "NUL \<notin> set comm" and "CHR 0x0A \<notin> set comm" and "length (stat_line pid comm st vals) < 4096"
  shows "\<exists>w'. proc_activity_sample_now os pid (Some old) w =
    (PROC_ACTIVITY_OK,
     Some (stat_sample pid page_size clock_ticks (of_int sec * 1000000000 + of_int nsec) comm st vals), w')"
  using assms by (rule sample_now_stat_line)

definition demo_vals :: "int list" where
  "demo_vals = [1, 7, 7, 0, -1, 4194560, 500, 0, 3, 0, 40, 20, 0, 0, 20, 0, 4, 0, 9000, 8192000, 600, 18446744073709551615, 1, 1, 0]"

definition os_demo :: os where
  "os_demo = os_fine\<lparr>os_fopen := \<lambda>_ _. Some (stat_line 7 ''a) b'' CHR ''R'' demo_vals)\<rparr>"

lemma demo_vals_ok: "stat_fields_ok demo_vals"
  by (simp add: stat_fields_ok_def demo_vals_def)

theorem sample_now_reads_stat_witness:
  "\<exists>w'. proc_activity_sample_now os_demo 7 (Some proc_activity_sample_reset) world0 =
    (PROC_ACTIVITY_OK, Some (stat_sample 7 4096 100 2000000000 ''a) b'' CHR ''R'' demo_vals), w')"
proof -
  have len: "length (stat_line 7 ''a) b'' CHR ''R'' demo_vals) < 4096"
    by (simp add: stat_line_def demo_vals_def show_int_def show_nat.simps)
  have "os_clock os_demo (tick (tick world0)) = Some (2, 0)"
    by (simp add: os_demo_def os_fine_def tick_def world0_def)
  with sample_now_reads_stat [of 7 os_demo 4096 100 world0 2 0 "''a) b''" "CHR ''R''" demo_vals proc_activity_sample_reset]
    demo_vals_ok len
  show ?thesis by (simp add: os_demo_def os_fine_def NUL_def)
qed

subsection \<open>The open file\<close>

lemma parse_stat_loop_error: "parse_stat_loop n p = Inl rc \<Longrightarrow> rc = PROC_ACTIVITY_ERR_PARSE"
proof (induction n arbitrary: p)
  case (Suc n)
  then show ?case
    by (cases "parse_stat_loop n (skip_spaces (snd (snd (strtoll 10 p))))")
      (auto simp: Let_def split: if_splits prod.splits)
qed simp

lemma checked_store_rc:
  "(\<And>q. fst (rest q) \<in> {PROC_ACTIVITY_OK, PROC_ACTIVITY_ERR_PARSE}) \<Longrightarrow>
   fst (checked_store v store rest out) \<in> {PROC_ACTIVITY_OK, PROC_ACTIVITY_ERR_PARSE}"
  by (auto simp: checked_store_def checked_u64_def)

lemma store_stat_values_rc:
  "fst (store_stat_values pid page_size clock_ticks vals out) \<in> {PROC_ACTIVITY_OK, PROC_ACTIVITY_ERR_PARSE}"
  unfolding store_stat_values_def by (intro checked_store_rc) simp

lemma parse_stat_line_rc:
  "fst (parse_stat_line pid page_size clock_ticks line out) \<in> {PROC_ACTIVITY_OK, PROC_ACTIVITY_ERR_PARSE}"
  using store_stat_values_rc
  by (auto simp: parse_stat_line_def Let_def parse_stat_values_def split: option.splits sum.splits dest!: parse_stat_loop_error)

lemma parse_stat_line_cases:
  "parse_stat_line pid page_size clock_ticks line out = (rc, s) \<Longrightarrow> rc = PROC_ACTIVITY_OK \<or> rc = PROC_ACTIVITY_ERR_PARSE"
  using parse_stat_line_rc [of pid page_size clock_ticks line out] by simp

lemma sample_now_result:
  assumes "proc_activity_sample_now os pid (Some old) w = (rc, q, w')"
  obtains "rc \<notin> {PROC_ACTIVITY_OK, PROC_ACTIVITY_ERR_PARSE}" "w_open w' = w_open w"
  | page_size clock_ticks line now s where "rc \<in> {PROC_ACTIVITY_OK, PROC_ACTIVITY_ERR_PARSE}" "0 < pid" "0 < page_size" "0 < clock_ticks"
    "q = Some s" "w_open w' = Suc (w_open w)" "clock_ticks = os_sysconf os (tick w) SC_CLK_TCK"
    "parse_stat_line pid page_size clock_ticks line (proc_activity_sample_reset\<lparr>ps_timestamp_ns := now\<rparr>) = (rc, s)"
proof (cases "0 < pid \<and> 0 < os_sysconf os w SC_PAGESIZE \<and> 0 < os_sysconf os (tick w) SC_CLK_TCK \<and>
    os_clock os (tick (tick w)) \<noteq> None \<and> length (''/proc/'' @ show_int pid @ ''/stat'') < 256")
  case False
  with assms that(1) show thesis
    by (auto simp: proc_activity_sample_now_def get_time_ns_def sysconf_def clock_gettime_def not_less
        split: option.splits if_splits)
next
  case True
  then obtain sec nsec where clk: "os_clock os (tick (tick w)) = Some (sec, nsec)" by auto
  let ?now = "of_int sec * PROC_ACTIVITY_NSEC_PER_SEC + of_int nsec"
  let ?path = "''/proc/'' @ show_int pid @ ''/stat''"
  have run: "proc_activity_sample_now os pid (Some old) w =
     (case fopen_r os ?path (tick (tick (tick w))) of
        (None, w4) \<Rightarrow> (PROC_ACTIVITY_ERR_OPEN, Some (proc_activity_sample_reset\<lparr>ps_timestamp_ns := ?now\<rparr>), w4)
      | (Some contents, w4) \<Rightarrow>
          if contents = []
          then (PROC_ACTIVITY_ERR_READ, Some (proc_activity_sample_reset\<lparr>ps_timestamp_ns := ?now\<rparr>), snd (fclose_r os w4))
          else let (rc, out2) = parse_stat_line pid (os_sysconf os w SC_PAGESIZE) (os_sysconf os (tick w) SC_CLK_TCK)
                     (cstr (fst (fgets (PROC_ACTIVITY_STAT_LINE_MAX - 1) contents)))
                     (proc_activity_sample_reset\<lparr>ps_timestamp_ns := ?now\<rparr>)
               in (rc, Some out2, w4))"
    unfolding proc_activity_sample_now_def Let_def
    using True clk by (simp add: get_time_ns_def sysconf_def clock_gettime_def)
  show thesis
  proof (cases "os_fopen os (tick (tick (tick w))) ?path")
    case None
    with assms run that(1) show thesis by (auto simp: fopen_r_def)
  next
    case (Some contents)
    show thesis
    proof (cases "contents = []")
      case empty: True
      with assms run Some that(1) show thesis by (auto simp: fopen_r_def fclose_r_def)
    next
      case False
      obtain rc2 s where p: "parse_stat_line pid (os_sysconf os w SC_PAGESIZE) (os_sysconf os (tick w) SC_CLK_TCK)
          (cstr (fst (fgets (PROC_ACTIVITY_STAT_LINE_MAX - 1) contents)))
          (proc_activity_sample_reset\<lparr>ps_timestamp_ns := ?now\<rparr>) = (rc2, s)" by (rule prod.exhaust)
      from assms[unfolded run] Some False p have r: "rc = rc2" "q = Some s" "w_open w' = Suc (w_open w)"
        by (auto simp: fopen_r_def)
      with parse_stat_line_cases [OF p] have "rc \<in> {PROC_ACTIVITY_OK, PROC_ACTIVITY_ERR_PARSE}" by simp
      with True r p that(2) show thesis by blast
    qed
  qed
qed

text \<open>A sample that was read is paid with an open file: after a line of \<open>/proc/[pid]/stat\<close> has been read, whether it parses
  or not, the stream is never closed, so the number of open files grows by one with every
  successful sample; on the other paths it is unchanged.\<close>

theorem sample_now_leaks_file:
  assumes "proc_activity_sample_now os pid (Some old) w = (rc, q, w')"
  shows "w_open w' = (if rc = PROC_ACTIVITY_OK \<or> rc = PROC_ACTIVITY_ERR_PARSE then Suc (w_open w) else w_open w)"
  using assms by (rule sample_now_result) auto

theorem sample_now_leaks_file_witness:
  "w_open (snd (snd (proc_activity_sample_now (os_fine\<lparr>os_fopen := \<lambda>_ _. Some ''1 (x) R 0''\<rparr>) 7
     (Some proc_activity_sample_reset) world0))) = 1"
proof -
  let ?os = "os_fine\<lparr>os_fopen := \<lambda>_ _. Some ''1 (x) R 0''\<rparr>"
  obtain rc q w' where s: "proc_activity_sample_now ?os 7 (Some proc_activity_sample_reset) world0 = (rc, q, w')"
    by (rule prod_cases3)
  have "rc \<in> {PROC_ACTIVITY_OK, PROC_ACTIVITY_ERR_PARSE}"
    using s length_show_pid [of 7]
    by (auto simp: proc_activity_sample_now_def get_time_ns_def sysconf_def clock_gettime_def fopen_r_def os_fine_def
        Let_def split: prod.splits dest!: parse_stat_line_cases)
  with sample_now_leaks_file [OF s] s show ?thesis by (auto simp: world0_def)
qed

subsection \<open>Scores\<close>

definition activity_config_ok :: "proc_activity_config \<Rightarrow> bool" where
  "activity_config_ok cfg \<longleftrightarrow>
     (case pc_major_fault_weight cfg of Fin r \<Rightarrow> 0 \<le> r | _ \<Rightarrow> False) \<and>
     (case pc_cpu_ratio_full_scale cfg of Fin r \<Rightarrow> 0 < r | _ \<Rightarrow> False) \<and>
     (case pc_faults_per_sec_full_scale cfg of Fin r \<Rightarrow> 0 < r | _ \<Rightarrow> False) \<and>
     (case pc_rss_mib_full_scale cfg of Fin r \<Rightarrow> 0 < r | _ \<Rightarrow> False)"

lemma activity_config_okE:
  assumes "activity_config_ok cfg"
  obtains mw cs fs rs where "pc_major_fault_weight cfg = Fin mw" "0 \<le> mw" "pc_cpu_ratio_full_scale cfg = Fin cs" "0 < cs"
    "pc_faults_per_sec_full_scale cfg = Fin fs" "0 < fs" "pc_rss_mib_full_scale cfg = Fin rs" "0 < rs"
  using assms by (auto simp: activity_config_ok_def split: cdouble.splits)

lemma activity_config_default_ok: "activity_config_ok (proc_activity_config_default rnd)"
  by (simp add: activity_config_ok_def proc_activity_config_default_def)

text \<open>The three rounded weights do not add up to more than 1, which holds in binary64 (the sum is 1) and in exact arithmetic.\<close>

definition weights_ok :: "rounding \<Rightarrow> bool" where
  "weights_ok rnd \<longleftrightarrow> fle (total_score rnd (Fin 1) (Fin 1) (Fin 1)) (Fin 1)"

lemma weights_ok_exact: "weights_ok Fin"
  by (simp add: weights_ok_def total_score_def)

lemma clamp01_unit: "fle (Fin 0) d \<Longrightarrow> unit_score (clamp01 d)"
  by (cases d) (auto simp: clamp01_def)

lemma clamp01_id: "unit_score d \<Longrightarrow> clamp01 d = d"
  by (cases d) (auto simp: clamp01_def)

lemma weighted_term:
  assumes "ieee_rnd rnd" "0 \<le> p" "p \<le> 1" "unit_score a"
  shows "fle (Fin 0) (fmul rnd (rnd p) a)" "fle (fmul rnd (rnd p) a) (fmul rnd (rnd p) (Fin 1))"
proof -
  obtain x where x: "a = Fin x" "0 \<le> x" "x \<le> 1" using assms(4) by (rule unit_scoreE)
  obtain q where q: "rnd p = Fin q" "0 \<le> q" using ieee_rnd_unit [OF assms(1-3)] by (rule unit_scoreE)
  from x q assms(1) show "fle (Fin 0) (fmul rnd (rnd p) a)" "fle (fmul rnd (rnd p) a) (fmul rnd (rnd p) (Fin 1))"
    by (simp_all add: ieee_rnd_nonneg ieee_rnd_mono mult_left_le)
qed

lemma total_score_unit:
  assumes rnd: "ieee_rnd rnd" and w: "weights_ok rnd" and u: "unit_score a" "unit_score b" "unit_score c"
  shows "unit_score (total_score rnd a b c)"
proof -
  note ta = weighted_term [OF rnd _ _ u(1), of "2 / 10"] and tb = weighted_term [OF rnd _ _ u(2), of "5 / 10"]
    and tc = weighted_term [OF rnd _ _ u(3), of "3 / 10"]
  have "fle (Fin 0) (total_score rnd a b c)"
    unfolding total_score_def using ta tb tc by (intro fadd_nonneg rnd) simp_all
  moreover have "fle (total_score rnd a b c) (total_score rnd (Fin 1) (Fin 1) (Fin 1))"
    unfolding total_score_def using ta tb tc by (intro fadd_mono fadd_nonneg rnd) simp_all
  then have "fle (total_score rnd a b c) (Fin 1)" using w fle_trans by (auto simp: weights_ok_def)
  ultimately show ?thesis by (cases "total_score rnd a b c") simp_all
qed

lemma double_of_int_pos:
  assumes "ieee_rnd rnd" "0 < k"
  shows "fle (Fin 1) (double_of_int rnd k)"
  using ieee_rnd_mono [OF assms(1), of 1 "real_of_int k"] assms by (simp add: double_of_int_def ieee_rnd_def)

lemma double_of_int_finite:
  assumes "ieee_rnd rnd" "0 < k" "k \<le> 2 ^ 64"
  obtains y where "double_of_int rnd k = Fin y" "1 \<le> y"
proof -
  have "real_of_int k \<le> 2 ^ 64" using assms(3) by (metis of_int_le_iff of_int_numeral of_int_power)
  then have "isfinite (double_of_int rnd k)" using assms(1,2) by (auto simp: double_of_int_def ieee_rnd_def)
  with double_of_int_pos [OF assms(1,2)] that show thesis by (cases "double_of_int rnd k") simp_all
qed

lemma double_of_u64_nonneg:
  assumes "ieee_rnd rnd" obtains a where "double_of_u64 rnd v = Fin a" "0 \<le> a" "rnd (real (unat v)) = Fin a"
proof -
  have "fle (Fin 0) (double_of_u64 rnd v)" by (simp add: double_of_u64_def ieee_rnd_nonneg [OF assms])
  with double_of_u64_finite [OF assms, of v] that show thesis
    by (cases "double_of_u64 rnd v") (simp_all add: double_of_u64_def)
qed

lemma fmul_nonneg_pos: "ieee_rnd rnd \<Longrightarrow> fle (Fin 0) d \<Longrightarrow> 0 < y \<Longrightarrow> fle (Fin 0) (fmul rnd d (Fin y))"
  by (erule fle_zero_cases) (auto simp: inf_sgn_def intro: ieee_rnd_nonneg)

text \<open>A successful comparison went through \<open>delta_rates\<close> with a positive elapsed time.\<close>

lemma compute_delta_OK:
  assumes "proc_activity_compute_delta rnd (Some old) (Some new) (Some cfg) outp = (PROC_ACTIVITY_OK, Some d)"
  obtains clock_ticks el where "0 < clock_ticks" "clock_ticks \<in> {ps_clock_ticks_per_sec old, ps_clock_ticks_per_sec new}"
    "el = fdiv rnd (double_of_u64 rnd (ps_timestamp_ns new - ps_timestamp_ns old)) (double_of_u64 rnd PROC_ACTIVITY_NSEC_PER_SEC)"
    "\<not> fle el (Fin 0)"
    "d = delta_verdict new cfg (delta_rates rnd old new cfg clock_ticks
       (proc_activity_delta_reset\<lparr>pd_pid := ps_pid new, pd_elapsed_sec := el\<rparr>))"
    "ps_timestamp_ns old < ps_timestamp_ns new" "ps_minflt old \<le> ps_minflt new" "ps_majflt old \<le> ps_majflt new"
    "ps_utime_ticks old + ps_stime_ticks old \<le> ps_utime_ticks new + ps_stime_ticks new"
    "ps_pid old = ps_pid new" "ps_starttime_ticks old = ps_starttime_ticks new"
proof -
  let ?ct = "if ps_clock_ticks_per_sec new \<le> 0 then ps_clock_ticks_per_sec old else ps_clock_ticks_per_sec new"
  from assms show thesis
    by (intro that [of ?ct])
      (auto simp: proc_activity_compute_delta_def Let_def not_le not_less split: if_splits)
qed

lemma delta_verdict_fields [simp]:
  "pd_cpu_score (delta_verdict new cfg d) = pd_cpu_score d" "pd_fault_score (delta_verdict new cfg d) = pd_fault_score d"
  "pd_rss_score (delta_verdict new cfg d) = pd_rss_score d" "pd_total_score (delta_verdict new cfg d) = pd_total_score d"
  "pd_pid (delta_verdict new cfg d) = pd_pid d" "pd_valid (delta_verdict new cfg d)"
  "pd_cpu_ratio (delta_verdict new cfg d) = pd_cpu_ratio d" "pd_faults_per_sec (delta_verdict new cfg d) = pd_faults_per_sec d"
  "pd_cpu_ticks_delta (delta_verdict new cfg d) = pd_cpu_ticks_delta d" "pd_minflt_delta (delta_verdict new cfg d) = pd_minflt_delta d"
  "pd_majflt_delta (delta_verdict new cfg d) = pd_majflt_delta d"
  by (simp_all add: delta_verdict_def Let_def)

lemma delta_rates_fields [simp]:
  "pd_pid (delta_rates rnd old new cfg ticks d) = pd_pid d"
  "pd_cpu_ticks_delta (delta_rates rnd old new cfg ticks d) =
     (ps_utime_ticks new + ps_stime_ticks new) - (ps_utime_ticks old + ps_stime_ticks old)"
  "pd_minflt_delta (delta_rates rnd old new cfg ticks d) = ps_minflt new - ps_minflt old"
  "pd_majflt_delta (delta_rates rnd old new cfg ticks d) = ps_majflt new - ps_majflt old"
  "pd_total_score (delta_rates rnd old new cfg ticks d) = total_score rnd (pd_cpu_score (delta_rates rnd old new cfg ticks d))
     (pd_fault_score (delta_rates rnd old new cfg ticks d)) (pd_rss_score (delta_rates rnd old new cfg ticks d))"
  by (simp_all add: delta_rates_def Let_def)

lemma elapsed_positive:
  assumes rnd: "ieee_rnd rnd" and el: "el = fdiv rnd (double_of_u64 rnd v) (double_of_u64 rnd PROC_ACTIVITY_NSEC_PER_SEC)"
    and "\<not> fle el (Fin 0)"
  obtains e where "el = Fin e" "0 < e"
proof -
  obtain a where a: "double_of_u64 rnd v = Fin a" "0 \<le> a" "rnd (real (unat v)) = Fin a" by (rule double_of_u64_nonneg [OF rnd])
  obtain y where y: "double_of_u64 rnd PROC_ACTIVITY_NSEC_PER_SEC = Fin y" "1 \<le> y"
    by (rule double_of_u64_pos [OF rnd, of PROC_ACTIVITY_NSEC_PER_SEC]) (simp_all add: PROC_ACTIVITY_NSEC_PER_SEC_def)
  obtain z where "rnd (a / y) = Fin z" by (rule ieee_rnd_div_finite [OF rnd a(3,2) y(2)])
  with a y el assms(3) that show thesis by (cases "y = 0") auto
qed

lemma delta_rates_scores:
  assumes rnd: "ieee_rnd rnd" and cfg: "activity_config_ok cfg" and ticks: "0 < ticks" "ticks \<le> 2 ^ 64"
    and el: "pd_elapsed_sec d = Fin e" "0 < e"
  shows "unit_score (pd_cpu_score (delta_rates rnd old new cfg ticks d))"
    "unit_score (pd_fault_score (delta_rates rnd old new cfg ticks d))"
    "unit_score (pd_rss_score (delta_rates rnd old new cfg ticks d))"
proof -
  obtain mw cs fs rs where c: "pc_major_fault_weight cfg = Fin mw" "0 \<le> mw" "pc_cpu_ratio_full_scale cfg = Fin cs" "0 < cs"
    "pc_faults_per_sec_full_scale cfg = Fin fs" "0 < fs" "pc_rss_mib_full_scale cfg = Fin rs" "0 < rs"
    using cfg by (rule activity_config_okE)
  have cnt: "fle (Fin 0) (double_of_u64 rnd v)" for v by (simp add: double_of_u64_def ieee_rnd_nonneg [OF rnd])
  obtain y where y: "double_of_int rnd ticks = Fin y" "1 \<le> y" by (rule double_of_int_finite [OF rnd ticks])
  have "fle (Fin 0) (fmul rnd (Fin mw) (double_of_u64 rnd v))" for v
    by (rule double_of_u64_nonneg [OF rnd, of v]) (use c(2) in \<open>simp add: ieee_rnd_nonneg [OF rnd]\<close>)
  then show "unit_score (pd_fault_score (delta_rates rnd old new cfg ticks d))"
    using c el cnt by (auto simp: delta_rates_def Let_def intro!: clamp01_unit fdiv_nonneg fadd_nonneg rnd)
  show "unit_score (pd_cpu_score (delta_rates rnd old new cfg ticks d))"
    using c el cnt y by (auto simp: delta_rates_def Let_def intro!: clamp01_unit fdiv_nonneg rnd)
  have "fle (Fin 0) (fmul rnd (double_of_int rnd (ps_rss_pages new)) (double_of_u64 rnd (ps_page_size new)))"
    if pos: "0 < ps_rss_pages new" "0 < ps_page_size new"
  proof -
    have "fle (Fin 0) (double_of_int rnd (ps_rss_pages new))"
      using pos(1) by (simp add: double_of_int_def ieee_rnd_nonneg [OF rnd])
    moreover obtain z where "double_of_u64 rnd (ps_page_size new) = Fin z" "1 \<le> z"
      by (rule double_of_u64_pos [OF rnd, of "ps_page_size new"]) (use pos(2) in \<open>auto simp: word_less_nat_alt\<close>)
    ultimately show ?thesis using fmul_nonneg_pos [OF rnd] by simp
  qed
  then show "unit_score (pd_rss_score (delta_rates rnd old new cfg ticks d))"
    using c by (auto simp: delta_rates_def Let_def ieee_rnd_nonneg [OF rnd] intro!: clamp01_unit fdiv_nonneg rnd)
qed

lemma compute_delta_unit:
  assumes "ieee_rnd rnd" and "weights_ok rnd" and "activity_config_ok cfg"
    and "ps_clock_ticks_per_sec old < 2 ^ 63" and "ps_clock_ticks_per_sec new < 2 ^ 63"
    and "proc_activity_compute_delta rnd (Some old) (Some new) (Some cfg) outp = (PROC_ACTIVITY_OK, Some d)"
  shows "unit_score (pd_cpu_score d)" "unit_score (pd_fault_score d)" "unit_score (pd_rss_score d)"
    "unit_score (pd_total_score d)" "pd_valid d" "pd_pid d = ps_pid new"
proof -
  obtain ct el where r: "0 < ct" "ct \<in> {ps_clock_ticks_per_sec old, ps_clock_ticks_per_sec new}"
    and el: "el = fdiv rnd (double_of_u64 rnd (ps_timestamp_ns new - ps_timestamp_ns old)) (double_of_u64 rnd PROC_ACTIVITY_NSEC_PER_SEC)"
    "\<not> fle el (Fin 0)"
    and d: "d = delta_verdict new cfg (delta_rates rnd old new cfg ct
       (proc_activity_delta_reset\<lparr>pd_pid := ps_pid new, pd_elapsed_sec := el\<rparr>))"
    by (rule compute_delta_OK [OF assms(6)])
  obtain e where e: "el = Fin e" "0 < e" by (rule elapsed_positive [OF assms(1) el])
  let ?d0 = "proc_activity_delta_reset\<lparr>pd_pid := ps_pid new, pd_elapsed_sec := el\<rparr>"
  have e0: "pd_elapsed_sec ?d0 = Fin e" using e by simp
  have ct: "ct \<le> 2 ^ 64" using r(2) assms(4,5) by auto
  note u = delta_rates_scores [OF assms(1,3) r(1) ct e0 e(2), of old new]
  from u show "unit_score (pd_cpu_score d)" "unit_score (pd_fault_score d)" "unit_score (pd_rss_score d)"
    by (simp_all only: d delta_verdict_fields)
  from total_score_unit [OF assms(1,2) u] show "unit_score (pd_total_score d)"
    by (simp only: d delta_verdict_fields delta_rates_fields)
  show "pd_valid d" "pd_pid d = ps_pid new" by (simp_all add: d)
qed

text \<open>Two samples of one process, two seconds apart, for concrete evaluations.\<close>

definition demo_old :: proc_activity_sample where
  "demo_old = stat_sample 7 4096 100 1000000000 ''x'' CHR ''S'' demo_vals"

definition demo_new :: proc_activity_sample where
  "demo_new = stat_sample 7 4096 100 3000000000 ''x'' CHR ''R'' (demo_vals[6 := 900, 10 := 90])"

lemma demo_samples [simp]:
  "ps_valid demo_old" "ps_valid demo_new" "ps_pid demo_old = 7" "ps_pid demo_new = 7"
  "ps_timestamp_ns demo_old = 1000000000" "ps_timestamp_ns demo_new = 3000000000"
  "ps_starttime_ticks demo_old = 9000" "ps_starttime_ticks demo_new = 9000"
  "ps_utime_ticks demo_old = 40" "ps_stime_ticks demo_old = 20" "ps_utime_ticks demo_new = 90" "ps_stime_ticks demo_new = 20"
  "ps_minflt demo_old = 500" "ps_minflt demo_new = 900" "ps_majflt demo_old = 3" "ps_majflt demo_new = 3"
  "ps_clock_ticks_per_sec demo_old = 100" "ps_clock_ticks_per_sec demo_new = 100" "ps_rss_pages demo_new = 600"
  "ps_state demo_new = CHR ''R''"
  by (simp_all add: demo_old_def demo_new_def stat_sample_def demo_vals_def)

lemma demo_delta:
  obtains d where "proc_activity_compute_delta Fin (Some demo_old) (Some demo_new) (Some (proc_activity_config_default Fin))
    (Some proc_activity_delta_reset) = (PROC_ACTIVITY_OK, Some d)"
  by (simp add: proc_activity_compute_delta_def Let_def double_of_u64_def PROC_ACTIVITY_NSEC_PER_SEC_def)

text \<open>C27: Every successful comparison yields scores between 0 and 1. With a configuration whose full scales are positive and whose fault
  weight is not negative, the three scores and the weighted total are numbers in the unit interval: no NaN and
  no infinity reaches the ranking, even if a rate overflows. The hypotheses on the rounding are those of
  binary64.\<close>

theorem compute_delta_scores:
  assumes "ieee_rnd rnd" and "weights_ok rnd" and "activity_config_ok cfg"
    and "ps_clock_ticks_per_sec old < 2 ^ 63" and "ps_clock_ticks_per_sec new < 2 ^ 63"
    and "proc_activity_compute_delta rnd (Some old) (Some new) (Some cfg) outp = (PROC_ACTIVITY_OK, Some d)"
  shows "unit_score (pd_cpu_score d) \<and> unit_score (pd_fault_score d) \<and> unit_score (pd_rss_score d) \<and>
    unit_score (pd_total_score d)"
  using compute_delta_unit [OF assms] by simp

theorem compute_delta_scores_witness:
  "\<exists>d. proc_activity_compute_delta Fin (Some demo_old) (Some demo_new) (Some (proc_activity_config_default Fin))
      (Some proc_activity_delta_reset) = (PROC_ACTIVITY_OK, Some d) \<and> unit_score (pd_total_score d)"
proof -
  obtain d where d: "proc_activity_compute_delta Fin (Some demo_old) (Some demo_new) (Some (proc_activity_config_default Fin))
    (Some proc_activity_delta_reset) = (PROC_ACTIVITY_OK, Some d)" by (rule demo_delta)
  with compute_delta_scores [OF ieee_rnd_exact weights_ok_exact activity_config_default_ok _ _ d] show ?thesis by simp
qed

text \<open>The verdict of a successful comparison. The pair of samples is of one process with increasing time and non-decreasing
  counters; the differences are exact in 64 bits; and the process counts as active exactly when it is not a zombie, its
  resident set reaches the minimum (read as a signed number), and its CPU ratio or its fault rate reaches the threshold or it is running or
  in uninterruptible sleep.\<close>

theorem compute_delta_verdict:
  assumes "proc_activity_compute_delta rnd (Some old) (Some new) (Some cfg) outp = (PROC_ACTIVITY_OK, Some d)"
  shows "pd_pid d = ps_pid old \<and> pd_pid d = ps_pid new \<and> ps_starttime_ticks old = ps_starttime_ticks new \<and>
    unat (ps_timestamp_ns old) < unat (ps_timestamp_ns new) \<and>
    unat (pd_minflt_delta d) = unat (ps_minflt new) - unat (ps_minflt old) \<and>
    unat (pd_majflt_delta d) = unat (ps_majflt new) - unat (ps_majflt old) \<and>
    (pd_active d \<longleftrightarrow> ps_state new \<noteq> CHR ''Z'' \<and> sint (pc_min_rss_pages cfg) \<le> ps_rss_pages new \<and>
       (fle (pc_active_cpu_ratio_threshold cfg) (pd_cpu_ratio d) \<or>
        fle (pc_active_faults_per_sec_threshold cfg) (pd_faults_per_sec d) \<or> ps_state new \<in> {CHR ''R'', CHR ''D''}))"
proof -
  obtain ct el where r: "d = delta_verdict new cfg (delta_rates rnd old new cfg ct
       (proc_activity_delta_reset\<lparr>pd_pid := ps_pid new, pd_elapsed_sec := el\<rparr>))"
    "ps_timestamp_ns old < ps_timestamp_ns new" "ps_minflt old \<le> ps_minflt new" "ps_majflt old \<le> ps_majflt new"
    "ps_pid old = ps_pid new" "ps_starttime_ticks old = ps_starttime_ticks new"
    by (rule compute_delta_OK [OF assms])
  have "pd_active (delta_verdict new cfg q) \<longleftrightarrow> ps_state new \<noteq> CHR ''Z'' \<and> sint (pc_min_rss_pages cfg) \<le> ps_rss_pages new \<and>
       (fle (pc_active_cpu_ratio_threshold cfg) (pd_cpu_ratio q) \<or>
        fle (pc_active_faults_per_sec_threshold cfg) (pd_faults_per_sec q) \<or> ps_state new \<in> {CHR ''R'', CHR ''D''})" for q
    by (auto simp: delta_verdict_def Let_def)
  with r show ?thesis by (simp add: unat_u64_sub word_less_nat_alt)
qed

theorem compute_delta_verdict_witness:
  "\<exists>d. proc_activity_compute_delta Fin (Some demo_old) (Some demo_new) (Some (proc_activity_config_default Fin))
      (Some proc_activity_delta_reset) = (PROC_ACTIVITY_OK, Some d) \<and> pd_active d \<and> unat (pd_minflt_delta d) = 400"
proof -
  obtain d where d: "proc_activity_compute_delta Fin (Some demo_old) (Some demo_new) (Some (proc_activity_config_default Fin))
    (Some proc_activity_delta_reset) = (PROC_ACTIVITY_OK, Some d)" by (rule demo_delta)
  have "sint (256 :: u64) \<le> 600" by simp
  with compute_delta_verdict [OF d] d show ?thesis by (simp add: proc_activity_config_default_def)
qed

end
