(* ===== verification/Bank_Profile_Correct.thy ===== *)
theory Bank_Profile_Correct
  imports Bank_Profile
begin

text \<open>
  Correctness of bank profiles. A profile denotes the histogram that maps every bank class to its
  page count; adding and merging are pointwise sums of histograms, and the overlap score is the weighted
  Jaccard index of two histograms. Sampling keeps the counters balanced and ends.
\<close>

subsection \<open>Histograms\<close>

fun class_count :: "bank_profile_entry list \<Rightarrow> u64 \<Rightarrow> u64" where
  "class_count [] c = 0"
| "class_count (e # es) c = (if be_bank_class e = c then be_page_count e else class_count es c)"

lemma count_for_class_eq: "bank_profile_count_for_class (Some p) c = class_count (bp_entries p) c"
proof -
  have "(case first_index (\<lambda>e. be_bank_class e = c) es of None \<Rightarrow> 0 | Some i \<Rightarrow> be_page_count (es ! i)) =
      class_count es c" for es
    by (induction es) (auto simp del: first_index_None split: option.split)
  then show ?thesis by (simp add: bank_profile_count_for_class_def)
qed

definition classes :: "bank_profile \<Rightarrow> u64 set" where
  "classes p = be_bank_class ` set (bp_entries p)"

definition profile_inv :: "bank_profile \<Rightarrow> bool" where
  "profile_inv p \<longleftrightarrow> distinct (map be_bank_class (bp_entries p)) \<and>
     length (bp_entries p) \<le> BANK_PROFILE_MAX_ENTRIES"

definition page_sum :: "bank_profile \<Rightarrow> u64" where
  "page_sum p = sum_list (map be_page_count (bp_entries p))"

lemma class_count_absent: "c \<notin> be_bank_class ` set es \<Longrightarrow> class_count es c = 0"
  by (induction es) auto

lemma class_count_append: "class_count (es @ fs) c =
    (if c \<in> be_bank_class ` set es then class_count es c else class_count fs c)"
  by (induction es) auto

lemma class_count_update:
  assumes "first_index (\<lambda>e. be_bank_class e = c) es = Some i" "be_bank_class e = c"
  shows "class_count (es[i := e]) d = (if d = c then be_page_count e else class_count es d)"
  using assms
proof (induction es arbitrary: i)
  case Nil
  then show ?case by simp
next
  case (Cons a es)
  show ?case
  proof (cases "be_bank_class a = c")
    case True
    with Cons.prems show ?thesis by auto
  next
    case False
    with Cons.prems obtain k where "first_index (\<lambda>e. be_bank_class e = c) es = Some k" "i = Suc k" by auto
    with Cons.IH [of k] Cons.prems(2) False show ?thesis by auto
  qed
qed

lemma class_count_first:
  "first_index (\<lambda>e. be_bank_class e = c) es = Some i \<Longrightarrow> class_count es c = be_page_count (es ! i)"
  by (induction es arbitrary: i) auto

lemma sum_list_update_word:
  "i < length xs \<Longrightarrow> sum_list ((map f xs)[i := f (xs ! i) + k]) = sum_list (map f xs) + (k :: u64)"
  by (induction xs arbitrary: i) (auto simp: nth_Cons' less_Suc_eq_0_disj algebra_simps)

text \<open>Adding to a class: every branch.\<close>

lemma add_count_cases:
  assumes add: "profile_add_bank_class_count p c pc bc = (rc, p')"
  shows "(rc = BANK_PROFILE_OK \<and>
      (\<forall>d. class_count (bp_entries p') d = class_count (bp_entries p) d + (if d = c then pc else 0)) \<and>
      page_sum p' = page_sum p + pc \<and> (profile_inv p \<longrightarrow> profile_inv p') \<and>
      classes p' = (if pc = 0 \<and> bc = 0 then classes p else insert c (classes p)) \<and>
      p' = p\<lparr>bp_entries := bp_entries p'\<rparr>) \<or>
    (rc = BANK_PROFILE_ERR_TOO_MANY_CLASSES \<and> c \<notin> classes p \<and>
      BANK_PROFILE_MAX_ENTRIES \<le> length (bp_entries p) \<and> bp_entries p' = bp_entries p \<and>
      (\<exists>m. p' = p\<lparr>bp_error_message := m\<rparr>))"
proof (cases "pc = 0 \<and> bc = 0")
  case True
  with add show ?thesis by (auto simp: profile_add_bank_class_count_def)
next
  case nz: False
  show ?thesis
  proof (cases "first_index (\<lambda>e. be_bank_class e = c) (bp_entries p)")
    case None
    then have c: "c \<notin> classes p" by (auto simp: classes_def)
    show ?thesis
    proof (cases "BANK_PROFILE_MAX_ENTRIES \<le> length (bp_entries p)")
      case True
      with nz None add have "rc = BANK_PROFILE_ERR_TOO_MANY_CLASSES"
        "p' = profile_set_error p ''too many unique bank classes''"
        by (auto simp: profile_add_bank_class_count_def simp del: first_index_None)
      with c True show ?thesis by (auto simp: profile_set_error_def)
    next
      case False
      let ?e = "\<lparr>be_bank_class = c, be_page_count = pc, be_byte_count = bc\<rparr>"
      from False nz None add have p': "rc = BANK_PROFILE_OK" "p' = p\<lparr>bp_entries := bp_entries p @ [?e]\<rparr>"
        by (auto simp: profile_add_bank_class_count_def simp del: first_index_None)
      have "class_count (bp_entries p') d = class_count (bp_entries p) d + (if d = c then pc else 0)" for d
        using c class_count_absent [of d "bp_entries p"] by (auto simp: p' class_count_append classes_def)
      moreover have "classes p' = insert c (classes p)" by (simp add: p' classes_def)
      moreover have "page_sum p' = page_sum p + pc" by (simp add: p' page_sum_def)
      moreover have "profile_inv p \<longrightarrow> profile_inv p'"
        using False c by (auto simp: profile_inv_def p' classes_def)
      ultimately show ?thesis using nz p' by auto
    qed
  next
    case (Some i)
    let ?e = "bp_entries p ! i"
    let ?e' = "?e\<lparr>be_page_count := be_page_count ?e + pc, be_byte_count := be_byte_count ?e + bc\<rparr>"
    from first_index_lt [OF Some] first_index_holds [OF Some]
    have i: "i < length (bp_entries p)" "be_bank_class ?e = c" by simp_all
    have p': "rc = BANK_PROFILE_OK" "p' = p\<lparr>bp_entries := (bp_entries p)[i := ?e']\<rparr>"
      using add nz Some by (simp_all add: profile_add_bank_class_count_def Let_def)
    have same: "map be_bank_class (bp_entries p') = map be_bank_class (bp_entries p)"
      using i by (simp add: p' map_list_update_same)
    then have "set (map be_bank_class (bp_entries p')) = set (map be_bank_class (bp_entries p))" by (rule arg_cong)
    then have "classes p' = classes p" by (simp only: classes_def set_map)
    moreover have "c \<in> classes p" using i by (auto simp: classes_def)
    moreover have "page_sum p' = page_sum p + pc"
      using sum_list_update_word [OF i(1), of be_page_count pc] by (simp add: page_sum_def p' map_update)
    moreover have "class_count (bp_entries p') d = class_count (bp_entries p) d + (if d = c then pc else 0)" for d
      using class_count_update [OF Some, of ?e' d] class_count_first [OF Some] i(2) by (simp add: p')
    ultimately show ?thesis using same p' nz by (auto simp: profile_inv_def insert_absorb)
  qed
qed

subsection \<open>Merging\<close>

fun entries_sum :: "bank_profile_entry list \<Rightarrow> u64 \<Rightarrow> u64" where
  "entries_sum [] c = 0"
| "entries_sum (e # es) c = (if be_bank_class e = c then be_page_count e else 0) + entries_sum es c"

lemma entries_sum_count: "distinct (map be_bank_class es) \<Longrightarrow> entries_sum es c = class_count es c"
proof (induction es)
  case Nil
  then show ?case by simp
next
  case (Cons e es)
  have "c \<notin> be_bank_class ` set es \<Longrightarrow> class_count es c = 0" by (rule class_count_absent)
  with Cons show ?case by auto
qed

lemma same_but_entries:
  "(q :: bank_profile) = p\<lparr>bp_entries := bp_entries q\<rparr> \<Longrightarrow> r = q\<lparr>bp_entries := bp_entries r\<rparr> \<Longrightarrow>
   r = p\<lparr>bp_entries := bp_entries r\<rparr>"
  by (cases p; cases q; cases r) simp

lemma merge_entries_OK:
  "merge_entries es dst = (BANK_PROFILE_OK, dst') \<Longrightarrow>
   (\<forall>c. class_count (bp_entries dst') c = class_count (bp_entries dst) c + entries_sum es c) \<and>
   page_sum dst' = page_sum dst + sum_list (map be_page_count es) \<and> (profile_inv dst \<longrightarrow> profile_inv dst') \<and>
   classes dst' \<subseteq> classes dst \<union> be_bank_class ` set es \<and> dst' = dst\<lparr>bp_entries := bp_entries dst'\<rparr>"
proof (induction es arbitrary: dst)
  case Nil
  then show ?case by simp
next
  case (Cons e es)
  obtain rc d1 where add:
    "profile_add_bank_class_count dst (be_bank_class e) (be_page_count e) (be_byte_count e) = (rc, d1)"
    by (rule prod.exhaust)
  with Cons.prems have rc: "rc = BANK_PROFILE_OK" and rest: "merge_entries es d1 = (BANK_PROFILE_OK, dst')"
    by (cases rc; simp)+
  from add_count_cases [OF add] rc have a:
    "\<forall>d. class_count (bp_entries d1) d = class_count (bp_entries dst) d + (if d = be_bank_class e then be_page_count e else 0)"
    "page_sum d1 = page_sum dst + be_page_count e" "profile_inv dst \<longrightarrow> profile_inv d1"
    "classes d1 \<subseteq> insert (be_bank_class e) (classes dst)" "d1 = dst\<lparr>bp_entries := bp_entries d1\<rparr>"
    by (auto split: if_splits)
  note IH = Cons.IH [OF rest]
  have "dst' = dst\<lparr>bp_entries := bp_entries dst'\<rparr>" using IH a(5) by (metis same_but_entries)
  with IH a show ?case by (auto simp: add.assoc)
qed

lemma merge_entries_rc:
  "fst (merge_entries es dst) \<in> {BANK_PROFILE_OK, BANK_PROFILE_ERR_TOO_MANY_CLASSES}"
proof (induction es arbitrary: dst)
  case Nil
  then show ?case by simp
next
  case (Cons e es)
  obtain rc d1 where add:
    "profile_add_bank_class_count dst (be_bank_class e) (be_page_count e) (be_byte_count e) = (rc, d1)"
    by (rule prod.exhaust)
  from add_count_cases [OF add] add Cons.IH [of d1] show ?case by auto
qed

subsection \<open>The overlap score\<close>

text \<open>Page counts as natural numbers, and the two sums of the weighted Jaccard index.\<close>

definition pages_of :: "bank_profile \<Rightarrow> u64 \<Rightarrow> nat" where
  "pages_of p c = unat (bank_profile_count_for_class (Some p) c)"

definition total_of :: "bank_profile \<Rightarrow> nat" where
  "total_of p = (\<Sum>c \<in> classes p. pages_of p c)"

definition common_pages :: "bank_profile \<Rightarrow> bank_profile \<Rightarrow> nat" where
  "common_pages a b = (\<Sum>c \<in> classes a \<union> classes b. min (pages_of a c) (pages_of b c))"

definition union_pages :: "bank_profile \<Rightarrow> bank_profile \<Rightarrow> nat" where
  "union_pages a b = (\<Sum>c \<in> classes a \<union> classes b. max (pages_of a c) (pages_of b c))"

lemma finite_classes [simp]: "finite (classes p)"
  by (simp add: classes_def)

lemma pages_of_absent: "c \<notin> classes p \<Longrightarrow> pages_of p c = 0"
  by (simp add: pages_of_def count_for_class_eq class_count_absent classes_def)

lemma common_pages_commute: "common_pages a b = common_pages b a"
  by (simp add: common_pages_def Un_commute min.commute)

lemma union_pages_commute: "union_pages a b = union_pages b a"
  by (simp add: union_pages_def Un_commute max.commute)

lemma common_le_union: "common_pages a b \<le> union_pages a b"
  unfolding common_pages_def union_pages_def by (rule sum_mono) simp

lemma union_le_totals: "union_pages a b \<le> total_of a + total_of b"
proof -
  have "union_pages a b \<le> (\<Sum>c \<in> classes a \<union> classes b. pages_of a c + pages_of b c)"
    unfolding union_pages_def by (rule sum_mono) simp
  also have "\<dots> = (\<Sum>c \<in> classes a \<union> classes b. pages_of a c) + (\<Sum>c \<in> classes a \<union> classes b. pages_of b c)"
    by (rule sum.distrib)
  also have "(\<Sum>c \<in> classes a \<union> classes b. pages_of a c) = total_of a"
    unfolding total_of_def by (rule sum.mono_neutral_right) (auto simp: pages_of_absent)
  also have "(\<Sum>c \<in> classes a \<union> classes b. pages_of b c) = total_of b"
    unfolding total_of_def by (rule sum.mono_neutral_right) (auto simp: pages_of_absent)
  finally show ?thesis .
qed

text \<open>Sums over entries are sums over classes.\<close>

lemma sum_list_entries:
  assumes "distinct (map be_bank_class es)"
  shows "sum_list (map (\<lambda>e. F (be_bank_class e) (be_page_count e)) es) =
    (\<Sum>c \<in> be_bank_class ` set es. F c (class_count es c))"
  using assms
proof (induction es)
  case Nil
  then show ?case by simp
next
  case (Cons e es)
  then have e: "be_bank_class e \<notin> be_bank_class ` set es" by auto
  have "(\<Sum>c \<in> be_bank_class ` set es. F c (class_count (e # es) c)) =
      (\<Sum>c \<in> be_bank_class ` set es. F c (class_count es c))"
    by (rule sum.cong) (use e in auto)
  with Cons e show ?case by simp
qed

lemma unat_sum_list:
  "sum_list (map unat ws) < 2 ^ 64 \<Longrightarrow> unat (sum_list ws :: u64) = sum_list (map unat ws)"
  by (induction ws) (auto simp: unat_u64_add)

lemma overlap_scan_a_eq:
  "overlap_scan_a b es (i, u) =
     (i + sum_list (map (\<lambda>e. min (be_page_count e) (class_count (bp_entries b) (be_bank_class e))) es),
      u + sum_list (map (\<lambda>e. max (be_page_count e) (class_count (bp_entries b) (be_bank_class e))) es))"
  by (induction es arbitrary: i u) (auto simp: Let_def count_for_class_eq min_def max_def add.assoc)

lemma overlap_scan_b_eq:
  "overlap_scan_b a es u =
     u + sum_list (map be_page_count (filter (\<lambda>e. be_bank_class e \<notin> classes a) es))"
  by (induction es arbitrary: u) (auto simp: list_ex_iff classes_def image_iff add.assoc)

lemma unat_min_max: "unat (min x y :: u64) = min (unat x) (unat y)" "unat (max x y :: u64) = max (unat x) (unat y)"
  by (auto simp: min_def max_def word_le_nat_alt)

lemma class_count_filter: "P c \<Longrightarrow> class_count (filter (\<lambda>e. P (be_bank_class e)) es) c = class_count es c"
  by (induction es) auto

lemma overlap_sums:
  assumes a: "profile_inv a" and b: "profile_inv b" and small: "total_of a + total_of b < 2 ^ 64"
  obtains i u where "overlap_scan_a b (bp_entries a) (0, 0) = (i, u)"
    "unat i = common_pages a b" "unat (overlap_scan_b a (bp_entries b) u) = union_pages a b"
proof -
  let ?ea = "bp_entries a" and ?eb = "bp_entries b"
  let ?mins = "map (\<lambda>e. min (be_page_count e) (class_count ?eb (be_bank_class e))) ?ea"
  let ?maxs = "map (\<lambda>e. max (be_page_count e) (class_count ?eb (be_bank_class e))) ?ea"
  let ?new = "map be_page_count (filter (\<lambda>e. be_bank_class e \<notin> classes a) ?eb)"
  have da: "distinct (map be_bank_class ?ea)" and db: "distinct (map be_bank_class ?eb)"
    using a b by (simp_all add: profile_inv_def)
  have bound: "union_pages a b < 2 ^ 64" using union_le_totals [of a b] small by simp
  have mins: "sum_list (map unat ?mins) = common_pages a b"
  proof -
    have "sum_list (map unat ?mins) = (\<Sum>c \<in> classes a. min (pages_of a c) (pages_of b c))"
      using sum_list_entries [OF da, of "\<lambda>c n. unat (min n (class_count ?eb c))"]
      by (simp add: comp_def unat_min_max classes_def pages_of_def count_for_class_eq)
    also have "\<dots> = common_pages a b"
      unfolding common_pages_def by (rule sum.mono_neutral_left) (auto simp: pages_of_absent)
    finally show ?thesis .
  qed
  have maxs: "sum_list (map unat ?maxs) = (\<Sum>c \<in> classes a. max (pages_of a c) (pages_of b c))"
    using sum_list_entries [OF da, of "\<lambda>c n. unat (max n (class_count ?eb c))"]
    by (simp add: comp_def unat_min_max classes_def pages_of_def count_for_class_eq)
  have new: "sum_list (map unat ?new) = (\<Sum>c \<in> classes b - classes a. max (pages_of a c) (pages_of b c))"
  proof -
    let ?f = "filter (\<lambda>e. be_bank_class e \<notin> classes a) ?eb"
    have df: "distinct (map be_bank_class ?f)" using db by (rule distinct_map_filter)
    have cls: "be_bank_class ` set ?f = classes b - classes a" by (auto simp: classes_def)
    have "sum_list (map unat ?new) = (\<Sum>c \<in> classes b - classes a. unat (class_count ?f c))"
      using sum_list_entries [OF df, of "\<lambda>c n. unat n"] by (simp only: cls map_map comp_def)
    also have "\<dots> = (\<Sum>c \<in> classes b - classes a. max (pages_of a c) (pages_of b c))"
      by (rule sum.cong)
        (simp_all add: class_count_filter [of "\<lambda>c. c \<notin> classes a"] pages_of_absent, simp add: pages_of_def count_for_class_eq)
    finally show ?thesis .
  qed
  have union: "sum_list (map unat ?maxs) + sum_list (map unat ?new) = union_pages a b"
    unfolding maxs new union_pages_def
    by (subst sum.union_disjoint [symmetric]) (auto simp: Un_Diff_cancel)
  have i: "unat (sum_list ?mins) = common_pages a b"
    using unat_sum_list [of ?mins] mins common_le_union [of a b] bound by simp
  have u: "unat (sum_list ?maxs) = sum_list (map unat ?maxs)" "unat (sum_list ?new) = sum_list (map unat ?new)"
    using unat_sum_list [of ?maxs] unat_sum_list [of ?new] union bound by simp_all
  show thesis
  proof (rule that)
    show "overlap_scan_a b ?ea (0, 0) = (sum_list ?mins, sum_list ?maxs)" by (simp add: overlap_scan_a_eq)
    show "unat (sum_list ?mins) = common_pages a b" by (rule i)
    show "unat (overlap_scan_b a ?eb (sum_list ?maxs)) = union_pages a b"
      using union u bound unat_u64_add [of "sum_list ?maxs" "sum_list ?new"]
      by (simp only: overlap_scan_b_eq)
  qed
qed

subsection \<open>The dominant class\<close>

lemma finalize_scan_eq:
  "finalize_scan es (t, m, c) = (t', m', c') \<Longrightarrow>
   t' = t + sum_list (map be_page_count es) \<and> m \<le> m' \<and> (\<forall>e \<in> set es. be_page_count e \<le> m') \<and>
   (m' = m \<and> c' = c \<or> (\<exists>e \<in> set es. be_page_count e = m' \<and> be_bank_class e = c'))"
proof (induction es arbitrary: t m c)
  case Nil
  then show ?case by simp
next
  case (Cons e es)
  from Cons.IH [OF Cons.prems [unfolded finalize_scan.simps]] show ?case
    by (auto simp: add.assoc split: if_splits)
qed

subsection \<open>Sampling\<close>

text \<open>The balance of the counters, in the arithmetic of 64-bit words: every sampled page was translated or
  skipped for one reason, every translated page is in the histogram or had no class.\<close>

definition balanced :: "bank_profile \<Rightarrow> bool" where
  "balanced p \<longleftrightarrow> profile_inv p \<and>
     bp_pages_considered p = bp_pages_sampled p \<and>
     bp_pages_sampled p = bp_pages_translated p + bp_pages_skipped_not_present p + bp_pages_skipped_swapped p +
       bp_pages_skipped_pfn_unavailable p + bp_pages_skipped_translation_error p \<and>
     bp_pages_translated p = page_sum p + bp_pages_skipped_mapping_error p"

lemma balanced_reset: "balanced (bank_profile_reset\<lparr>bp_pid := pid, bp_page_size := ps\<rparr>)"
  by (simp add: balanced_def bank_profile_reset_def profile_inv_def page_sum_def)

lemma balanced_frame [simp]:
  "balanced (p\<lparr>bp_regions_seen := x\<rparr>) = balanced p" "balanced (p\<lparr>bp_regions_selected := x\<rparr>) = balanced p"
  "balanced (p\<lparr>bp_pages_seen := x\<rparr>) = balanced p"
  by (simp_all add: balanced_def profile_inv_def page_sum_def)

lemma sample_page_balanced:
  assumes "sample_page os ctx m va p w = (BANK_PROFILE_OK, p', w')" "balanced p"
  shows "balanced p' \<and> bp_page_size p' = bp_page_size p"
proof -
  let ?q = "p\<lparr>bp_pages_considered := bp_pages_considered p + 1, bp_pages_sampled := bp_pages_sampled p + 1\<rparr>"
  obtain rc tr w1 where
    tr: "addr_translate_va_to_pa os (Some ctx) va (Some addr_translation_zero) w = (rc, tr, w1)" by (rule prod_cases3)
  show ?thesis
  proof (cases "rc = ADDR_TRANSLATE_OK")
    case False
    with assms tr have "p' = count_translation_skip ?q rc" by (simp add: sample_page_def Let_def)
    with assms(2) False show ?thesis
      by (cases rc) (auto simp: count_translation_skip_def balanced_def profile_inv_def page_sum_def)
  next
    case ok: True
    let ?r = "?q\<lparr>bp_pages_translated := bp_pages_translated p + 1\<rparr>"
    show ?thesis
    proof (cases "dram_mapping_bank_class (Some m) (at_physical_address (the tr))")
      case (Inl e)
      with assms tr ok have "p' = ?r\<lparr>bp_pages_skipped_mapping_error := bp_pages_skipped_mapping_error p + 1\<rparr>"
        by (simp add: sample_page_def Let_def)
      with assms(2) show ?thesis by (auto simp: balanced_def profile_inv_def page_sum_def)
    next
      case (Inr c)
      with assms tr ok have "profile_add_bank_class_count ?r c 1 (bp_page_size p) = (BANK_PROFILE_OK, p')"
        by (auto simp: sample_page_def profile_add_bank_class_def Let_def split: prod.splits)
      from add_count_cases [OF this] have e: "p' = ?r\<lparr>bp_entries := bp_entries p'\<rparr>" "page_sum p' = page_sum ?r + 1"
        "profile_inv ?r \<longrightarrow> profile_inv p'" by auto
      have c: "bp_pages_considered p' = bp_pages_considered p + 1" "bp_pages_sampled p' = bp_pages_sampled p + 1"
        "bp_pages_translated p' = bp_pages_translated p + 1"
        "bp_pages_skipped_not_present p' = bp_pages_skipped_not_present p"
        "bp_pages_skipped_swapped p' = bp_pages_skipped_swapped p"
        "bp_pages_skipped_pfn_unavailable p' = bp_pages_skipped_pfn_unavailable p"
        "bp_pages_skipped_translation_error p' = bp_pages_skipped_translation_error p"
        "bp_pages_skipped_mapping_error p' = bp_pages_skipped_mapping_error p" "bp_page_size p' = bp_page_size p"
        by (subst e(1), simp)+
      with assms(2) e(2,3) show ?thesis by (simp add: balanced_def profile_inv_def page_sum_def)
    qed
  qed
qed

lemma sample_page_frame:
  assumes "sample_page os ctx m va p w = (rc, p', w')"
  shows "w_open w' = w_open w \<and> bp_page_size p' = bp_page_size p"
proof -
  obtain rc' tr w1 where
    tr: "addr_translate_va_to_pa os (Some ctx) va (Some addr_translation_zero) w = (rc', tr, w1)" by (rule prod_cases3)
  have "bp_page_size (count_translation_skip q e) = bp_page_size q" for q e
    by (simp add: count_translation_skip_def split: addr_translate_rc.split)
  moreover have "profile_add_bank_class q c n = (e, q') \<Longrightarrow> bp_page_size q' = bp_page_size q" for q q' c n e
    by (auto simp: profile_add_bank_class_def profile_add_bank_class_count_def profile_set_error_def Let_def
        split: option.splits if_splits)
  note this [dest!]
  ultimately show ?thesis
    using assms tr va_to_pa_open [OF tr]
    by (auto simp: sample_page_def Let_def split: if_splits sum.splits prod.splits)
qed

text \<open>The pages of a histogram as a natural number, and the bound that a sampling limit puts on it.\<close>

definition entry_total :: "bank_profile_entry list \<Rightarrow> nat" where
  "entry_total es = sum_list (map (\<lambda>e. unat (be_page_count e)) es)"

definition sampled_ok :: "bank_profile_config \<Rightarrow> bank_profile \<Rightarrow> bool" where
  "sampled_ok cfg p \<longleftrightarrow> balanced p \<and>
     (0 < bc_max_pages_to_sample cfg \<longrightarrow>
        bp_pages_sampled p \<le> bc_max_pages_to_sample cfg \<and> entry_total (bp_entries p) \<le> unat (bp_pages_sampled p))"

lemma sampled_ok_reset: "sampled_ok cfg (bank_profile_reset\<lparr>bp_pid := pid, bp_page_size := ps\<rparr>)"
  unfolding sampled_ok_def using balanced_reset [of ps pid] by (simp add: bank_profile_reset_def entry_total_def)

lemma sampled_ok_frame [simp]:
  "sampled_ok cfg (p\<lparr>bp_regions_seen := x\<rparr>) = sampled_ok cfg p" "sampled_ok cfg (p\<lparr>bp_regions_selected := x\<rparr>) = sampled_ok cfg p"
  "sampled_ok cfg (p\<lparr>bp_pages_seen := x\<rparr>) = sampled_ok cfg p"
  by (simp_all add: sampled_ok_def)

lemma unat_add_le: "unat (x + y :: u64) \<le> unat x + unat y"
  by (metis diff_le_self le_refl unat_plus_if')

lemma entry_total_update:
  "i < length es \<Longrightarrow> unat (be_page_count e) \<le> unat (be_page_count (es ! i)) + n \<Longrightarrow> entry_total (es[i := e]) \<le> entry_total es + n"
  unfolding entry_total_def
proof (induction es arbitrary: i)
  case (Cons a es)
  show ?case
  proof (cases i)
    case (Suc k)
    with Cons.IH [of k] Cons.prems show ?thesis by simp
  qed (use Cons.prems in simp)
qed simp

lemma add_count_entry_total:
  assumes "profile_add_bank_class_count p c pc b = (BANK_PROFILE_OK, p')"
  shows "entry_total (bp_entries p') \<le> entry_total (bp_entries p) + unat pc"
proof (cases "first_index (\<lambda>e. be_bank_class e = c) (bp_entries p)")
  case None
  with assms show ?thesis
    by (auto simp: profile_add_bank_class_count_def entry_total_def simp del: first_index_None split: if_splits)
next
  case (Some i)
  from first_index_lt [OF Some] have "entry_total ((bp_entries p)[i := e]) \<le> entry_total (bp_entries p) + unat pc"
    if "be_page_count e = be_page_count (bp_entries p ! i) + pc" for e
    by (intro entry_total_update) (simp_all add: that unat_add_le)
  with assms Some show ?thesis
    by (auto simp: profile_add_bank_class_count_def Let_def split: if_splits)
qed

lemma merge_entries_total:
  "merge_entries es p = (BANK_PROFILE_OK, p') \<Longrightarrow> entry_total (bp_entries p') \<le> entry_total (bp_entries p) + entry_total es"
proof (induction es arbitrary: p)
  case (Cons e es)
  obtain rc q where a: "profile_add_bank_class_count p (be_bank_class e) (be_page_count e) (be_byte_count e) = (rc, q)"
    by (rule prod.exhaust)
  with Cons.prems have "rc = BANK_PROFILE_OK" "merge_entries es q = (BANK_PROFILE_OK, p')"
    by (auto split: bank_profile_rc.splits)
  with Cons.IH [of q] add_count_entry_total [of p _ _ _ q] a show ?case by (fastforce simp: entry_total_def)
qed simp

lemma total_of_entries: "profile_inv p \<Longrightarrow> total_of p = entry_total (bp_entries p)"
  using sum_list_entries [of "bp_entries p" "\<lambda>c n. unat n"]
  by (simp add: profile_inv_def entry_total_def total_of_def classes_def pages_of_def count_for_class_eq)

lemma sample_page_counts:
  assumes "sample_page os ctx m va p w = (BANK_PROFILE_OK, p', w')"
  shows "bp_pages_sampled p' = bp_pages_sampled p + 1 \<and> entry_total (bp_entries p') \<le> Suc (entry_total (bp_entries p))"
proof -
  have skip: "bp_pages_sampled (count_translation_skip q e) = bp_pages_sampled q \<and>
      bp_entries (count_translation_skip q e) = bp_entries q" for q e
    by (simp add: count_translation_skip_def split: addr_translate_rc.split)
  have add: "bp_pages_sampled q' = bp_pages_sampled q \<and> entry_total (bp_entries q') \<le> Suc (entry_total (bp_entries q))"
    if "profile_add_bank_class q c n = (BANK_PROFILE_OK, q')" for q q' c n
    using that add_count_entry_total [of q c 1 n q']
    by (auto simp: profile_add_bank_class_def profile_add_bank_class_count_def Let_def split: option.splits if_splits)
  from assms show ?thesis
    by (auto simp: sample_page_def Let_def skip split: if_splits sum.splits prod.splits dest!: add)
qed

lemma sample_page_ok:
  assumes "sample_page os ctx m va p w = (BANK_PROFILE_OK, p', w')" "sampled_ok cfg p" "\<not> sample_limit_reached cfg p"
  shows "sampled_ok cfg p'"
proof -
  note c = sample_page_counts [OF assms(1)]
  have "bp_pages_sampled p + 1 \<le> bc_max_pages_to_sample cfg" "unat (bp_pages_sampled p + 1) = Suc (unat (bp_pages_sampled p))"
    if "0 < bc_max_pages_to_sample cfg"
  proof -
    have lt: "bp_pages_sampled p < bc_max_pages_to_sample cfg" using assms(3) that by (auto simp: sample_limit_reached_def not_le)
    then show "bp_pages_sampled p + 1 \<le> bc_max_pages_to_sample cfg" by (rule inc_le)
    have "unat (bp_pages_sampled p) + unat (1 :: u64) < 2 ^ 64"
      using less_le_trans [OF lt [unfolded word_less_nat_alt], of 18446744073709551615]
        unat_lt64 [of "bc_max_pages_to_sample cfg"] by (simp del: unat_lt64)
    then show "unat (bp_pages_sampled p + 1) = Suc (unat (bp_pages_sampled p))"
      using unat_u64_add [of "bp_pages_sampled p" 1] by simp
  qed
  with assms(2) c sample_page_balanced [OF assms(1)] show ?thesis by (auto simp: sampled_ok_def)
qed

lemma sample_loop_end:
  "\<not> i < n \<or> sample_limit_reached cfg p \<Longrightarrow>
   sample_loop os ctx m cfg start n stride i p w = Some (BANK_PROFILE_OK, p, w)"
  by (subst sample_loop.simps) auto

text \<open>What a loop that returns has kept.\<close>

lemma sample_loop_result:
  assumes "sample_loop os ctx m cfg start n stride i p w = Some (rc, p', w')"
  shows "w_open w' = w_open w \<and> bp_page_size p' = bp_page_size p \<and> (rc = BANK_PROFILE_OK \<and> sampled_ok cfg p \<longrightarrow> sampled_ok cfg p')"
proof -
  have "case (rc, p', w') of (rc, p', w') \<Rightarrow>
    w_open w' = w_open w \<and> bp_page_size p' = bp_page_size p \<and> (rc = BANK_PROFILE_OK \<and> sampled_ok cfg p \<longrightarrow> sampled_ok cfg p')"
    using assms
  proof (rule sample_loop.raw_induct [rotated])
    fix loop :: "os \<Rightarrow> addr_translate_ctx \<Rightarrow> dram_mapping \<Rightarrow> bank_profile_config \<Rightarrow> u64 \<Rightarrow> u64 \<Rightarrow> u64 \<Rightarrow> u64 \<Rightarrow>
        bank_profile \<Rightarrow> world \<Rightarrow> (bank_profile_rc \<times> bank_profile \<times> world) option"
      and os ctx m cfg start n stride i p w r
    assume IH: "\<And>os ctx m cfg start n stride i p w r. loop os ctx m cfg start n stride i p w = Some r \<Longrightarrow>
        (case r of (rc, p', w') \<Rightarrow> w_open w' = w_open w \<and> bp_page_size p' = bp_page_size p \<and>
          (rc = BANK_PROFILE_OK \<and> sampled_ok cfg p \<longrightarrow> sampled_ok cfg p'))"
      and eq: "(if \<not> i < n then Some (BANK_PROFILE_OK, p, w)
          else if sample_limit_reached cfg p then Some (BANK_PROFILE_OK, p, w)
          else case sample_page os ctx m (start + i * bp_page_size p) p w of
             (rc, profile', w') \<Rightarrow> if rc \<noteq> BANK_PROFILE_OK then Some (rc, profile', w')
               else loop os ctx m cfg start n stride (i + stride) profile' w') = Some r"
    obtain rc1 p1 w1 where page: "sample_page os ctx m (start + i * bp_page_size p) p w = (rc1, p1, w1)"
      by (rule prod_cases3)
    show "case r of (rc, p', w') \<Rightarrow> w_open w' = w_open w \<and> bp_page_size p' = bp_page_size p \<and>
        (rc = BANK_PROFILE_OK \<and> sampled_ok cfg p \<longrightarrow> sampled_ok cfg p')"
    proof (cases "\<not> i < n \<or> sample_limit_reached cfg p")
      case True
      with eq have "r = (BANK_PROFILE_OK, p, w)" by (auto split: if_splits)
      then show ?thesis by simp
    next
      case False
      note frame = sample_page_frame [OF page]
      show ?thesis
      proof (cases "rc1 = BANK_PROFILE_OK")
        case True
        with eq False page have "loop os ctx m cfg start n stride (i + stride) p1 w1 = Some r" by simp
        from IH [OF this] frame sample_page_ok [of os ctx m _ p w p1 w1 cfg] page True False show ?thesis by auto
      next
        case False
        with eq \<open>\<not> (\<not> i < n \<or> sample_limit_reached cfg p)\<close> page have "r = (rc1, p1, w1)" by simp
        with frame False show ?thesis by simp
      qed
    qed
  qed
  then show ?thesis by simp
qed

text \<open>The loop ends when a region has at most \<open>2 ^ 63\<close> pages: the page number cannot wrap back
  below the region's size.\<close>

lemma sample_loop_returns:
  assumes "0 < stride" "unat n \<le> 2 ^ 63" "i = 0 \<or> stride \<le> i"
  shows "\<exists>r. sample_loop os ctx m cfg start n stride i p w = Some r"
  using assms(3)
proof (induction "unat n - unat i" arbitrary: i p w rule: less_induct)
  case less
  show ?case
  proof (cases "\<not> i < n \<or> sample_limit_reached cfg p")
    case True
    then show ?thesis by (simp add: sample_loop_end)
  next
    case False
    then have lt: "unat i < unat n" by (simp add: word_less_nat_alt)
    have "unat i + unat stride < 2 ^ 64"
      using less.prems lt assms(2) unat_lt64 [of stride] by (auto simp: word_le_nat_alt)
    then have add: "unat (i + stride) = unat i + unat stride" by (rule unat_u64_add)
    obtain rc1 p1 w1 where page: "sample_page os ctx m (start + i * bp_page_size p) p w = (rc1, p1, w1)"
      by (rule prod_cases3)
    have "0 < unat stride" using assms(1) by (simp add: word_less_nat_alt)
    then have "unat n - unat (i + stride) < unat n - unat i" using add lt by simp
    moreover have "i + stride = 0 \<or> stride \<le> i + stride" using add by (simp add: word_le_nat_alt)
    ultimately have "\<exists>r. sample_loop os ctx m cfg start n stride (i + stride) p1 w1 = Some r"
      by (rule less.hyps)
    with False page show ?thesis by (subst sample_loop.simps) auto
  qed
qed

lemma sample_region_returns:
  assumes "2 \<le> unat (bp_page_size p)"
  shows "\<exists>r. sample_region os region ctx m cfg p w = Some r"
proof -
  let ?n = "(mr_end region - mr_start region) div bp_page_size p"
  have "unat ?n \<le> unat (mr_end region - mr_start region) div 2"
    using assms by (simp add: unat_div div_le_mono2)
  also have "\<dots> \<le> 2 ^ 63"
  proof -
    have "x div 2 \<le> (2 :: nat) ^ 63" if "x < 18446744073709551616" for x :: nat using that by simp
    then show ?thesis using unat_lt64 .
  qed
  finally have n: "unat ?n \<le> 2 ^ 63" .
  have "0 < (if bc_sample_stride_pages cfg = 0 then 1 else bc_sample_stride_pages cfg)"
    by (auto simp: word_neq_0_conv)
  with n sample_loop_returns [OF _ n, of "if bc_sample_stride_pages cfg = 0 then 1 else bc_sample_stride_pages cfg" 0]
  show ?thesis using assms by (auto simp: sample_region_def Let_def)
qed

lemma sample_region_result:
  assumes "sample_region os region ctx m cfg p w = Some (rc, p', w')"
  shows "w_open w' = w_open w \<and> bp_page_size p' = bp_page_size p \<and> (rc = BANK_PROFILE_OK \<and> sampled_ok cfg p \<longrightarrow> sampled_ok cfg p')"
  using assms
  by (auto simp: sample_region_def Let_def split: if_splits dest!: sample_loop_result)

lemma build_loop_result:
  assumes "2 \<le> unat (bp_page_size p)"
  shows "\<exists>rc p' w'. build_loop os ctx m cfg lines p w = Some (rc, p', w') \<and>
    w_open w' = w_open w \<and> bp_page_size p' = bp_page_size p \<and> (rc = BANK_PROFILE_OK \<and> sampled_ok cfg p \<longrightarrow> sampled_ok cfg p')"
  using assms
proof (induction lines arbitrary: p w)
  case Nil
  then show ?case by simp
next
  case (Cons line lines)
  show ?case
  proof (cases "parse_maps_line line")
    case None
    with Cons show ?thesis by simp
  next
    case (Some region)
    let ?p1 = "p\<lparr>bp_regions_seen := bp_regions_seen p + 1\<rparr>"
    let ?p2 = "?p1\<lparr>bp_regions_selected := bp_regions_selected p + 1\<rparr>"
    show ?thesis
    proof (cases "region_is_selected region cfg")
      case False
      with Some Cons.IH [of ?p1 w] Cons.prems show ?thesis by simp
    next
      case True
      obtain rc p3 w3 where reg: "sample_region os region ctx m cfg ?p2 w = Some (rc, p3, w3)"
        using sample_region_returns [of ?p2 os region ctx m cfg w] Cons.prems by auto
      note res = sample_region_result [OF reg]
      show ?thesis
      proof (cases "rc \<noteq> BANK_PROFILE_OK \<or> sample_limit_reached cfg p3")
        case stop: True
        with Some True reg res show ?thesis by auto
      next
        case False
        with Some True reg res Cons.IH [of p3 w3] Cons.prems show ?thesis by auto
      qed
    qed
  qed
qed

subsection \<open>Properties\<close>

lemma balanced_final [simp]:
  "balanced (profile_finalize rnd p) = balanced p" "balanced (profile_set_error p m) = balanced p"
  by (simp_all add: profile_finalize_def profile_set_error_def balanced_def profile_inv_def page_sum_def
      split: prod.split)

lemma sampled_ok_final [simp]:
  "sampled_ok cfg (profile_finalize rnd p) = sampled_ok cfg p" "sampled_ok cfg (profile_set_error p m) = sampled_ok cfg p"
  by (simp_all add: sampled_ok_def)
    (simp_all add: profile_finalize_def profile_set_error_def split: prod.split)

lemma entries_final [simp]:
  "bp_entries (profile_finalize rnd p) = bp_entries p" "bp_entries (profile_set_error p m) = bp_entries p"
  by (simp_all add: profile_finalize_def profile_set_error_def split: prod.split)

text \<open>The part of the build after both files are open.\<close>

lemma build_open_files:
  assumes ctx: "0 \<le> ac_pagemap_fd ctx" and ps: "2 \<le> unat (bp_page_size p)" and bal: "sampled_ok cfg p"
    and r: "r = (case build_loop os ctx m cfg lines p w of
        None \<Rightarrow> None
      | Some (rc', out2, w4) \<Rightarrow>
          (let close = (\<lambda>v. snd (fclose_r os (snd (addr_translate_close (Some ctx) v))))
           in if rc' \<noteq> BANK_PROFILE_OK then Some (rc', Some out2, close w4)
              else if os_ferror os w4
              then Some (BANK_PROFILE_ERR_IO,
                         Some (profile_set_error out2 ''error while reading /proc/[pid]/maps''), close w4)
              else let out3 = profile_finalize rnd out2
              in if bp_pages_translated out3 = 0 \<or> bp_entries out3 = []
                 then Some (BANK_PROFILE_ERR_NO_SAMPLES,
                            Some (profile_set_error out3 ''no pages were translated into bank classes''), close w4)
                 else Some (BANK_PROFILE_OK, Some out3, close w4)))"
  shows "\<exists>rc q w'. r = Some (rc, Some q, w') \<and> w_open w' = w_open w - 2 \<and>
    (rc = BANK_PROFILE_OK \<longrightarrow> sampled_ok cfg q \<and> bp_entries q \<noteq> [])"
proof -
  obtain rc' out2 w4 where loop: "build_loop os ctx m cfg lines p w = Some (rc', out2, w4)"
    and w4: "w_open w4 = w_open w" and bal': "rc' = BANK_PROFILE_OK \<longrightarrow> sampled_ok cfg out2"
    using build_loop_result [OF ps, of os ctx m cfg lines w] bal by blast
  have close: "w_open (snd (fclose_r os (snd (addr_translate_close (Some ctx) w4)))) = w_open w - 2"
    using ctx w4 by (simp add: addr_translate_close_def sys_close_def fclose_r_def)
  show ?thesis
    using loop bal' close by (auto simp: r Let_def)
qed

lemma bank_profile_merge_bounds:
  assumes "bank_profile_merge rnd (Some dst) (Some src) = (BANK_PROFILE_OK, Some out)" "profile_inv dst"
  shows "profile_inv out \<and> entry_total (bp_entries out) \<le> entry_total (bp_entries dst) + entry_total (bp_entries src)"
proof (cases "bp_entries src = []")
  case True
  with assms show ?thesis by (simp add: bank_profile_merge_def)
next
  case False
  let ?d1 = "(if bp_page_size dst = 0 then dst\<lparr>bp_page_size := bp_page_size src\<rparr> else dst)\<lparr>bp_pid := 0\<rparr>"
  obtain rc d2 where m: "merge_entries (bp_entries src) ?d1 = (rc, d2)" by (rule prod.exhaust)
  with assms False have ok: "rc = BANK_PROFILE_OK" "out = profile_finalize rnd (bank_profile_merge_counters d2 src)"
    by (auto simp: bank_profile_merge_def Let_def split: if_splits bank_profile_rc.splits)
  have d1: "profile_inv ?d1" "bp_entries ?d1 = bp_entries dst" using assms(2) by (auto simp: profile_inv_def)
  from m ok(1) merge_entries_OK [of "bp_entries src" ?d1 d2] merge_entries_total [of "bp_entries src" ?d1 d2] d1
  show ?thesis by (simp add: ok(2) profile_inv_def bank_profile_merge_counters_def)
qed

text \<open>The configuration that the build uses.\<close>

definition build_config :: "bank_profile_config option \<Rightarrow> bank_profile_config" where
  "build_config cfgp = (case cfgp of None \<Rightarrow> bank_profile_config_default
     | Some c \<Rightarrow> if bc_sample_stride_pages c = 0 then c\<lparr>bc_sample_stride_pages := 1\<rparr> else c)"

lemma bank_profile_build_result:
  assumes "\<forall>v. 2 \<le> os_sysconf os v SC_PAGESIZE \<and> os_sysconf os v SC_PAGESIZE < 2 ^ 63"
  shows "\<exists>rc q w'. bank_profile_build rnd os pid mp cfgp (Some old) w = Some (rc, Some q, w') \<and>
    w_open w' = w_open w \<and> (rc = BANK_PROFILE_OK \<longrightarrow> sampled_ok (build_config cfgp) q \<and> bp_entries q \<noteq> [])"
proof (cases "pid \<le> 0 \<or> mp = None \<or> \<not> dram_mapping_is_ready mp \<or> 64 \<le> length (''/proc/'' @ show_int pid @ ''/maps'')")
  case True
  have ps: "\<not> os_sysconf os w SC_PAGESIZE \<le> 0" using assms by (simp add: not_le) (meson less_le_trans zero_less_numeral)
  show ?thesis using True ps by (auto simp: bank_profile_build_def sysconf_def Let_def)
next
  case False
  let ?ps = "os_sysconf os w SC_PAGESIZE"
  let ?p = "bank_profile_reset\<lparr>bp_pid := pid, bp_page_size := of_int ?ps\<rparr>"
  obtain m where mp: "mp = Some m" using False by auto
  have ps: "2 \<le> ?ps" "?ps < 2 ^ 63" using assms by auto
  then have page: "2 \<le> unat (bp_page_size ?p)"
    by (simp add: bank_profile_reset_def unsigned_of_int take_bit_int_eq_self)
  obtain f w2 where f: "fopen_r os (''/proc/'' @ show_int pid @ ''/maps'') (tick w) = (f, w2)" by (rule prod.exhaust)
  obtain rc cp w3 where op: "addr_translate_open os (Some addr_translate_reset) pid w2 = (rc, cp, w3)" by (rule prod_cases3)
  show ?thesis
  proof (cases f)
    case None
    with f have "w_open w2 = w_open w" by (auto simp: fopen_r_def split: option.splits)
    with False ps f None show ?thesis
      by (auto simp: bank_profile_build_def sysconf_def Let_def)
  next
    case (Some contents)
    with f have w2: "w_open w2 = Suc (w_open w)" by (auto simp: fopen_r_def split: option.splits)
    show ?thesis
    proof (cases "rc = ADDR_TRANSLATE_OK")
      case bad: False
      with addr_translate_open_cases [OF op] have "w_open w3 = w_open w2" by auto
      with bad False ps f Some op w2 show ?thesis
        by (auto simp: bank_profile_build_def sysconf_def Let_def fclose_r_def)
    next
      case True
      with addr_translate_open_cases [OF op] obtain ctx where ctx: "cp = Some ctx" "0 \<le> ac_pagemap_fd ctx"
        "w_open w3 = Suc (w_open w2)" by auto
      have "\<exists>rc q w'. bank_profile_build rnd os pid mp cfgp (Some old) w = Some (rc, Some q, w') \<and>
          w_open w' = w_open w3 - 2 \<and> (rc = BANK_PROFILE_OK \<longrightarrow> sampled_ok (build_config cfgp) q \<and> bp_entries q \<noteq> [])"
        by (rule build_open_files [OF ctx(2) page sampled_ok_reset, where os = os and m = m and cfg = "build_config cfgp" and w = w3
              and lines = "fgets_all 1023 contents" and rnd = rnd])
          (use False mp ps f Some op True ctx(1) in \<open>simp add: bank_profile_build_def sysconf_def build_config_def\<close>)
      with ctx(3) w2 show ?thesis by simp
    qed
  qed
qed

subsection \<open>Profiling writes no control file\<close>

lemma va_to_pa_writes: "addr_translate_va_to_pa os ctx va out w = (rc, out', w') \<Longrightarrow> w_writes w' = w_writes w"
  by (auto simp: addr_translate_va_to_pa_def read_pagemap_entry_def sys_pread_def Let_def split: option.splits if_splits sum.splits prod.splits)

lemma sample_page_writes: "sample_page os ctx m va p w = (rc, p', w') \<Longrightarrow> w_writes w' = w_writes w"
  by (auto simp: sample_page_def Let_def split: if_splits sum.splits prod.splits dest!: va_to_pa_writes)

lemma sample_loop_writes:
  assumes "sample_loop os ctx m cfg start n stride i p w = Some (rc, p', w')"
  shows "w_writes w' = w_writes w"
proof -
  have "w_writes (snd (snd (rc, p', w'))) = w_writes w"
    using assms
  proof (rule sample_loop.raw_induct [rotated])
    fix loop :: "os \<Rightarrow> addr_translate_ctx \<Rightarrow> dram_mapping \<Rightarrow> bank_profile_config \<Rightarrow> u64 \<Rightarrow> u64 \<Rightarrow> u64 \<Rightarrow> u64 \<Rightarrow>
        bank_profile \<Rightarrow> world \<Rightarrow> (bank_profile_rc \<times> bank_profile \<times> world) option"
      and os ctx m cfg start n stride i p w r
    assume IH: "\<And>os ctx m cfg start n stride i p w r. loop os ctx m cfg start n stride i p w = Some r \<Longrightarrow>
        w_writes (snd (snd r)) = w_writes w"
      and eq: "(if \<not> i < n then Some (BANK_PROFILE_OK, p, w)
          else if sample_limit_reached cfg p then Some (BANK_PROFILE_OK, p, w)
          else case sample_page os ctx m (start + i * bp_page_size p) p w of
             (rc, profile', w') \<Rightarrow> if rc \<noteq> BANK_PROFILE_OK then Some (rc, profile', w')
               else loop os ctx m cfg start n stride (i + stride) profile' w') = Some r"
    obtain rc1 p1 w1 where page: "sample_page os ctx m (start + i * bp_page_size p) p w = (rc1, p1, w1)"
      by (rule prod_cases3)
    from eq [unfolded page prod.case] sample_page_writes [OF page] IH [of os ctx m cfg start n stride "i + stride" p1 w1 r]
    show "w_writes (snd (snd r)) = w_writes w" by (auto split: if_splits)
  qed
  then show ?thesis by simp
qed

lemma sample_region_writes: "sample_region os region ctx m cfg p w = Some (rc, p', w') \<Longrightarrow> w_writes w' = w_writes w"
  by (auto simp: sample_region_def Let_def split: if_splits dest!: sample_loop_writes)

lemma build_loop_writes: "build_loop os ctx m cfg lines p w = Some (rc, p', w') \<Longrightarrow> w_writes w' = w_writes w"
  by (induction lines arbitrary: p w)
    (auto simp: Let_def split: option.splits if_splits prod.splits dest!: sample_region_writes)

lemma bank_profile_build_writes:
  assumes "bank_profile_build rnd os pid mp cfgp outp w = Some (rc, q, w')"
  shows "w_writes w' = w_writes w"
proof -
  have op: "w_writes w2 = w_writes v" if "addr_translate_open os cp pid v = (rc, cp', w2)" for v cp rc cp' w2
    using that by (auto simp: addr_translate_open_def get_page_size_def sysconf_def sys_open_def Let_def split: if_splits)
  have cl: "w_writes (snd (addr_translate_close cp v)) = w_writes v" for cp v
    by (simp add: addr_translate_close_def sys_close_def split: option.split)
  show ?thesis
    using assms
    by (auto simp: bank_profile_build_def sysconf_def fopen_r_def fclose_r_def Let_def cl
        split: if_splits option.splits prod.splits dest!: op build_loop_writes)
qed

text \<open>C38: Building a profile always returns, closes every file it opened, and a profile that is returned with OK is not empty and
  balanced: its classes are distinct and at most 4096, every sampled page was translated or counted under one
  reason for skipping it, and every translated page is counted in the histogram or as a mapping
  error. The hypothesis is that the system's page size is at least 2 and fits a \<open>long\<close>.\<close>

theorem bank_profile_build_returns:
  assumes "\<forall>v. 2 \<le> os_sysconf os v SC_PAGESIZE \<and> os_sysconf os v SC_PAGESIZE < 2 ^ 63"
  shows "\<exists>rc q w'. bank_profile_build rnd os pid mp cfgp (Some old) w = Some (rc, Some q, w') \<and>
    w_open w' = w_open w \<and> (rc = BANK_PROFILE_OK \<longrightarrow> balanced q \<and> bp_entries q \<noteq> [])"
  using bank_profile_build_result [OF assms, of rnd pid mp cfgp old w] by (auto simp: sampled_ok_def)

theorem bank_profile_build_returns_witness:
  "\<exists>rc q w'. bank_profile_build Fin os_fine 7 (Some demo_mapping) None (Some bank_profile_reset) world0 =
     Some (rc, Some q, w') \<and> w_open w' = 0"
  using bank_profile_build_returns [of os_fine Fin 7 "Some demo_mapping" None bank_profile_reset world0]
  by (auto simp: os_fine_def world0_def)

text \<open>Two small profiles that share the class 1.\<close>

definition demo_profile :: "u64 \<Rightarrow> bank_profile" where
  "demo_profile c = bank_profile_reset\<lparr>bp_page_size := 4096,
     bp_entries := [\<lparr>be_bank_class = 1, be_page_count = 2, be_byte_count = 8192\<rparr>,
                    \<lparr>be_bank_class = c, be_page_count = 1, be_byte_count = 4096\<rparr>]\<rparr>"

lemma demo_profile_inv: "c \<noteq> 1 \<Longrightarrow> profile_inv (demo_profile c)"
  by (auto simp: demo_profile_def profile_inv_def BANK_PROFILE_MAX_ENTRIES_def)

lemma demo_profile_total: "c \<noteq> 1 \<Longrightarrow> total_of (demo_profile c) = 3"
  by (auto simp: total_of_def classes_def demo_profile_def pages_of_def count_for_class_eq)

lemma demo_profile_pages: "pages_of (demo_profile c) d = (if d = 1 then 2 else if d = c then 1 else 0)"
  by (simp add: pages_of_def count_for_class_eq demo_profile_def)

text \<open>Merging adds histograms. When \<open>bank_profile_merge\<close> accepts a non-empty source, the page count of every class
  is the sum of the two counts before (in 64-bit arithmetic), no class appears twice, and all profile counters
  are summed. It refuses only differing page sizes or more than 4096 classes.\<close>

theorem bank_profile_merge_adds:
  assumes "profile_inv dst" and "profile_inv src" and "bp_entries src \<noteq> []"
    and "bank_profile_merge rnd (Some dst) (Some src) = (rc, Some out)"
  shows "if rc = BANK_PROFILE_OK
    then profile_inv out \<and> bp_page_size out = bp_page_size src \<and> bp_pid out = 0 \<and>
      (\<forall>c. bank_profile_count_for_class (Some out) c =
         bank_profile_count_for_class (Some dst) c + bank_profile_count_for_class (Some src) c) \<and>
      bp_pages_sampled out = bp_pages_sampled dst + bp_pages_sampled src \<and>
      bp_pages_translated out = bp_pages_translated dst + bp_pages_translated src
    else rc = BANK_PROFILE_ERR_TOO_MANY_CLASSES \<or>
      (rc = BANK_PROFILE_ERR_PAGE_SIZE \<and> bp_entries out = bp_entries dst \<and>
       (bp_page_size src = 0 \<or> bp_page_size dst \<notin> {0, bp_page_size src}))"
proof -
  let ?d1 = "(if bp_page_size dst = 0 then dst\<lparr>bp_page_size := bp_page_size src\<rparr> else dst)\<lparr>bp_pid := 0\<rparr>"
  obtain rc' d2 where m: "merge_entries (bp_entries src) ?d1 = (rc', d2)" by (rule prod.exhaust)
  have not_ok: "rc' = BANK_PROFILE_OK \<or> rc' = BANK_PROFILE_ERR_TOO_MANY_CLASSES"
    using merge_entries_rc [of "bp_entries src" ?d1] by (simp add: m)
  show ?thesis
  proof (cases "bp_page_size src = 0 \<or> bp_page_size dst \<notin> {0, bp_page_size src}")
    case True
    with assms(3,4) show ?thesis
      by (auto simp: bank_profile_merge_def split: if_splits)
  next
    case False
    show ?thesis
    proof (cases "rc' = BANK_PROFILE_OK")
      case True
      with m have "merge_entries (bp_entries src) ?d1 = (BANK_PROFILE_OK, d2)" by simp
      note res = merge_entries_OK [OF this]
      have d1: "bp_entries ?d1 = bp_entries dst" "profile_inv ?d1 = profile_inv dst" "bp_page_size ?d1 = bp_page_size src"
        "bp_pages_sampled ?d1 = bp_pages_sampled dst" "bp_pages_translated ?d1 = bp_pages_translated dst" "bp_pid ?d1 = 0"
        using False by (auto simp: profile_inv_def)
      obtain es where d2: "d2 = ?d1\<lparr>bp_entries := es\<rparr>" using res by blast
      have out: "rc = BANK_PROFILE_OK" "out = profile_finalize rnd (bank_profile_merge_counters d2 src)"
        using assms(3,4) False True m by (auto simp: bank_profile_merge_def Let_def)
      have cnt: "bank_profile_count_for_class (Some out) c =
          bank_profile_count_for_class (Some dst) c + bank_profile_count_for_class (Some src) c" for c
        using res d1(1) assms(2)
        by (simp add: count_for_class_eq out(2) bank_profile_merge_counters_def entries_sum_count profile_inv_def)
      have inv: "profile_inv out" using res d1(2) assms(1)
        by (simp add: out(2) profile_inv_def bank_profile_merge_counters_def)
      have "bp_page_size out = bp_page_size src" "bp_pid out = 0"
        "bp_pages_sampled out = bp_pages_sampled dst + bp_pages_sampled src"
        "bp_pages_translated out = bp_pages_translated dst + bp_pages_translated src"
        using False
        by (auto simp: out(2) profile_finalize_def bank_profile_merge_counters_def d2 split: prod.split)
      with out(1) cnt inv show ?thesis by simp
    next
      case bad: False
      with not_ok assms(3,4) False m show ?thesis
        by (auto simp: bank_profile_merge_def Let_def split: if_splits)
    qed
  qed
qed

theorem bank_profile_merge_adds_witness:
  "\<exists>out. bank_profile_merge Fin (Some (demo_profile 3)) (Some (demo_profile 5)) = (BANK_PROFILE_OK, Some out) \<and>
     bank_profile_count_for_class (Some out) 1 = 4"
proof -
  obtain out where m: "bank_profile_merge Fin (Some (demo_profile 3)) (Some (demo_profile 5)) = (BANK_PROFILE_OK, Some out)"
    by (simp add: bank_profile_merge_def demo_profile_def profile_add_bank_class_count_def
        BANK_PROFILE_MAX_ENTRIES_def bank_profile_reset_def)
  have "bp_entries (demo_profile 5) \<noteq> []" by (simp add: demo_profile_def)
  from bank_profile_merge_adds [OF demo_profile_inv demo_profile_inv this m] m show ?thesis
    by (simp add: count_for_class_eq demo_profile_def)
qed

text \<open>The overlap score is the weighted Jaccard index. For two non-empty profiles whose page counts together fit 64 bits, the common
  pages are the sum over all classes of the smaller count, the score is their (rounded) quotient by the
  sum of the larger counts, and swapping the profiles changes nothing.\<close>

theorem overlap_score_jaccard:
  assumes "profile_inv a" and "profile_inv b" and "bp_entries a \<noteq> []" and "bp_entries b \<noteq> []"
    and "total_of a + total_of b < 2 ^ 64"
  shows "bank_profile_overlap_score rnd (Some a) (Some b) =
      (if union_pages a b = 0 then Inl BANK_PROFILE_ERR_NO_SAMPLES
       else Inr (fdiv rnd (rnd (real (common_pages a b))) (rnd (real (union_pages a b))), of_nat (common_pages a b))) \<and>
    bank_profile_overlap_score rnd (Some a) (Some b) = bank_profile_overlap_score rnd (Some b) (Some a)"
proof -
  have score: "bank_profile_overlap_score rnd (Some a) (Some b) =
      (if union_pages a b = 0 then Inl BANK_PROFILE_ERR_NO_SAMPLES
       else Inr (fdiv rnd (rnd (real (common_pages a b))) (rnd (real (union_pages a b))), of_nat (common_pages a b)))"
    if inv: "profile_inv a" "profile_inv b" and ne: "bp_entries a \<noteq> []" "bp_entries b \<noteq> []"
      and small: "total_of a + total_of b < 2 ^ 64" for a b
  proof -
    obtain i u where s: "overlap_scan_a b (bp_entries a) (0, 0) = (i, u)"
      "unat i = common_pages a b" "unat (overlap_scan_b a (bp_entries b) u) = union_pages a b"
      using inv small by (rule overlap_sums)
    have "of_nat (common_pages a b) = i" using s(2) by (metis of_nat_unat ucast_id)
    moreover have "overlap_scan_b a (bp_entries b) u = 0 \<longleftrightarrow> union_pages a b = 0" using s(3) by (metis unat_eq_zero)
    ultimately show ?thesis
      using ne s by (simp add: bank_profile_overlap_score_def double_of_u64_def)
  qed
  from score [OF assms] score [OF assms(2,1,4,3)] assms(5) show ?thesis
    by (simp add: common_pages_commute [of a b] union_pages_commute [of a b] add.commute)
qed

theorem overlap_score_jaccard_witness:
  "bank_profile_overlap_score Fin (Some (demo_profile 3)) (Some (demo_profile 5)) = Inr (Fin (2 / 4), 2)"
proof -
  have "classes (demo_profile 3) \<union> classes (demo_profile 5) = {1, 3, 5}"
    by (auto simp: classes_def demo_profile_def)
  then have "common_pages (demo_profile 3) (demo_profile 5) = 2" "union_pages (demo_profile 3) (demo_profile 5) = 4"
    by (simp_all add: common_pages_def union_pages_def demo_profile_pages)
  then show ?thesis
    using overlap_score_jaccard [of "demo_profile 3" "demo_profile 5" Fin] demo_profile_inv demo_profile_total
    by (simp add: demo_profile_def)
qed

lemma overlap_score_bounds:
  assumes "ieee_rnd rnd" and "profile_inv a" and "profile_inv b" and "total_of a + total_of b < 2 ^ 64"
    and "bank_profile_overlap_score rnd (Some a) (Some b) = Inr (score, common)"
  shows "unit_score score \<and> unat common \<le> min (total_of a) (total_of b)"
proof -
  obtain i u where s: "overlap_scan_a b (bp_entries a) (0, 0) = (i, u)"
    "unat i = common_pages a b" "unat (overlap_scan_b a (bp_entries b) u) = union_pages a b"
    using assms(2-4) by (rule overlap_sums)
  let ?u = "overlap_scan_b a (bp_entries b) u"
  from assms(5) s(1) have r: "score = fdiv rnd (double_of_u64 rnd i) (double_of_u64 rnd ?u)" "common = i" "?u \<noteq> 0"
    by (auto simp: bank_profile_overlap_score_def Let_def split: if_splits)
  have "0 < unat ?u" using r(3) by (simp add: unat_gt_0)
  moreover have "unat i \<le> unat ?u" using s(2,3) common_le_union by simp
  ultimately have "unit_score score" unfolding r(1) using assms(1) by (intro unit_score_count_quotient)
  moreover have "common_pages a b \<le> total_of a" for a b
    unfolding common_pages_def total_of_def
    by (subst sum.mono_neutral_right [of _ "classes a"]) (auto simp: pages_of_absent intro: sum_mono)
  from this [of a b] this [of b a] have "unat common \<le> min (total_of a) (total_of b)"
    using s(2) r(2) by (simp add: common_pages_commute [of b a])
  ultimately show ?thesis ..
qed

text \<open>A reported overlap score always lies between 0 and 1, with every IEEE rounding.\<close>

theorem overlap_score_unit:
  assumes "ieee_rnd rnd" and "profile_inv a" and "profile_inv b" and "total_of a + total_of b < 2 ^ 64"
    and "bank_profile_overlap_score rnd (Some a) (Some b) = Inr (score, common)"
  shows "unit_score score \<and> unat common \<le> min (total_of a) (total_of b)"
  using assms by (rule overlap_score_bounds)

theorem overlap_score_unit_witness:
  "\<exists>score common. bank_profile_overlap_score Fin (Some (demo_profile 3)) (Some (demo_profile 5)) = Inr (score, common) \<and>
     unit_score score"
proof -
  obtain score common where
    s: "bank_profile_overlap_score Fin (Some (demo_profile 3)) (Some (demo_profile 5)) = Inr (score, common)"
    by (simp add: bank_profile_overlap_score_def demo_profile_def count_for_class_eq)
  with overlap_score_unit [OF ieee_rnd_exact demo_profile_inv demo_profile_inv _ s] show ?thesis
    by (simp add: demo_profile_total)
qed

text \<open>The dominant class of a profile has the largest page count of all its classes, and the dominant fraction lies
  between 0 and 1 when the counts fit 64 bits.\<close>

theorem profile_finalize_dominant:
  assumes "ieee_rnd rnd" and "profile_inv p" and "total_of p < 2 ^ 64"
  shows "(\<forall>c. bank_profile_count_for_class (Some p) c \<le> bp_dominant_page_count (profile_finalize rnd p)) \<and>
    bank_profile_count_for_class (Some p) (bp_dominant_bank_class (profile_finalize rnd p)) \<le>
      bp_dominant_page_count (profile_finalize rnd p) \<and>
    (bp_dominant_page_count (profile_finalize rnd p) \<noteq> 0 \<longrightarrow>
       bank_profile_count_for_class (Some p) (bp_dominant_bank_class (profile_finalize rnd p)) =
         bp_dominant_page_count (profile_finalize rnd p)) \<and>
    unit_score (bp_dominant_fraction (profile_finalize rnd p))"
proof -
  obtain t m c where scan: "finalize_scan (bp_entries p) (0, 0, 0) = (t, m, c)" by (rule prod_cases3)
  note f = finalize_scan_eq [OF scan]
  have d: "distinct (map be_bank_class (bp_entries p))" using assms(2) by (simp add: profile_inv_def)
  have cnt: "class_count es d \<le> m" if "\<forall>e \<in> set es. be_page_count e \<le> m" for es d
    using that by (induction es) auto
  have entry: "class_count es (be_bank_class e) = be_page_count e" if "e \<in> set es" "distinct (map be_bank_class es)" for es e
    using that by (induction es) auto
  have tot: "unat t = total_of p"
  proof -
    have sum: "sum_list (map unat (map be_page_count (bp_entries p))) = total_of p"
      using sum_list_entries [OF d, of "\<lambda>c n. unat n"]
      by (simp add: total_of_def classes_def pages_of_def count_for_class_eq comp_def)
    from f have "t = sum_list (map be_page_count (bp_entries p))" by simp
    with sum assms(3) show ?thesis by (simp only: unat_sum_list)
  qed
  have le: "unat m \<le> unat t"
  proof (cases "m = 0")
    case False
    then obtain e where e: "e \<in> set (bp_entries p)" "be_page_count e = m" using f by auto
    then have "unat m \<in> set (map unat (map be_page_count (bp_entries p)))" by auto
    then have "unat m \<le> sum_list (map unat (map be_page_count (bp_entries p)))" by (rule member_le_sum_list) simp
    also have "\<dots> = total_of p"
      using sum_list_entries [OF d, of "\<lambda>c n. unat n"]
      by (simp add: total_of_def classes_def pages_of_def count_for_class_eq comp_def)
    finally show ?thesis using tot by simp
  qed simp
  have "unit_score (bp_dominant_fraction (profile_finalize rnd p))"
    using unit_score_count_quotient [OF assms(1) le] by (simp add: profile_finalize_def scan word_less_nat_alt)
  moreover have "bp_dominant_page_count (profile_finalize rnd p) = m" "bp_dominant_bank_class (profile_finalize rnd p) = c"
    by (simp_all add: profile_finalize_def scan)
  moreover have "class_count (bp_entries p) c = m" if "m \<noteq> 0"
  proof -
    from f that obtain e where "e \<in> set (bp_entries p)" "be_page_count e = m" "be_bank_class e = c" by auto
    with entry [OF _ d, of e] show ?thesis by metis
  qed
  ultimately show ?thesis using f cnt [of "bp_entries p"] by (simp add: count_for_class_eq)
qed

theorem profile_finalize_dominant_witness:
  "bp_dominant_page_count (profile_finalize Fin (demo_profile 3)) \<ge> 2 \<and>
   unit_score (bp_dominant_fraction (profile_finalize Fin (demo_profile 3)))"
proof -
  have "bank_profile_count_for_class (Some (demo_profile 3)) 1 = 2" by (simp add: count_for_class_eq demo_profile_def)
  with profile_finalize_dominant [OF ieee_rnd_exact demo_profile_inv, of 3] show ?thesis
    by (simp add: demo_profile_total) metis
qed

end
