(* ===== verification/Interference_Detector_Correct.thy ===== *)
theory Interference_Detector_Correct
  imports Interference_Detector Proc_Activity_Correct Bank_Profile_Correct
begin

text \<open>
  Correctness of the detector: an interval always returns, what it reports are scored, distinct, live and unprotected processes, and
  the number of files it leaves open.
\<close>

subsection \<open>What is assumed of the system and the configuration\<close>

text \<open>A rounding with the properties of binary64, positive scales, a page size and clock rate that fit a \<open>long\<close>, a bound on the
  pages per profile, and few enough processes that the page counts of all of them fit 64 bits.\<close>

definition page_size_ok :: "os \<Rightarrow> bool" where
  "page_size_ok os \<longleftrightarrow> (\<forall>v. 2 \<le> os_sysconf os v SC_PAGESIZE \<and> os_sysconf os v SC_PAGESIZE < 2 ^ 63)"

definition sample_ticks_ok :: "interference_process_state list \<Rightarrow> bool" where
  "sample_ticks_ok ps \<longleftrightarrow> list_all (\<lambda>p. ps_clock_ticks_per_sec (ip_activity_sample p) < 2 ^ 63) ps"

definition detector_ok ::
  "rounding \<Rightarrow> os \<Rightarrow> interference_detector_config \<Rightarrow> interference_process_state list \<Rightarrow> bool" where
  "detector_ok rnd os cfg ps \<longleftrightarrow>
     ieee_rnd rnd \<and> weights_ok rnd \<and> activity_config_ok (id_activity_config cfg) \<and> page_size_ok os \<and>
     (\<forall>v. os_sysconf os v SC_CLK_TCK < 2 ^ 63) \<and> sample_ticks_ok ps \<and>
     0 < bc_max_pages_to_sample (id_profile_config cfg) \<and>
     (length ps + 1) * unat (bc_max_pages_to_sample (id_profile_config cfg)) < 2 ^ 64"

subsection \<open>Profiles\<close>

lemma build_bounds:
  assumes "page_size_ok os" and "0 < bc_max_pages_to_sample c"
  obtains rc q w' where "bank_profile_build rnd os pid (Some m) (Some c) (Some old) w = Some (rc, Some q, w')"
    "w_open w' = w_open w"
    "rc = BANK_PROFILE_OK \<longrightarrow> profile_inv q \<and> bp_entries q \<noteq> [] \<and> entry_total (bp_entries q) \<le> unat (bc_max_pages_to_sample c)"
proof -
  obtain rc q w' where b: "bank_profile_build rnd os pid (Some m) (Some c) (Some old) w = Some (rc, Some q, w')"
    "w_open w' = w_open w" "rc = BANK_PROFILE_OK \<longrightarrow> sampled_ok (build_config (Some c)) q \<and> bp_entries q \<noteq> []"
    using bank_profile_build_result [of os rnd pid "Some m" "Some c" old w] assms(1) by (auto simp: page_size_ok_def)
  have "bc_max_pages_to_sample (build_config (Some c)) = bc_max_pages_to_sample c" by (simp add: build_config_def)
  with assms(2) b(3) have "rc = BANK_PROFILE_OK \<longrightarrow> profile_inv q \<and> bp_entries q \<noteq> [] \<and>
      entry_total (bp_entries q) \<le> unat (bc_max_pages_to_sample c)"
    by (auto simp: sampled_ok_def balanced_def word_le_nat_alt)
  with b that show thesis by blast
qed

lemma merge_some: "bank_profile_merge rnd (Some a) (Some q) = (rc, a') \<Longrightarrow> \<exists>b. a' = Some b"
  by (auto simp: bank_profile_merge_def Let_def split: if_splits prod.splits bank_profile_rc.splits)

lemma protected_loop_result:
  assumes os: "page_size_ok os" and lim: "0 < bc_max_pages_to_sample (id_profile_config cfg)"
  shows "profile_inv agg \<Longrightarrow> \<exists>rc agg' st' w'. protected_loop rnd os m cfg ps agg st w = Some (rc, agg', st', w') \<and>
    w_open w' = w_open w \<and> ds_activity_samples st' = ds_activity_samples st \<and>
    (rc = INTERFERENCE_DETECTOR_OK \<longrightarrow> profile_inv agg' \<and>
       entry_total (bp_entries agg') \<le> entry_total (bp_entries agg) + length ps * unat (bc_max_pages_to_sample (id_profile_config cfg)))"
proof (induction ps arbitrary: agg st w)
  case (Cons p ps)
  let ?M = "unat (bc_max_pages_to_sample (id_profile_config cfg))"
  show ?case
  proof (cases "ip_alive p \<and> ip_role p = INTERFERENCE_PROCESS_PROTECTED")
    case False
    with Cons.IH [OF Cons.prems, of st w] show ?thesis by fastforce
  next
    case True
    obtain rc q w1 where b: "bank_profile_build rnd os (ip_pid p) (Some m) (Some (id_profile_config cfg)) (Some bank_profile_reset) w =
        Some (rc, Some q, w1)" "w_open w1 = w_open w"
      "rc = BANK_PROFILE_OK \<longrightarrow> profile_inv q \<and> bp_entries q \<noteq> [] \<and> entry_total (bp_entries q) \<le> ?M"
      by (rule build_bounds [OF os lim])
    let ?st1 = "st\<lparr>ds_protected_processes := Suc (ds_protected_processes st)\<rparr>"
    let ?ste = "?st1\<lparr>ds_profile_errors := Suc (ds_profile_errors st)\<rparr>"
    let ?stb = "?st1\<lparr>ds_protected_profiles_built := Suc (ds_protected_profiles_built st)\<rparr>"
    show ?thesis
    proof (cases "rc = BANK_PROFILE_OK")
      case False
      with True b Cons.IH [OF Cons.prems, of ?ste w1] show ?thesis by fastforce
    next
      case ok: True
      obtain rc2 a2 where mg: "bank_profile_merge rnd (Some agg) (Some q) = (rc2, Some a2)"
        using merge_some by (metis prod.exhaust)
      show ?thesis
      proof (cases "rc2 = BANK_PROFILE_OK")
        case False
        with True ok b mg show ?thesis by simp
      next
        case ok2: True
        with bank_profile_merge_bounds [of rnd agg q a2] mg Cons.prems have mb: "profile_inv a2"
          "entry_total (bp_entries a2) \<le> entry_total (bp_entries agg) + entry_total (bp_entries q)" by auto
        from Cons.IH [OF mb(1), of ?stb w1] obtain rc3 a3 st3 w3 where
          r: "protected_loop rnd os m cfg ps a2 ?stb w1 = Some (rc3, a3, st3, w3)" "w_open w3 = w_open w1"
          "ds_activity_samples st3 = ds_activity_samples st"
          "rc3 = INTERFERENCE_DETECTOR_OK \<longrightarrow> profile_inv a3 \<and> entry_total (bp_entries a3) \<le> entry_total (bp_entries a2) + length ps * ?M"
          by auto
        have "rc3 = INTERFERENCE_DETECTOR_OK \<longrightarrow> profile_inv a3 \<and>
            entry_total (bp_entries a3) \<le> entry_total (bp_entries agg) + length (p # ps) * ?M"
          using r(4) mb(2) b(3) ok by auto
        with True ok ok2 b mg r show ?thesis by simp
      qed
    qed
  qed
qed simp

subsection \<open>Sampling\<close>

lemma checked_store_OK:
  "checked_store v store rest out = (PROC_ACTIVITY_OK, s) \<longleftrightarrow> 0 \<le> v \<and> rest (store (of_int v) out) = (PROC_ACTIVITY_OK, s)"
  by (auto simp: checked_store_def checked_u64_def)

lemma store_stat_values_OK:
  assumes "store_stat_values pid page_size clock_ticks vals out = (PROC_ACTIVITY_OK, s)"
  shows "ps_pid s = pid \<and> ps_clock_ticks_per_sec s = clock_ticks \<and> ps_valid s"
proof -
  from assms have "s = (s\<lparr>ps_valid := True, ps_pid := pid, ps_clock_ticks_per_sec := clock_ticks\<rparr>)"
    unfolding store_stat_values_def checked_store_OK by (elim conjE) (drule sym, simp)
  then show ?thesis by (metis proc_activity_sample.select_convs(1,4,6) proc_activity_sample.surjective proc_activity_sample.update_convs(1,4,6))
qed

lemma parse_stat_line_OK:
  assumes "parse_stat_line pid page_size clock_ticks line out = (PROC_ACTIVITY_OK, s)"
  shows "ps_pid s = pid \<and> ps_clock_ticks_per_sec s = clock_ticks \<and> ps_valid s"
  using assms
  by (auto simp: parse_stat_line_def Let_def parse_stat_values_def split: option.splits sum.splits if_splits
      dest!: parse_stat_loop_error store_stat_values_OK)

lemma sample_now_OK:
  assumes "proc_activity_sample_now os pid (Some old) w = (PROC_ACTIVITY_OK, q, w')"
  obtains s where "q = Some s" "0 < pid" "ps_pid s = pid" "ps_clock_ticks_per_sec s = os_sysconf os (tick w) SC_CLK_TCK"
    "w_open w' = Suc (w_open w)"
  using assms
proof (rule sample_now_result)
  fix page_size clock_ticks line now s
  assume "0 < pid" "q = Some s" "w_open w' = Suc (w_open w)" "clock_ticks = os_sysconf os (tick w) SC_CLK_TCK"
    "parse_stat_line pid page_size clock_ticks line (proc_activity_sample_reset\<lparr>ps_timestamp_ns := now\<rparr>) = (PROC_ACTIVITY_OK, s)"
  with parse_stat_line_OK [of pid page_size clock_ticks line] that show thesis by metis
qed simp

lemma sample_now_open: "proc_activity_sample_now os pid (Some old) w = (rc, q, w') \<Longrightarrow> w_open w \<le> w_open w'"
  by (erule sample_now_result) auto

definition entry_ok :: "active_candidate_internal \<Rightarrow> bool" where
  "entry_ok a \<longleftrightarrow> 0 < ai_pid a \<and> pd_active (ai_delta a) \<and> unit_score (pd_total_score (ai_delta a)) \<and>
     unit_score (pd_cpu_score (ai_delta a)) \<and> unit_score (pd_fault_score (ai_delta a)) \<and> unit_score (pd_rss_score (ai_delta a))"

definition monitored :: "interference_process_state \<Rightarrow> bool" where
  "monitored p \<longleftrightarrow> ip_alive p \<and> ip_role p = INTERFERENCE_PROCESS_NORMAL"

lemma compute_delta_some:
  "proc_activity_compute_delta rnd oldp newp cfgp (Some d0) = (rc, q) \<Longrightarrow> \<exists>d. q = Some d"
  by (auto simp: proc_activity_compute_delta_def Let_def split: if_splits)

lemma collect_process_result:
  assumes c: "collect_process rnd os cfg p st w = (p', entry, st', w')"
    and ok: "ieee_rnd rnd" "weights_ok rnd" "activity_config_ok (id_activity_config cfg)"
      "\<forall>v. os_sysconf os v SC_CLK_TCK < 2 ^ 63" "ps_clock_ticks_per_sec (ip_activity_sample p) < 2 ^ 63"
  shows "ip_pid p' = ip_pid p \<and> ip_role p' = ip_role p \<and> (ip_alive p' \<longrightarrow> ip_alive p) \<and>
    ps_clock_ticks_per_sec (ip_activity_sample p') < 2 ^ 63 \<and>
    w_open w + ds_activity_samples st' \<le> w_open w' + ds_activity_samples st \<and>
    (\<forall>a. entry = Some a \<longrightarrow> monitored p \<and> ai_pid a = ip_pid p \<and> entry_ok a)"
proof (cases "monitored p")
  case False
  then have "collect_process rnd os cfg p st w = (p, None, st, w)"
    by (cases "ip_alive p") (simp_all add: collect_process_def monitored_def)
  with c ok(5) show ?thesis by auto
next
  case True
  obtain rc nowp w1 where s: "proc_activity_sample_now os (ip_pid p) (Some proc_activity_sample_reset) w = (rc, nowp, w1)"
    by (rule prod_cases3)
  let ?st1 = "st\<lparr>ds_normal_processes := Suc (ds_normal_processes st)\<rparr>"
  have m: "ip_alive p" "ip_role p = INTERFERENCE_PROCESS_NORMAL" using True by (simp_all add: monitored_def)
  show ?thesis
  proof (cases "rc = PROC_ACTIVITY_OK")
    case False
    with c m s sample_now_open [OF s] ok(5) show ?thesis by (auto simp: collect_process_def)
  next
    case rc: True
    obtain now where now: "nowp = Some now" "0 < ip_pid p" "ps_pid now = ip_pid p"
      "ps_clock_ticks_per_sec now = os_sysconf os (tick w) SC_CLK_TCK" "w_open w1 = Suc (w_open w)"
      using s unfolding rc by (rule sample_now_OK)
    have t: "ps_clock_ticks_per_sec now < 2 ^ 63" using now(4) ok(4) by simp
    obtain rc2 dp where d: "proc_activity_compute_delta rnd (Some (ip_activity_sample p)) (Some now) (Some (id_activity_config cfg))
        (Some proc_activity_delta_reset) = (rc2, dp)" by (rule prod.exhaust)
    obtain delta where dp: "dp = Some delta" using compute_delta_some [OF d] by blast
    have unit: "rc2 = PROC_ACTIVITY_OK \<Longrightarrow> unit_score (pd_cpu_score delta) \<and> unit_score (pd_fault_score delta) \<and>
        unit_score (pd_rss_score delta) \<and> unit_score (pd_total_score delta)"
      using compute_delta_unit [OF ok(1-3,5) t] d dp by blast
    show ?thesis
      using c [symmetric] m s rc now(1,2,5) t d dp unit
      by (cases "ip_has_activity_sample p"; cases "rc2 = PROC_ACTIVITY_OK"; cases "rc2 = PROC_ACTIVITY_ERR_PID_REUSED";
          cases "pd_active delta"; cases "flt (pd_total_score delta) (id_activity_score_threshold cfg)")
        (simp_all add: collect_process_def Let_def entry_ok_def monitored_def)
  qed
qed

lemma collect_loop_result:
  assumes ok: "ieee_rnd rnd" "weights_ok rnd" "activity_config_ok (id_activity_config cfg)"
      "\<forall>v. os_sysconf os v SC_CLK_TCK < 2 ^ 63"
  shows "collect_loop rnd os cfg ps active st w = (ps', active', st', w') \<Longrightarrow> sample_ticks_ok ps \<Longrightarrow>
    map ip_pid ps' = map ip_pid ps \<and> map ip_role ps' = map ip_role ps \<and> sample_ticks_ok ps' \<and>
    w_open w + ds_activity_samples st' \<le> w_open w' + ds_activity_samples st \<and>
    (\<exists>bs. active' = active @ bs \<and> list_all entry_ok bs \<and>
      set (map ai_pid bs) \<subseteq> ip_pid ` {p \<in> set ps. monitored p} \<and>
      (distinct (map ip_pid ps) \<longrightarrow> distinct (map ai_pid bs)))"
proof (induction ps arbitrary: active st w ps')
  case Nil
  then show ?case by (simp add: sample_ticks_ok_def)
next
  case (Cons p ps)
  obtain p1 entry st1 w1 where c: "collect_process rnd os cfg p st w = (p1, entry, st1, w1)" by (rule prod_cases4)
  let ?active = "case entry of None \<Rightarrow> active | Some a \<Rightarrow> active @ [a]"
  obtain qs where l: "collect_loop rnd os cfg ps ?active st1 w1 = (qs, active', st', w')" "ps' = p1 # qs"
    using Cons.prems(1) c by (auto simp: Let_def split: prod.splits)
  have t: "ps_clock_ticks_per_sec (ip_activity_sample p) < 2 ^ 63" "sample_ticks_ok ps"
    using Cons.prems(2) by (simp_all add: sample_ticks_ok_def)
  note r = collect_process_result [OF c ok t(1)]
  note IH = Cons.IH [OF l(1) t(2)]
  obtain bs where bs: "active' = ?active @ bs" "list_all entry_ok bs" "set (map ai_pid bs) \<subseteq> ip_pid ` {p \<in> set ps. monitored p}"
    "distinct (map ip_pid ps) \<longrightarrow> distinct (map ai_pid bs)" using IH by blast
  let ?bs = "(case entry of None \<Rightarrow> [] | Some a \<Rightarrow> [a]) @ bs"
  have "active' = active @ ?bs" using bs(1) by (cases entry) auto
  moreover have "list_all entry_ok ?bs" using bs(2) r by (cases entry) auto
  moreover have "set (map ai_pid ?bs) \<subseteq> ip_pid ` {q \<in> set (p # ps). monitored q}"
    using bs(3) r by (cases entry) auto
  moreover have "distinct (map ip_pid (p # ps)) \<longrightarrow> distinct (map ai_pid ?bs)"
    using bs(3,4) r by (cases entry) (auto simp: image_iff)
  ultimately have ex: "\<exists>bs. active' = active @ bs \<and> list_all entry_ok bs \<and>
      set (map ai_pid bs) \<subseteq> ip_pid ` {q \<in> set (p # ps). monitored q} \<and>
      (distinct (map ip_pid (p # ps)) \<longrightarrow> distinct (map ai_pid bs))" by blast
  have "w_open w + ds_activity_samples st' \<le> w_open w' + ds_activity_samples st" using r IH by linarith
  with ex r IH l(2) show ?case by (simp add: sample_ticks_ok_def)
qed

subsection \<open>Scoring\<close>

definition by_activity :: "active_candidate_internal list \<Rightarrow> bool" where
  "by_activity = sorted_wrt (\<lambda>a b. fle (pd_total_score (ai_delta b)) (pd_total_score (ai_delta a)))"

definition reported_by_activity :: "interference_candidate list \<Rightarrow> bool" where
  "reported_by_activity = sorted_wrt (\<lambda>c d. fle (ic_activity_score d) (ic_activity_score c))"

lemma score_loop_result:
  assumes os: "page_size_ok os" and lim: "0 < bc_max_pages_to_sample (id_profile_config cfg)" and rnd: "ieee_rnd rnd"
    and agg: "profile_inv agg" "entry_total (bp_entries agg) + unat (bc_max_pages_to_sample (id_profile_config cfg)) < 2 ^ 64"
  shows "\<exists>cs st' w'. score_loop rnd os m cfg agg as out st w = Some (out @ cs, st', w') \<and> w_open w' = w_open w \<and>
    ds_activity_samples st' = ds_activity_samples st \<and> length cs \<le> length as \<and>
    (\<forall>c \<in> set cs. \<exists>a \<in> set as. \<exists>ov cp. unit_score ov \<and> c = make_interference_candidate rnd cfg a ov cp) \<and>
    (distinct (map ai_pid as) \<longrightarrow> distinct (map ic_pid cs)) \<and> (by_activity as \<longrightarrow> reported_by_activity cs)"
proof (induction as arbitrary: out st w)
  case (Cons a as)
  obtain rc q w1 where b: "bank_profile_build rnd os (ai_pid a) (Some m) (Some (id_profile_config cfg)) (Some bank_profile_reset) w =
      Some (rc, Some q, w1)" "w_open w1 = w_open w"
    "rc = BANK_PROFILE_OK \<longrightarrow> profile_inv q \<and> bp_entries q \<noteq> [] \<and>
      entry_total (bp_entries q) \<le> unat (bc_max_pages_to_sample (id_profile_config cfg))"
    by (rule build_bounds [OF os lim])
  let ?ste = "st\<lparr>ds_profile_errors := Suc (ds_profile_errors st)\<rparr>"
  let ?st1 = "st\<lparr>ds_normal_profiles_built := Suc (ds_normal_profiles_built st)\<rparr>"
  show ?case
  proof (cases "rc = BANK_PROFILE_OK")
    case False
    from Cons.IH [of out ?ste w1] b False show ?thesis by (fastforce simp: by_activity_def)
  next
    case ok: True
    show ?thesis
    proof (cases "bank_profile_overlap_score rnd (Some agg) (Some q)")
      case (Inl e)
      from Cons.IH [of out "?st1\<lparr>ds_profile_errors := Suc (ds_profile_errors st)\<rparr>" w1] b ok Inl show ?thesis by (fastforce simp: by_activity_def)
    next
      case (Inr r)
      obtain ov cp where r: "r = (ov, cp)" by (rule prod.exhaust)
      have "total_of agg + total_of q < 2 ^ 64"
        using agg b(3) ok by (simp add: total_of_entries)
      with overlap_score_bounds [OF rnd agg(1) _ _ Inr [unfolded r]] b(3) ok have ov: "unit_score ov" by simp
      let ?c = "make_interference_candidate rnd cfg a ov cp"
      obtain cs st' w' where l: "score_loop rnd os m cfg agg as (out @ [?c]) ?st1 w1 = Some ((out @ [?c]) @ cs, st', w')"
        "w_open w' = w_open w1" "ds_activity_samples st' = ds_activity_samples ?st1" "length cs \<le> length as"
        "\<forall>c \<in> set cs. \<exists>a \<in> set as. \<exists>ov cp. unit_score ov \<and> c = make_interference_candidate rnd cfg a ov cp"
        "distinct (map ai_pid as) \<longrightarrow> distinct (map ic_pid cs)" "by_activity as \<longrightarrow> reported_by_activity cs"
        using Cons.IH [of "out @ [?c]" ?st1 w1] by blast
      have pid: "ic_pid (make_interference_candidate rnd cfg a' ov' cp') = ai_pid a'" for a' ov' cp'
        by (simp add: make_interference_candidate_def Let_def)
      have act: "ic_activity_score (make_interference_candidate rnd cfg a' ov' cp') = pd_total_score (ai_delta a')" for a' ov' cp'
        by (simp add: make_interference_candidate_def Let_def)
      have sub: "ic_pid ` set cs \<subseteq> ai_pid ` set as" using l(5) pid by fastforce
      have "score_loop rnd os m cfg agg (a # as) out st w = Some (out @ (?c # cs), st', w')"
        using b(1) ok Inr r l(1) by simp
      moreover have "\<forall>c \<in> set (?c # cs). \<exists>a' \<in> set (a # as). \<exists>ov cp. unit_score ov \<and> c = make_interference_candidate rnd cfg a' ov cp"
        using l(5) ov by auto
      moreover have "distinct (map ai_pid (a # as)) \<longrightarrow> distinct (map ic_pid (?c # cs))"
        using l(6) sub pid by auto
      moreover have "by_activity (a # as) \<longrightarrow> reported_by_activity (?c # cs)"
        using l(5,7) by (fastforce simp: by_activity_def reported_by_activity_def act)
      ultimately show ?thesis using l(2-4) b(2) by (intro exI [of _ "?c # cs"] exI [of _ st'] exI [of _ w']) simp
    qed
  qed
qed (simp add: reported_by_activity_def)

lemma compare_active_candidate_desc_rank:
  "compare_active_candidate_desc = rank_compare (\<lambda>a. pd_total_score (ai_delta a)) ai_pid"
  by (intro ext) (simp add: compare_active_candidate_desc_def rank_compare_def)

interpretation detector_rank: comparison compare_active_candidate_desc "\<lambda>a. pd_total_score (ai_delta a) \<noteq> NaN"
  unfolding compare_active_candidate_desc_rank by (rule rank_comparison)

lemma ranked_by_activity:
  assumes "list_all entry_ok active"
  shows "by_activity (take n (qsort compare_active_candidate_desc active))"
proof -
  have nn: "pd_total_score (ai_delta a) \<noteq> NaN" if "a \<in> set active" for a
    using assms that by (auto simp: list_all_iff entry_ok_def unit_score_not_NaN)
  then have "sorted_wrt (\<lambda>a b. compare_active_candidate_desc a b \<le> 0) (qsort compare_active_candidate_desc active)"
    by (intro detector_rank.sorted_qsort) (simp add: list_all_iff)
  moreover have "fle (pd_total_score (ai_delta b)) (pd_total_score (ai_delta a))"
    if "a \<in> set active" "b \<in> set active" "compare_active_candidate_desc a b \<le> 0" for a b
  proof -
    have "flt (pd_total_score (ai_delta b)) (pd_total_score (ai_delta a)) \<or> pd_total_score (ai_delta a) = pd_total_score (ai_delta b)"
      using that(3) nn [OF that(1)] nn [OF that(2)] by (simp add: compare_active_candidate_desc_rank rank_compare_le) blast
    then show ?thesis using nn [OF that(1)] nn [OF that(2)] by (cases "pd_total_score (ai_delta a)"; cases "pd_total_score (ai_delta b)") auto
  qed
  ultimately have "by_activity (qsort compare_active_candidate_desc active)"
    unfolding by_activity_def by (rule sorted_wrt_mono_rel [rotated]) simp_all
  then show ?thesis unfolding by_activity_def by (rule sorted_wrt_take)
qed

text \<open>What every reported candidate satisfies.\<close>

definition candidate_ok :: "rounding \<Rightarrow> interference_detector_config \<Rightarrow> interference_process_state list \<Rightarrow> interference_candidate \<Rightarrow> bool" where
  "candidate_ok rnd cfg ps c \<longleftrightarrow>
     0 < ic_pid c \<and> ic_pid c \<in> ip_pid ` {p \<in> set ps. monitored p} \<and> ic_active c \<and>
     unit_score (ic_activity_score c) \<and> unit_score (ic_overlap_score c) \<and> unit_score (ic_final_score c) \<and>
     ic_final_score c = fmul rnd (ic_activity_score c) (ic_overlap_score c) \<and>
     (ic_should_throttle c \<longleftrightarrow> fle (id_overlap_score_threshold cfg) (ic_overlap_score c) \<and>
        fle (id_throttle_score_threshold cfg) (ic_final_score c))"

lemma make_candidate_ok:
  assumes "ieee_rnd rnd" "entry_ok a" "unit_score ov" "ai_pid a \<in> ip_pid ` {p \<in> set ps. monitored p}"
  shows "candidate_ok rnd cfg ps (make_interference_candidate rnd cfg a ov cp)"
  using assms unit_score_fmul [OF assms(1), of "pd_total_score (ai_delta a)" ov]
  by (simp add: candidate_ok_def make_interference_candidate_def Let_def entry_ok_def compute_final_score_def clamp01_id)

lemma detector_limit_le: "detector_limit cfg n cap \<le> cap" "0 < id_max_normal_candidates cfg \<Longrightarrow> detector_limit cfg n cap \<le> id_max_normal_candidates cfg"
  by (auto simp: detector_limit_def Let_def)

definition run_result ::
  "rounding \<Rightarrow> interference_detector_config \<Rightarrow> nat \<Rightarrow> interference_process_state list \<Rightarrow> world \<Rightarrow>
   interference_detector_rc \<Rightarrow> interference_process_state list \<Rightarrow> interference_candidate list \<Rightarrow> interference_detector_stats \<Rightarrow> world \<Rightarrow> bool" where
  "run_result rnd cfg out_cap ps w rc ps' out st w' \<longleftrightarrow>
     map ip_pid ps' = map ip_pid ps \<and> map ip_role ps' = map ip_role ps \<and> sample_ticks_ok ps' \<and>
     (rc \<noteq> INTERFERENCE_DETECTOR_OK \<longrightarrow> out = []) \<and> length out \<le> out_cap \<and>
     (0 < id_max_normal_candidates cfg \<longrightarrow> length out \<le> id_max_normal_candidates cfg) \<and>
     w_open w + ds_activity_samples st \<le> w_open w' \<and>
     list_all (candidate_ok rnd cfg ps) out \<and> reported_by_activity out \<and> (distinct (map ip_pid ps) \<longrightarrow> distinct (map ic_pid out))"

lemma run_result_empty:
  "sample_ticks_ok ps \<Longrightarrow> w_open w' = w_open w \<Longrightarrow> ds_activity_samples st = 0 \<Longrightarrow> run_result rnd cfg cap ps w rc ps [] st w'"
  by (simp add: run_result_def reported_by_activity_def)

lemma run_once_result:
  assumes ok: "detector_ok rnd os cfg ps"
  shows "\<exists>rc ps' out st w'. interference_detector_run_once rnd os (Some ps) (Some m) (Some cfg) False out_cap (Some c0) (Some s0) w =
      Some (rc, Some ps', out, Some (length out), Some st, w') \<and> run_result rnd cfg out_cap ps w rc ps' out st w'"
proof (cases "(0 < length ps \<and> out_cap = 0) \<or> \<not> dram_mapping_is_ready (Some m)")
  case True
  have "sample_ticks_ok ps" using ok by (simp add: detector_ok_def)
  with True show ?thesis
    by (auto simp: interference_detector_run_once_def Let_def stats_set_error_def interference_detector_stats_reset_def
        intro!: run_result_empty)
next
  case False
  let ?M = "unat (bc_max_pages_to_sample (id_profile_config cfg))"
  let ?st1 = "interference_detector_stats_reset\<lparr>ds_process_count := length ps\<rparr>"
  have h: "ieee_rnd rnd" "weights_ok rnd" "activity_config_ok (id_activity_config cfg)" "page_size_ok os"
    "\<forall>v. os_sysconf os v SC_CLK_TCK < 2 ^ 63" "sample_ticks_ok ps"
    "0 < bc_max_pages_to_sample (id_profile_config cfg)" "(length ps + 1) * ?M < 2 ^ 64"
    using ok by (simp_all add: detector_ok_def)
  have start: "profile_inv bank_profile_reset" "entry_total (bp_entries bank_profile_reset) = 0" "ds_activity_samples ?st1 = 0"
    by (simp_all add: profile_inv_def entry_total_def bank_profile_reset_def interference_detector_stats_reset_def)
  obtain rc1 agg st2 w2 where pl: "protected_loop rnd os m cfg ps bank_profile_reset ?st1 w = Some (rc1, agg, st2, w2)"
    "w_open w2 = w_open w" "ds_activity_samples st2 = 0"
    "rc1 = INTERFERENCE_DETECTOR_OK \<longrightarrow> profile_inv agg \<and> entry_total (bp_entries agg) \<le> length ps * ?M"
    using protected_loop_result [OF h(4,7) start(1), of rnd m ps ?st1 w] start by auto
  define rc2 where "rc2 = (if rc1 \<noteq> INTERFERENCE_DETECTOR_OK then rc1 else if bp_entries agg = []
      then INTERFERENCE_DETECTOR_ERR_NO_PROTECTED_PROFILE else INTERFERENCE_DETECTOR_OK)"
  have ba: "build_protected_aggregate_profile rnd os ps m cfg ?st1 w = Some (rc2, agg, st2, w2)"
    by (simp add: build_protected_aggregate_profile_def pl(1) rc2_def)
  show ?thesis
  proof (cases "rc2 = INTERFERENCE_DETECTOR_OK")
    case bad: False
    with False ba pl(2,3) h(6) show ?thesis
      by (auto simp: interference_detector_run_once_def Let_def stats_set_error_def intro!: run_result_empty)
  next
    case good: True
    then have agg: "profile_inv agg" "entry_total (bp_entries agg) + ?M < 2 ^ 64"
      using pl(4) h(8) by (auto simp: rc2_def split: if_splits)
    show ?thesis
    proof (cases "os_alloc os w2 (length ps)")
      case nomem: False
      then have "collect_active_normal_candidates rnd os ps cfg st2 w2 = (INTERFERENCE_DETECTOR_ERR_NO_MEMORY, ps, [], st2, tick w2)"
        by (simp add: collect_active_normal_candidates_def sys_calloc_def)
      with False good ba pl(2,3) h(6) show ?thesis
        by (auto simp: interference_detector_run_once_def Let_def stats_set_error_def intro!: run_result_empty)
    next
      case mem: True
      obtain ps' active st3 w3 where cl: "collect_loop rnd os cfg ps [] st2 (tick w2) = (ps', active, st3, w3)" by (rule prod_cases4)
      note cr = collect_loop_result [OF h(1-3,5) cl h(6)]
      let ?ranked = "qsort compare_active_candidate_desc active"
      let ?n = "detector_limit cfg (length active) out_cap"
      let ?st3 = "st3\<lparr>ds_active_normal_candidates := length active\<rparr>"
      have ca: "collect_active_normal_candidates rnd os ps cfg st2 w2 = (INTERFERENCE_DETECTOR_OK, ps', ?ranked, ?st3, w3)"
        using mem cl by (simp add: collect_active_normal_candidates_def sys_calloc_def)
      obtain cs st4 w4 where sl: "score_loop rnd os m cfg agg (take ?n ?ranked) [] ?st3 w3 = Some (cs, st4, w4)"
        "w_open w4 = w_open w3" "ds_activity_samples st4 = ds_activity_samples st3" "length cs \<le> length (take ?n ?ranked)"
        "\<forall>c \<in> set cs. \<exists>a \<in> set (take ?n ?ranked). \<exists>ov cp. unit_score ov \<and> c = make_interference_candidate rnd cfg a ov cp"
        "distinct (map ai_pid (take ?n ?ranked)) \<longrightarrow> distinct (map ic_pid cs)"
        "by_activity (take ?n ?ranked) \<longrightarrow> reported_by_activity cs"
        using score_loop_result [OF h(4,7,1) agg, of m "take ?n ?ranked" "[]" ?st3 w3] by auto
      have run: "interference_detector_run_once rnd os (Some ps) (Some m) (Some cfg) False out_cap (Some c0) (Some s0) w =
          Some (INTERFERENCE_DETECTOR_OK, Some ps', cs, Some (length cs), Some (st4\<lparr>ds_output_candidates := length cs\<rparr>), w4)"
        using False good ba ca sl(1) by (auto simp: interference_detector_run_once_def Let_def)
      have act: "list_all entry_ok active" "ai_pid ` set active \<subseteq> ip_pid ` {p \<in> set ps. monitored p}"
        "distinct (map ip_pid ps) \<longrightarrow> distinct (map ai_pid active)" using cr by auto
      have "candidate_ok rnd cfg ps c" if mem: "c \<in> set cs" for c
      proof -
        obtain a ov cp where a: "a \<in> set (take ?n ?ranked)" "unit_score ov" "c = make_interference_candidate rnd cfg a ov cp"
          using sl(5) mem by blast
        then have "a \<in> set active" using in_set_takeD [OF a(1)] by simp
        with a act(1,2) make_candidate_ok [OF h(1), of a ov ps cfg cp] show ?thesis by (auto simp: list_all_iff)
      qed
      moreover have "distinct (map ip_pid ps) \<longrightarrow> distinct (map ic_pid cs)"
        using sl(6) act(3) distinct_map_qsort [of ai_pid compare_active_candidate_desc active]
        by (metis distinct_take take_map)
      moreover have "w_open w + ds_activity_samples st4 \<le> w_open w4" using cr sl(2,3) pl(2,3) by simp
      moreover have "length cs \<le> ?n" using sl(4) by simp
      moreover have "reported_by_activity cs" using sl(7) ranked_by_activity [OF act(1), of ?n] by simp
      ultimately have "run_result rnd cfg out_cap ps w INTERFERENCE_DETECTOR_OK ps' cs (st4\<lparr>ds_output_candidates := length cs\<rparr>) w4"
        using cr detector_limit_le [of cfg "length active" out_cap]
        by (auto simp: run_result_def list_all_iff intro: le_trans)
      with run show ?thesis by blast
    qed
  qed
qed

subsection \<open>The detector writes no control file\<close>

lemma sample_now_writes: "proc_activity_sample_now os pid outp w = (rc, q, w') \<Longrightarrow> w_writes w' = w_writes w"
  by (auto simp: proc_activity_sample_now_def get_time_ns_def sysconf_def clock_gettime_def fopen_r_def fclose_r_def Let_def
      split: if_splits option.splits prod.splits)

lemma protected_loop_writes:
  "protected_loop rnd os m cfg ps agg st w = Some (rc, agg', st', w') \<Longrightarrow> w_writes w' = w_writes w"
  by (induction ps arbitrary: agg st w)
    (auto simp: Let_def split: if_splits option.splits prod.splits dest!: bank_profile_build_writes)

lemma collect_process_writes: "collect_process rnd os cfg p st w = (p', entry, st', w') \<Longrightarrow> w_writes w' = w_writes w"
  by (auto simp: collect_process_def Let_def split: if_splits prod.splits dest!: sample_now_writes)

lemma collect_loop_writes: "collect_loop rnd os cfg ps active st w = (ps', active', st', w') \<Longrightarrow> w_writes w' = w_writes w"
  by (induction ps arbitrary: active st w ps') (auto simp: Let_def split: prod.splits dest!: collect_process_writes)

lemma score_loop_writes: "score_loop rnd os m cfg agg as out st w = Some (out', st', w') \<Longrightarrow> w_writes w' = w_writes w"
  by (induction as arbitrary: out st w)
    (auto simp: Let_def split: if_splits option.splits prod.splits sum.splits dest!: bank_profile_build_writes)

lemma run_once_writes:
  assumes "interference_detector_run_once rnd os psp mp cfgp out_null out_cap c0 s0 w = Some (rc, ps', out, cnt, st, w')"
  shows "w_writes w' = w_writes w"
  using assms
  by (auto simp: interference_detector_run_once_def build_protected_aggregate_profile_def collect_active_normal_candidates_def
      sys_calloc_def Let_def split: if_splits option.splits prod.splits
      dest!: protected_loop_writes collect_loop_writes score_loop_writes)

subsection \<open>Properties\<close>

text \<open>C23: An interval of the detector always returns, whatever the operating system answers: it reports a code, the count agrees with the
  array, nothing is reported with an error code, the number of candidates respects both the configured maximum and the
  capacity of the output array, the candidates come in non-increasing order of their activity score, and
  the process list keeps its processes and roles.\<close>

theorem detector_run_returns:
  assumes "detector_ok rnd os cfg ps"
  shows "\<exists>rc ps' out st w'.
    interference_detector_run_once rnd os (Some ps) (Some m) (Some cfg) False out_cap (Some c0) (Some s0) w =
      Some (rc, Some ps', out, Some (length out), Some st, w') \<and>
    (rc \<noteq> INTERFERENCE_DETECTOR_OK \<longrightarrow> out = []) \<and> length out \<le> out_cap \<and>
    (0 < id_max_normal_candidates cfg \<longrightarrow> length out \<le> id_max_normal_candidates cfg) \<and>
    sorted_wrt (\<lambda>c d. fle (ic_activity_score d) (ic_activity_score c)) out \<and>
    map ip_pid ps' = map ip_pid ps \<and> map ip_role ps' = map ip_role ps \<and> sample_ticks_ok ps'"
  using run_once_result [OF assms, of m out_cap c0 s0 w] unfolding run_result_def reported_by_activity_def
  by (elim exE) (intro exI, elim conjE, intro conjI, assumption+)

definition demo_processes :: "interference_process_state list" where
  "demo_processes = [interference_process_state_reset\<lparr>ip_pid := 5, ip_role := INTERFERENCE_PROCESS_PROTECTED, ip_alive := True\<rparr>,
     interference_process_state_reset\<lparr>ip_pid := 6, ip_alive := True\<rparr>]"

lemma demo_detector_ok: "detector_ok Fin os_fine (interference_detector_config_default Fin) demo_processes"
  by (simp add: detector_ok_def ieee_rnd_exact weights_ok_exact activity_config_default_ok interference_detector_config_default_def
      page_size_ok_def os_fine_def sample_ticks_ok_def demo_processes_def interference_process_state_reset_def
      proc_activity_sample_reset_def)

theorem detector_run_returns_witness:
  "\<exists>rc ps' out st w'.
    interference_detector_run_once Fin os_fine (Some demo_processes) (Some demo_mapping)
      (Some (interference_detector_config_default Fin)) False 8 (Some 0) (Some interference_detector_stats_reset) world0 =
      Some (rc, Some ps', out, Some (length out), Some st, w') \<and> map ip_pid ps' = [5, 6]"
  using detector_run_returns [OF demo_detector_ok, of demo_mapping 8 0 interference_detector_stats_reset world0]
  by (fastforce simp: demo_processes_def)





end
