(* ===== verification/Activity_Prefilter.thy ===== *)
theory Activity_Prefilter
  imports Proc_Activity C_Sort
begin

text \<open>
  The activity prefilter (\<open>protected-daemon/src/activity_prefilter.c\<close>, \<open>activity_prefilter.h\<close>): from one observation per
  process, the cheap selection of the processes that are worth a bank profile. \<open>size_t\<close> counters are naturals, bounded by the number of
  observations. The function returns the code, the new \<open>*out_count\<close>, the elements written to \<open>out\<close>, the new \<open>*stats\<close> and
  the world.
\<close>

datatype activity_prefilter_status =
    ACTIVITY_PREFILTER_OK
  | ACTIVITY_PREFILTER_ERR_INVALID_ARG
  | ACTIVITY_PREFILTER_ERR_NO_SPACE
  | ACTIVITY_PREFILTER_ERR_NO_MEMORY

record activity_prefilter_config =
  fc_max_candidates :: nat
  fc_min_rss_pages :: u64

record activity_prefilter_observation =
  fo_pid :: pid_t
  fo_sample :: proc_activity_sample
  fo_delta :: proc_activity_delta

record activity_prefilter_candidate =
  fk_pid :: pid_t
  fk_screening_score :: cdouble
  fk_delta :: proc_activity_delta

record activity_prefilter_stats =
  fs_observations :: nat
  fs_valid_observations :: nat
  fs_excluded_zombie :: nat
  fs_excluded_small_rss :: nat
  fs_excluded_no_signal :: nat
  fs_eligible_candidates :: nat
  fs_selected_candidates :: nat

definition ACTIVITY_PREFILTER_DEFAULT_TOP_K1 :: nat where "ACTIVITY_PREFILTER_DEFAULT_TOP_K1 = 64"

definition max3 :: "cdouble \<Rightarrow> cdouble \<Rightarrow> cdouble \<Rightarrow> cdouble" where
  "max3 a b c =
     (let max_value = a;
          max_value = (if flt max_value b then b else max_value)
      in if flt max_value c then c else max_value)"

definition observation_is_valid :: "activity_prefilter_observation \<Rightarrow> bool" where
  "observation_is_valid obs =
     (if fo_pid obs \<le> 0 then False
      else if \<not> ps_valid (fo_sample obs) \<or> \<not> pd_valid (fo_delta obs) then False
      else if ps_pid (fo_sample obs) \<noteq> fo_pid obs \<or> pd_pid (fo_delta obs) \<noteq> fo_pid obs then False
      else True)"

definition has_cheap_activity_signal :: "activity_prefilter_observation \<Rightarrow> bool" where
  "has_cheap_activity_signal obs =
     (if 0 < pd_cpu_ticks_delta (fo_delta obs) then True
      else if 0 < pd_minflt_delta (fo_delta obs) \<or> 0 < pd_majflt_delta (fo_delta obs) then True
      else if ps_state (fo_sample obs) = CHR ''R'' \<or> ps_state (fo_sample obs) = CHR ''D'' then True
      else False)"

definition compare_candidate_desc :: "activity_prefilter_candidate \<Rightarrow> activity_prefilter_candidate \<Rightarrow> int" where
  "compare_candidate_desc a b =
     (if flt (fk_screening_score a) (fk_screening_score b) then 1
      else if flt (fk_screening_score b) (fk_screening_score a) then -1
      else if fk_pid b < fk_pid a then 1
      else if fk_pid a < fk_pid b then -1
      else 0)"

definition activity_prefilter_config_default :: activity_prefilter_config where
  "activity_prefilter_config_default =
     \<lparr>fc_max_candidates = ACTIVITY_PREFILTER_DEFAULT_TOP_K1, fc_min_rss_pages = 1\<rparr>"

definition activity_prefilter_stats_reset :: activity_prefilter_stats where
  "activity_prefilter_stats_reset =
     \<lparr>fs_observations = 0, fs_valid_observations = 0, fs_excluded_zombie = 0, fs_excluded_small_rss = 0,
      fs_excluded_no_signal = 0, fs_eligible_candidates = 0, fs_selected_candidates = 0\<rparr>"

definition small_rss :: "activity_prefilter_config \<Rightarrow> activity_prefilter_observation \<Rightarrow> bool" where
  "small_rss cfg obs \<longleftrightarrow>
     ps_rss_pages (fo_sample obs) \<le> 0 \<or> of_int (ps_rss_pages (fo_sample obs)) < fc_min_rss_pages cfg"

definition activity_prefilter_is_eligible ::
  "activity_prefilter_observation option \<Rightarrow> activity_prefilter_config option \<Rightarrow> bool option \<Rightarrow>
   activity_prefilter_status \<times> bool option" where
  "activity_prefilter_is_eligible obsp cfgp eligible_out =
     (if obsp = None \<or> cfgp = None \<or> eligible_out = None then (ACTIVITY_PREFILTER_ERR_INVALID_ARG, eligible_out)
      else let obs = the obsp; cfg = the cfgp
      in if \<not> observation_is_valid obs then (ACTIVITY_PREFILTER_OK, Some False)
         else if ps_state (fo_sample obs) = CHR ''Z'' then (ACTIVITY_PREFILTER_OK, Some False)
         else if small_rss cfg obs then (ACTIVITY_PREFILTER_OK, Some False)
         else if \<not> has_cheap_activity_signal obs then (ACTIVITY_PREFILTER_OK, Some False)
         else (ACTIVITY_PREFILTER_OK, Some True))"

definition make_candidate :: "activity_prefilter_observation \<Rightarrow> activity_prefilter_candidate" where
  "make_candidate obs =
     \<lparr>fk_pid = fo_pid obs,
      fk_screening_score = max3 (pd_cpu_score (fo_delta obs)) (pd_fault_score (fo_delta obs)) (pd_rss_score (fo_delta obs)),
      fk_delta = fo_delta obs\<rparr>"

text \<open>The loop over the observations: the array \<open>eligible\<close> so far and the counters; \<open>Inl\<close> is the early return.\<close>

fun select_loop ::
  "activity_prefilter_config \<Rightarrow> activity_prefilter_observation list \<Rightarrow> activity_prefilter_candidate list \<Rightarrow>
   activity_prefilter_stats \<Rightarrow>
   (activity_prefilter_status + activity_prefilter_candidate list) \<times> activity_prefilter_stats" where
  "select_loop cfg [] eligible stats = (Inr eligible, stats)"
| "select_loop cfg (obs # rest) eligible stats =
     (if \<not> observation_is_valid obs then select_loop cfg rest eligible stats
      else let stats1 = stats\<lparr>fs_valid_observations := Suc (fs_valid_observations stats)\<rparr>
      in if ps_state (fo_sample obs) = CHR ''Z''
         then select_loop cfg rest eligible (stats1\<lparr>fs_excluded_zombie := Suc (fs_excluded_zombie stats1)\<rparr>)
         else if small_rss cfg obs
         then select_loop cfg rest eligible (stats1\<lparr>fs_excluded_small_rss := Suc (fs_excluded_small_rss stats1)\<rparr>)
         else case activity_prefilter_is_eligible (Some obs) (Some cfg) (Some False) of
           (rc, eligible_now) \<Rightarrow>
             if rc \<noteq> ACTIVITY_PREFILTER_OK then (Inl rc, stats1)
             else if eligible_now \<noteq> Some True
             then select_loop cfg rest eligible (stats1\<lparr>fs_excluded_no_signal := Suc (fs_excluded_no_signal stats1)\<rparr>)
             else select_loop cfg rest (eligible @ [make_candidate obs]) stats1)"

text \<open>\<open>observations = None\<close>, \<open>out_null\<close>: the pointer is NULL. The caller's array \<open>out\<close> has \<open>out_cap\<close> elements.\<close>

definition activity_prefilter_select_topk ::
  "os \<Rightarrow> activity_prefilter_observation list option \<Rightarrow> nat \<Rightarrow> activity_prefilter_config option \<Rightarrow> bool \<Rightarrow> nat \<Rightarrow>
   nat option \<Rightarrow> activity_prefilter_stats option \<Rightarrow> world \<Rightarrow>
   activity_prefilter_status \<times> nat option \<times> activity_prefilter_candidate list \<times> activity_prefilter_stats option \<times> world" where
  "activity_prefilter_select_topk os observations observation_count cfgp out_null out_cap out_count statsp w =
     (let ret = (\<lambda>rc count out st w'. (rc, count, out, map_option (\<lambda>_. st) statsp, w'))
      in if out_count = None then (ACTIVITY_PREFILTER_ERR_INVALID_ARG, None, [], statsp, w)
      else let st0 = activity_prefilter_stats_reset
      in if cfgp = None then ret ACTIVITY_PREFILTER_ERR_INVALID_ARG (Some 0) [] st0 w
      else if 0 < observation_count \<and> observations = None then ret ACTIVITY_PREFILTER_ERR_INVALID_ARG (Some 0) [] st0 w
      else let cfg = the cfgp
      in if 0 < fc_max_candidates cfg \<and> out_null then ret ACTIVITY_PREFILTER_ERR_INVALID_ARG (Some 0) [] st0 w
      else let st1 = st0\<lparr>fs_observations := observation_count\<rparr>
      in if observation_count = 0 then ret ACTIVITY_PREFILTER_OK (Some 0) [] st1 w
      else let (ok, w1) = sys_calloc os observation_count w
      in if \<not> ok then ret ACTIVITY_PREFILTER_ERR_NO_MEMORY (Some 0) [] st1 w1
      else case select_loop cfg (take observation_count (the observations)) [] st1 of
        (Inl rc, st2) \<Rightarrow> ret rc (Some 0) [] st2 w1
      | (Inr eligible0, st2) \<Rightarrow>
          (let eligible = qsort compare_candidate_desc eligible0;
               st3 = st2\<lparr>fs_eligible_candidates := length eligible\<rparr>;
               selected_count = (if 0 < fc_max_candidates cfg \<and> fc_max_candidates cfg < length eligible
                                 then fc_max_candidates cfg else length eligible)
           in if out_cap < selected_count then ret ACTIVITY_PREFILTER_ERR_NO_SPACE (Some 0) [] st3 w1
              else ret ACTIVITY_PREFILTER_OK (Some selected_count) (take selected_count eligible)
                     (st3\<lparr>fs_selected_candidates := selected_count\<rparr>) w1))"

fun activity_prefilter_strerror :: "activity_prefilter_status \<Rightarrow> string" where
  "activity_prefilter_strerror ACTIVITY_PREFILTER_OK = ''ok''"
| "activity_prefilter_strerror ACTIVITY_PREFILTER_ERR_INVALID_ARG = ''invalid argument''"
| "activity_prefilter_strerror ACTIVITY_PREFILTER_ERR_NO_SPACE = ''insufficient output space''"
| "activity_prefilter_strerror ACTIVITY_PREFILTER_ERR_NO_MEMORY = ''out of memory''"

subsection \<open>The loop as a filter\<close>

text \<open>The outcome of one observation, as an abstract classification.\<close>

definition prefilter_eligible :: "activity_prefilter_config \<Rightarrow> activity_prefilter_observation \<Rightarrow> bool" where
  "prefilter_eligible cfg obs \<longleftrightarrow>
     observation_is_valid obs \<and> ps_state (fo_sample obs) \<noteq> CHR ''Z'' \<and> \<not> small_rss cfg obs \<and> has_cheap_activity_signal obs"

lemma is_eligible_iff:
  "activity_prefilter_is_eligible (Some obs) (Some cfg) (Some b) = (ACTIVITY_PREFILTER_OK, Some (prefilter_eligible cfg obs))"
  by (simp add: activity_prefilter_is_eligible_def prefilter_eligible_def Let_def)

text \<open>Every valid observation is counted in exactly one outcome.\<close>

definition stats_balanced :: "activity_prefilter_stats \<Rightarrow> nat \<Rightarrow> bool" where
  "stats_balanced st n \<longleftrightarrow>
     fs_valid_observations st = fs_excluded_zombie st + fs_excluded_small_rss st + fs_excluded_no_signal st + n"

lemma select_loop_result:
  "select_loop cfg obss acc st =
     (Inr (acc @ map make_candidate (filter (prefilter_eligible cfg) obss)),
      st\<lparr>fs_valid_observations := fs_valid_observations st + length (filter observation_is_valid obss),
         fs_excluded_zombie := fs_excluded_zombie st +
           length (filter (\<lambda>obs. observation_is_valid obs \<and> ps_state (fo_sample obs) = CHR ''Z'') obss),
         fs_excluded_small_rss := fs_excluded_small_rss st +
           length (filter (\<lambda>obs. observation_is_valid obs \<and> ps_state (fo_sample obs) \<noteq> CHR ''Z'' \<and> small_rss cfg obs) obss),
         fs_excluded_no_signal := fs_excluded_no_signal st +
           length (filter (\<lambda>obs. observation_is_valid obs \<and> ps_state (fo_sample obs) \<noteq> CHR ''Z'' \<and> \<not> small_rss cfg obs \<and>
             \<not> has_cheap_activity_signal obs) obss)\<rparr>)"
  by (induction obss arbitrary: acc st) (simp_all add: is_eligible_iff Let_def prefilter_eligible_def)

lemma select_loop_balanced:
  "length (filter observation_is_valid obss) =
     length (filter (\<lambda>obs. observation_is_valid obs \<and> ps_state (fo_sample obs) = CHR ''Z'') obss) +
     length (filter (\<lambda>obs. observation_is_valid obs \<and> ps_state (fo_sample obs) \<noteq> CHR ''Z'' \<and> small_rss cfg obs) obss) +
     length (filter (\<lambda>obs. observation_is_valid obs \<and> ps_state (fo_sample obs) \<noteq> CHR ''Z'' \<and> \<not> small_rss cfg obs \<and>
       \<not> has_cheap_activity_signal obs) obss) +
     length (filter (prefilter_eligible cfg) obss)"
  by (induction obss) (auto simp: prefilter_eligible_def)

lemma max3_max: "a \<noteq> NaN \<Longrightarrow> b \<noteq> NaN \<Longrightarrow> c \<noteq> NaN \<Longrightarrow>
    max3 a b c \<in> {a, b, c} \<and> fle a (max3 a b c) \<and> fle b (max3 a b c) \<and> fle c (max3 a b c)"
  by (cases a; cases b; cases c) (auto simp: max3_def Let_def)

lemma compare_candidate_desc_rank: "compare_candidate_desc = rank_compare fk_screening_score fk_pid"
  by (intro ext) (simp add: compare_candidate_desc_def rank_compare_def)

interpretation prefilter_rank: comparison compare_candidate_desc "\<lambda>c. fk_screening_score c \<noteq> NaN"
  unfolding compare_candidate_desc_rank by (rule rank_comparison)

subsection \<open>Properties\<close>

text \<open>The number of candidates that a configuration lets through.\<close>

definition prefilter_limit :: "activity_prefilter_config \<Rightarrow> nat \<Rightarrow> nat" where
  "prefilter_limit cfg n = (if fc_max_candidates cfg = 0 then n else min (fc_max_candidates cfg) n)"

lemma select_topk_eq:
  assumes "obss \<noteq> []" and "\<not> (0 < fc_max_candidates cfg \<and> out_null)" and "os_alloc os w (length obss)"
  shows "activity_prefilter_select_topk os (Some obss) (length obss) (Some cfg) out_null out_cap (Some c0) (Some s0) w =
    (let ranked = qsort compare_candidate_desc (map make_candidate (filter (prefilter_eligible cfg) obss));
         st = (snd (select_loop cfg obss [] (activity_prefilter_stats_reset\<lparr>fs_observations := length obss\<rparr>)))
                \<lparr>fs_eligible_candidates := length ranked\<rparr>;
         k = prefilter_limit cfg (length ranked)
     in if out_cap < k then (ACTIVITY_PREFILTER_ERR_NO_SPACE, Some 0, [], Some st, tick w)
        else (ACTIVITY_PREFILTER_OK, Some k, take k ranked, Some (st\<lparr>fs_selected_candidates := k\<rparr>), tick w))"
  using assms
  by (auto simp: activity_prefilter_select_topk_def Let_def sys_calloc_def select_loop_result prefilter_limit_def)

text \<open>What the header file documents, in terms of the fields alone: a usable observation, an observation that is worth a profile, and the
  score by which candidates are ranked.\<close>

definition usable :: "activity_prefilter_observation \<Rightarrow> bool" where
  "usable obs \<longleftrightarrow> 0 < fo_pid obs \<and> ps_valid (fo_sample obs) \<and> pd_valid (fo_delta obs) \<and>
     ps_pid (fo_sample obs) = fo_pid obs \<and> pd_pid (fo_delta obs) = fo_pid obs"

definition large_enough :: "activity_prefilter_config \<Rightarrow> activity_prefilter_observation \<Rightarrow> bool" where
  "large_enough cfg obs \<longleftrightarrow> 0 < ps_rss_pages (fo_sample obs) \<and> fc_min_rss_pages cfg \<le> of_int (ps_rss_pages (fo_sample obs))"

definition shows_activity :: "activity_prefilter_observation \<Rightarrow> bool" where
  "shows_activity obs \<longleftrightarrow> pd_cpu_ticks_delta (fo_delta obs) \<noteq> 0 \<or> pd_minflt_delta (fo_delta obs) \<noteq> 0 \<or>
     pd_majflt_delta (fo_delta obs) \<noteq> 0 \<or> ps_state (fo_sample obs) \<in> {CHR ''R'', CHR ''D''}"

definition worth_profiling :: "activity_prefilter_config \<Rightarrow> activity_prefilter_observation \<Rightarrow> bool" where
  "worth_profiling cfg obs \<longleftrightarrow>
     usable obs \<and> ps_state (fo_sample obs) \<noteq> CHR ''Z'' \<and> large_enough cfg obs \<and> shows_activity obs"

definition largest_score :: "proc_activity_delta \<Rightarrow> cdouble \<Rightarrow> bool" where
  "largest_score d s \<longleftrightarrow> s \<in> {pd_cpu_score d, pd_fault_score d, pd_rss_score d} \<and>
     fle (pd_cpu_score d) s \<and> fle (pd_fault_score d) s \<and> fle (pd_rss_score d) s"

definition ranks_before :: "activity_prefilter_candidate \<Rightarrow> activity_prefilter_candidate \<Rightarrow> bool" where
  "ranks_before a b \<longleftrightarrow> flt (fk_screening_score b) (fk_screening_score a) \<or>
     (fk_screening_score a = fk_screening_score b \<and> fk_pid a \<le> fk_pid b)"

lemma predicates_documented:
  "observation_is_valid obs = usable obs" "small_rss cfg obs = (\<not> large_enough cfg obs)"
  "has_cheap_activity_signal obs = shows_activity obs" "prefilter_eligible cfg obs = worth_profiling cfg obs"
  by (auto simp: observation_is_valid_def usable_def small_rss_def large_enough_def has_cheap_activity_signal_def shows_activity_def
      prefilter_eligible_def worth_profiling_def word_neq_0_conv)

lemma make_candidate_documented:
  assumes "pd_cpu_score (fo_delta obs) \<noteq> NaN" "pd_fault_score (fo_delta obs) \<noteq> NaN" "pd_rss_score (fo_delta obs) \<noteq> NaN"
  shows "largest_score (fk_delta (make_candidate obs)) (fk_screening_score (make_candidate obs))"
    "fk_screening_score (make_candidate obs) \<noteq> NaN"
  using max3_max [OF assms] assms by (auto simp: make_candidate_def largest_score_def)

lemma sorted_documented:
  assumes "list_all (\<lambda>c. fk_screening_score c \<noteq> NaN) cs"
  shows "sorted_wrt ranks_before (qsort compare_candidate_desc cs)"
proof (rule sorted_wrt_mono_rel [OF _ prefilter_rank.sorted_qsort [OF assms]])
  fix a b
  assume "a \<in> set (qsort compare_candidate_desc cs)" "b \<in> set (qsort compare_candidate_desc cs)" "compare_candidate_desc a b \<le> 0"
  with assms show "ranks_before a b"
    by (simp add: list_all_iff compare_candidate_desc_rank rank_compare_le ranks_before_def)
qed

text \<open>C24: The prefilter returns the best observations. With non-NaN scores and memory for the work array, the call refuses exactly when
  the output array is too small for the selection; otherwise what it returns is the front part, as long as the limit allows, of a
  list of all observations that are worth a profile (usable, no zombie, large enough, with processor time, page faults or
  a running state), in which each has the largest of its three scores, and which is ordered by that score, the largest
  first, and by process id where scores are equal. The counters tell how many observations were usable and for which reason each of
  the others was dropped.\<close>

theorem select_topk_best:
  assumes "obss \<noteq> []" and "os_alloc os w (length obss)"
    and "\<forall>obs \<in> set obss. pd_cpu_score (fo_delta obs) \<noteq> NaN \<and> pd_fault_score (fo_delta obs) \<noteq> NaN \<and> pd_rss_score (fo_delta obs) \<noteq> NaN"
    and "activity_prefilter_select_topk os (Some obss) (length obss) (Some cfg) False out_cap (Some c0) (Some s0) w =
      (rc, cnt, out, Some st, w')"
  shows "(let el = filter (worth_profiling cfg) obss; k = prefilter_limit cfg (length el)
     in (rc = ACTIVITY_PREFILTER_OK \<longleftrightarrow> k \<le> out_cap) \<and>
        (rc \<noteq> ACTIVITY_PREFILTER_OK \<longrightarrow> rc = ACTIVITY_PREFILTER_ERR_NO_SPACE \<and> cnt = Some 0 \<and> out = []) \<and>
        fs_eligible_candidates st = length el \<and> fs_observations st = length obss \<and>
        fs_valid_observations st = length (filter usable obss) \<and>
        fs_excluded_zombie st = length (filter (\<lambda>obs. usable obs \<and> ps_state (fo_sample obs) = CHR ''Z'') obss) \<and>
        fs_excluded_small_rss st =
          length (filter (\<lambda>obs. usable obs \<and> ps_state (fo_sample obs) \<noteq> CHR ''Z'' \<and> \<not> large_enough cfg obs) obss) \<and>
        fs_valid_observations st =
          fs_excluded_zombie st + fs_excluded_small_rss st + fs_excluded_no_signal st + fs_eligible_candidates st \<and>
        (rc = ACTIVITY_PREFILTER_OK \<longrightarrow>
           cnt = Some k \<and> fs_selected_candidates st = k \<and>
           (\<exists>ranked. out = take k ranked \<and>
              mset (map (\<lambda>c. (fk_pid c, fk_delta c)) ranked) = mset (map (\<lambda>obs. (fo_pid obs, fo_delta obs)) el) \<and>
              (\<forall>c \<in> set ranked. largest_score (fk_delta c) (fk_screening_score c)) \<and> sorted_wrt ranks_before ranked)))"
proof -
  let ?el = "filter (worth_profiling cfg) obss"
  let ?r = "qsort compare_candidate_desc (map make_candidate ?el)"
  let ?k = "prefilter_limit cfg (length ?el)"
  let ?st = "snd (select_loop cfg obss [] (activity_prefilter_stats_reset\<lparr>fs_observations := length obss\<rparr>))"
  have "sorted_wrt ranks_before ?r"
    using assms(3) make_candidate_documented(2) by (intro sorted_documented) (auto simp: list_all_iff)
  moreover have "\<forall>c \<in> set ?r. largest_score (fk_delta c) (fk_screening_score c)"
    using assms(3) make_candidate_documented(1) by auto
  moreover have "mset (map (\<lambda>c. (fk_pid c, fk_delta c)) ?r) = mset (map (\<lambda>obs. (fo_pid obs, fo_delta obs)) ?el)"
    unfolding mset_map_qsort by (simp add: make_candidate_def comp_def)
  ultimately have ranked: "\<exists>ranked. take ?k ?r = take ?k ranked \<and>
      mset (map (\<lambda>c. (fk_pid c, fk_delta c)) ranked) = mset (map (\<lambda>obs. (fo_pid obs, fo_delta obs)) ?el) \<and>
      (\<forall>c \<in> set ranked. largest_score (fk_delta c) (fk_screening_score c)) \<and> sorted_wrt ranks_before ranked" by blast
  have st: "fs_observations ?st = length obss" "fs_valid_observations ?st = length (filter usable obss)"
    "fs_excluded_zombie ?st = length (filter (\<lambda>obs. usable obs \<and> ps_state (fo_sample obs) = CHR ''Z'') obss)"
    "fs_excluded_small_rss ?st =
       length (filter (\<lambda>obs. usable obs \<and> ps_state (fo_sample obs) \<noteq> CHR ''Z'' \<and> \<not> large_enough cfg obs) obss)"
    "fs_valid_observations ?st = fs_excluded_zombie ?st + fs_excluded_small_rss ?st + fs_excluded_no_signal ?st + length ?el"
    using select_loop_balanced [of obss cfg]
    by (simp_all add: select_loop_result activity_prefilter_stats_reset_def predicates_documented [abs_def])
  note eq = select_topk_eq [OF assms(1) _ assms(2), of cfg False out_cap c0 s0, simplified, unfolded Let_def, simplified, unfolded assms(4)
      predicates_documented(4) [abs_def]]
  show ?thesis using eq st ranked by (cases "out_cap < ?k") (simp_all add: Let_def)
qed

definition demo_observation :: "pid_t \<Rightarrow> char \<Rightarrow> real \<Rightarrow> activity_prefilter_observation" where
  "demo_observation pid state score =
     \<lparr>fo_pid = pid,
      fo_sample = proc_activity_sample_reset\<lparr>ps_pid := pid, ps_valid := True, ps_state := state, ps_rss_pages := 10\<rparr>,
      fo_delta = proc_activity_delta_reset\<lparr>pd_pid := pid, pd_valid := True, pd_cpu_score := Fin (1 / 8), pd_fault_score := Fin score\<rparr>\<rparr>"

text \<open>Of a busy, a busier, a sleeping and a dead process, the busier one is selected.\<close>

definition demo_observations :: "activity_prefilter_observation list" where
  "demo_observations = [demo_observation 5 CHR ''R'' (1 / 4), demo_observation 6 CHR ''R'' (1 / 2), demo_observation 7 CHR ''S'' 1,
     demo_observation 8 CHR ''Z'' 1]"

lemma demo_selection:
  "activity_prefilter_select_topk os_fine (Some demo_observations) (length demo_observations)
     (Some (activity_prefilter_config_default\<lparr>fc_max_candidates := 1\<rparr>)) False 8 (Some 0) (Some activity_prefilter_stats_reset) world0 =
   (ACTIVITY_PREFILTER_OK, Some 1, [make_candidate (demo_observation 6 CHR ''R'' (1 / 2))],
    Some \<lparr>fs_observations = 4, fs_valid_observations = 4, fs_excluded_zombie = 1, fs_excluded_small_rss = 0, fs_excluded_no_signal = 1,
      fs_eligible_candidates = 2, fs_selected_candidates = 1\<rparr>, tick world0)"
  by (simp add: activity_prefilter_select_topk_def demo_observations_def select_loop_result predicates_documented [abs_def] usable_def
      large_enough_def shows_activity_def worth_profiling_def demo_observation_def make_candidate_def max3_def qsort_def
      compare_candidate_desc_def activity_prefilter_stats_reset_def activity_prefilter_config_default_def sys_calloc_def os_fine_def
      proc_activity_sample_reset_def proc_activity_delta_reset_def)

theorem select_topk_best_witness:
  "\<exists>c st. activity_prefilter_select_topk os_fine (Some demo_observations) (length demo_observations)
       (Some (activity_prefilter_config_default\<lparr>fc_max_candidates := 1\<rparr>)) False 8 (Some 0) (Some activity_prefilter_stats_reset) world0 =
       (ACTIVITY_PREFILTER_OK, Some 1, [c], Some st, tick world0) \<and>
     fk_pid c = 6 \<and> fk_screening_score c = Fin (1 / 2) \<and> fs_excluded_zombie st = 1 \<and> fs_excluded_no_signal st = 1 \<and>
     (\<exists>ranked. [c] = take 1 ranked \<and> length ranked = 2 \<and> sorted_wrt ranks_before ranked)"
proof -
  let ?cfg = "activity_prefilter_config_default\<lparr>fc_max_candidates := 1\<rparr>"
  let ?el = "filter (worth_profiling ?cfg) demo_observations"
  have el: "length ?el = 2"
    by (simp add: worth_profiling_def usable_def large_enough_def shows_activity_def demo_observations_def demo_observation_def
        activity_prefilter_config_default_def proc_activity_sample_reset_def proc_activity_delta_reset_def)
  have k: "prefilter_limit ?cfg 2 = 1" by (simp add: prefilter_limit_def)
  have h: "demo_observations \<noteq> []" "os_alloc os_fine world0 (length demo_observations)"
    "\<forall>obs \<in> set demo_observations. pd_cpu_score (fo_delta obs) \<noteq> NaN \<and> pd_fault_score (fo_delta obs) \<noteq> NaN \<and> pd_rss_score (fo_delta obs) \<noteq> NaN"
    by (simp_all add: demo_observations_def os_fine_def demo_observation_def proc_activity_delta_reset_def)
  note t = select_topk_best [OF h demo_selection, unfolded Let_def el k]
  have "\<exists>ranked. [make_candidate (demo_observation 6 CHR ''R'' (1 / 2))] = take 1 ranked \<and>
      mset (map (\<lambda>c. (fk_pid c, fk_delta c)) ranked) = mset (map (\<lambda>obs. (fo_pid obs, fo_delta obs)) ?el) \<and> sorted_wrt ranks_before ranked"
    using t by blast
  then obtain ranked where ranked: "[make_candidate (demo_observation 6 CHR ''R'' (1 / 2))] = take 1 ranked" "sorted_wrt ranks_before ranked"
    "mset (map (\<lambda>c. (fk_pid c, fk_delta c)) ranked) = mset (map (\<lambda>obs. (fo_pid obs, fo_delta obs)) ?el)" by blast
  from mset_eq_length [OF ranked(3)] el have "length ranked = 2" by simp
  moreover have "fk_pid (make_candidate (demo_observation 6 CHR ''R'' (1 / 2))) = 6"
    "fk_screening_score (make_candidate (demo_observation 6 CHR ''R'' (1 / 2))) = Fin (1 / 2)"
    by (simp_all add: make_candidate_def demo_observation_def max3_def proc_activity_delta_reset_def)
  ultimately show ?thesis
    using ranked(1,2) unfolding demo_selection
    by (intro exI [of _ "make_candidate (demo_observation 6 CHR ''R'' (1 / 2))"] exI) (auto intro: exI [of _ ranked])
qed

end
