(* ===== verification/Candidate_Filter.thy ===== *)
theory Candidate_Filter
  imports Process_Table
begin

text \<open>
  The candidate filter (\<open>protected-daemon/src/candidate_filter.c\<close>, \<open>candidate_filter.h\<close>): which processes of the table the detector
  may look at, and in which role. A process is excluded, protected or a background candidate.
\<close>

datatype candidate_filter_status = CANDIDATE_FILTER_OK | CANDIDATE_FILTER_ERR_INVALID_ARG

datatype candidate_filter_kind =
    CANDIDATE_FILTER_EXCLUDED
  | CANDIDATE_FILTER_PROTECTED
  | CANDIDATE_FILTER_BACKGROUND

datatype candidate_filter_reason =
    CANDIDATE_FILTER_REASON_NONE
  | CANDIDATE_FILTER_REASON_INVALID_PROCESS
  | CANDIDATE_FILTER_REASON_DAEMON_SELF
  | CANDIDATE_FILTER_REASON_SYSTEM_SLICE
  | CANDIDATE_FILTER_REASON_CGROUP_UNAVAILABLE

record candidate_filter_result =
  cf_kind :: candidate_filter_kind
  cf_reason :: candidate_filter_reason

definition CGROUP_LINE_MAX :: nat where "CGROUP_LINE_MAX = 4096"
definition CGROUP_PATH_MAX_LOCAL :: nat where "CGROUP_PATH_MAX_LOCAL = 4096"

definition set_result :: "candidate_filter_kind \<Rightarrow> candidate_filter_reason \<Rightarrow> candidate_filter_result" where
  "set_result kind reason = \<lparr>cf_kind = kind, cf_reason = reason\<rparr>"

definition process_record_is_valid :: "proc_info option \<Rightarrow> bool" where
  "process_record_is_valid pp =
     (case pp of None \<Rightarrow> False | Some p \<Rightarrow> if \<not> pi_used p \<or> pi_pid p \<le> 0 then False else True)"

definition process_record_is_protected :: "proc_info option \<Rightarrow> bool" where
  "process_record_is_protected pp =
     (case pp of
        None \<Rightarrow> False
      | Some p \<Rightarrow>
          if pi_is_protected p \<or> pi_inherited_protected p then True
          else if pi_group p = GROUP_PROTECTED then True
          else False)"

text \<open>The loop over the lines: \<open>None\<close> when no line has the prefix, otherwise the path, or the refusal of an
  empty or overlong path.\<close>

fun scan_cgroup_lines :: "nat \<Rightarrow> string list \<Rightarrow> string option option" where
  "scan_cgroup_lines out_size [] = None"
| "scan_cgroup_lines out_size (line # lines) =
     (if take 3 (cstr line) \<noteq> ''0::'' then scan_cgroup_lines out_size lines
      else let path = cut_line_end (drop 3 (cstr line))
      in if length path = 0 \<or> out_size \<le> length path then Some None else Some (Some path))"

text \<open>\<open>Some path\<close> is the return value 0 with the path in the buffer, \<open>None\<close> the return value -1.\<close>

definition read_cgroup_v2_path :: "os \<Rightarrow> pid_t \<Rightarrow> nat \<Rightarrow> world \<Rightarrow> string option \<times> world" where
  "read_cgroup_v2_path os pid out_size w =
     (if pid \<le> 0 \<or> out_size = 0 then (None, w)
      else let proc_path = ''/proc/'' @ show_int pid @ ''/cgroup''
      in if 64 \<le> length proc_path then (None, w)
      else case fopen_r os proc_path w of
        (None, w1) \<Rightarrow> (None, w1)
      | (Some contents, w1) \<Rightarrow>
          (case scan_cgroup_lines out_size (fgets_all (CGROUP_LINE_MAX - 1) contents) of
             None \<Rightarrow> (None, snd (fclose_r os w1))
           | Some None \<Rightarrow> (None, snd (fclose_r os w1))
           | Some (Some path) \<Rightarrow>
               (let (closed, w2) = fclose_r os w1 in if \<not> closed then (None, w2) else (Some path, w2))))"

definition candidate_filter_path_is_system_slice :: "string option \<Rightarrow> bool" where
  "candidate_filter_path_is_system_slice cgroup_v2_path =
     (case cgroup_v2_path of
        None \<Rightarrow> False
      | Some path \<Rightarrow>
          if take 13 path \<noteq> ''/system.slice'' then False
          else drop 13 path = [] \<or> hd (drop 13 path) = CHR ''/'')"

definition candidate_filter_classify_path ::
  "proc_info option \<Rightarrow> pid_t \<Rightarrow> string option \<Rightarrow> candidate_filter_result option \<Rightarrow>
   candidate_filter_status \<times> candidate_filter_result option" where
  "candidate_filter_classify_path p daemon_pid cgroup_v2_path result =
     (if result = None then (CANDIDATE_FILTER_ERR_INVALID_ARG, None)
      else if \<not> process_record_is_valid p
      then (CANDIDATE_FILTER_OK, Some (set_result CANDIDATE_FILTER_EXCLUDED CANDIDATE_FILTER_REASON_INVALID_PROCESS))
      else if 0 < daemon_pid \<and> pi_pid (the p) = daemon_pid
      then (CANDIDATE_FILTER_OK, Some (set_result CANDIDATE_FILTER_EXCLUDED CANDIDATE_FILTER_REASON_DAEMON_SELF))
      else if process_record_is_protected p
      then (CANDIDATE_FILTER_OK, Some (set_result CANDIDATE_FILTER_PROTECTED CANDIDATE_FILTER_REASON_NONE))
      else if cgroup_v2_path = None \<or> the cgroup_v2_path = []
      then (CANDIDATE_FILTER_OK, Some (set_result CANDIDATE_FILTER_EXCLUDED CANDIDATE_FILTER_REASON_CGROUP_UNAVAILABLE))
      else if candidate_filter_path_is_system_slice cgroup_v2_path
      then (CANDIDATE_FILTER_OK, Some (set_result CANDIDATE_FILTER_EXCLUDED CANDIDATE_FILTER_REASON_SYSTEM_SLICE))
      else (CANDIDATE_FILTER_OK, Some (set_result CANDIDATE_FILTER_BACKGROUND CANDIDATE_FILTER_REASON_NONE)))"

definition candidate_filter_classify_pid ::
  "os \<Rightarrow> proc_info option \<Rightarrow> pid_t \<Rightarrow> candidate_filter_result option \<Rightarrow> world \<Rightarrow>
   candidate_filter_status \<times> candidate_filter_result option \<times> world" where
  "candidate_filter_classify_pid os p daemon_pid result w =
     (if result = None then (CANDIDATE_FILTER_ERR_INVALID_ARG, None, w)
      else if \<not> process_record_is_valid p
      then (CANDIDATE_FILTER_OK, Some (set_result CANDIDATE_FILTER_EXCLUDED CANDIDATE_FILTER_REASON_INVALID_PROCESS), w)
      else if 0 < daemon_pid \<and> pi_pid (the p) = daemon_pid
      then (CANDIDATE_FILTER_OK, Some (set_result CANDIDATE_FILTER_EXCLUDED CANDIDATE_FILTER_REASON_DAEMON_SELF), w)
      else if process_record_is_protected p
      then (CANDIDATE_FILTER_OK, Some (set_result CANDIDATE_FILTER_PROTECTED CANDIDATE_FILTER_REASON_NONE), w)
      else case read_cgroup_v2_path os (pi_pid (the p)) CGROUP_PATH_MAX_LOCAL w of
        (None, w1) \<Rightarrow>
          (CANDIDATE_FILTER_OK,
           Some (set_result CANDIDATE_FILTER_EXCLUDED CANDIDATE_FILTER_REASON_CGROUP_UNAVAILABLE), w1)
      | (Some cgroup_path, w1) \<Rightarrow>
          (let (rc, r) = candidate_filter_classify_path p daemon_pid (Some cgroup_path) result in (rc, r, w1)))"

fun candidate_filter_kind_name :: "candidate_filter_kind \<Rightarrow> string" where
  "candidate_filter_kind_name CANDIDATE_FILTER_EXCLUDED = ''excluded''"
| "candidate_filter_kind_name CANDIDATE_FILTER_PROTECTED = ''protected''"
| "candidate_filter_kind_name CANDIDATE_FILTER_BACKGROUND = ''background''"

fun candidate_filter_reason_name :: "candidate_filter_reason \<Rightarrow> string" where
  "candidate_filter_reason_name CANDIDATE_FILTER_REASON_NONE = ''none''"
| "candidate_filter_reason_name CANDIDATE_FILTER_REASON_INVALID_PROCESS = ''invalid-process''"
| "candidate_filter_reason_name CANDIDATE_FILTER_REASON_DAEMON_SELF = ''daemon-self''"
| "candidate_filter_reason_name CANDIDATE_FILTER_REASON_SYSTEM_SLICE = ''system.slice''"
| "candidate_filter_reason_name CANDIDATE_FILTER_REASON_CGROUP_UNAVAILABLE = ''cgroup-unavailable''"

subsection \<open>Reading a cgroup file\<close>

text \<open>A text file as lines, and the reading of such a file line by line.\<close>

definition join_lines :: "string list \<Rightarrow> string" where
  "join_lines ls = concat (map (\<lambda>l. l @ [CHR 0x0A]) ls)"

lemma fgets_line: "CHR 0x0A \<notin> set l \<Longrightarrow> length l < n \<Longrightarrow> fgets n (l @ CHR 0x0A # rest) = (l @ [CHR 0x0A], rest)"
proof (induction l arbitrary: n)
  case Nil
  then show ?case by (cases n) auto
next
  case (Cons c l)
  then show ?case by (cases n) auto
qed

lemma fgets_all_lines:
  "\<forall>l \<in> set ls. CHR 0x0A \<notin> set l \<and> length l < n \<Longrightarrow> fgets_all n (join_lines ls) = map (\<lambda>l. l @ [CHR 0x0A]) ls"
proof (induction ls)
  case (Cons l ls)
  then have "fgets n (l @ CHR 0x0A # join_lines ls) = (l @ [CHR 0x0A], join_lines ls)" by (intro fgets_line) auto
  with Cons show ?case by (subst fgets_all.simps) (auto simp: join_lines_def)
qed (simp add: join_lines_def)

lemma takeWhile_upto: "\<forall>x \<in> set xs. P x \<Longrightarrow> \<not> P y \<Longrightarrow> takeWhile P (xs @ [y]) = xs"
  by (induction xs) auto

text \<open>The path of hierarchy 0 among lines \<open>hierarchy:controllers:path\<close>.\<close>

definition v2_path :: "string list \<Rightarrow> string option" where
  "v2_path ls = (case filter (\<lambda>l. take 3 l = ''0::'') ls of [] \<Rightarrow> None | l # _ \<Rightarrow> if drop 3 l = [] then None else Some (drop 3 l))"

definition plain_line :: "string \<Rightarrow> bool" where
  "plain_line l \<longleftrightarrow> NUL \<notin> set l \<and> CHR 0x0A \<notin> set l \<and> CHR 0x0D \<notin> set l \<and> length l < 4095"

lemma scan_cgroup_lines_plain:
  assumes "\<forall>l \<in> set ls. plain_line l"
  shows "scan_cgroup_lines CGROUP_PATH_MAX_LOCAL (map (\<lambda>l. l @ [CHR 0x0A]) ls) =
    (if filter (\<lambda>l. take 3 l = ''0::'') ls = [] then None else Some (v2_path ls))"
  using assms
proof (induction ls)
  case (Cons l ls)
  have l: "NUL \<notin> set l" "CHR 0x0A \<notin> set l" "CHR 0x0D \<notin> set l" "length l < 4095"
    using Cons.prems by (auto simp: plain_line_def)
  have c: "cstr (l @ [CHR 0x0A]) = l @ [CHR 0x0A]" using l(1) by (intro cstr_id) (auto simp: NUL_def)
  show ?case
  proof (cases "take 3 l = ''0::''")
    case True
    have len: "3 \<le> length l"
    proof (rule ccontr)
      assume "\<not> 3 \<le> length l"
      then have "length (take 3 l) < 3" by simp
      with True show False by simp
    qed
    have d: "drop 3 (l @ [CHR 0x0A]) = drop 3 l @ [CHR 0x0A]" using len by simp
    have "NUL \<notin> set (drop 3 l)" "CHR 0x0A \<notin> set (drop 3 l)" "CHR 0x0D \<notin> set (drop 3 l)"
      using l(1-3) in_set_dropD by (fast+)
    then have "cut_line_end (drop 3 l @ [CHR 0x0A]) = drop 3 l"
      unfolding cut_line_end_def by (subst cstr_id) (auto simp: NUL_def intro!: takeWhile_upto)
    moreover have "\<not> 4096 \<le> length (drop 3 l)" using l(4) by simp
    ultimately show ?thesis using True len c d by (simp del: length_drop add: v2_path_def CGROUP_PATH_MAX_LOCAL_def Let_def)
  next
    case False
    have "take 3 (l @ [CHR 0x0A]) \<noteq> ''0::''"
    proof
      assume a: "take 3 (l @ [CHR 0x0A]) = ''0::''"
      then have "CHR 0x0A \<notin> set (take 3 (l @ [CHR 0x0A]))" by simp
      then have "3 \<le> length l" by (rule contrapos_np) (auto simp: in_set_conv_nth intro: exI [of _ "length l"])
      with a False show False by simp
    qed
    with False Cons c show ?thesis by (simp add: v2_path_def)
  qed
qed simp

lemma classify_path_pid:
  "candidate_filter_classify_path p d path (Some r) = (rc, q) \<Longrightarrow> rc = CANDIDATE_FILTER_OK \<and> q \<noteq> None"
  by (auto simp: candidate_filter_classify_path_def split: if_splits)

lemma read_cgroup_v2_path_open: "w_open (snd (read_cgroup_v2_path os pid n w)) = w_open w"
  by (auto simp: read_cgroup_v2_path_def fopen_r_def fclose_r_def Let_def split: option.splits prod.splits)

lemma system_slice_iff:
  "candidate_filter_path_is_system_slice (Some path) \<longleftrightarrow>
   path = ''/system.slice'' \<or> (\<exists>rest. path = ''/system.slice/'' @ rest)"
proof
  assume a: "candidate_filter_path_is_system_slice (Some path)"
  then have t: "take 13 path = ''/system.slice''" "drop 13 path = [] \<or> hd (drop 13 path) = CHR ''/''"
    by (auto simp: candidate_filter_path_is_system_slice_def split: if_splits)
  have p: "path = ''/system.slice'' @ drop 13 path" using append_take_drop_id [of 13 path] unfolding t(1) by (rule sym)
  show "path = ''/system.slice'' \<or> (\<exists>rest. path = ''/system.slice/'' @ rest)"
  proof (cases "drop 13 path")
    case Nil
    with p show ?thesis by simp
  next
    case (Cons c rest)
    with t(2) p have "path = ''/system.slice/'' @ rest" by simp
    then show ?thesis by blast
  qed
next
  assume "path = ''/system.slice'' \<or> (\<exists>rest. path = ''/system.slice/'' @ rest)"
  then show "candidate_filter_path_is_system_slice (Some path)"
    by (auto simp: candidate_filter_path_is_system_slice_def)
qed

subsection \<open>Property\<close>

text \<open>C25: The classification of a process, on every operating system. An unused record or one without a positive id, and the daemon itself, are
  excluded; a protected process is reported as protected without looking at its cgroup file; any other process becomes a
  background candidate exactly when its cgroup file can be read, gives a version 2 path, and that path is neither
  \<open>/system.slice\<close> nor below it. The code is always OK and no file stays open. The file is a list of
  ordinary lines shorter than the read buffer.\<close>

theorem classify_pid_spec:
  assumes "os_fopen os w (''/proc/'' @ show_int (pi_pid p) @ ''/cgroup'') = map_option join_lines file"
    and "\<forall>ls. file = Some ls \<longrightarrow> (\<forall>l \<in> set ls. plain_line l)"
    and "pi_pid p < 2 ^ 31"
  shows "\<exists>reason w'. candidate_filter_classify_pid os (Some p) daemon_pid (Some r0) w =
      (CANDIDATE_FILTER_OK,
       Some \<lparr>cf_kind =
         (if \<not> pi_used p \<or> pi_pid p \<le> 0 \<or> (0 < daemon_pid \<and> pi_pid p = daemon_pid) then CANDIDATE_FILTER_EXCLUDED
          else if pi_is_protected p \<or> pi_inherited_protected p \<or> pi_group p = GROUP_PROTECTED then CANDIDATE_FILTER_PROTECTED
          else case Option.bind file v2_path of
            None \<Rightarrow> CANDIDATE_FILTER_EXCLUDED
          | Some path \<Rightarrow>
              if path = ''/system.slice'' \<or> (\<exists>rest. path = ''/system.slice/'' @ rest) \<or>
                 \<not> os_fclose os ((tick w)\<lparr>w_open := Suc (w_open w)\<rparr>)
              then CANDIDATE_FILTER_EXCLUDED else CANDIDATE_FILTER_BACKGROUND),
         cf_reason = reason\<rparr>, w') \<and> w_open w' = w_open w"
proof (cases "pi_used p \<and> 0 < pi_pid p \<and> \<not> (0 < daemon_pid \<and> pi_pid p = daemon_pid) \<and>
    \<not> (pi_is_protected p \<or> pi_inherited_protected p \<or> pi_group p = GROUP_PROTECTED)")
  case False
  then show ?thesis
    by (auto simp: candidate_filter_classify_pid_def process_record_is_valid_def process_record_is_protected_def
        set_result_def not_less)
next
  case True
  let ?w1 = "(tick w)\<lparr>w_open := Suc (w_open w)\<rparr>"
  have short: "\<not> 64 \<le> length (''/proc/'' @ show_int (pi_pid p) @ ''/cgroup'')"
    using length_show_pid [of "pi_pid p"] True assms(3) by simp
  have read: "read_cgroup_v2_path os (pi_pid p) CGROUP_PATH_MAX_LOCAL w =
    (case file of None \<Rightarrow> (None, tick w)
     | Some ls \<Rightarrow> (if os_fclose os ?w1 then v2_path ls else None, snd (fclose_r os ?w1)))"
  proof (cases "file")
    case None
    with short True assms(1) show ?thesis
      by (simp add: read_cgroup_v2_path_def fopen_r_def CGROUP_PATH_MAX_LOCAL_def Let_def)
  next
    case (Some ls)
    with assms(2) have plain: "\<forall>l \<in> set ls. plain_line l" by blast
    then have lines: "fgets_all (CGROUP_LINE_MAX - 1) (join_lines ls) = map (\<lambda>l. l @ [CHR 0x0A]) ls"
      by (intro fgets_all_lines) (auto simp: plain_line_def CGROUP_LINE_MAX_def)
    have pos: "0 < CGROUP_PATH_MAX_LOCAL" by (simp add: CGROUP_PATH_MAX_LOCAL_def)
    have none: "filter (\<lambda>l. take 3 l = ''0::'') ls = [] \<Longrightarrow> v2_path ls = None" by (simp only: v2_path_def list.case)
    show ?thesis
      unfolding read_cgroup_v2_path_def Let_def
      using short True assms(1) Some none pos
      by (auto simp: fopen_r_def lines [unfolded One_nat_def] scan_cgroup_lines_plain [OF plain] fclose_r_def
          split: option.splits)
  qed
  have ne: "v2_path ls = Some path \<Longrightarrow> path \<noteq> []" for ls path
    by (auto simp: v2_path_def split: list.splits if_splits)
  have self: "(0 < daemon_pid \<and> pi_pid p = daemon_pid) = False" using True by blast
  have slice: "candidate_filter_classify_path (Some p) daemon_pid (Some path) (Some r0) =
      (CANDIDATE_FILTER_OK,
       Some (if path = ''/system.slice'' \<or> (\<exists>rest. path = ''/system.slice/'' @ rest)
         then set_result CANDIDATE_FILTER_EXCLUDED CANDIDATE_FILTER_REASON_SYSTEM_SLICE
         else set_result CANDIDATE_FILTER_BACKGROUND CANDIDATE_FILTER_REASON_NONE))" if "path \<noteq> []" for path
    using True that system_slice_iff [of path]
    by (simp add: self candidate_filter_classify_path_def process_record_is_valid_def process_record_is_protected_def)
  have run: "candidate_filter_classify_pid os (Some p) daemon_pid (Some r0) w =
     (case read_cgroup_v2_path os (pi_pid p) CGROUP_PATH_MAX_LOCAL w of
        (None, w1) \<Rightarrow>
          (CANDIDATE_FILTER_OK,
           Some (set_result CANDIDATE_FILTER_EXCLUDED CANDIDATE_FILTER_REASON_CGROUP_UNAVAILABLE), w1)
      | (Some cgroup_path, w1) \<Rightarrow>
          (let (rc, r) = candidate_filter_classify_path (Some p) daemon_pid (Some cgroup_path) (Some r0) in (rc, r, w1)))"
    using True by (simp add: self candidate_filter_classify_pid_def process_record_is_valid_def process_record_is_protected_def)
  show ?thesis
  proof (cases "Option.bind file v2_path")
    case None
    with True run read show ?thesis
      by (cases "file") (auto simp: set_result_def fclose_r_def)
  next
    case (Some path)
    then obtain ls where ls: "file = Some ls" "v2_path ls = Some path" by (cases "file") auto
    note sl = slice [OF ne [OF ls(2)]]
    show ?thesis
      unfolding run read Some using True ls
      by (auto simp: sl set_result_def fclose_r_def)
  qed
qed

definition demo_proc :: proc_info where
  "demo_proc = proc_info_zero\<lparr>pi_used := True, pi_pid := 7, pi_group := GROUP_BACKGROUND\<rparr>"

theorem classify_pid_spec_witness:
  "\<exists>reason w'. candidate_filter_classify_pid
      (os_fine\<lparr>os_fopen := \<lambda>_ _. Some (join_lines [''1:cpu:/x'', ''0::/system.slice2''])\<rparr>) (Some demo_proc) 3
      (Some (set_result CANDIDATE_FILTER_EXCLUDED CANDIDATE_FILTER_REASON_NONE)) world0 =
    (CANDIDATE_FILTER_OK, Some \<lparr>cf_kind = CANDIDATE_FILTER_BACKGROUND, cf_reason = reason\<rparr>, w')"
  using classify_pid_spec [of "os_fine\<lparr>os_fopen := \<lambda>_ _. Some (join_lines [''1:cpu:/x'', ''0::/system.slice2''])\<rparr>" world0
      demo_proc "Some [''1:cpu:/x'', ''0::/system.slice2'']" 3
      "set_result CANDIDATE_FILTER_EXCLUDED CANDIDATE_FILTER_REASON_NONE"]
  by (auto simp: demo_proc_def proc_info_zero_def os_fine_def v2_path_def plain_line_def NUL_def)

end
