(* ===== verification/C_Number.thy ===== *)
theory C_Number
  imports C_String
begin

text \<open>
  The rest of the C library that the calibration code needs: searching in strings (\<open>strstr\<close>), reading
  floating-point numbers (\<open>strtod\<close>) and the conversion \<open>%.6g\<close>. The subject sequences of \<open>strtod\<close> are those of
  the standard: decimal and hexadecimal numbers, infinities and NaNs; the value is the exact number passed through the rounding.
\<close>

subsection \<open>Searching\<close>

text \<open>The offset of the first occurrence of \<open>needle\<close>; both are the characters before the terminator.\<close>

fun strstr :: "string \<Rightarrow> string \<Rightarrow> nat option" where
  "strstr [] needle = (if needle = [] then Some 0 else None)"
| "strstr (c # s) needle =
     (if take (length needle) (c # s) = needle then Some 0 else map_option Suc (strstr s needle))"

lemma strstr_Some:
  "strstr s needle = Some k \<Longrightarrow>
   take (length needle) (drop k s) = needle \<and> k \<le> length s \<and> (\<forall>j < k. take (length needle) (drop j s) \<noteq> needle)"
proof (induction s arbitrary: k)
  case Nil
  then show ?case by (auto split: if_splits)
next
  case (Cons c s)
  show ?case
  proof (cases "take (length needle) (c # s) = needle")
    case True
    with Cons.prems show ?thesis by simp
  next
    case False
    with Cons.prems obtain i where i: "strstr s needle = Some i" "k = Suc i" by auto
    from Cons.IH [OF i(1)] False i(2) show ?thesis by (auto simp: less_Suc_eq_0_disj)
  qed
qed

lemma all_less_Suc_shift: "(\<forall>k < Suc n. P k) \<longleftrightarrow> P 0 \<and> (\<forall>k < n. P (Suc k))"
  by (metis Suc_less_eq gr0_conv_Suc less_Suc_eq_0_disj)

lemma strstr_None: "strstr s needle = None \<longleftrightarrow> (\<forall>k \<le> length s. take (length needle) (drop k s) \<noteq> needle)"
proof (induction s)
  case Nil
  then show ?case by auto
next
  case (Cons c s)
  have "(\<forall>k \<le> length (c # s). take (length needle) (drop k (c # s)) \<noteq> needle) \<longleftrightarrow>
      take (length needle) (c # s) \<noteq> needle \<and> (\<forall>k \<le> length s. take (length needle) (drop k s) \<noteq> needle)"
    by (auto simp: all_less_Suc_shift simp flip: less_Suc_eq_le)
  with Cons.IH show ?case by simp
qed

subsection \<open>\<open>strtod\<close>\<close>

definition to_lower :: "char \<Rightarrow> char" where
  "to_lower c = (let n = of_char c :: nat in if 65 \<le> n \<and> n \<le> 90 then char_of (n + 32) else c)"

definition starts_ci :: "string \<Rightarrow> string \<Rightarrow> bool" where
  "starts_ci word s \<longleftrightarrow> map to_lower (take (length word) s) = word"

text \<open>Digits with an optional point: the number formed by all digits, how many follow the point, and the rest.\<close>

definition scan_mantissa :: "nat \<Rightarrow> string \<Rightarrow> (nat \<times> nat \<times> string) option" where
  "scan_mantissa base s =
     (let (m, r) = scan_digits base 0 s
      in if r \<noteq> [] \<and> hd r = CHR ''.''
         then let (m', r') = scan_digits base m (tl r)
              in if length s - length r = 0 \<and> length (tl r) - length r' = 0 then None
                 else Some (m', length (tl r) - length r', r')
         else if length s - length r = 0 then None else Some (m, 0, r))"

text \<open>An exponent counts only when digits follow.\<close>

definition scan_exponent :: "char \<Rightarrow> string \<Rightarrow> int \<times> string" where
  "scan_exponent e s =
     (if s \<noteq> [] \<and> to_lower (hd s) = e
      then let (neg, r) = scan_sign (tl s)
           in if starts_digit 10 r
              then let (k, r') = scan_digits 10 0 r in (if neg then - int k else int k, r')
              else (0, s)
      else (0, s))"

definition pow_real :: "nat \<Rightarrow> int \<Rightarrow> real" where
  "pow_real b k = (if 0 \<le> k then real b ^ nat k else 1 / real b ^ nat (- k))"

lemma pow_real_neg: "pow_real b (- int n) = 1 / real b ^ n"
  by (cases n) (simp_all add: pow_real_def nat_add_distrib)

text \<open>The optional character sequence in parentheses after \<open>nan\<close>.\<close>

definition skip_nan_chars :: "string \<Rightarrow> string" where
  "skip_nan_chars s =
     (if s \<noteq> [] \<and> hd s = CHR ''(''
      then let r = dropWhile (\<lambda>c. digit_val 36 c \<noteq> None \<or> c = CHR ''_'') (tl s)
           in if r \<noteq> [] \<and> hd r = CHR '')'' then tl r else s
      else s)"

text \<open>The value \<open>x\<close>, with \<open>ERANGE\<close> for an overflow and for a tiny result that is not exact.\<close>

definition strtod_value :: "rounding \<Rightarrow> bool \<Rightarrow> real \<Rightarrow> string \<Rightarrow> cdouble \<times> bool \<times> string" where
  "strtod_value rnd neg x r =
     (let v = (if neg then - x else x)
      in (rnd v, \<not> isfinite (rnd v) \<or> v \<noteq> 0 \<and> \<bar>v\<bar> < pow_real 2 (- 1022) \<and> rnd v \<noteq> Fin v, r))"

text \<open>The value, whether \<open>errno\<close> is set, and the end pointer as the remaining suffix.\<close>

definition strtod :: "rounding \<Rightarrow> string \<Rightarrow> cdouble \<times> bool \<times> string" where
  "strtod rnd s =
     (let (neg, s1) = scan_sign (dropWhile is_space s)
      in if starts_ci ''inf'' s1
         then (if neg then NInf else PInf, False, drop (if starts_ci ''infinity'' s1 then 8 else 3) s1)
         else if starts_ci ''nan'' s1 then (NaN, False, skip_nan_chars (drop 3 s1))
         else case (if starts_ci ''0x'' s1 then scan_mantissa 16 (drop 2 s1) else None) of
           Some (m, nf, r) \<Rightarrow>
             (let (k, r') = scan_exponent CHR ''p'' r
              in strtod_value rnd neg (real m * pow_real 2 (k - 4 * int nf)) r')
         | None \<Rightarrow>
             (case scan_mantissa 10 s1 of
                None \<Rightarrow> (Fin 0, False, s)
              | Some (m, nf, r) \<Rightarrow>
                  (let (k, r') = scan_exponent CHR ''e'' r
                   in strtod_value rnd neg (real m * pow_real 10 (k - int nf)) r')))"

subsection \<open>The conversion \<open>%.6g\<close>\<close>

text \<open>The decimal exponent of a positive double.\<close>

definition dec_exponent :: "real \<Rightarrow> int" where
  "dec_exponent x =
     (case (if 1 \<le> x then find (\<lambda>k. x < pow_real 10 (k + 1)) [0..310]
            else find (\<lambda>k. pow_real 10 k \<le> x) (map uminus [1..330])) of
        None \<Rightarrow> 0 | Some k \<Rightarrow> k)"

definition strip_zeros :: "string \<Rightarrow> string" where
  "strip_zeros s = rev (dropWhile (\<lambda>c. c = CHR ''0'') (rev s))"

definition with_fraction :: "string \<Rightarrow> string \<Rightarrow> string" where
  "with_fraction ip fp = (if strip_zeros fp = [] then ip else ip @ ''.'' @ strip_zeros fp)"

fun show_g6 :: "cdouble \<Rightarrow> string" where
  "show_g6 (Fin x) =
     (if x = 0 then ''0''
      else let e0 = dec_exponent \<bar>x\<bar>;
               d0 = nat (round_half_even (\<bar>x\<bar> / pow_real 10 (e0 - 5)));
               e = (if d0 = 1000000 then e0 + 1 else e0);
               ds = show_nat (if d0 = 1000000 then 100000 else d0);
               sign = (if x < 0 then ''-'' else [])
      in sign @
         (if - 4 \<le> e \<and> e < 0 then with_fraction ''0'' (replicate (nat (- e - 1)) CHR ''0'' @ ds)
          else if 0 \<le> e \<and> e < 6 then with_fraction (take (nat (e + 1)) ds) (drop (nat (e + 1)) ds)
          else with_fraction (take 1 ds) (drop 1 ds) @ ''e'' @ (if e < 0 then ''-'' else ''+'') @
               (if \<bar>e\<bar> < 10 then ''0'' else []) @ show_nat (nat \<bar>e\<bar>)))"
| "show_g6 PInf = ''inf''"
| "show_g6 NInf = ''-inf''"
| "show_g6 NaN = ''nan''"

declare show_g6.simps [simp del]

subsection \<open>Reading decimal fractions\<close>

text \<open>The decimal text with integral part \<open>a\<close> and the fraction digits \<open>z\<close> zeros and \<open>b\<close>.\<close>

definition dec_text :: "nat \<Rightarrow> nat \<Rightarrow> nat \<Rightarrow> string" where
  "dec_text a z b = show_nat a @ ''.'' @ replicate z CHR ''0'' @ show_nat b"

definition dec_value :: "nat \<Rightarrow> nat \<Rightarrow> nat \<Rightarrow> real" where
  "dec_value a z b = real a + real b / 10 ^ (z + length (show_nat b))"

lemma scan_digits_acc:
  "\<forall>c \<in> set s. digit_val 10 c \<noteq> None \<Longrightarrow> fst (scan_digits 10 acc s) = acc * 10 ^ length s + fst (scan_digits 10 0 s)"
proof (induction s arbitrary: acc)
  case Nil
  then show ?case by simp
next
  case (Cons c s)
  then obtain d where d: "digit_val 10 c = Some d" by auto
  have all: "\<forall>c \<in> set s. digit_val 10 c \<noteq> None" using Cons.prems by simp
  from d Cons.IH [OF all, of "acc * 10 + d"] Cons.IH [OF all, of d] show ?case by (simp add: algebra_simps)
qed

lemma digit_val_zero [simp]: "digit_val 10 CHR ''0'' = Some 0"
  by code_simp

lemma scan_digits_zeros: "fst (scan_digits 10 0 (replicate z CHR ''0'' @ s)) = fst (scan_digits 10 0 s)"
  by (induction z) simp_all

lemma digit_to_lower:
  assumes "digit_val 10 c \<noteq> None"
  shows "to_lower c = c" "c \<noteq> CHR ''i''" "c \<noteq> CHR ''n''" "c \<noteq> CHR ''x''"
proof -
  have lt: "(of_char c :: nat) < 58"
    using assms by (auto simp: digit_val_def Let_def split: if_splits)
  then show "to_lower c = c" by (simp add: to_lower_def)
  show "c \<noteq> CHR ''i''" using lt by (rule contrapos_pn) simp
  show "c \<noteq> CHR ''n''" using lt by (rule contrapos_pn) simp
  show "c \<noteq> CHR ''x''" using lt by (rule contrapos_pn) simp
qed

lemma scan_mantissa_dec_text:
  assumes "t = [] \<or> digit_val 10 (hd t) = None"
  shows "scan_mantissa 10 (dec_text a z b @ t) =
    Some (a * 10 ^ (z + length (show_nat b)) + b, z + length (show_nat b), t)"
proof -
  let ?fd = "replicate z CHR ''0'' @ show_nat b"
  have digits: "\<forall>c \<in> set ?fd. digit_val 10 c \<noteq> None" using show_nat_digits [of b] by auto
  have "digit_val 10 CHR ''.'' = None" by code_simp
  then have ip: "scan_digits 10 0 (dec_text a z b @ t) = (a, CHR ''.'' # ?fd @ t)"
    using scan_digits_stop [OF show_nat_digits [of a], of "CHR ''.'' # ?fd @ t" 0]
    by (simp add: dec_text_def scan_digits_show_nat)
  have fp: "scan_digits 10 a (?fd @ t) = (a * 10 ^ (z + length (show_nat b)) + b, t)"
    unfolding scan_digits_stop [OF digits assms] scan_digits_acc [OF digits, of a]
    by (simp only: scan_digits_zeros scan_digits_show_nat length_append length_replicate)
  have "0 < length (show_nat b)" using show_nat_nonempty by auto
  with ip fp show ?thesis by (simp add: scan_mantissa_def)
qed

lemma strtod_dec_text:
  assumes "t = [] \<or> digit_val 10 (hd t) = None \<and> to_lower (hd t) \<noteq> CHR ''e''"
  shows "strtod rnd (dec_text a z b @ t) = strtod_value rnd False (dec_value a z b) t"
proof -
  let ?s = "dec_text a z b @ t"
  obtain c s where c: "show_nat a = c # s" "digit_val 10 c \<noteq> None" by (rule show_nat_Cons)
  note lower = digit_to_lower [OF c(2)]
  have first: "?s = c # s @ ''.'' @ replicate z CHR ''0'' @ show_nat b @ t" by (simp add: dec_text_def c(1))
  have sign: "scan_sign (dropWhile is_space ?s) = (False, ?s)"
    unfolding first using digit_not_special [OF c(2)] by (simp add: scan_sign_def)
  have words: "\<not> starts_ci ''inf'' ?s" "\<not> starts_ci ''nan'' ?s"
    unfolding first using lower by (auto simp: starts_ci_def)
  have "\<not> starts_ci ''0x'' ?s"
  proof (cases s)
    case Nil
    then show ?thesis unfolding first by (simp add: starts_ci_def to_lower_def)
  next
    case (Cons c2 s2)
    with c(1) show_nat_digits [of a] have "digit_val 10 c2 \<noteq> None" by simp
    from digit_to_lower [OF this] Cons show ?thesis unfolding first by (auto simp: starts_ci_def)
  qed
  moreover have "scan_exponent CHR ''e'' t = (0, t)" using assms by (auto simp: scan_exponent_def)
  moreover have "t = [] \<or> digit_val 10 (hd t) = None" using assms by auto
  note scan_mantissa_dec_text [OF this, of a z b]
  moreover have "real (a * 10 ^ (z + length (show_nat b)) + b) * pow_real 10 (0 - int (z + length (show_nat b))) = dec_value a z b"
    unfolding diff_0 pow_real_neg by (simp add: dec_value_def field_simps)
  ultimately show ?thesis using sign words by (simp add: strtod_def Let_def)
qed

end
