(* ===== verification/Calibration.thy ===== *)
theory Calibration
  imports C_Number OS_World Dram_Mapping
begin

text \<open>
  The result reader of the calibration (\<open>protected-daemon/src/calibration.c\<close>, \<open>calibration.h\<close>): reading the file, the
  searching reader of JSON text, and \<open>calibration_load_result\<close>. The text buffer is a list of
  characters followed by its terminator; a \<open>const char *\<close> into it is a position, so that the bounds of
  \<open>struct json_range\<close> and the comparisons with them are those of the code. Library functions that stop at the terminator
  read the buffer through \<open>cstr\<close>.
\<close>

subsection \<open>Data\<close>

datatype calibration_rc =
    CALIBRATION_OK
  | CALIBRATION_ERR_INVALID_ARG
  | CALIBRATION_ERR_FORK
  | CALIBRATION_ERR_WAIT
  | CALIBRATION_ERR_TIMEOUT
  | CALIBRATION_ERR_WORKER_EXIT
  | CALIBRATION_ERR_IO
  | CALIBRATION_ERR_JSON
  | CALIBRATION_ERR_REJECTED
  | CALIBRATION_ERR_TOO_MANY_MASKS

definition CALIBRATION_JSON_MAX_BYTES :: nat where "CALIBRATION_JSON_MAX_BYTES = 4 * 1024 * 1024"

record json_range =
  jr_begin :: nat
  jr_end :: nat

definition set_error :: "calibration_result \<Rightarrow> string \<Rightarrow> calibration_result" where
  "set_error out text = out\<lparr>cr_error_message := snprintf_s CALIBRATION_ERROR_MESSAGE_MAX text\<rparr>"

definition calibration_metrics_zero :: calibration_metrics where
  "calibration_metrics_zero =
     \<lparr>cm_tp = 0, cm_tn = 0, cm_fp = 0, cm_fn = 0, cm_accuracy = Fin 0, cm_precision = Fin 0, cm_recall = Fin 0,
      cm_f1 = Fin 0\<rparr>"

definition calibration_result_reset :: calibration_result where
  "calibration_result_reset =
     \<lparr>cr_status_success = False, cr_acceptance_passed = False, cr_bank_masks = (\<lambda>_. 0), cr_bank_mask_count = 0,
      cr_mask_set_id = [], cr_holdout = calibration_metrics_zero, cr_worker_exit_code = - 1, cr_error_message = []\<rparr>"

subsection \<open>Reading the file\<close>

text \<open>\<open>Inr\<close> holds the buffer without its terminator; its length is \<open>*size_out\<close>.\<close>

definition read_file_limited :: "os \<Rightarrow> string option \<Rightarrow> world \<Rightarrow> (calibration_rc + string) \<times> world" where
  "read_file_limited os pathp w =
     (case pathp of
        None \<Rightarrow> (Inl CALIBRATION_ERR_INVALID_ARG, w)
      | Some path \<Rightarrow>
          (case fopen_r os path w of
             (None, w1) \<Rightarrow> (Inl CALIBRATION_ERR_IO, w1)
           | (Some contents, w1) \<Rightarrow>
               (let fail = (\<lambda>w'. (Inl CALIBRATION_ERR_IO, snd (fclose_r os w')));
                    (sought, w2) = fseek_r os w1
                in if \<not> sought then fail w2
                else let (file_size, w3) = ftell_r os w2
                in if file_size < 0 \<or> int CALIBRATION_JSON_MAX_BYTES < file_size then fail w3
                else let (rewound, w4) = fseek_r os w3
                in if \<not> rewound then fail w4
                else let (mem, w5) = sys_calloc os (nat file_size + 1) w4
                in if \<not> mem then fail w5
                else let (buffer, w6) = fread_r os (nat file_size) contents w5
                in if length buffer \<noteq> nat file_size then fail w6
                else let (closed, w7) = fclose_r os w6
                in if \<not> closed then (Inl CALIBRATION_ERR_IO, w7) else (Inr buffer, w7))))"

subsection \<open>Scanning\<close>

text \<open>The character at a position; the byte after the text is the terminator.\<close>

definition char_at :: "string \<Rightarrow> nat \<Rightarrow> char" where
  "char_at json p = (if p < length json then json ! p else NUL)"

function skip_ws :: "string \<Rightarrow> nat \<Rightarrow> nat \<Rightarrow> nat" where
  "skip_ws json p stop = (if p < stop \<and> is_space (char_at json p) then skip_ws json (Suc p) stop else p)"
  by pat_completeness auto
termination
  by (relation "measure (\<lambda>(json, p, stop). stop - p)") auto

declare skip_ws.simps [simp del]

text \<open>The loop of \<open>find_key_value\<close>; \<open>p + off\<close> is the pointer \<open>match\<close>.\<close>

function find_key_loop :: "string \<Rightarrow> nat \<Rightarrow> string \<Rightarrow> nat \<Rightarrow> nat option" where
  "find_key_loop json stop pattern p =
     (if p < stop
      then case strstr (cstr (drop p json)) pattern of
             None \<Rightarrow> None
           | Some off \<Rightarrow>
               if stop \<le> p + off then None
               else let colon = skip_ws json (p + off + length pattern) stop
                    in if colon < stop \<and> char_at json colon = CHR '':''
                       then Some (skip_ws json (Suc colon) stop)
                       else find_key_loop json stop pattern (Suc (p + off))
      else None)"
  by pat_completeness auto
termination
  by (relation "measure (\<lambda>(json, stop, pattern, p). stop - p)") auto

declare find_key_loop.simps [simp del]

definition quoted :: "string \<Rightarrow> string" where
  "quoted s = CHR 0x22 # s @ [CHR 0x22]"

definition find_key_value :: "string \<Rightarrow> json_range \<Rightarrow> string \<Rightarrow> nat option" where
  "find_key_value json rng key =
     (if 128 \<le> length (quoted key) then None else find_key_loop json (jr_end rng) (quoted key) (jr_begin rng))"

text \<open>The loop of \<open>scan_balanced\<close>: the position one past the closing character.\<close>

function scan_loop :: "string \<Rightarrow> nat \<Rightarrow> char \<Rightarrow> char \<Rightarrow> nat \<Rightarrow> int \<Rightarrow> bool \<Rightarrow> bool \<Rightarrow> nat option" where
  "scan_loop json stop open_ch close_ch p depth in_string escaped =
     (if p < stop
      then let ch = char_at json p
           in if in_string
              then if escaped then scan_loop json stop open_ch close_ch (Suc p) depth True False
                   else if ch = CHR 0x5C then scan_loop json stop open_ch close_ch (Suc p) depth True True
                   else if ch = CHR 0x22 then scan_loop json stop open_ch close_ch (Suc p) depth False False
                   else scan_loop json stop open_ch close_ch (Suc p) depth True False
              else if ch = CHR 0x22 then scan_loop json stop open_ch close_ch (Suc p) depth True escaped
              else if ch = open_ch then scan_loop json stop open_ch close_ch (Suc p) (depth + 1) False escaped
              else if ch = close_ch
              then if depth - 1 = 0 then Some (Suc p)
                   else scan_loop json stop open_ch close_ch (Suc p) (depth - 1) False escaped
              else scan_loop json stop open_ch close_ch (Suc p) depth False escaped
      else None)"
  by pat_completeness auto
termination
  by (relation "measure (\<lambda>(json, stop, open_ch, close_ch, p, depth, in_string, escaped). stop - p)") auto

declare scan_loop.simps [simp del]

text \<open>\<open>None\<close> is the code \<open>CALIBRATION_ERR_JSON\<close>.\<close>

definition scan_balanced :: "string \<Rightarrow> nat \<Rightarrow> nat \<Rightarrow> char \<Rightarrow> char \<Rightarrow> json_range option" where
  "scan_balanced json opn stop open_ch close_ch =
     (if stop \<le> opn \<or> char_at json opn \<noteq> open_ch then None
      else case scan_loop json stop open_ch close_ch opn 0 False False of
             None \<Rightarrow> None
           | Some e \<Rightarrow> Some \<lparr>jr_begin = opn, jr_end = e\<rparr>)"

subsection \<open>Extraction\<close>

definition extract_object :: "string \<Rightarrow> json_range \<Rightarrow> string \<Rightarrow> json_range option" where
  "extract_object json rng key =
     (case find_key_value json rng key of
        None \<Rightarrow> None
      | Some p \<Rightarrow> scan_balanced json p (jr_end rng) CHR ''{'' CHR ''}'')"

definition extract_array :: "string \<Rightarrow> json_range \<Rightarrow> string \<Rightarrow> json_range option" where
  "extract_array json rng key =
     (case find_key_value json rng key of
        None \<Rightarrow> None
      | Some p \<Rightarrow> scan_balanced json p (jr_end rng) CHR ''['' CHR '']'')"

text \<open>The copying loop: the code and the bytes written to \<open>dst\<close> so far. The terminator goes after them.\<close>

function string_loop :: "string \<Rightarrow> nat \<Rightarrow> nat \<Rightarrow> nat \<Rightarrow> string \<Rightarrow> bool \<Rightarrow> calibration_rc \<times> string" where
  "string_loop json stop dst_size p dst escaped =
     (if p < stop
      then let ch = char_at json p
           in if escaped
              then if dst_size \<le> length dst + 1 then (CALIBRATION_ERR_JSON, dst)
                   else string_loop json stop dst_size (Suc p) (dst @ [ch]) False
              else if ch = CHR 0x5C then string_loop json stop dst_size (Suc p) dst True
              else if ch = CHR 0x22 then (CALIBRATION_OK, dst)
              else if dst_size \<le> length dst + 1 then (CALIBRATION_ERR_JSON, dst)
              else string_loop json stop dst_size (Suc p) (dst @ [ch]) False
      else (CALIBRATION_ERR_JSON, dst))"
  by pat_completeness auto
termination
  by (relation "measure (\<lambda>(json, stop, dst_size, p, dst, escaped). stop - p)") auto

declare string_loop.simps [simp del]

definition extract_string :: "string \<Rightarrow> json_range \<Rightarrow> string \<Rightarrow> nat \<Rightarrow> calibration_rc \<times> string" where
  "extract_string json rng key dst_size =
     (case find_key_value json rng key of
        None \<Rightarrow> (CALIBRATION_ERR_JSON, [])
      | Some p \<Rightarrow>
          if dst_size = 0 \<or> jr_end rng \<le> p \<or> char_at json p \<noteq> CHR 0x22 then (CALIBRATION_ERR_JSON, [])
          else string_loop json (jr_end rng) dst_size (Suc p) [] False)"

definition extract_bool :: "string \<Rightarrow> json_range \<Rightarrow> string \<Rightarrow> bool option" where
  "extract_bool json rng key =
     (case find_key_value json rng key of
        None \<Rightarrow> None
      | Some p \<Rightarrow>
          if 4 \<le> jr_end rng - p \<and> take 4 (drop p json) = ''true'' then Some True
          else if 5 \<le> jr_end rng - p \<and> take 5 (drop p json) = ''false'' then Some False
          else None)"

text \<open>The end pointer of a conversion as a position: the conversion started at \<open>p\<close> and left \<open>rest\<close> of the C string there.\<close>

definition endptr_pos :: "string \<Rightarrow> nat \<Rightarrow> string \<Rightarrow> nat" where
  "endptr_pos json p rest = p + (length (cstr (drop p json)) - length rest)"

definition extract_double :: "rounding \<Rightarrow> string \<Rightarrow> json_range \<Rightarrow> string \<Rightarrow> cdouble option" where
  "extract_double rnd json rng key =
     (case find_key_value json rng key of
        None \<Rightarrow> None
      | Some p \<Rightarrow>
          (case strtod rnd (cstr (drop p json)) of
             (v, erange, rest) \<Rightarrow>
               if erange \<or> endptr_pos json p rest = p \<or> jr_end rng < endptr_pos json p rest then None else Some v))"

definition extract_u64 :: "string \<Rightarrow> json_range \<Rightarrow> string \<Rightarrow> u64 option" where
  "extract_u64 json rng key =
     (case find_key_value json rng key of
        None \<Rightarrow> None
      | Some p \<Rightarrow>
          (case strtoull 10 (cstr (drop p json)) of
             (v, erange, rest) \<Rightarrow>
               if erange \<or> endptr_pos json p rest = p \<or> jr_end rng < endptr_pos json p rest then None else Some v))"

subsection \<open>The bank masks\<close>

text \<open>The inner loop that copies one mask into \<open>text[64]\<close>; \<open>None\<close> when it does not fit.\<close>

function mask_text :: "string \<Rightarrow> nat \<Rightarrow> nat \<Rightarrow> string \<Rightarrow> (nat \<times> string) option" where
  "mask_text json stop p text =
     (if p < stop \<and> char_at json p \<noteq> CHR 0x22
      then if 64 \<le> length text + 1 then None else mask_text json stop (Suc p) (text @ [char_at json p])
      else Some (p, text))"
  by pat_completeness auto
termination
  by (relation "measure (\<lambda>(json, stop, p, text). stop - p)") auto

declare mask_text.simps [simp del]

lemma skip_ws_ge: "p \<le> skip_ws json p stop"
proof (induction json p stop rule: skip_ws.induct)
  case (1 json p stop)
  then show ?case by (subst skip_ws.simps) (auto intro: Suc_leD)
qed

lemma mask_text_ge: "mask_text json stop p buf = Some (q, t) \<Longrightarrow> p \<le> q"
proof (induction json stop p buf rule: mask_text.induct)
  case (1 json stop p buf)
  from 1(2) have "mask_text json stop (Suc p) (buf @ [char_at json p]) = Some (q, t) \<or> q = p"
      "q \<noteq> p \<Longrightarrow> p < stop \<and> char_at json p \<noteq> CHR 0x22 \<and> \<not> 64 \<le> length buf + 1"
    by (subst (asm) mask_text.simps; simp split: if_splits)+
  with 1(1) show ?case by (cases "q = p") auto
qed

text \<open>The conversion of one mask.\<close>

definition mask_value :: "string \<Rightarrow> u64 option" where
  "mask_value text =
     (case strtoull 0 (cstr text) of
        (v, erange, rest) \<Rightarrow>
          if erange \<or> length rest = length (cstr text) \<or> rest \<noteq> [] \<or> v = 0 then None else Some v)"

text \<open>The loop over the array, from position \<open>p0\<close>; \<open>stop\<close> is \<open>array.end - 1\<close>, the closing bracket.\<close>

function masks_loop :: "string \<Rightarrow> nat \<Rightarrow> nat \<Rightarrow> calibration_result \<Rightarrow> calibration_rc \<times> calibration_result" where
  "masks_loop json stop p0 out =
     (let finish = (if 0 < cr_bank_mask_count out then CALIBRATION_OK else CALIBRATION_ERR_REJECTED, out);
          p = skip_ws json p0 stop
      in if \<not> p0 < stop then finish
         else if stop \<le> p then finish
         else if char_at json p = CHR '','' then masks_loop json stop (Suc p) out
         else if char_at json p \<noteq> CHR 0x22 then (CALIBRATION_ERR_JSON, out)
         else case mask_text json stop (Suc p) [] of
           None \<Rightarrow> (CALIBRATION_ERR_JSON, out)
         | Some (q, text) \<Rightarrow>
             if stop \<le> q \<or> char_at json q \<noteq> CHR 0x22 then (CALIBRATION_ERR_JSON, out)
             else if CALIBRATION_MAX_BANK_MASKS \<le> cr_bank_mask_count out then (CALIBRATION_ERR_TOO_MANY_MASKS, out)
             else case mask_value text of
               None \<Rightarrow> (CALIBRATION_ERR_JSON, out)
             | Some v \<Rightarrow>
                 masks_loop json stop (Suc q)
                   (out\<lparr>cr_bank_masks := (cr_bank_masks out)(cr_bank_mask_count out := v),
                        cr_bank_mask_count := Suc (cr_bank_mask_count out)\<rparr>))"
  by pat_completeness auto
termination
proof (relation "measure (\<lambda>(json, stop, p, out). stop - p)", goal_cases)
  case 1
  show ?case by simp
next
  case (2 json stop p0 out finish p)
  then show ?case using skip_ws_ge [of p0 json stop] by auto
next
  case (3 json stop p0 out finish p z q buf v)
  then show ?case using skip_ws_ge [of p0 json stop] mask_text_ge [of json stop "Suc p" "[]" q buf] by auto
qed

declare masks_loop.simps [simp del]

definition parse_bank_masks :: "string \<Rightarrow> json_range \<Rightarrow> calibration_result \<Rightarrow> calibration_rc \<times> calibration_result" where
  "parse_bank_masks json array out = masks_loop json (jr_end array - 1) (jr_begin array + 1) out"

subsection \<open>Loading a result\<close>

text \<open>One operand of the chain of extractions: a failure ends the chain.\<close>

definition stored :: "'a option \<Rightarrow> ('a \<Rightarrow> calibration_metrics \<Rightarrow> calibration_metrics) \<Rightarrow>
   (calibration_metrics \<Rightarrow> bool \<times> calibration_metrics) \<Rightarrow> calibration_metrics \<Rightarrow> bool \<times> calibration_metrics" where
  "stored v upd k h = (case v of None \<Rightarrow> (False, h) | Some x \<Rightarrow> k (upd x h))"

definition load_holdout :: "rounding \<Rightarrow> string \<Rightarrow> json_range \<Rightarrow> calibration_metrics \<Rightarrow> bool \<times> calibration_metrics" where
  "load_holdout rnd json holdout =
     stored (extract_u64 json holdout ''tp'') (\<lambda>x. cm_tp_update (\<lambda>_. x))
     (stored (extract_u64 json holdout ''tn'') (\<lambda>x. cm_tn_update (\<lambda>_. x))
     (stored (extract_u64 json holdout ''fp'') (\<lambda>x. cm_fp_update (\<lambda>_. x))
     (stored (extract_u64 json holdout ''fn'') (\<lambda>x. cm_fn_update (\<lambda>_. x))
     (stored (extract_double rnd json holdout ''accuracy'') (\<lambda>x. cm_accuracy_update (\<lambda>_. x))
     (stored (extract_double rnd json holdout ''precision'') (\<lambda>x. cm_precision_update (\<lambda>_. x))
     (stored (extract_double rnd json holdout ''recall'') (\<lambda>x. cm_recall_update (\<lambda>_. x))
     (stored (extract_double rnd json holdout ''f1'') (\<lambda>x. cm_f1_update (\<lambda>_. x))
     (\<lambda>h. (True, h)))))))))"

text \<open>The masks, the identifier and the metrics: the part after the acceptance test.\<close>

definition load_mapping :: "rounding \<Rightarrow> string \<Rightarrow> json_range \<Rightarrow> calibration_result \<Rightarrow> calibration_rc \<times> calibration_result" where
  "load_mapping rnd json root_range out =
     (case extract_array json root_range ''bank_masks'' of
        None \<Rightarrow> (CALIBRATION_ERR_JSON, set_error out ''result JSON missing bank_masks'')
      | Some masks \<Rightarrow>
          (let (rc, out1) = parse_bank_masks json masks out
           in if rc \<noteq> CALIBRATION_OK then (rc, set_error out1 ''invalid or empty bank_masks array'')
           else let (rc2, id_text) = extract_string json root_range ''mask_set_id'' CALIBRATION_MASK_SET_ID_MAX;
                    out2 = out1\<lparr>cr_mask_set_id := id_text\<rparr>
           in if rc2 \<noteq> CALIBRATION_OK then (CALIBRATION_ERR_JSON, set_error out2 ''result JSON missing mask_set_id'')
           else case Option.bind (extract_object json root_range ''metrics'') (\<lambda>metrics. extract_object json metrics ''holdout'') of
             None \<Rightarrow> (CALIBRATION_ERR_JSON, set_error out2 ''result JSON missing metrics.holdout'')
           | Some holdout \<Rightarrow>
               (let (ok, h) = load_holdout rnd json holdout (cr_holdout out2);
                    out3 = out2\<lparr>cr_holdout := h\<rparr>
                in if \<not> ok then (CALIBRATION_ERR_JSON, set_error out3 ''invalid metrics.holdout object'')
                   else (CALIBRATION_OK, out3))))"

text \<open>Everything after the file was read, from the reset result.\<close>

definition load_json :: "rounding \<Rightarrow> string \<Rightarrow> calibration_rc \<times> calibration_result" where
  "load_json rnd json =
     (let root_range = \<lparr>jr_begin = 0, jr_end = length json\<rparr>;
          (erc, error_text) = extract_string json root_range ''error'' CALIBRATION_ERROR_MESSAGE_MAX;
          out1 = (if erc = CALIBRATION_OK then set_error calibration_result_reset (cstr error_text)
                  else calibration_result_reset);
          (src, status) = extract_string json root_range ''status'' 32
      in if src \<noteq> CALIBRATION_OK
         then (CALIBRATION_ERR_JSON, set_error out1 ''result JSON missing string field: status'')
      else let out2 = out1\<lparr>cr_status_success := (cstr status = ''success'')\<rparr>
      in if \<not> cr_status_success out2
         then (CALIBRATION_ERR_REJECTED,
               if cr_error_message out2 = []
               then set_error out2 (''calibration worker status is '' @ [CHR 0x27] @ cstr status @ [CHR 0x27])
               else out2)
      else case Option.bind (extract_object json root_range ''acceptance'') (\<lambda>acceptance. extract_bool json acceptance ''passed'') of
        None \<Rightarrow> (CALIBRATION_ERR_JSON, set_error out2 ''result JSON missing acceptance.passed'')
      | Some passed \<Rightarrow>
          (let out3 = out2\<lparr>cr_acceptance_passed := passed\<rparr>
           in if \<not> passed then (CALIBRATION_ERR_REJECTED, set_error out3 ''calibration acceptance gate failed'')
              else load_mapping rnd json root_range out3))"

definition calibration_load_result ::
  "rounding \<Rightarrow> os \<Rightarrow> string option \<Rightarrow> calibration_result option \<Rightarrow> world \<Rightarrow>
   calibration_rc \<times> calibration_result option \<times> world" where
  "calibration_load_result rnd os result_path outp w =
     (if result_path = None \<or> outp = None then (CALIBRATION_ERR_INVALID_ARG, outp, w)
      else case read_file_limited os result_path w of
        (Inl rc, w1) \<Rightarrow>
          (rc, Some (set_error calibration_result_reset (''cannot read result JSON: '' @ the result_path)), w1)
      | (Inr json, w1) \<Rightarrow> (let (rc, out) = load_json rnd json in (rc, Some out, w1)))"

fun calibration_strerror :: "calibration_rc \<Rightarrow> string" where
  "calibration_strerror CALIBRATION_OK = ''success''"
| "calibration_strerror CALIBRATION_ERR_INVALID_ARG = ''invalid argument''"
| "calibration_strerror CALIBRATION_ERR_FORK = ''fork/process-group setup failed''"
| "calibration_strerror CALIBRATION_ERR_WAIT = ''waitpid/clock failure''"
| "calibration_strerror CALIBRATION_ERR_TIMEOUT = ''calibration timeout''"
| "calibration_strerror CALIBRATION_ERR_WORKER_EXIT = ''calibration worker failed''"
| "calibration_strerror CALIBRATION_ERR_IO = ''I/O failure''"
| "calibration_strerror CALIBRATION_ERR_JSON = ''invalid calibration JSON''"
| "calibration_strerror CALIBRATION_ERR_REJECTED = ''calibration result rejected''"
| "calibration_strerror CALIBRATION_ERR_TOO_MANY_MASKS = ''too many bank masks''"

end
