(* ===== verification/Calibration_Run.thy ===== *)
theory Calibration_Run
  imports Calibration
begin

text \<open>
  The calibration runner (\<open>protected-daemon/src/calibration.c\<close>): the worker is started in a process group of its own, waited for
  with a timeout, and its result is loaded. The loops that wait may in principle not end, so they are partial functions;
  \<open>None\<close> means that they do not return. Times are in milliseconds; \<open>long long\<close> values are integers, since clock readings and
  timeouts stay far below its range.
\<close>

subsection \<open>Configuration\<close>

definition WAIT_POLL_MS :: nat where "WAIT_POLL_MS = 100"
definition TERM_GRACE_MS :: nat where "TERM_GRACE_MS = 2000"

text \<open>The strings are pointers that may be NULL.\<close>

record calibration_config =
  cc_worker_path :: "string option"
  cc_kk_main_path :: "string option"
  cc_result_path :: "string option"
  cc_work_dir :: "string option"
  cc_log_path :: "string option"
  cc_runs :: u32
  cc_memory_percent :: cdouble
  cc_measurements :: u32
  cc_timing_rounds :: u32
  cc_timeout_sec :: u32
  cc_keep_csv :: bool

definition calibration_validate_config :: "calibration_config option \<Rightarrow> calibration_rc" where
  "calibration_validate_config cp =
     (case cp of
        None \<Rightarrow> CALIBRATION_ERR_INVALID_ARG
      | Some cfg \<Rightarrow>
          if cc_worker_path cfg = None \<or> cc_result_path cfg = None \<or> cc_work_dir cfg = None
          then CALIBRATION_ERR_INVALID_ARG
          else if the (cc_worker_path cfg) = [] \<or> the (cc_result_path cfg) = [] \<or> the (cc_work_dir cfg) = [] \<or>
                  cc_runs cfg = 0 \<or> cc_measurements cfg = 0 \<or> cc_timing_rounds cfg = 0 \<or>
                  fle (cc_memory_percent cfg) (Fin 0) \<or> flt (Fin 100) (cc_memory_percent cfg)
          then CALIBRATION_ERR_INVALID_ARG
          else CALIBRATION_OK)"

subsection \<open>Time\<close>

text \<open>A negative result when the clock cannot be read.\<close>

definition monotonic_ms :: "os \<Rightarrow> world \<Rightarrow> int \<times> world" where
  "monotonic_ms os w =
     (case clock_gettime os w of
        (None, w') \<Rightarrow> (- 1, w')
      | (Some (tv_sec, tv_nsec), w') \<Rightarrow> (tv_sec * 1000 + tv_nsec div 1000000, w'))"

text \<open>The request is kept in nanoseconds; an interrupted sleep is resumed with the time that remains.\<close>

partial_function (option) sleep_loop :: "os \<Rightarrow> nat \<Rightarrow> world \<Rightarrow> world option" where
  "sleep_loop os req w =
     (case sys_nanosleep os req w of
        (Some (EINTR, remaining), w') \<Rightarrow> sleep_loop os remaining w'
      | (_, w') \<Rightarrow> Some w')"

definition sleep_ms :: "os \<Rightarrow> nat \<Rightarrow> world \<Rightarrow> world option" where
  "sleep_ms os ms w = sleep_loop os (ms div 1000 * 1000000000 + ms mod 1000 * 1000000) w"

subsection \<open>Ending and waiting for the worker\<close>

text \<open>The loop of \<open>terminate_process_group\<close>: \<open>True\<close> is the return after the child was reaped, \<open>False\<close> the break.\<close>

partial_function (option) term_loop :: "os \<Rightarrow> pid_t \<Rightarrow> int \<Rightarrow> world \<Rightarrow> (bool \<times> world) option" where
  "term_loop os pid deadline w =
     (case sys_waitpid os pid True w of
        ((rc, status, err), w1) \<Rightarrow>
          if rc = pid then Some (True, w1)
          else if rc < 0 \<and> err \<noteq> EINTR then Some (False, w1)
          else case (if 0 \<le> deadline then monotonic_ms os w1 else (- 1, w1)) of
            (now, w2) \<Rightarrow>
              if 0 \<le> deadline \<and> deadline \<le> now then Some (False, w2)
              else case sleep_ms os WAIT_POLL_MS w2 of
                None \<Rightarrow> None
              | Some w3 \<Rightarrow> term_loop os pid deadline w3)"

text \<open>\<open>while (waitpid(pid, NULL, 0) < 0 && errno == EINTR)\<close>\<close>

partial_function (option) reap_loop :: "os \<Rightarrow> pid_t \<Rightarrow> world \<Rightarrow> world option" where
  "reap_loop os pid w =
     (case sys_waitpid os pid False w of
        ((rc, status, err), w1) \<Rightarrow> if rc < 0 \<and> err = EINTR then reap_loop os pid w1 else Some w1)"

definition terminate_process_group :: "os \<Rightarrow> pid_t \<Rightarrow> world \<Rightarrow> world option" where
  "terminate_process_group os pid w =
     (if pid \<le> 0 then Some w
      else let w1 = sys_kill (- pid) SIGTERM w;
               (now, w2) = monotonic_ms os w1;
               deadline = (if 0 \<le> now then now + int TERM_GRACE_MS else now)
      in case term_loop os pid deadline w2 of
        None \<Rightarrow> None
      | Some (True, w3) \<Rightarrow> Some w3
      | Some (False, w3) \<Rightarrow> reap_loop os pid (sys_kill (- pid) SIGKILL w3))"

text \<open>The macros on the status word.\<close>

definition WIFEXITED :: "nat \<Rightarrow> bool" where "WIFEXITED status \<longleftrightarrow> status mod 128 = 0"
definition WEXITSTATUS :: "nat \<Rightarrow> int" where "WEXITSTATUS status = int (status div 256 mod 256)"
definition WTERMSIG :: "nat \<Rightarrow> int" where "WTERMSIG status = int (status mod 128)"
definition WIFSIGNALED :: "nat \<Rightarrow> bool" where "WIFSIGNALED status \<longleftrightarrow> 0 < status mod 128 \<and> status mod 128 < 127"

text \<open>The loop of \<open>wait_child\<close>: the code, \<open>*exit_code\<close> and the world.\<close>

partial_function (option) wait_loop ::
  "os \<Rightarrow> pid_t \<Rightarrow> bool \<Rightarrow> int \<Rightarrow> int \<Rightarrow> int \<Rightarrow> world \<Rightarrow> (calibration_rc \<times> int \<times> world) option" where
  "wait_loop os pid timed start_ms timeout_ms exit_code w =
     (case sys_waitpid os pid True w of
        ((rc, status, err), w1) \<Rightarrow>
          if rc = pid
          then Some (if WIFEXITED status then (CALIBRATION_OK, WEXITSTATUS status, w1)
                     else if WIFSIGNALED status then (CALIBRATION_OK, 128 + WTERMSIG status, w1)
                     else (CALIBRATION_ERR_WAIT, exit_code, w1))
          else if rc < 0
          then (if err = EINTR then wait_loop os pid timed start_ms timeout_ms exit_code w1
                else Some (CALIBRATION_ERR_WAIT, exit_code, w1))
          else case (if timed then monotonic_ms os w1 else (0, w1)) of
            (now_ms, w2) \<Rightarrow>
              if timed \<and> now_ms < 0
              then (case terminate_process_group os pid w2 of
                      None \<Rightarrow> None | Some w3 \<Rightarrow> Some (CALIBRATION_ERR_WAIT, exit_code, w3))
              else if timed \<and> timeout_ms \<le> now_ms - start_ms
              then (case terminate_process_group os pid w2 of
                      None \<Rightarrow> None | Some w3 \<Rightarrow> Some (CALIBRATION_ERR_TIMEOUT, exit_code, w3))
              else (case sleep_ms os WAIT_POLL_MS w2 of
                      None \<Rightarrow> None
                    | Some w3 \<Rightarrow> wait_loop os pid timed start_ms timeout_ms exit_code w3))"

definition wait_child :: "os \<Rightarrow> pid_t \<Rightarrow> u32 \<Rightarrow> int \<Rightarrow> world \<Rightarrow> (calibration_rc \<times> int \<times> world) option" where
  "wait_child os pid timeout_sec exit_code w =
     (if timeout_sec > 0
      then case monotonic_ms os w of
             (start_ms, w1) \<Rightarrow>
               if start_ms < 0 then Some (CALIBRATION_ERR_WAIT, exit_code, w1)
               else wait_loop os pid True start_ms (int (unat timeout_sec) * 1000) exit_code w1
      else wait_loop os pid False (- 1) 0 exit_code w)"

subsection \<open>The worker process\<close>

definition redirect_child_log :: "os \<Rightarrow> string option \<Rightarrow> world \<Rightarrow> calibration_rc \<times> world" where
  "redirect_child_log os log_path w =
     (case log_path of
        None \<Rightarrow> (CALIBRATION_OK, w)
      | Some path \<Rightarrow>
          (let (fd, w1) = sys_open os path w
           in if fd < 0 then (CALIBRATION_ERR_IO, w1)
           else let (out_ok, w2) = sys_dup2 os fd 1 w1
           in if \<not> out_ok then (CALIBRATION_ERR_IO, sys_close w2)
           else let (err_ok, w3) = sys_dup2 os fd 2 w2
           in if \<not> err_ok then (CALIBRATION_ERR_IO, sys_close w3)
           else if fd \<noteq> 1 \<and> fd \<noteq> 2 then (CALIBRATION_OK, sys_close w3) else (CALIBRATION_OK, w3)))"

definition worker_argv :: "calibration_config \<Rightarrow> string list" where
  "worker_argv cfg =
     [the (cc_worker_path cfg),
      ''--runs'', snprintf_s 32 (show_nat (unat (cc_runs cfg))),
      ''--memory-percent'', snprintf_s 64 (show_g6 (cc_memory_percent cfg)),
      ''--measurements'', snprintf_s 32 (show_nat (unat (cc_measurements cfg))),
      ''--timing-rounds'', snprintf_s 32 (show_nat (unat (cc_timing_rounds cfg))),
      ''--work-dir'', the (cc_work_dir cfg),
      ''--output'', the (cc_result_path cfg)] @
     (if cc_kk_main_path cfg \<noteq> None \<and> the (cc_kk_main_path cfg) \<noteq> []
      then [''--kk-main'', the (cc_kk_main_path cfg)] else []) @
     (if cc_keep_csv cfg then [''--keep-csv''] else [])"

text \<open>What the child does between \<open>fork\<close> and its end: \<open>Inl\<close> is \<open>_exit\<close> with that status, \<open>Inr\<close> the
  program and the argument vector handed to \<open>execv\<close>. (Should \<open>execv\<close> fail, the child exits with 127.)\<close>

definition worker_child :: "os \<Rightarrow> calibration_config \<Rightarrow> world \<Rightarrow> (int + string \<times> string list) \<times> world" where
  "worker_child os cfg w =
     (case sys_setpgid os 0 0 w of
        (Some _, w1) \<Rightarrow> (Inl 126, w1)
      | (None, w1) \<Rightarrow>
          (let (rc, w2) = redirect_child_log os (cc_log_path cfg) w1
           in if rc \<noteq> CALIBRATION_OK then (Inl 126, w2)
              else (Inr (the (cc_worker_path cfg), worker_argv cfg), w2)))"

text \<open>The parent's side: the code and \<open>*child_pid\<close>.\<close>

definition launch_worker :: "os \<Rightarrow> world \<Rightarrow> ((calibration_rc + pid_t) \<times> world) option" where
  "launch_worker os w =
     (case sys_fork os w of
        (pid, w1) \<Rightarrow>
          if pid < 0 then Some (Inl CALIBRATION_ERR_FORK, w1)
          else (case sys_setpgid os pid pid w1 of
             (Some err, w2) \<Rightarrow>
               if err \<noteq> EACCES \<and> err \<noteq> ESRCH
               then (case terminate_process_group os pid w2 of
                       None \<Rightarrow> None | Some w3 \<Rightarrow> Some (Inl CALIBRATION_ERR_FORK, w3))
               else Some (Inr pid, w2)
           | (None, w2) \<Rightarrow> Some (Inr pid, w2)))"

subsection \<open>A calibration\<close>

text \<open>The part of \<open>calibration_run\<close> after the worker was waited for.\<close>

definition finish_run ::
  "rounding \<Rightarrow> os \<Rightarrow> calibration_config \<Rightarrow> int \<Rightarrow> world \<Rightarrow> calibration_rc \<times> calibration_result \<times> world" where
  "finish_run rnd os cfg worker_exit_code w =
     (case calibration_load_result rnd os (cc_result_path cfg) (Some calibration_result_reset) w of
        (load_rc, outp, w1) \<Rightarrow>
          (let out = (the outp)\<lparr>cr_worker_exit_code := worker_exit_code\<rparr>
           in if worker_exit_code \<noteq> 0
              then if load_rc = CALIBRATION_ERR_REJECTED then (CALIBRATION_ERR_REJECTED, out, w1)
                   else (CALIBRATION_ERR_WORKER_EXIT,
                         if cr_error_message out = []
                         then set_error out (''calibration worker exited with code '' @ show_int worker_exit_code)
                         else out, w1)
              else (load_rc, out, w1)))"

definition calibration_run ::
  "rounding \<Rightarrow> os \<Rightarrow> calibration_config option \<Rightarrow> calibration_result option \<Rightarrow> world \<Rightarrow>
   (calibration_rc \<times> calibration_result option \<times> world) option" where
  "calibration_run rnd os cfgp outp w =
     (if outp = None then Some (CALIBRATION_ERR_INVALID_ARG, None, w)
      else let out0 = calibration_result_reset; rc = calibration_validate_config cfgp
      in if rc \<noteq> CALIBRATION_OK then Some (rc, Some (set_error out0 ''invalid calibration configuration''), w)
      else let cfg = the cfgp
      in case sys_unlink os (the (cc_result_path cfg)) w of
        (stale, w1) \<Rightarrow>
          if stale \<noteq> None \<and> the stale \<noteq> ENOENT
          then Some (CALIBRATION_ERR_IO,
                 Some (set_error out0 (''cannot remove stale result '' @ [CHR 0x27] @ the (cc_result_path cfg) @
                         [CHR 0x27] @ '': '' @ os_strerror os (the stale))), w1)
          else case launch_worker os w1 of
            None \<Rightarrow> None
          | Some (Inl rc, w2) \<Rightarrow>
              Some (rc, Some (set_error out0 (''cannot launch calibration worker '' @ [CHR 0x27] @
                      the (cc_worker_path cfg) @ [CHR 0x27])), w2)
          | Some (Inr pid, w2) \<Rightarrow>
              (case wait_child os pid (cc_timeout_sec cfg) (- 1) w2 of
                 None \<Rightarrow> None
               | Some (rc, worker_exit_code, w3) \<Rightarrow>
                   if rc \<noteq> CALIBRATION_OK
                   then Some (rc, Some (set_error (out0\<lparr>cr_worker_exit_code := worker_exit_code\<rparr>)
                          (if rc = CALIBRATION_ERR_TIMEOUT
                           then ''calibration timed out after '' @ show_nat (unat (cc_timeout_sec cfg)) @ '' seconds''
                           else ''failed while waiting for calibration worker'')), w3)
                   else (case finish_run rnd os cfg worker_exit_code w3 of
                           (rc', out, w4) \<Rightarrow> Some (rc', Some out, w4))))"

end
