(* ===== verification/Calibration_Correct.thy ===== *)
theory Calibration_Correct
  imports Calibration
begin

text \<open>
  Facts on the result reader: positions stay inside their ranges, the masks that are accepted are nonzero and fit the array, the
  file is closed, and a successful load has passed every test of the code.
\<close>

subsection \<open>Positions\<close>

lemma skip_ws_le: "p \<le> stop \<Longrightarrow> skip_ws json p stop \<le> stop"
proof (induction json p stop rule: skip_ws.induct)
  case (1 json p stop)
  then show ?case by (subst skip_ws.simps) simp
qed

lemma find_key_loop_bounds:
  "find_key_loop json stop pattern p = Some q \<Longrightarrow> p + length pattern < q \<and> q \<le> stop"
proof (induction json stop pattern p rule: find_key_loop.induct)
  case (1 json stop pattern p)
  from 1(2) obtain off where lt: "p < stop" and m: "strstr (cstr (drop p json)) pattern = Some off" "p + off < stop"
    by (subst (asm) find_key_loop.simps) (auto split: if_splits option.splits)
  let ?colon = "skip_ws json (p + off + length pattern) stop"
  show ?case
  proof (cases "?colon < stop \<and> char_at json ?colon = CHR '':''")
    case True
    with 1(2) lt m have "q = skip_ws json (Suc ?colon) stop"
      by (subst (asm) find_key_loop.simps) (simp add: Let_def)
    moreover have "p + off + length pattern \<le> ?colon" by (rule skip_ws_ge)
    moreover have "Suc ?colon \<le> skip_ws json (Suc ?colon) stop" by (rule skip_ws_ge)
    moreover have "skip_ws json (Suc ?colon) stop \<le> stop" using True by (intro skip_ws_le) simp
    ultimately show ?thesis by linarith
  next
    case False
    with 1(2) lt m have "find_key_loop json stop pattern (Suc (p + off)) = Some q"
      by (subst (asm) find_key_loop.simps) (simp add: Let_def)
    from 1(1) [OF lt m(1) _ refl False this] m(2) show ?thesis by simp
  qed
qed

subsection \<open>The masks\<close>

text \<open>The masks stored so far.\<close>

definition result_masks :: "calibration_result \<Rightarrow> u64 list" where
  "result_masks out = map (cr_bank_masks out) [0..<cr_bank_mask_count out]"

lemma result_masks_exit_code: "result_masks (out\<lparr>cr_worker_exit_code := c\<rparr>) = result_masks out"
  by (simp add: result_masks_def)

lemma mask_value_nonzero: "mask_value text = Some v \<Longrightarrow> v \<noteq> 0"
  by (auto simp: mask_value_def split: prod.splits if_splits)

text \<open>The codes with which a document is accepted or refused.\<close>

definition load_codes :: "calibration_rc set" where
  "load_codes = {CALIBRATION_OK, CALIBRATION_ERR_JSON, CALIBRATION_ERR_REJECTED, CALIBRATION_ERR_TOO_MANY_MASKS}"

text \<open>What the loop leaves: it only appends nonzero masks, up to the capacity, and touches nothing else.\<close>

definition masks_grown :: "calibration_result \<Rightarrow> calibration_rc \<times> calibration_result \<Rightarrow> bool" where
  "masks_grown out r =
     (case r of (rc, out') \<Rightarrow>
        (\<exists>new. result_masks out' = result_masks out @ new \<and> 0 \<notin> set new) \<and>
        cr_bank_mask_count out' \<le> max (cr_bank_mask_count out) CALIBRATION_MAX_BANK_MASKS \<and>
        (rc = CALIBRATION_OK \<longrightarrow> 0 < cr_bank_mask_count out') \<and> rc \<in> load_codes \<and>
        out' = out\<lparr>cr_bank_masks := cr_bank_masks out', cr_bank_mask_count := cr_bank_mask_count out'\<rparr>)"

lemma masks_grown_add:
  assumes "masks_grown (out\<lparr>cr_bank_masks := (cr_bank_masks out)(cr_bank_mask_count out := v),
      cr_bank_mask_count := Suc (cr_bank_mask_count out)\<rparr>) r"
    and "v \<noteq> 0" and "cr_bank_mask_count out < CALIBRATION_MAX_BANK_MASKS"
  shows "masks_grown out r"
proof -
  let ?out1 = "out\<lparr>cr_bank_masks := (cr_bank_masks out)(cr_bank_mask_count out := v),
      cr_bank_mask_count := Suc (cr_bank_mask_count out)\<rparr>"
  obtain rc out' where r: "r = (rc, out')" by (rule prod.exhaust)
  have one: "result_masks ?out1 = result_masks out @ [v]"
    by (simp add: result_masks_def)
  from assms(1) r obtain new where new: "result_masks out' = result_masks ?out1 @ new" "0 \<notin> set new"
    by (auto simp: masks_grown_def)
  have "\<exists>new. result_masks out' = result_masks out @ new \<and> 0 \<notin> set new"
    using new one assms(2) by (intro exI [of _ "v # new"]) simp
  with assms(1,3) r show ?thesis by (auto simp: masks_grown_def)
qed

lemma masks_grown_refl:
  "rc \<in> load_codes \<Longrightarrow> rc = CALIBRATION_OK \<longrightarrow> 0 < cr_bank_mask_count out \<Longrightarrow> masks_grown out (rc, out)"
  by (simp add: masks_grown_def)

lemma masks_loop_grown: "masks_grown out (masks_loop json stop p0 out)"
proof (induction json stop p0 out rule: masks_loop.induct)
  case (1 json stop p0 out)
  let ?p = "skip_ws json p0 stop"
  let ?finish = "(if 0 < cr_bank_mask_count out then CALIBRATION_OK else CALIBRATION_ERR_REJECTED, out)"
  have fin: "masks_grown out ?finish" by (intro masks_grown_refl) (simp_all add: load_codes_def)
  have bad: "masks_grown out (CALIBRATION_ERR_JSON, out)" "masks_grown out (CALIBRATION_ERR_TOO_MANY_MASKS, out)"
    by (intro masks_grown_refl; simp add: load_codes_def)+
  show ?case
  proof (cases "p0 < stop \<and> ?p < stop")
    case False
    then have "masks_loop json stop p0 out = ?finish" by (subst masks_loop.simps) (auto simp: Let_def)
    with fin show ?thesis by simp
  next
    case in_range: True
    show ?thesis
    proof (cases "char_at json ?p = CHR '',''")
      case True
      with in_range have "masks_loop json stop p0 out = masks_loop json stop (Suc ?p) out"
        by (subst masks_loop.simps) (simp add: Let_def)
      with 1(1) [OF refl refl] in_range True show ?thesis by simp
    next
      case no_comma: False
      show ?thesis
      proof (cases "char_at json ?p = CHR 0x22")
        case False
        with in_range no_comma have "masks_loop json stop p0 out = (CALIBRATION_ERR_JSON, out)"
          by (subst masks_loop.simps) (simp add: Let_def)
        with bad show ?thesis by simp
      next
        case quote: True
        show ?thesis
        proof (cases "mask_text json stop (Suc ?p) []")
          case None
          with in_range no_comma quote have "masks_loop json stop p0 out = (CALIBRATION_ERR_JSON, out)"
            by (subst masks_loop.simps) (simp add: Let_def)
          with bad show ?thesis by simp
        next
          case (Some a)
          obtain q buf where a: "a = (q, buf)" by (rule prod.exhaust)
          let ?next = "\<lambda>v. masks_loop json stop (Suc q) (out\<lparr>cr_bank_masks := (cr_bank_masks out)(cr_bank_mask_count out := v),
            cr_bank_mask_count := Suc (cr_bank_mask_count out)\<rparr>)"
          have eq: "masks_loop json stop p0 out =
            (if stop \<le> q \<or> char_at json q \<noteq> CHR 0x22 then (CALIBRATION_ERR_JSON, out)
             else if CALIBRATION_MAX_BANK_MASKS \<le> cr_bank_mask_count out then (CALIBRATION_ERR_TOO_MANY_MASKS, out)
             else case mask_value buf of None \<Rightarrow> (CALIBRATION_ERR_JSON, out) | Some v \<Rightarrow> ?next v)"
            using in_range no_comma quote Some a by (subst masks_loop.simps) (simp add: Let_def)
          have "masks_grown out (?next v)" if "mask_value buf = Some v" "\<not> (stop \<le> q \<or> char_at json q \<noteq> CHR 0x22)"
            "\<not> CALIBRATION_MAX_BANK_MASKS \<le> cr_bank_mask_count out" for v
          proof (rule masks_grown_add [OF _ mask_value_nonzero [OF that(1)]])
            show "masks_grown (out\<lparr>cr_bank_masks := (cr_bank_masks out)(cr_bank_mask_count out := v),
                cr_bank_mask_count := Suc (cr_bank_mask_count out)\<rparr>) (?next v)"
              by (rule 1(2) [OF refl refl _ _ no_comma _ Some a [symmetric] that(2,3,1)]) (use in_range quote in simp_all)
          qed (use that(3) in simp)
          with eq bad show ?thesis by (simp split: option.splits)
        qed
      qed
    qed
  qed
qed

subsection \<open>The file\<close>

lemmas read_file_defs = read_file_limited_def fopen_r_def fclose_r_def fseek_r_def ftell_r_def fread_r_def sys_calloc_def

lemma read_file_limited_frame:
  assumes "read_file_limited os path w = (r, w')"
  shows "w_calls w \<le> w_calls w' \<and> w_open w' = w_open w \<and> w_writes w' = w_writes w \<and> w_log w' = w_log w"
  using assms by (auto simp: read_file_defs Let_def tick_def split: option.splits if_splits)

lemma read_file_limited_Inl:
  "read_file_limited os (Some path) w = (Inl rc, w') \<Longrightarrow> rc = CALIBRATION_ERR_IO"
  by (auto simp: read_file_defs Let_def split: option.splits if_splits)

lemma read_file_limited_length:
  "read_file_limited os path w = (Inr json, w') \<Longrightarrow> length json \<le> CALIBRATION_JSON_MAX_BYTES"
  by (auto simp: read_file_defs Let_def split: option.splits if_splits)

text \<open>A file whose size and contents the operating system reports faithfully is read whole.\<close>

lemma read_file_limited_whole:
  assumes "os_fopen os w path = Some json" and "\<And>w. os_ftell os w = int (length json)" and "\<And>w n. n \<le> os_fread os w n"
    and "\<And>w. os_fseek os w" and "\<And>w n. os_alloc os w n" and "\<And>w. os_fclose os w"
    and "length json \<le> CALIBRATION_JSON_MAX_BYTES"
  shows "\<exists>w'. read_file_limited os (Some path) w = (Inr json, w')"
  using assms by (simp add: read_file_defs Let_def)

subsection \<open>A successful load\<close>

lemma string_loop_length:
  "string_loop json stop sz p dst escaped = (rc, text) \<Longrightarrow> length dst < sz \<Longrightarrow> length text < sz"
proof (induction "stop - p" arbitrary: p dst escaped rule: less_induct)
  case less
  let ?ch = "char_at json p"
  show ?case
  proof (cases "p < stop")
    case True
    then have "stop - Suc p < stop - p" by simp
    note IH = less.hyps [OF this]
    from True less.prems consider "text = dst" | "string_loop json stop sz (Suc p) dst True = (rc, text)"
      | "string_loop json stop sz (Suc p) (dst @ [?ch]) False = (rc, text)" "length dst + 1 < sz"
      by (subst (asm) string_loop.simps) (auto simp: Let_def not_le split: if_splits)
    then show ?thesis using less.prems(2) IH by cases simp_all
  next
    case False
    with less.prems show ?thesis by (subst (asm) string_loop.simps) simp
  qed
qed

lemma extract_string_length:
  "extract_string json r key sz = (rc, text) \<Longrightarrow> 0 < sz \<Longrightarrow> length text < sz"
  by (auto simp: extract_string_def split: option.splits if_splits dest: string_loop_length)

text \<open>What a result that was loaded with success satisfies.\<close>

definition loaded_ok :: "calibration_result \<Rightarrow> bool" where
  "loaded_ok out \<longleftrightarrow>
     cr_status_success out \<and> cr_acceptance_passed out \<and>
     0 < cr_bank_mask_count out \<and> cr_bank_mask_count out \<le> CALIBRATION_MAX_BANK_MASKS \<and> 0 \<notin> set (result_masks out) \<and>
     length (cr_mask_set_id out) < CALIBRATION_MASK_SET_ID_MAX"

lemma parse_bank_masks_OK:
  assumes "parse_bank_masks json array out = (CALIBRATION_OK, out')" and "cr_bank_mask_count out = 0"
  shows "0 < cr_bank_mask_count out' \<and> cr_bank_mask_count out' \<le> CALIBRATION_MAX_BANK_MASKS \<and> 0 \<notin> set (result_masks out') \<and>
    out' = out\<lparr>cr_bank_masks := cr_bank_masks out', cr_bank_mask_count := cr_bank_mask_count out'\<rparr>"
  using assms masks_loop_grown [of out json "jr_end array - 1" "jr_begin array + 1"]
  by (auto simp: parse_bank_masks_def masks_grown_def result_masks_def)

lemma load_mapping_OK:
  assumes "load_mapping rnd json root_range out = (CALIBRATION_OK, out')" and "cr_bank_mask_count out = 0"
  obtains "0 < cr_bank_mask_count out'" "cr_bank_mask_count out' \<le> CALIBRATION_MAX_BANK_MASKS" "0 \<notin> set (result_masks out')"
    "length (cr_mask_set_id out') < CALIBRATION_MASK_SET_ID_MAX" "cr_status_success out' = cr_status_success out"
    "cr_acceptance_passed out' = cr_acceptance_passed out" "cr_error_message out' = cr_error_message out"
proof -
  obtain masks where a: "extract_array json root_range ''bank_masks'' = Some masks"
    using assms by (auto simp: load_mapping_def split: option.splits)
  obtain rc out1 where "parse_bank_masks json masks out = (rc, out1)" by (rule prod.exhaust)
  note m = a this
  obtain rc2 idt where i: "extract_string json root_range ''mask_set_id'' CALIBRATION_MASK_SET_ID_MAX = (rc2, idt)"
    by (rule prod.exhaust)
  from assms(1) m i have rc: "rc = CALIBRATION_OK" by (auto simp: load_mapping_def split: if_splits)
  from assms(1) m i rc obtain h where out': "out' = out1\<lparr>cr_mask_set_id := idt, cr_holdout := h\<rparr>"
    by (auto simp: load_mapping_def Let_def split: if_splits option.splits prod.splits)
  have masks: "result_masks out' = result_masks out1" by (simp add: out' result_masks_def)
  have idt: "length idt < CALIBRATION_MASK_SET_ID_MAX"
    by (rule extract_string_length [OF i]) (simp add: CALIBRATION_MASK_SET_ID_MAX_def)
  note p = parse_bank_masks_OK [OF m(2) [unfolded rc] assms(2)]
  then have keep: "cr_status_success out1 = cr_status_success out" "cr_acceptance_passed out1 = cr_acceptance_passed out"
    "cr_error_message out1 = cr_error_message out"
    by (metis calibration_result.simps(1,2,8) calibration_result.surjective calibration_result.update_convs(3,4))+
  show ?thesis by (rule that) (use p masks idt keep out' in simp_all)
qed

lemma load_json_OK:
  assumes "load_json rnd json = (CALIBRATION_OK, out)"
  shows "loaded_ok out"
proof -
  obtain erc etext where e: "extract_string json \<lparr>jr_begin = 0, jr_end = length json\<rparr> ''error'' CALIBRATION_ERROR_MESSAGE_MAX = (erc, etext)"
    by (rule prod.exhaust)
  obtain src status where st: "extract_string json \<lparr>jr_begin = 0, jr_end = length json\<rparr> ''status'' 32 = (src, status)"
    by (rule prod.exhaust)
  define out1 where "out1 = (if erc = CALIBRATION_OK then set_error calibration_result_reset (cstr etext) else calibration_result_reset)"
  from assms e st have "load_mapping rnd json \<lparr>jr_begin = 0, jr_end = length json\<rparr>
      (out1\<lparr>cr_status_success := True, cr_acceptance_passed := True\<rparr>) = (CALIBRATION_OK, out)"
    by (auto simp: load_json_def Let_def out1_def [symmetric] split: if_splits option.splits)
  then show ?thesis
    by (rule load_mapping_OK) (simp_all add: loaded_ok_def out1_def set_error_def calibration_result_reset_def)
qed

lemma parse_bank_masks_exit_code: "cr_worker_exit_code (snd (parse_bank_masks json array out)) = cr_worker_exit_code out"
proof -
  obtain rc out' where r: "masks_loop json (jr_end array - 1) (jr_begin array + 1) out = (rc, out')" by (rule prod.exhaust)
  from masks_loop_grown [of out json "jr_end array - 1" "jr_begin array + 1", unfolded r]
  have "out' = out\<lparr>cr_bank_masks := cr_bank_masks out', cr_bank_mask_count := cr_bank_mask_count out'\<rparr>"
    by (simp add: masks_grown_def)
  then have "cr_worker_exit_code out' = cr_worker_exit_code out"
    by (metis calibration_result.simps(7) calibration_result.surjective calibration_result.update_convs(3,4))
  with r show ?thesis by (simp add: parse_bank_masks_def)
qed

lemma set_error_exit_code [simp]: "cr_worker_exit_code (set_error out text) = cr_worker_exit_code out"
  by (simp add: set_error_def)

lemma load_mapping_exit_code: "load_mapping rnd json root_range out = (rc, out') \<Longrightarrow> cr_worker_exit_code out' = cr_worker_exit_code out"
  using parse_bank_masks_exit_code [of json _ out]
  by (auto simp: load_mapping_def Let_def split: option.splits prod.splits if_splits) (metis snd_conv)+

lemma load_json_exit_code: "load_json rnd json = (rc, out) \<Longrightarrow> cr_worker_exit_code out = - 1"
  by (auto simp: load_json_def Let_def calibration_result_reset_def dest!: load_mapping_exit_code
      split: option.splits prod.splits if_splits)

lemma load_mapping_code: "fst (load_mapping rnd json root_range out) \<in> load_codes"
proof -
  have "rc \<in> load_codes" if "parse_bank_masks json array out = (rc, out1)" for array rc out1
    using masks_loop_grown [of out json "jr_end array - 1" "jr_begin array + 1"] that
    by (auto simp: parse_bank_masks_def masks_grown_def)
  moreover have "CALIBRATION_OK \<in> load_codes" "CALIBRATION_ERR_JSON \<in> load_codes" by (simp_all add: load_codes_def)
  ultimately show ?thesis
    by (auto simp: load_mapping_def Let_def split: option.splits prod.splits)
qed

lemma load_json_code: "fst (load_json rnd json) \<in> load_codes"
proof -
  have "CALIBRATION_ERR_JSON \<in> load_codes" "CALIBRATION_ERR_REJECTED \<in> load_codes" by (simp_all add: load_codes_def)
  then show ?thesis by (auto simp: load_json_def Let_def load_mapping_code split: option.splits prod.splits)
qed

end
