(* ===== verification/Calibration_Run_Correct.thy ===== *)
theory Calibration_Run_Correct
  imports Calibration_Run Calibration_Correct
begin

text \<open>
  Facts on the calibration runner: what its waiting loops leave behind when they return (rules for partial functions), and that they
  do return on an operating system whose clock advances, whose sleeps make progress and whose waits are not
  interrupted for ever.
\<close>

subsection \<open>Steps of the world\<close>

text \<open>From \<open>w\<close> to \<open>w'\<close> calls were made, the events \<open>evs\<close> were logged, nothing was written and no file stayed open.\<close>

definition went :: "world \<Rightarrow> sys_event list \<Rightarrow> world \<Rightarrow> bool" where
  "went w evs w' \<longleftrightarrow> w_calls w \<le> w_calls w' \<and> w_open w' = w_open w \<and> w_writes w' = w_writes w \<and> w_log w' = w_log w @ evs"

lemma went_refl [simp]: "went w [] w"
  by (simp add: went_def)

lemma went_tick [simp]: "went w [] (tick w)"
  by (simp add: went_def tick_def)

lemma went_trans: "went w a w1 \<Longrightarrow> went w1 b w2 \<Longrightarrow> went w (a @ b) w2"
  by (simp add: went_def)

lemma went_skip: "went w [] w1 \<Longrightarrow> went w1 b w2 \<Longrightarrow> went w b w2"
  using went_trans [of w "[]" w1 b w2] by simp

lemma went_after: "went w a w1 \<Longrightarrow> went w1 [] w2 \<Longrightarrow> went w a w2"
  using went_trans [of w a w1 "[]" w2] by simp

lemma monotonic_ms_went: "monotonic_ms os w = (t, w') \<Longrightarrow> went w [] w'"
  by (auto simp: monotonic_ms_def clock_gettime_def split: option.splits)

lemma monotonic_ms_calls: "monotonic_ms os w = (t, w') \<Longrightarrow> w_calls w' = Suc (w_calls w)"
  by (auto simp: monotonic_ms_def clock_gettime_def tick_def split: option.splits)

lemma waitpid_went:
  "sys_waitpid os pid nohang w = ((rc, status, err), w') \<Longrightarrow> went w (if rc = pid then [Ev_reaped pid status] else []) w'"
  by (auto simp: sys_waitpid_def Let_def went_def tick_def split: if_splits)

lemma waitpid_calls: "sys_waitpid os pid nohang w = (r, w') \<Longrightarrow> w_calls w' = Suc (w_calls w) \<and> r = os_waitpid os w pid nohang"
  by (auto simp: sys_waitpid_def Let_def tick_def split: if_splits)

lemma kill_went: "went w [Ev_kill pid sig] (sys_kill pid sig w)"
  by (simp add: went_def sys_kill_def tick_def)

subsection \<open>What the loops leave behind\<close>

lemma sleep_loop_went:
  assumes "sleep_loop os req w = Some w'"
  shows "went w [] w' \<and> w_calls w < w_calls w'"
  using assms
proof (rule sleep_loop.raw_induct [rotated])
  fix loop :: "os \<Rightarrow> nat \<Rightarrow> world \<Rightarrow> world option" and os req w w'
  assume IH: "\<And>os req w w'. loop os req w = Some w' \<Longrightarrow> went w [] w' \<and> w_calls w < w_calls w'"
    and eq: "(case sys_nanosleep os req w of (Some (EINTR, remaining), w') \<Rightarrow> loop os remaining w' | (_, w') \<Rightarrow> Some w') = Some w'"
  from eq have "w' = tick w \<or> (\<exists>rem. loop os rem (tick w) = Some w')"
    by (auto simp: sys_nanosleep_def split: option.splits prod.splits errno.splits)
  then show "went w [] w' \<and> w_calls w < w_calls w'"
  proof
    assume "w' = tick w"
    then show ?thesis by (simp add: tick_def went_def)
  next
    assume "\<exists>rem. loop os rem (tick w) = Some w'"
    then obtain rem where "loop os rem (tick w) = Some w'" ..
    from IH [OF this] went_skip [OF went_tick [of w]] show ?thesis by (auto simp: tick_def)
  qed
qed

lemma sleep_ms_went: "sleep_ms os ms w = Some w' \<Longrightarrow> went w [] w' \<and> w_calls w < w_calls w'"
  unfolding sleep_ms_def by (rule sleep_loop_went)

lemma term_loop_went:
  assumes "term_loop os pid deadline w = Some (b, w')"
  shows "(if b then \<exists>status. went w [Ev_reaped pid status] w' else went w [] w')"
proof -
  have "case (b, w') of (b, w') \<Rightarrow> (if b then \<exists>status. went w [Ev_reaped pid status] w' else went w [] w')"
    using assms
  proof (rule term_loop.raw_induct [rotated])
    fix loop :: "os \<Rightarrow> pid_t \<Rightarrow> int \<Rightarrow> world \<Rightarrow> (bool \<times> world) option" and os pid deadline w r
    assume IH: "\<And>os pid deadline w r. loop os pid deadline w = Some r \<Longrightarrow>
        (case r of (b, w') \<Rightarrow> (if b then \<exists>status. went w [Ev_reaped pid status] w' else went w [] w'))"
      and eq: "(case sys_waitpid os pid True w of ((rc, status, err), w1) \<Rightarrow>
          if rc = pid then Some (True, w1)
          else if rc < 0 \<and> err \<noteq> EINTR then Some (False, w1)
          else case (if 0 \<le> deadline then monotonic_ms os w1 else (- 1, w1)) of
            (now, w2) \<Rightarrow> if 0 \<le> deadline \<and> deadline \<le> now then Some (False, w2)
              else case sleep_ms os WAIT_POLL_MS w2 of None \<Rightarrow> None | Some w3 \<Rightarrow> loop os pid deadline w3) = Some r"
    obtain rc status err w1 where wait: "sys_waitpid os pid True w = ((rc, status, err), w1)" by (metis surj_pair)
    obtain now w2 where now: "(if 0 \<le> deadline then monotonic_ms os w1 else (- 1, w1)) = (now, w2)" by (rule prod.exhaust)
    have w2: "went w1 [] w2" using now monotonic_ms_went by (auto split: if_splits)
    show "case r of (b, w') \<Rightarrow> (if b then \<exists>status. went w [Ev_reaped pid status] w' else went w [] w')"
    proof (cases "rc = pid \<or> rc < 0 \<and> err \<noteq> EINTR")
      case True
      with eq wait waitpid_went [OF wait] show ?thesis by (auto split: if_splits)
    next
      case False
      with waitpid_went [OF wait] w2 have "went w [] w2" by (auto intro: went_skip)
      moreover from False eq wait now have "r = (False, w2) \<or> (\<exists>w3. sleep_ms os WAIT_POLL_MS w2 = Some w3 \<and> loop os pid deadline w3 = Some r)"
        by (auto split: if_splits option.splits)
      ultimately show ?thesis using IH sleep_ms_went by (fastforce intro: went_skip)
    qed
  qed
  then show ?thesis by simp
qed

lemma reap_loop_went:
  assumes "reap_loop os pid w = Some w'" and "0 < pid"
  shows "went w [] w' \<or> (\<exists>status. went w [Ev_reaped pid status] w')"
proof -
  have "0 < pid \<longrightarrow> went w [] w' \<or> (\<exists>status. went w [Ev_reaped pid status] w')"
    using assms(1)
  proof (rule reap_loop.raw_induct [rotated])
    fix loop :: "os \<Rightarrow> pid_t \<Rightarrow> world \<Rightarrow> world option" and os pid w w'
    assume IH: "\<And>os pid w w'. loop os pid w = Some w' \<Longrightarrow> 0 < pid \<longrightarrow> went w [] w' \<or> (\<exists>status. went w [Ev_reaped pid status] w')"
      and eq: "(case sys_waitpid os pid False w of ((rc, status, err), w1) \<Rightarrow>
          if rc < 0 \<and> err = EINTR then loop os pid w1 else Some w1) = Some w'"
    obtain rc status err w1 where wait: "sys_waitpid os pid False w = ((rc, status, err), w1)" by (metis surj_pair)
    note w1 = waitpid_went [OF wait]
    show "0 < pid \<longrightarrow> went w [] w' \<or> (\<exists>status. went w [Ev_reaped pid status] w')"
    proof (cases "rc < 0 \<and> err = EINTR")
      case True
      with eq wait have "loop os pid w1 = Some w'" by simp
      from IH [OF this] w1 True show ?thesis by (auto intro: went_skip split: if_splits)
    next
      case False
      with eq wait w1 show ?thesis by (auto split: if_splits)
    qed
  qed
  with assms(2) show ?thesis by simp
qed

text \<open>The ways a process group is ended: the child is gone within the grace period, or the group is killed and waited for.\<close>

definition ended_by :: "pid_t \<Rightarrow> sys_event list \<Rightarrow> bool" where
  "ended_by pid evs \<longleftrightarrow>
     (\<exists>status. evs \<in> {[Ev_kill (- pid) SIGTERM, Ev_reaped pid status],
            [Ev_kill (- pid) SIGTERM, Ev_kill (- pid) SIGKILL, Ev_reaped pid status],
            [Ev_kill (- pid) SIGTERM, Ev_kill (- pid) SIGKILL]})"

lemma terminate_went:
  assumes "terminate_process_group os pid w = Some w'" and "0 < pid"
  shows "\<exists>evs. ended_by pid evs \<and> went w evs w'"
proof -
  obtain now w2 where now: "monotonic_ms os (sys_kill (- pid) SIGTERM w) = (now, w2)" by (rule prod.exhaust)
  have w2: "went w [Ev_kill (- pid) SIGTERM] w2"
    using went_after [OF kill_went monotonic_ms_went [OF now]] .
  from assms now obtain b w3 where loop: "term_loop os pid (if 0 \<le> now then now + int TERM_GRACE_MS else now) w2 = Some (b, w3)"
    and rest: "if b then w' = w3 else reap_loop os pid (sys_kill (- pid) SIGKILL w3) = Some w'"
    by (auto simp: terminate_process_group_def Let_def split: option.splits bool.splits if_splits)
  have w3: "if b then \<exists>status. went w [Ev_kill (- pid) SIGTERM, Ev_reaped pid status] w3 else went w [Ev_kill (- pid) SIGTERM] w3"
    using term_loop_went [OF loop] went_trans [OF w2, of _ w3] by (fastforce split: if_splits)
  show ?thesis
  proof (cases b)
    case True
    with rest w3 show ?thesis by (auto simp: ended_by_def)
  next
    case False
    with w3 have "went w [Ev_kill (- pid) SIGTERM] w3" by simp
    from went_trans [OF this kill_went] have k: "went w [Ev_kill (- pid) SIGTERM, Ev_kill (- pid) SIGKILL]
      (sys_kill (- pid) SIGKILL w3)" by simp
    from False rest have "reap_loop os pid (sys_kill (- pid) SIGKILL w3) = Some w'" by simp
    from reap_loop_went [OF this assms(2)] went_trans [OF k, of _ w'] show ?thesis by (fastforce simp: ended_by_def)
  qed
qed

text \<open>The last call was a wait that failed, or the clock could not be read: the two ways out without a word about the worker.\<close>

definition wait_refused :: "os \<Rightarrow> pid_t \<Rightarrow> world \<Rightarrow> bool" where
  "wait_refused os pid w' \<longleftrightarrow>
     (\<exists>v. w' = tick v \<and> (fst (monotonic_ms os v) < 0 \<or>
        (\<exists>r status err. os_waitpid os v pid True = (r, status, err) \<and> r < 0 \<and> err \<noteq> EINTR)))"

text \<open>The exit code that stands for a status word.\<close>

definition status_code :: "nat \<Rightarrow> int \<Rightarrow> bool" where
  "status_code status code \<longleftrightarrow>
     (if status mod 128 = 0 then code = int (status div 256 mod 256)
      else status mod 128 < 127 \<and> code = 128 + int (status mod 128))"

lemma status_code_macros:
  "WIFEXITED status \<Longrightarrow> status_code status (WEXITSTATUS status)"
  "\<not> WIFEXITED status \<Longrightarrow> WIFSIGNALED status \<Longrightarrow> status_code status (128 + WTERMSIG status)"
  by (simp_all add: status_code_def WIFEXITED_def WEXITSTATUS_def WIFSIGNALED_def WTERMSIG_def)

lemma waitpid_refused:
  "sys_waitpid os pid True w = ((rc, status, err), w1) \<Longrightarrow> rc < 0 \<Longrightarrow> err \<noteq> EINTR \<Longrightarrow> 0 < pid \<Longrightarrow> wait_refused os pid w1"
  by (auto simp: wait_refused_def sys_waitpid_def Let_def split: if_splits)

lemma clock_refused: "monotonic_ms os w = (t, w1) \<Longrightarrow> t < 0 \<Longrightarrow> wait_refused os pid w1"
proof -
  assume m: "monotonic_ms os w = (t, w1)" "t < 0"
  then have "w1 = tick w" by (auto simp: monotonic_ms_def clock_gettime_def split: option.splits)
  with m show ?thesis unfolding wait_refused_def by auto
qed

text \<open>The outcomes of waiting.\<close>

definition waited :: "os \<Rightarrow> pid_t \<Rightarrow> int \<Rightarrow> world \<Rightarrow> calibration_rc \<times> int \<times> world \<Rightarrow> bool" where
  "waited os pid code0 w r =
     (case r of (rc, code, w') \<Rightarrow>
        (rc = CALIBRATION_OK \<and> (\<exists>status. went w [Ev_reaped pid status] w' \<and> status_code status code)) \<or>
        (rc = CALIBRATION_ERR_WAIT \<and> code = code0 \<and>
           ((went w [] w' \<and> wait_refused os pid w') \<or> (\<exists>status. went w [Ev_reaped pid status] w') \<or> (\<exists>evs. ended_by pid evs \<and> went w evs w'))) \<or>
        (rc = CALIBRATION_ERR_TIMEOUT \<and> code = code0 \<and> (\<exists>evs. ended_by pid evs \<and> went w evs w')))"

lemma waited_skip: "went w [] w1 \<Longrightarrow> waited os pid code0 w1 r \<Longrightarrow> waited os pid code0 w r"
  unfolding waited_def by (cases r) (auto intro: went_skip)

text \<open>One round of the loop, without the recursive call: \<open>Inr w\<close> goes on.\<close>

definition wait_round ::
  "os \<Rightarrow> pid_t \<Rightarrow> bool \<Rightarrow> int \<Rightarrow> int \<Rightarrow> int \<Rightarrow> world \<Rightarrow> ((calibration_rc \<times> int \<times> world) + world) option" where
  "wait_round os pid timed start_ms timeout_ms exit_code w =
     (case sys_waitpid os pid True w of
        ((rc, status, err), w1) \<Rightarrow>
          if rc = pid
          then Some (Inl (if WIFEXITED status then (CALIBRATION_OK, WEXITSTATUS status, w1)
                     else if WIFSIGNALED status then (CALIBRATION_OK, 128 + WTERMSIG status, w1)
                     else (CALIBRATION_ERR_WAIT, exit_code, w1)))
          else if rc < 0
          then Some (if err = EINTR then Inr w1 else Inl (CALIBRATION_ERR_WAIT, exit_code, w1))
          else case (if timed then monotonic_ms os w1 else (0, w1)) of
            (now_ms, w2) \<Rightarrow>
              if timed \<and> now_ms < 0
              then map_option (\<lambda>w3. Inl (CALIBRATION_ERR_WAIT, exit_code, w3)) (terminate_process_group os pid w2)
              else if timed \<and> timeout_ms \<le> now_ms - start_ms
              then map_option (\<lambda>w3. Inl (CALIBRATION_ERR_TIMEOUT, exit_code, w3)) (terminate_process_group os pid w2)
              else map_option Inr (sleep_ms os WAIT_POLL_MS w2))"

lemma wait_body:
  "(case sys_waitpid os pid True w of
        ((rc, status, err), w1) \<Rightarrow>
          if rc = pid
          then Some (if WIFEXITED status then (CALIBRATION_OK, WEXITSTATUS status, w1)
                     else if WIFSIGNALED status then (CALIBRATION_OK, 128 + WTERMSIG status, w1)
                     else (CALIBRATION_ERR_WAIT, exit_code, w1))
          else if rc < 0
          then (if err = EINTR then loop w1 else Some (CALIBRATION_ERR_WAIT, exit_code, w1))
          else case (if timed then monotonic_ms os w1 else (0, w1)) of
            (now_ms, w2) \<Rightarrow>
              if timed \<and> now_ms < 0
              then (case terminate_process_group os pid w2 of
                      None \<Rightarrow> None | Some w3 \<Rightarrow> Some (CALIBRATION_ERR_WAIT, exit_code, w3))
              else if timed \<and> timeout_ms \<le> now_ms - start_ms
              then (case terminate_process_group os pid w2 of
                      None \<Rightarrow> None | Some w3 \<Rightarrow> Some (CALIBRATION_ERR_TIMEOUT, exit_code, w3))
              else (case sleep_ms os WAIT_POLL_MS w2 of None \<Rightarrow> None | Some w3 \<Rightarrow> loop w3)) =
   (case wait_round os pid timed start_ms timeout_ms exit_code w of
        None \<Rightarrow> None | Some (Inl r) \<Rightarrow> Some r | Some (Inr w') \<Rightarrow> loop w')"
  by (auto simp: wait_round_def split: prod.splits option.splits)

lemma wait_loop_round:
  "wait_loop os pid timed start_ms timeout_ms exit_code w =
     (case wait_round os pid timed start_ms timeout_ms exit_code w of
        None \<Rightarrow> None
      | Some (Inl r) \<Rightarrow> Some r
      | Some (Inr w') \<Rightarrow> wait_loop os pid timed start_ms timeout_ms exit_code w')"
  by (subst wait_loop.simps) (rule wait_body)

lemma wait_round_went:
  assumes "wait_round os pid timed start_ms timeout_ms exit_code w = Some x" and "0 < pid"
  shows "case x of Inl r \<Rightarrow> waited os pid exit_code w r | Inr w' \<Rightarrow> went w [] w' \<and> w_calls w < w_calls w'"
proof -
  obtain rc status err w1 where wait: "sys_waitpid os pid True w = ((rc, status, err), w1)" by (metis surj_pair)
  obtain now w2 where now: "(if timed then monotonic_ms os w1 else (0, w1)) = (now, w2)" by (rule prod.exhaust)
  have w2: "went w1 [] w2" using now monotonic_ms_went by (auto split: if_splits)
  note w1 = waitpid_went [OF wait] conjunct1 [OF waitpid_calls [OF wait]]
  show ?thesis
  proof (cases "rc = pid \<or> rc < 0")
    case True
    with assms wait w1 waitpid_refused [OF wait] status_code_macros [of status] show ?thesis
      by (auto simp: wait_round_def waited_def split: if_splits)
  next
    case False
    with w1 w2 have w2': "went w [] w2" "w_calls w < w_calls w2" by (auto intro: went_skip simp: went_def)
    have ended: "\<exists>evs. ended_by pid evs \<and> went w evs w'" if "terminate_process_group os pid w2 = Some w'" for w'
      using terminate_went [OF that assms(2)] w2'(1) went_skip by blast
    have slept: "went w [] w' \<and> w_calls w < w_calls w'" if "sleep_ms os WAIT_POLL_MS w2 = Some w'" for w'
      using sleep_ms_went [OF that] w2' went_skip by fastforce
    from False assms(1) wait now consider
        (ends) w' where "terminate_process_group os pid w2 = Some w'" "x = Inl (CALIBRATION_ERR_WAIT, exit_code, w') \<or>
           x = Inl (CALIBRATION_ERR_TIMEOUT, exit_code, w')"
      | (sleeps) w' where "sleep_ms os WAIT_POLL_MS w2 = Some w'" "x = Inr w'"
      by (auto simp: wait_round_def split: if_splits)
    then show ?thesis by cases (use ended slept in \<open>auto simp: waited_def\<close>)
  qed
qed

lemma wait_loop_waited:
  assumes "wait_loop os pid timed start_ms timeout_ms exit_code w = Some r" and "0 < pid"
  shows "waited os pid exit_code w r"
proof -
  have "0 < pid \<longrightarrow> waited os pid exit_code w r"
    using assms(1)
  proof (rule wait_loop.raw_induct [rotated])
    fix loop :: "os \<Rightarrow> pid_t \<Rightarrow> bool \<Rightarrow> int \<Rightarrow> int \<Rightarrow> int \<Rightarrow> world \<Rightarrow> (calibration_rc \<times> int \<times> world) option"
      and os pid timed start_ms timeout_ms exit_code w r
    assume IH: "\<And>os pid timed start_ms timeout_ms exit_code w r.
        loop os pid timed start_ms timeout_ms exit_code w = Some r \<Longrightarrow> 0 < pid \<longrightarrow> waited os pid exit_code w r"
      and eq: "(case sys_waitpid os pid True w of
        ((rc, status, err), w1) \<Rightarrow>
          if rc = pid
          then Some (if WIFEXITED status then (CALIBRATION_OK, WEXITSTATUS status, w1)
                     else if WIFSIGNALED status then (CALIBRATION_OK, 128 + WTERMSIG status, w1)
                     else (CALIBRATION_ERR_WAIT, exit_code, w1))
          else if rc < 0
          then (if err = EINTR then loop os pid timed start_ms timeout_ms exit_code w1
                else Some (CALIBRATION_ERR_WAIT, exit_code, w1))
          else case (if timed then monotonic_ms os w1 else (0, w1)) of
            (now_ms, w2) \<Rightarrow>
              if timed \<and> now_ms < 0
              then (case terminate_process_group os pid w2 of
                      None \<Rightarrow> None | Some w3 \<Rightarrow> Some (CALIBRATION_ERR_WAIT, exit_code, w3))
              else if timed \<and> timeout_ms \<le> now_ms - start_ms
              then (case terminate_process_group os pid w2 of
                      None \<Rightarrow> None | Some w3 \<Rightarrow> Some (CALIBRATION_ERR_TIMEOUT, exit_code, w3))
              else (case sleep_ms os WAIT_POLL_MS w2 of
                      None \<Rightarrow> None
                    | Some w3 \<Rightarrow> loop os pid timed start_ms timeout_ms exit_code w3)) = Some r"
    note eq [unfolded wait_body [where loop = "loop os pid timed start_ms timeout_ms exit_code" and os = os and pid = pid and w = w and
        exit_code = exit_code and timed = timed and timeout_ms = timeout_ms and start_ms = start_ms]]
    then consider (stop) "wait_round os pid timed start_ms timeout_ms exit_code w = Some (Inl r)"
      | (again) w' where "wait_round os pid timed start_ms timeout_ms exit_code w = Some (Inr w')"
          "loop os pid timed start_ms timeout_ms exit_code w' = Some r"
      by (auto split: option.splits sum.splits)
    then show "0 < pid \<longrightarrow> waited os pid exit_code w r"
    proof cases
      case stop
      then show ?thesis using wait_round_went [OF stop] by simp
    next
      case (again w')
      then show ?thesis using wait_round_went [OF again(1)] IH [OF again(2)]
        by (auto intro: waited_skip [of w w' os pid exit_code r])
    qed
  qed
  with assms(2) show ?thesis by simp
qed

lemma wait_child_waited:
  assumes "wait_child os pid timeout_sec code0 w = Some r" and "0 < pid"
  shows "waited os pid code0 w r"
proof (cases "timeout_sec > 0")
  case True
  obtain start w1 where start: "monotonic_ms os w = (start, w1)" by (rule prod.exhaust)
  note w1 = monotonic_ms_went [OF start]
  show ?thesis
  proof (cases "start < 0")
    case True
    with \<open>timeout_sec > 0\<close> assms(1) start w1 clock_refused [OF start] show ?thesis by (auto simp: wait_child_def waited_def)
  next
    case False
    with True assms(1) start have "wait_loop os pid True start (int (unat timeout_sec) * 1000) code0 w1 = Some r"
      by (simp add: wait_child_def)
    from waited_skip [OF w1 wait_loop_waited [OF this assms(2)]] show ?thesis .
  qed
next
  case False
  with assms show ?thesis by (auto simp: wait_child_def intro: wait_loop_waited)
qed

subsection \<open>The loops return\<close>

text \<open>The clock can be read and passes every time.\<close>

definition clock_advances :: "os \<Rightarrow> bool" where
  "clock_advances os \<longleftrightarrow>
     (\<forall>w. \<exists>s ns. os_clock os w = Some (s, ns) \<and> 0 \<le> s \<and> 0 \<le> ns) \<and>
     (\<forall>t. \<exists>n. \<forall>w s ns. n \<le> w_calls w \<and> os_clock os w = Some (s, ns) \<longrightarrow> t \<le> s * 1000)"

text \<open>An interrupted sleep has less left to sleep.\<close>

definition sleep_progress :: "os \<Rightarrow> bool" where
  "sleep_progress os \<longleftrightarrow> (\<forall>w req remaining. os_nanosleep os w req = Some (EINTR, remaining) \<longrightarrow> remaining < req)"

text \<open>A wait that does not block is never interrupted, and one that blocks is not interrupted for ever.\<close>

definition waits_end :: "os \<Rightarrow> bool" where
  "waits_end os \<longleftrightarrow>
     (\<forall>w pid status. os_waitpid os w pid True \<noteq> (- 1, status, EINTR)) \<and>
     (\<forall>w pid nohang. fst (os_waitpid os w pid nohang) \<ge> - 1) \<and>
     (\<exists>n. \<forall>w pid status. n \<le> w_calls w \<longrightarrow> os_waitpid os w pid False \<noteq> (- 1, status, EINTR))"

definition os_live :: "os \<Rightarrow> bool" where
  "os_live os \<longleftrightarrow> clock_advances os \<and> sleep_progress os \<and> waits_end os"

text \<open>A clock that counts seconds by calls, and waits that never fail.\<close>

lemma seconds_live:
  assumes "os_clock os = os_clock os_fine" "os_nanosleep os = os_nanosleep os_fine"
    and "\<And>w pid nohang. 0 \<le> fst (os_waitpid os w pid nohang)"
  shows "os_live os"
  unfolding os_live_def clock_advances_def sleep_progress_def waits_end_def
proof (intro conjI)
  show "\<forall>t. \<exists>n. \<forall>w s ns. n \<le> w_calls w \<and> os_clock os w = Some (s, ns) \<longrightarrow> t \<le> s * 1000"
  proof
    fix t :: int
    have "t \<le> s * 1000" if "nat t \<le> w_calls w" "s = int (w_calls w)" for s w using that by linarith
    then show "\<exists>n. \<forall>w s ns. n \<le> w_calls w \<and> os_clock os w = Some (s, ns) \<longrightarrow> t \<le> s * 1000"
      using assms(1) by (intro exI [of _ "nat t"]) (auto simp: os_fine_def)
  qed
  have wait: "os_waitpid os w pid nohang \<noteq> (- 1, status, EINTR)" for w pid nohang status
    using assms(3) [of w pid nohang] by (cases "os_waitpid os w pid nohang") auto
  then show "\<forall>w pid status. os_waitpid os w pid True \<noteq> (- 1, status, EINTR)"
    "\<exists>n. \<forall>w pid status. n \<le> w_calls w \<longrightarrow> os_waitpid os w pid False \<noteq> (- 1, status, EINTR)" by simp_all
  show "\<forall>w pid nohang. - 1 \<le> fst (os_waitpid os w pid nohang)"
    using assms(3) by (meson order_trans neg_le_0_iff_le zero_le_one)
qed (use assms(1,2) in \<open>simp_all add: os_fine_def\<close>)

lemma sleep_loop_returns: "sleep_progress os \<Longrightarrow> \<exists>w'. sleep_loop os req w = Some w'"
proof (induction req arbitrary: w rule: less_induct)
  case (less req)
  show ?case
  proof (cases "\<exists>rem. os_nanosleep os w req = Some (EINTR, rem)")
    case True
    then obtain rem where rem: "os_nanosleep os w req = Some (EINTR, rem)" ..
    with less.prems have "rem < req" by (auto simp: sleep_progress_def)
    from less.IH [OF this less.prems] rem show ?thesis
      by (subst sleep_loop.simps) (simp add: sys_nanosleep_def)
  next
    case False
    then show ?thesis
      by (subst sleep_loop.simps) (auto simp: sys_nanosleep_def split: option.splits prod.splits errno.splits)
  qed
qed

lemma sleep_ms_returns: "sleep_progress os \<Longrightarrow> \<exists>w'. sleep_ms os ms w = Some w'"
  unfolding sleep_ms_def by (rule sleep_loop_returns)

lemma monotonic_ms_reads:
  assumes "clock_advances os"
  obtains t w' where "monotonic_ms os w = (t, w')" "0 \<le> t"
proof -
  from assms obtain s ns where "os_clock os w = Some (s, ns)" "0 \<le> s" "0 \<le> ns" unfolding clock_advances_def by blast
  then show ?thesis using that by (simp add: monotonic_ms_def clock_gettime_def pos_imp_zdiv_nonneg_iff)
qed

lemma monotonic_ms_passes:
  assumes "clock_advances os"
  obtains n where "\<And>w t w'. n \<le> w_calls w \<Longrightarrow> monotonic_ms os w = (t, w') \<Longrightarrow> bound \<le> t"
proof -
  from assms obtain n where n: "\<forall>w s ns. n \<le> w_calls w \<and> os_clock os w = Some (s, ns) \<longrightarrow> bound \<le> s * 1000"
    unfolding clock_advances_def by blast
  have "bound \<le> t" if "n \<le> w_calls w" "monotonic_ms os w = (t, w')" for w t w'
  proof -
    from assms obtain s ns where c: "os_clock os w = Some (s, ns)" "0 \<le> s" "0 \<le> ns" unfolding clock_advances_def by blast
    with n that(1) have "bound \<le> s * 1000" by blast
    moreover have "0 \<le> ns div 1000000" using c(3) by (simp add: pos_imp_zdiv_nonneg_iff)
    ultimately show ?thesis using that(2) c(1) by (auto simp: monotonic_ms_def clock_gettime_def)
  qed
  with that show ?thesis by blast
qed

text \<open>A loop that hands on a later world each round and ends at every late enough world returns.\<close>

lemma loop_returns:
  assumes step: "\<And>w. (\<exists>r. f w = Some r) \<or> w_calls w < n \<and> (\<exists>w'. w_calls w < w_calls w' \<and> f w = f w')"
  shows "\<exists>r. f w = Some r"
proof (induction "n - w_calls w" arbitrary: w rule: less_induct)
  case less
  from step [of w] show ?case
  proof
    assume "w_calls w < n \<and> (\<exists>w'. w_calls w < w_calls w' \<and> f w = f w')"
    then obtain w' where w': "w_calls w < n" "w_calls w < w_calls w'" "f w = f w'" by blast
    from less [of w'] w' show ?thesis by auto
  qed
qed

lemma term_loop_returns:
  assumes live: "os_live os" and "0 \<le> deadline"
  shows "\<exists>r. term_loop os pid deadline w = Some r"
proof -
  from live have clock: "clock_advances os" and sleep: "sleep_progress os" by (simp_all add: os_live_def)
  from monotonic_ms_passes [OF clock, of deadline] obtain n
    where n: "\<And>w t w'. n \<le> w_calls w \<Longrightarrow> monotonic_ms os w = (t, w') \<Longrightarrow> deadline \<le> t" by blast
  show ?thesis
  proof (rule loop_returns [where n = n])
    fix w
    obtain rc status err w1 where wait: "sys_waitpid os pid True w = ((rc, status, err), w1)" by (metis surj_pair)
    obtain t w2 where now: "monotonic_ms os w1 = (t, w2)" by (rule prod.exhaust)
    obtain w3 where slept: "sleep_ms os WAIT_POLL_MS w2 = Some w3" using sleep_ms_returns [OF sleep] by blast
    have calls: "w_calls w < w_calls w1" "w_calls w1 \<le> w_calls w2" "w_calls w2 < w_calls w3"
      using waitpid_calls [OF wait] monotonic_ms_calls [OF now] sleep_ms_went [OF slept] by simp_all
    show "(\<exists>r. term_loop os pid deadline w = Some r) \<or>
        w_calls w < n \<and> (\<exists>w'. w_calls w < w_calls w' \<and> term_loop os pid deadline w = term_loop os pid deadline w')"
    proof (cases "rc = pid \<or> rc < 0 \<and> err \<noteq> EINTR \<or> deadline \<le> t")
      case True
      with wait now assms(2) show ?thesis by (subst (1) term_loop.simps) auto
    next
      case False
      with wait now slept assms(2) have "term_loop os pid deadline w = term_loop os pid deadline w3"
        by (subst term_loop.simps) auto
      moreover have "\<not> n \<le> w_calls w1" using n [OF _ now] False by blast
      ultimately show ?thesis using calls by (intro disjI2 conjI exI [of _ w3]) simp_all
    qed
  qed
qed

lemma reap_loop_returns:
  assumes "waits_end os"
  shows "\<exists>w'. reap_loop os pid w = Some w'"
proof -
  from assms obtain n where n: "\<And>w pid status. n \<le> w_calls w \<Longrightarrow> os_waitpid os w pid False \<noteq> (- 1, status, EINTR)"
    and neg: "\<And>w pid nohang. fst (os_waitpid os w pid nohang) \<ge> - 1"
    unfolding waits_end_def by blast
  show ?thesis
  proof (rule loop_returns [where n = n])
    fix w
    obtain rc status err w1 where wait: "sys_waitpid os pid False w = ((rc, status, err), w1)" by (metis surj_pair)
    then have r: "os_waitpid os w pid False = (rc, status, err)" "w_calls w < w_calls w1" using waitpid_calls by auto
    show "(\<exists>w'. reap_loop os pid w = Some w') \<or>
        w_calls w < n \<and> (\<exists>w'. w_calls w < w_calls w' \<and> reap_loop os pid w = reap_loop os pid w')"
    proof (cases "rc < 0 \<and> err = EINTR")
      case True
      with neg [of w pid False] r have "rc = - 1" by simp
      with True n [of w pid status] r have "w_calls w < n" by (meson not_le)
      moreover from True wait have "reap_loop os pid w = reap_loop os pid w1" by (subst reap_loop.simps) simp
      ultimately show ?thesis using r(2) by blast
    next
      case False
      with wait show ?thesis by (subst (1) reap_loop.simps) auto
    qed
  qed
qed

lemma terminate_returns:
  assumes "os_live os"
  shows "\<exists>w'. terminate_process_group os pid w = Some w'"
proof -
  from assms have clock: "clock_advances os" and waits: "waits_end os" by (simp_all add: os_live_def)
  obtain t w2 where now: "monotonic_ms os (sys_kill (- pid) SIGTERM w) = (t, w2)" "0 \<le> t"
    by (rule monotonic_ms_reads [OF clock])
  from term_loop_returns [OF assms, of "t + int TERM_GRACE_MS" pid w2] now(2) obtain b w3
    where "term_loop os pid (t + int TERM_GRACE_MS) w2 = Some (b, w3)" by auto
  with now reap_loop_returns [OF waits] show ?thesis
    by (cases b) (auto simp: terminate_process_group_def Let_def)
qed

lemma wait_loop_returns:
  assumes live: "os_live os"
  shows "\<exists>r. wait_loop os pid True start_ms timeout_ms code w = Some r"
proof -
  from live have clock: "clock_advances os" and sleep: "sleep_progress os" and waits: "waits_end os"
    by (simp_all add: os_live_def)
  from monotonic_ms_passes [OF clock, of "start_ms + timeout_ms"] obtain n
    where n: "\<And>w t w'. n \<le> w_calls w \<Longrightarrow> monotonic_ms os w = (t, w') \<Longrightarrow> start_ms + timeout_ms \<le> t" by blast
  show ?thesis
  proof (rule loop_returns [where n = n])
    fix w
    obtain rc status err w1 where wait: "sys_waitpid os pid True w = ((rc, status, err), w1)" by (metis surj_pair)
    obtain t w2 where now: "monotonic_ms os w1 = (t, w2)" by (rule prod.exhaust)
    obtain w3 where slept: "sleep_ms os WAIT_POLL_MS w2 = Some w3" using sleep_ms_returns [OF sleep] by blast
    obtain w4 where ended: "terminate_process_group os pid w2 = Some w4" using terminate_returns [OF live] by blast
    have calls: "w_calls w < w_calls w1" "w_calls w1 \<le> w_calls w2" "w_calls w2 < w_calls w3"
      using waitpid_calls [OF wait] monotonic_ms_calls [OF now] sleep_ms_went [OF slept] by simp_all
    have no_intr: "\<not> (rc < 0 \<and> err = EINTR)"
    proof
      assume a: "rc < 0 \<and> err = EINTR"
      have r: "os_waitpid os w pid True = (rc, status, err)" using waitpid_calls [OF wait] by simp
      from waits have "- 1 \<le> fst (os_waitpid os w pid True)" by (simp add: waits_end_def)
      with a r have "rc = - 1" by simp
      with a r waits show False by (auto simp: waits_end_def)
    qed
    show "(\<exists>r. wait_loop os pid True start_ms timeout_ms code w = Some r) \<or> w_calls w < n \<and>
      (\<exists>w'. w_calls w < w_calls w' \<and> wait_loop os pid True start_ms timeout_ms code w = wait_loop os pid True start_ms timeout_ms code w')"
    proof (cases "rc = pid \<or> rc < 0 \<or> t < 0 \<or> timeout_ms \<le> t - start_ms")
      case True
      with wait now ended no_intr show ?thesis
        by (subst (1) wait_loop_round) (auto simp: wait_round_def)
    next
      case False
      with wait now slept have "wait_loop os pid True start_ms timeout_ms code w = wait_loop os pid True start_ms timeout_ms code w3"
        by (subst wait_loop_round) (simp add: wait_round_def)
      moreover have "\<not> n \<le> w_calls w1" using n [OF _ now] False by fastforce
      ultimately show ?thesis using calls by (intro disjI2 conjI exI [of _ w3]) simp_all
    qed
  qed
qed

lemma wait_child_returns:
  assumes "os_live os" and "0 < timeout_sec"
  shows "\<exists>r. wait_child os pid timeout_sec code w = Some r"
proof -
  obtain t w1 where "monotonic_ms os w = (t, w1)" "0 \<le> t"
    using monotonic_ms_reads assms(1) unfolding os_live_def by metis
  with assms wait_loop_returns show ?thesis by (simp add: wait_child_def)
qed

subsection \<open>A calibration\<close>

lemma launch_worker_went:
  assumes "launch_worker os w = Some (r, w')" and "\<And>w. os_fork os w \<noteq> 0"
  shows "case r of
      Inl rc \<Rightarrow> rc = CALIBRATION_ERR_FORK \<and>
        (went w [] w' \<or> (\<exists>pid evs. 0 < pid \<and> ended_by pid evs \<and> went w (Ev_forked pid # evs) w'))
    | Inr pid \<Rightarrow> 0 < pid \<and> went w [Ev_forked pid] w'"
proof (cases "os_fork os w < 0")
  case True
  with assms(1) show ?thesis by (auto simp: launch_worker_def sys_fork_def Let_def)
next
  case False
  define pid where "pid = os_fork os w"
  with False assms(2) [of w] have pid: "0 < pid" by linarith
  define w1 where "w1 = (tick w)\<lparr>w_log := w_log w @ [Ev_forked pid]\<rparr>"
  have fork: "sys_fork os w = (pid, w1)" using False by (simp add: sys_fork_def pid_def w1_def Let_def)
  have "went w [Ev_forked pid] (tick w1)" by (simp add: went_def w1_def tick_def)
  note forked = this went_trans [OF this]
  show ?thesis
  proof (cases "\<exists>err. os_setpgid os w1 pid pid = Some err \<and> err \<noteq> EACCES \<and> err \<noteq> ESRCH")
    case True
    with assms(1) fork pid have "terminate_process_group os pid (tick w1) = Some w' \<and> r = Inl CALIBRATION_ERR_FORK"
      by (auto simp: launch_worker_def sys_setpgid_def split: option.splits)
    then show ?thesis using terminate_went [OF _ pid] forked(2) pid by fastforce
  next
    case False
    with assms(1) fork pid have "r = Inr pid \<and> w' = tick w1"
      by (auto simp: launch_worker_def sys_setpgid_def split: option.splits if_splits)
    with forked(1) pid show ?thesis by simp
  qed
qed

lemma launch_worker_returns:
  assumes "os_live os"
  shows "\<exists>r. launch_worker os w = Some r"
proof -
  obtain pid w1 where fork: "sys_fork os w = (pid, w1)" by (rule prod.exhaust)
  obtain e w2 where pg: "sys_setpgid os pid pid w1 = (e, w2)" by (rule prod.exhaust)
  obtain w3 where "terminate_process_group os pid w2 = Some w3" using terminate_returns [OF assms] by blast
  with fork pg show ?thesis by (cases e) (simp_all add: launch_worker_def)
qed

lemma finish_run_went:
  "finish_run rnd os cfg code w = (rc, out, w') \<Longrightarrow> went w [] w'"
  by (auto simp: finish_run_def calibration_load_result_def Let_def went_def
      dest!: read_file_limited_frame split: if_splits prod.splits sum.splits)

lemma finish_run_OK:
  assumes "finish_run rnd os cfg code w = (CALIBRATION_OK, out, w')" and "cc_result_path cfg = Some path"
  shows "code = 0 \<and> (\<exists>json out0. read_file_limited os (Some path) w = (Inr json, w') \<and>
    load_json rnd json = (CALIBRATION_OK, out0) \<and> out = out0\<lparr>cr_worker_exit_code := 0\<rparr>)"
  using assms read_file_limited_Inl [of os path w]
  by (fastforce simp: finish_run_def calibration_load_result_def Let_def split: if_splits prod.splits sum.splits)

lemma finish_run_code:
  assumes "finish_run rnd os cfg code w = (rc, out, w')" and "cc_result_path cfg = Some path"
  shows "rc \<in> load_codes \<union> {CALIBRATION_ERR_IO, CALIBRATION_ERR_WORKER_EXIT}"
proof -
  have "CALIBRATION_ERR_REJECTED \<in> load_codes" by (simp add: load_codes_def)
  moreover have "rc \<in> load_codes" if "load_json rnd json = (rc, out)" for rc out json
    using load_json_code [of rnd json] that by simp
  ultimately show ?thesis
    using assms by (auto simp: finish_run_def calibration_load_result_def Let_def dest: read_file_limited_Inl
      split: if_splits prod.splits sum.splits)
qed

lemma loaded_ok_exit_code [simp]: "loaded_ok (out\<lparr>cr_worker_exit_code := code\<rparr>) = loaded_ok out"
  by (simp add: loaded_ok_def result_masks_def)

text \<open>What a run may have done: the stale result is removed first, then the worker is started and waited for.\<close>

definition stale_removed :: "os \<Rightarrow> world \<Rightarrow> string \<Rightarrow> sys_event list \<Rightarrow> bool" where
  "stale_removed os w path evs \<longleftrightarrow>
     os_unlink os w path = None \<and> evs = [Ev_unlinked path] \<or> os_unlink os w path = Some ENOENT \<and> evs = []"

lemma unlink_went:
  "sys_unlink os path w = (r, w') \<Longrightarrow> r = os_unlink os w path \<and> went w (if r = None then [Ev_unlinked path] else []) w'"
  by (auto simp: sys_unlink_def went_def tick_def split: option.splits)

text \<open>A run once the stale result is out of the way.\<close>

lemma calibration_run_started:
  assumes "calibration_validate_config (Some cfg) = CALIBRATION_OK" "sys_unlink os (the (cc_result_path cfg)) w = (stale, w1)"
    and "\<not> (stale \<noteq> None \<and> the stale \<noteq> ENOENT)" "launch_worker os w1 = l"
  shows "calibration_run rnd os (Some cfg) (Some out0) w =
    (case l of
       None \<Rightarrow> None
     | Some (Inl rc, w2) \<Rightarrow>
         Some (rc, Some (set_error calibration_result_reset (''cannot launch calibration worker '' @ [CHR 0x27] @
                      the (cc_worker_path cfg) @ [CHR 0x27])), w2)
     | Some (Inr pid, w2) \<Rightarrow>
         (case wait_child os pid (cc_timeout_sec cfg) (- 1) w2 of
            None \<Rightarrow> None
          | Some (rc, code, w3) \<Rightarrow>
              if rc \<noteq> CALIBRATION_OK
              then Some (rc, Some (set_error (calibration_result_reset\<lparr>cr_worker_exit_code := code\<rparr>)
                          (if rc = CALIBRATION_ERR_TIMEOUT
                           then ''calibration timed out after '' @ show_nat (unat (cc_timeout_sec cfg)) @ '' seconds''
                           else ''failed while waiting for calibration worker'')), w3)
              else (case finish_run rnd os cfg code w3 of (rc', out, w4) \<Rightarrow> Some (rc', Some out, w4))))"
  using assms(1,2,3) unfolding assms(4) [symmetric] by (auto simp: calibration_run_def Let_def)

text \<open>The cases of a run with a valid configuration.\<close>

lemma calibration_run_cases:
  assumes run: "calibration_run rnd os (Some cfg) (Some out0) w = Some (rc, outp, w')"
    and valid: "calibration_validate_config (Some cfg) = CALIBRATION_OK" and fork: "\<And>w. os_fork os w \<noteq> 0"
    and path: "cc_result_path cfg = Some path"
  obtains (not_started) evs where "rc = CALIBRATION_ERR_IO \<or> rc = CALIBRATION_ERR_FORK" "evs = [] \<or> evs = [Ev_unlinked path]"
      "went w evs w' \<or> (\<exists>pid evs'. 0 < pid \<and> ended_by pid evs' \<and> went w (evs @ Ev_forked pid # evs') w')" "outp \<noteq> None"
  | (not_waited) evs pid w2 code where "stale_removed os w path evs" "0 < pid" "went w (evs @ [Ev_forked pid]) w2"
      "waited os pid (- 1) w2 (rc, code, w')" "rc \<noteq> CALIBRATION_OK" "outp \<noteq> None"
  | (loaded) evs pid w2 code w3 out where "stale_removed os w path evs" "0 < pid" "went w (evs @ [Ev_forked pid]) w2"
      "waited os pid (- 1) w2 (CALIBRATION_OK, code, w3)" "finish_run rnd os cfg code w3 = (rc, out, w')" "outp = Some out"
proof -
  obtain stale w1 where u: "sys_unlink os path w = (stale, w1)" by (rule prod.exhaust)
  define evs where "evs = (if stale = None then [Ev_unlinked path] else [])"
  have evs: "evs = [] \<or> evs = [Ev_unlinked path]" "went w evs w1" using unlink_went [OF u] by (auto simp: evs_def)
  show ?thesis
  proof (cases "stale \<noteq> None \<and> the stale \<noteq> ENOENT")
    case True
    with run valid path u have "rc = CALIBRATION_ERR_IO" "w' = w1" "outp \<noteq> None" by (auto simp: calibration_run_def Let_def)
    with evs show ?thesis by (intro not_started) auto
  next
    case unlinked: False
    have removed: "stale_removed os w path evs"
      using unlinked unlink_went [OF u] by (cases stale) (auto simp: stale_removed_def evs_def)
    have "sys_unlink os (the (cc_result_path cfg)) w = (stale, w1)" using u path by simp
    note eq = run [unfolded calibration_run_started [OF valid this unlinked refl]]
    from eq obtain r w2 where Some: "launch_worker os w1 = Some (r, w2)" by (auto split: option.splits)
    note l = launch_worker_went [OF Some fork]
    show ?thesis
    proof (cases r)
      case (Inl rc2)
      with eq Some have "rc = rc2 \<and> w' = w2 \<and> outp \<noteq> None" by auto
      moreover have "went w evs w2 \<or> (\<exists>pid evs'. 0 < pid \<and> ended_by pid evs' \<and> went w (evs @ Ev_forked pid # evs') w2)"
        using Inl l went_trans [OF evs(2)] by fastforce
      ultimately show ?thesis using Inl l evs(1) by (intro not_started [of evs]) auto
    next
      case (Inr pid)
      with l evs have pid: "0 < pid" "went w (evs @ [Ev_forked pid]) w2" using went_trans by auto
      from eq Some Inr obtain rc3 code w3 where waited: "wait_child os pid (cc_timeout_sec cfg) (- 1) w2 = Some (rc3, code, w3)"
        by (auto split: option.splits)
      note wt = wait_child_waited [OF waited pid(1)]
      show ?thesis
      proof (cases "rc3 = CALIBRATION_OK")
        case False
        with eq Some Inr waited have "rc = rc3 \<and> w' = w3 \<and> outp \<noteq> None" by auto
        with False wt pid removed show ?thesis by (intro not_waited) auto
      next
        case True
        with eq Some Inr waited obtain out where "finish_run rnd os cfg code w3 = (rc, out, w')" "outp = Some out"
          by (auto split: prod.splits)
        with True wt pid removed show ?thesis by (intro loaded) auto
      qed
    qed
  qed
qed

lemma calibration_run_total:
  assumes "os_live os" and "0 < cc_timeout_sec cfg"
  shows "\<exists>rc out w'. calibration_run rnd os (Some cfg) (Some out0) w = Some (rc, Some out, w')"
proof (cases "calibration_validate_config (Some cfg) = CALIBRATION_OK")
  case valid: True
  obtain stale w1 where u: "sys_unlink os (the (cc_result_path cfg)) w = (stale, w1)" by (rule prod.exhaust)
  show ?thesis
  proof (cases "stale \<noteq> None \<and> the stale \<noteq> ENOENT")
    case True
    with valid u show ?thesis by (auto simp: calibration_run_def Let_def)
  next
    case unlinked: False
    note eq = calibration_run_started [OF valid u unlinked refl]
    obtain r w2 where l: "launch_worker os w1 = Some (r, w2)" using launch_worker_returns [OF assms(1), of w1] by auto
    show ?thesis
    proof (cases r)
      case (Inl rc)
      with eq l show ?thesis by simp
    next
      case (Inr pid)
      obtain rc code w3 where "wait_child os pid (cc_timeout_sec cfg) (- 1) w2 = Some (rc, code, w3)"
        using wait_child_returns [OF assms, of pid "- 1" w2] by auto
      with eq l Inr show ?thesis by (auto split: prod.splits)
    qed
  qed
qed (simp add: calibration_run_def Let_def)

end
