(* ===== verification/Daemon_Main.thy ===== *)
theory Daemon_Main
  imports Daemon_Events Calibration_Run_Correct
begin

text \<open>
  Start-up and main loop of the daemon (\<open>protected-daemon/src/protected_daemon.c\<close>): the configuration is read, the DRAM bank mapping is
  calibrated, the BPF programs are attached, and the ring buffer is polled for ever. Log output is left out. The functions of libbpf and
  of the generated skeleton are the parameter \<open>bpf\<close>; a poll answers with the records it hands to the callback and its return value.
\<close>

subsection \<open>Data\<close>

datatype daemon_state =
    DAEMON_STATE_STARTING
  | DAEMON_STATE_CONFIG_READY
  | DAEMON_STATE_CALIBRATING
  | DAEMON_STATE_BANK_READY
  | DAEMON_STATE_BPF_READY
  | DAEMON_STATE_RUNNING
  | DAEMON_STATE_FAILED

record daemon_context =
  dc_state :: daemon_state
  dc_calibration :: calibration_result
  dc_dram_mapping :: dram_mapping
  dc_bank_mapping_ready :: bool

record bpf_lib =
  bpf_open_and_load :: "world \<Rightarrow> bool"
  bpf_attach :: "world \<Rightarrow> int"
  bpf_ring_buffer_new :: "world \<Rightarrow> bool"
  bpf_ring_buffer_poll :: "world \<Rightarrow> event list \<times> int"

subsection \<open>The bank mapping\<close>

definition daemon_calibration_config :: calibration_config where
  "daemon_calibration_config =
     \<lparr>cc_worker_path = Some ''scripts/kk_calibrate.py'', cc_kk_main_path = Some ''../Knock-Knock/main'',
      cc_result_path = Some ''/run/protected-daemon/dram-map.json'', cc_work_dir = Some ''/run/protected-daemon/kk-calibration'',
      cc_log_path = Some ''/run/protected-daemon/calibration.log'', cc_runs = 3, cc_memory_percent = Fin 25,
      cc_measurements = 500, cc_timing_rounds = 50, cc_timeout_sec = 1800, cc_keep_csv = True\<rparr>"

definition init_dram_bank_mapping ::
  "rounding \<Rightarrow> os \<Rightarrow> daemon_context option \<Rightarrow> world \<Rightarrow> (int \<times> daemon_context option \<times> world) option" where
  "init_dram_bank_mapping rnd os ctxp w =
     (case ctxp of
        None \<Rightarrow> Some (- 1, None, w)
      | Some ctx0 \<Rightarrow>
          (let ctx = ctx0\<lparr>dc_state := DAEMON_STATE_CALIBRATING, dc_bank_mapping_ready := False\<rparr>
           in case calibration_run rnd os (Some daemon_calibration_config) (Some (dc_calibration ctx)) w of
             None \<Rightarrow> None
           | Some (rc, out, w1) \<Rightarrow>
               (let ctx1 = ctx\<lparr>dc_calibration := the out\<rparr>
                in if rc \<noteq> CALIBRATION_OK then Some (- 1, Some (ctx1\<lparr>dc_state := DAEMON_STATE_FAILED\<rparr>), w1)
                else case dram_mapping_init_from_calibration (Some (dc_dram_mapping ctx1)) (Some (dc_calibration ctx1)) of
                  (rc2, mapping) \<Rightarrow>
                    (let ctx2 = ctx1\<lparr>dc_dram_mapping := the mapping\<rparr>
                     in if rc2 \<noteq> DRAM_MAPPING_OK then Some (- 1, Some (ctx2\<lparr>dc_state := DAEMON_STATE_FAILED\<rparr>), w1)
                        else Some (0, Some (ctx2\<lparr>dc_bank_mapping_ready := True, dc_state := DAEMON_STATE_BANK_READY\<rparr>), w1)))))"

subsection \<open>\<open>main\<close>\<close>

text \<open>\<open>memset(&g_ctx, 0, sizeof(g_ctx))\<close> and the static process table before the first event.\<close>

definition g_ctx_zero :: daemon_context where
  "g_ctx_zero = \<lparr>dc_state = DAEMON_STATE_STARTING, dc_calibration = calibration_result_reset\<lparr>cr_worker_exit_code := 0\<rparr>,
     dc_dram_mapping = dram_mapping_reset, dc_bank_mapping_ready = False\<rparr>"

text \<open>Everything before the loop: \<open>Some code\<close> is an exit of the program. \<open>argv\<close> are the arguments after the program's name.\<close>

definition main_start ::
  "rounding \<Rightarrow> os \<Rightarrow> bpf_lib \<Rightarrow> string list \<Rightarrow> world \<Rightarrow> (int option \<times> daemon \<times> daemon_context \<times> world) option" where
  "main_start rnd os bpf argv w =
     (let config_path = (case argv of [] \<Rightarrow> ''config/protected.conf'' | arg # _ \<Rightarrow> arg);
          d0 = \<lparr>d_tab = process_table_reset, d_protected_comm = [], d_daemon_pid = os_getpid os\<rparr>
      in case policy_load_config os config_path w of
        (rc, protected_comm, w1) \<Rightarrow>
          (let d = d0\<lparr>d_protected_comm := protected_comm\<rparr>
           in if rc < 0 then Some (Some 1, d, g_ctx_zero, w1)
           else case init_dram_bank_mapping rnd os (Some (g_ctx_zero\<lparr>dc_state := DAEMON_STATE_CONFIG_READY\<rparr>)) w1 of
             None \<Rightarrow> None
           | Some (rc2, ctxp, w2) \<Rightarrow>
               (let ctx = the ctxp
                in if rc2 < 0 then Some (Some 1, d, ctx, w2)
                else if \<not> bpf_open_and_load bpf w2 then Some (Some 1, d, ctx, tick w2)
                else let w3 = tick w2; err = bpf_attach bpf w3
                in if err \<noteq> 0 then Some (Some (- err), d, ctx, tick w3)
                else let w4 = tick w3
                in if \<not> bpf_ring_buffer_new bpf w4 then Some (Some 1, d, ctx, tick w4)
                else Some (None, d, ctx, tick w4))))"

fun handle_events :: "os \<Rightarrow> string \<Rightarrow> event list \<Rightarrow> daemon \<Rightarrow> world \<Rightarrow> daemon \<times> world" where
  "handle_events os base [] d w = (d, w)"
| "handle_events os base (e # es) d w = (case handle_event os base e d w of (d', w') \<Rightarrow> handle_events os base es d' w')"

text \<open>The loop returns only when a poll fails; the result is the error of that poll.\<close>

partial_function (option) poll_loop ::
  "bpf_lib \<Rightarrow> os \<Rightarrow> string \<Rightarrow> daemon \<Rightarrow> world \<Rightarrow> (int \<times> daemon \<times> world) option" where
  "poll_loop bpf os base d w =
     (case bpf_ring_buffer_poll bpf w of
        (events, err) \<Rightarrow>
          (case handle_events os base events d (tick w) of
             (d', w') \<Rightarrow> if err < 0 then Some (err, d', w') else poll_loop bpf os base d' w'))"

definition daemon_main ::
  "rounding \<Rightarrow> os \<Rightarrow> bpf_lib \<Rightarrow> string list \<Rightarrow> world \<Rightarrow> (int \<times> daemon \<times> daemon_context \<times> world) option" where
  "daemon_main rnd os bpf argv w =
     (case main_start rnd os bpf argv w of
        None \<Rightarrow> None
      | Some (Some code, d, ctx, w1) \<Rightarrow> Some (code, d, ctx, w1)
      | Some (None, d, ctx, w1) \<Rightarrow>
          (case poll_loop bpf os CGROUP_DEFAULT_BASE d w1 of
             None \<Rightarrow> None
           | Some (err, d', w') \<Rightarrow> Some (- err, d', ctx, w')))"

end
