(* ===== verification/Calibration_Text.thy ===== *)
theory Calibration_Text
  imports Calibration_Correct
begin

text \<open>
  The reader on text: where the key search lands, where the bracket scanner stops, and what the extractors deliver when the
  value at a position is printed in the expected form. A text is \<^emph>\<open>clean\<close> for a key when it holds no member of that name; the search passes
  over clean text.
\<close>

subsection \<open>Characters and white space\<close>

lemma char_at_append [simp]: "char_at (a @ c # r) (length a) = c"
  by (simp add: char_at_def)

lemma char_at_appendI: "p = length a \<Longrightarrow> char_at (a @ c # r) p = c"
  by simp

lemma skip_ws_stops:
  "(\<forall>i. p \<le> i \<and> i < skip_ws json p stop \<longrightarrow> is_space (char_at json i)) \<and>
   (skip_ws json p stop < stop \<longrightarrow> \<not> is_space (char_at json (skip_ws json p stop)))"
proof (induction json p stop rule: skip_ws.induct)
  case (1 json p stop)
  show ?case
  proof (cases "p < stop \<and> is_space (char_at json p)")
    case True
    then have "skip_ws json p stop = skip_ws json (Suc p) stop" by (subst skip_ws.simps) simp
    with True 1 show ?thesis by (metis Suc_leI le_neq_implies_less)
  next
    case False
    then have "skip_ws json p stop = p" by (subst skip_ws.simps) auto
    with False show ?thesis by auto
  qed
qed

lemma skip_ws_text:
  assumes "\<forall>x \<in> set ws. is_space x" and "\<not> is_space c" and "length a + length ws < stop"
  shows "skip_ws (a @ ws @ c # r) (length a) stop = length a + length ws"
  using assms(1,3)
proof (induction ws arbitrary: a)
  case Nil
  with assms(2) show ?case by (subst skip_ws.simps) simp
next
  case (Cons x ws)
  have "skip_ws (a @ (x # ws) @ c # r) (length a) stop = skip_ws (a @ (x # ws) @ c # r) (Suc (length a)) stop"
    using Cons.prems by (subst skip_ws.simps) simp
  also have "\<dots> = length a + length (x # ws)"
    using Cons.IH [of "a @ [x]"] Cons.prems by simp
  finally show ?case .
qed

subsection \<open>Members\<close>

definition has_member :: "string \<Rightarrow> string \<Rightarrow> bool" where
  "has_member key a \<longleftrightarrow> (\<exists>x ws y. a = x @ quoted key @ ws @ CHR '':'' # y \<and> (\<forall>c \<in> set ws. is_space c))"

lemma has_memberI: "a = x @ quoted key @ ws @ CHR '':'' # y \<Longrightarrow> \<forall>c \<in> set ws. is_space c \<Longrightarrow> has_member key a"
  unfolding has_member_def by blast

definition clean :: "string \<Rightarrow> string \<Rightarrow> bool" where
  "clean key a \<longleftrightarrow> \<not> has_member key a"

definition separator :: "char \<Rightarrow> bool" where
  "separator c \<longleftrightarrow> c \<in> set '',{}[]''"

lemma separator_plain: "separator c \<Longrightarrow> c \<noteq> CHR 0x22 \<and> c \<noteq> CHR '':'' \<and> \<not> is_space c"
  unfolding separator_def by (simp add: is_space_def) (elim disjE; simp)

text \<open>The characters a key of the result format may have.\<close>

definition key_ok :: "string \<Rightarrow> bool" where
  "key_ok key \<longleftrightarrow> key \<noteq> [] \<and> (\<forall>c \<in> set key. c \<noteq> CHR 0x22 \<and> c \<noteq> CHR '':'' \<and> \<not> is_space c \<and> \<not> separator c) \<and>
     length key < 126"


lemma quoted_neq_Nil [simp]: "quoted s \<noteq> []"
  by (simp add: quoted_def)

lemma length_quoted [simp]: "length (quoted s) = length s + 2"
  by (simp add: quoted_def)

lemma has_member_suffix: "has_member key b \<Longrightarrow> has_member key (a @ b)"
  unfolding has_member_def by (metis append.assoc)

lemma has_member_drop:
  assumes "has_member key (drop (p + k) a)"
  shows "has_member key (drop p a)"
proof -
  have "drop p a = take k (drop p a) @ drop (p + k) a" using append_take_drop_id [of k "drop p a"] by (simp add: add.commute)
  with has_member_suffix [OF assms] show ?thesis by metis
qed

lemma has_member_prefix: "has_member key a \<Longrightarrow> has_member key (a @ b)"
  unfolding has_member_def by (metis append.assoc append_Cons)

lemma clean_suffix: "clean key (a @ b) \<Longrightarrow> clean key b"
  using has_member_suffix by (auto simp: clean_def)

lemma split_at_quote:
  assumes "s @ CHR 0x22 # r = s' @ CHR 0x22 # r'" and "CHR 0x22 \<notin> set s" and "CHR 0x22 \<notin> set s'"
  shows "s = s' \<and> r = r'"
proof -
  have "takeWhile (\<lambda>c. c \<noteq> CHR 0x22) (t @ CHR 0x22 # u) = t" if "CHR 0x22 \<notin> set t" for t u
    using that by (subst takeWhile_append2) auto
  with assms show ?thesis by (metis append_eq_append_conv list.inject)
qed

text \<open>Text without a quote before clean text.\<close>

lemma clean_plain_append:
  assumes "CHR 0x22 \<notin> set w" and "clean key b"
  shows "clean key (w @ b)"
  unfolding clean_def
proof
  assume "has_member key (w @ b)"
  then obtain x ws y where eq: "w @ b = x @ quoted key @ ws @ CHR '':'' # y" "\<forall>c \<in> set ws. is_space c"
    unfolding has_member_def by blast
  then obtain us where "w = x @ us \<and> us @ b = quoted key @ ws @ CHR '':'' # y \<or> x = w @ us \<and> b = us @ quoted key @ ws @ CHR '':'' # y"
    by (auto simp: append_eq_append_conv2)
  then show False
  proof
    assume a: "w = x @ us \<and> us @ b = quoted key @ ws @ CHR '':'' # y"
    with assms(1) have "us = []" by (cases us) (auto simp: quoted_def)
    with a have "b = [] @ quoted key @ ws @ CHR '':'' # y" by simp
    from has_memberI [OF this eq(2)] assms(2) show False by (simp add: clean_def)
  next
    assume "x = w @ us \<and> b = us @ quoted key @ ws @ CHR '':'' # y"
    with eq(2) assms(2) show False unfolding clean_def has_member_def by blast
  qed
qed

lemma clean_plain: "CHR 0x22 \<notin> set w \<Longrightarrow> clean key w"
  by (auto simp: clean_def has_member_def quoted_def)

text \<open>A separator between two clean texts.\<close>

lemma clean_join:
  assumes "clean key a" and "clean key b" and "separator s" and "key_ok key"
  shows "clean key (a @ s # b)"
  unfolding clean_def
proof
  assume "has_member key (a @ s # b)"
  then obtain x ws y where eq: "a @ s # b = x @ quoted key @ ws @ CHR '':'' # y" and ws: "\<forall>c \<in> set ws. is_space c"
    unfolding has_member_def by blast
  define m where "m = quoted key @ ws @ [CHR '':'']"
  note sep = separator_plain [OF assms(3)]
  have s: "s \<notin> set m" "s \<noteq> CHR 0x22" using assms(3,4) ws sep by (auto simp: m_def quoted_def key_ok_def)
  from eq have "a @ (s # b) = x @ (m @ y)" by (simp add: m_def)
  then obtain us where "a = x @ us \<and> us @ s # b = m @ y \<or> x = a @ us \<and> s # b = us @ m @ y"
    by (auto simp: append_eq_append_conv2)
  then show False
  proof
    assume a: "a = x @ us \<and> us @ s # b = m @ y"
    then obtain vs where "us = m @ vs \<or> m = us @ vs \<and> s # b = vs @ y" by (auto simp: append_eq_append_conv2)
    moreover have "vs = []" if "m = us @ vs" "s # b = vs @ y" using that s(1) by (cases vs) auto
    ultimately obtain vs' where "us = m @ vs'" by auto
    with a have "a = x @ quoted key @ ws @ CHR '':'' # vs'" by (simp add: m_def)
    from has_memberI [OF this ws] assms(1) show False by (simp add: clean_def)
  next
    assume b: "x = a @ us \<and> s # b = us @ m @ y"
    show False
    proof (cases us)
      case Nil
      with b s(2) show False by (simp add: m_def quoted_def)
    next
      case (Cons u us')
      with b have "b = us' @ quoted key @ ws @ CHR '':'' # y" by (simp add: m_def)
      with ws assms(2) show False unfolding clean_def has_member_def by blast
    qed
  qed
qed

text \<open>Another member.\<close>

lemma clean_member:
  assumes "clean key v" and "k \<noteq> key" and "CHR 0x22 \<notin> set k" and "key_ok key"
  shows "clean key (quoted k @ CHR '':'' # v)"
  unfolding clean_def
proof
  assume "has_member key (quoted k @ CHR '':'' # v)"
  then obtain x ws y where eq: "quoted k @ CHR '':'' # v = x @ quoted key @ ws @ CHR '':'' # y" and ws: "\<forall>c \<in> set ws. is_space c"
    unfolding has_member_def by blast
  have key: "CHR 0x22 \<notin> set key" "key \<noteq> []" "CHR '':'' \<notin> set key" using assms(4) by (auto simp: key_ok_def)
  show False
  proof (cases x)
    case Nil
    with eq have "k @ CHR 0x22 # CHR '':'' # v = key @ CHR 0x22 # ws @ CHR '':'' # y" by (simp add: quoted_def)
    from split_at_quote [OF this assms(3) key(1)] assms(2) show False by simp
  next
    case (Cons c x')
    with eq have x': "k @ CHR 0x22 # CHR '':'' # v = x' @ CHR 0x22 # key @ CHR 0x22 # ws @ CHR '':'' # y" by (auto simp: quoted_def)
    then obtain us where "k = x' @ us \<and> us @ CHR 0x22 # CHR '':'' # v = CHR 0x22 # key @ CHR 0x22 # ws @ CHR '':'' # y \<or>
        x' = k @ us \<and> CHR 0x22 # CHR '':'' # v = us @ CHR 0x22 # key @ CHR 0x22 # ws @ CHR '':'' # y"
      by (auto simp: append_eq_append_conv2)
    then have "CHR '':'' # v = key @ CHR 0x22 # ws @ CHR '':'' # y \<or>
        (\<exists>us'. CHR '':'' # v = us' @ CHR 0x22 # key @ CHR 0x22 # ws @ CHR '':'' # y)"
    proof
      assume a: "k = x' @ us \<and> us @ CHR 0x22 # CHR '':'' # v = CHR 0x22 # key @ CHR 0x22 # ws @ CHR '':'' # y"
      with assms(3) have "us = []" by (cases us) auto
      with a show ?thesis by simp
    next
      assume "x' = k @ us \<and> CHR 0x22 # CHR '':'' # v = us @ CHR 0x22 # key @ CHR 0x22 # ws @ CHR '':'' # y"
      then show ?thesis by (cases us) auto
    qed
    then show False
    proof
      assume "CHR '':'' # v = key @ CHR 0x22 # ws @ CHR '':'' # y"
      with key(2,3) show False by (cases key) auto
    next
      assume "\<exists>us'. CHR '':'' # v = us' @ CHR 0x22 # key @ CHR 0x22 # ws @ CHR '':'' # y"
      then obtain us' where u: "CHR '':'' # v = us' @ quoted key @ ws @ CHR '':'' # y" by (auto simp: quoted_def)
      then obtain us'' where "v = us'' @ quoted key @ ws @ CHR '':'' # y" by (cases us') (auto simp: quoted_def)
      with ws assms(1) show False unfolding clean_def has_member_def by blast
    qed
  qed
qed

lemma clean_string:
  assumes "CHR 0x22 \<notin> set s" and "key_ok key"
  shows "clean key (quoted s)"
  unfolding clean_def
proof
  assume "has_member key (quoted s)"
  then obtain x ws y where eq: "quoted s = x @ quoted key @ ws @ CHR '':'' # y" unfolding has_member_def by blast
  have key: "CHR 0x22 \<notin> set key" using assms(2) by (auto simp: key_ok_def)
  show False
  proof (cases x)
    case Nil
    with eq have "s @ CHR 0x22 # [] = key @ CHR 0x22 # ws @ CHR '':'' # y" by (simp add: quoted_def)
    from split_at_quote [OF this assms(1) key] show False by simp
  next
    case (Cons c x')
    with eq have "s @ [CHR 0x22] = (x' @ [CHR 0x22] @ key) @ CHR 0x22 # ws @ CHR '':'' # y" by (auto simp: quoted_def)
    then have "butlast (s @ [CHR 0x22]) = (x' @ [CHR 0x22] @ key) @ butlast (CHR 0x22 # ws @ CHR '':'' # y)"
      by (simp add: butlast_append)
    with assms(1) show False by auto
  qed
qed

subsection \<open>The key search\<close>

lemma member_at:
  assumes "take (length (quoted key)) (drop m json) = quoted key" and "q = skip_ws json (m + length (quoted key)) stop"
    and "q < stop" and "stop \<le> length json" and "char_at json q = CHR '':''"
  shows "\<exists>ws. drop m json = quoted key @ ws @ CHR '':'' # drop (Suc q) json \<and> (\<forall>c \<in> set ws. is_space c) \<and>
    q = m + length (quoted key) + length ws"
proof -
  define n where "n = m + length (quoted key)"
  define ws where "ws = take (q - n) (drop n json)"
  have ge: "n \<le> q" using skip_ws_ge assms(2) by (simp add: n_def)
  have q: "q < length json" using assms(3,4) by simp
  have len: "length ws = q - n" using q by (simp add: ws_def)
  have "is_space c" if "c \<in> set ws" for c
  proof -
    from that obtain i where i: "i < length ws" "ws ! i = c" by (auto simp: in_set_conv_nth)
    then have "n + i < q" "json ! (n + i) = c" using len q by (auto simp: ws_def)
    then show ?thesis using skip_ws_stops [of n json stop] assms(2) [folded n_def] q by (auto simp: char_at_def dest: spec [of _ "n + i"])
  qed
  moreover have "drop m json = quoted key @ drop n json"
    using append_take_drop_id [of "length (quoted key)" "drop m json"] assms(1) by (simp add: add.commute n_def)
  moreover have "drop n json = ws @ drop q json"
    using append_take_drop_id [of "q - n" "drop n json"] ge by (simp add: ws_def)
  moreover have "drop q json = CHR '':'' # drop (Suc q) json"
    using Cons_nth_drop_Suc [OF q] assms(5) q by (simp add: char_at_def)
  ultimately show ?thesis using ge len by (intro exI [of _ ws]) (simp add: n_def)
qed

text \<open>One turn of the search.\<close>

lemma find_key_loop_turn:
  assumes "NUL \<notin> set json" and "p < stop" and "stop \<le> length json"
  shows "(strstr (drop p json) pattern = None \<longrightarrow> find_key_loop json stop pattern p = None) \<and>
    (\<forall>off. strstr (drop p json) pattern = Some off \<longrightarrow>
      find_key_loop json stop pattern p =
       (if stop \<le> p + off then None
        else if skip_ws json (p + off + length pattern) stop < stop \<and>
            char_at json (skip_ws json (p + off + length pattern) stop) = CHR '':''
        then Some (skip_ws json (Suc (skip_ws json (p + off + length pattern) stop)) stop)
        else find_key_loop json stop pattern (Suc (p + off))))"
proof -
  have "NUL \<notin> set (drop p json)" using assms(1) in_set_dropD by metis
  then have "cstr (drop p json) = drop p json" by (rule cstr_id)
  with assms(2) show ?thesis by (auto simp: find_key_loop.simps [of json stop pattern p] Let_def)
qed

lemma find_key_loop_member:
  assumes "NUL \<notin> set json" and "stop \<le> length json"
  shows "find_key_loop json stop (quoted key) p = Some v \<Longrightarrow> has_member key (drop p json)"
proof (induction "stop - p" arbitrary: p rule: less_induct)
  case less
  then have lt: "p < stop" by (subst (asm) find_key_loop.simps) (auto split: if_splits)
  note turn = find_key_loop_turn [OF assms(1) lt assms(2), of "quoted key"]
  with less.prems obtain off where off: "strstr (drop p json) (quoted key) = Some off"
    by (cases "strstr (drop p json) (quoted key)") auto
  note eq = turn [THEN conjunct2, rule_format, OF off]
  have m: "take (length (quoted key)) (drop (p + off) json) = quoted key"
    using strstr_Some [OF off] by (simp add: add.commute)
  let ?q = "skip_ws json (p + off + length (quoted key)) stop"
  show ?case
  proof (cases "?q < stop \<and> char_at json ?q = CHR '':''")
    case True
    then obtain ws where "drop (p + off) json = quoted key @ ws @ CHR '':'' # drop (Suc ?q) json" "\<forall>c \<in> set ws. is_space c"
      using member_at [OF m refl _ assms(2)] by blast
    then have "has_member key (drop (p + off) json)" using has_memberI [of _ "[]"] by simp
    then show ?thesis by (rule has_member_drop)
  next
    case False
    with eq less.prems have r: "find_key_loop json stop (quoted key) (Suc (p + off)) = Some v" and "p + off < stop"
      by (auto split: if_splits)
    with less.hyps [of "Suc (p + off)"] lt have "has_member key (drop (Suc (p + off)) json)" by simp
    then show ?thesis using has_member_drop [of key p "Suc off" json] by simp
  qed
qed

lemma find_key_value_None:
  assumes "NUL \<notin> set json" and "clean key json"
  shows "find_key_value json \<lparr>jr_begin = 0, jr_end = length json\<rparr> key = None"
  using find_key_loop_member [OF assms(1), of "length json" key 0] assms(2)
  by (cases "find_key_loop json (length json) (quoted key) 0") (auto simp: find_key_value_def clean_def)

text \<open>An occurrence of the quoted key that starts before the place \<open>length a\<close> of the member looked for is not a member, when the text
  between is clean.\<close>

lemma no_earlier_member:
  assumes json: "json = a @ quoted key @ rest" and key: "key_ok key" and "p \<le> m" and "m < length a"
    and occ: "take (length (quoted key)) (drop m json) = quoted key" and "clean key (drop p a)" and "stop \<le> length json"
    and q: "q = skip_ws json (m + length (quoted key)) stop" "q < stop"
  shows "char_at json q \<noteq> CHR '':''"
proof
  assume colon: "char_at json q = CHR '':''"
  have len: "length (quoted key) = length key + 2" by simp
  have quote: "CHR 0x22 \<notin> set key" using key by (auto simp: key_ok_def)
  have at_a: "char_at json (length a) = CHR 0x22" using json by (simp add: quoted_def)
  obtain ws where ws: "drop m json = quoted key @ ws @ CHR '':'' # drop (Suc q) json" "\<forall>c \<in> set ws. is_space c"
      "q = m + length (quoted key) + length ws"
    using member_at [OF occ q(1,2) assms(7) colon] by blast
  have nth: "char_at json (m + i) = (quoted key @ ws @ CHR '':'' # drop (Suc q) json) ! i" if "m + i < length json" for i
    unfolding ws(1) [symmetric] using that by (simp add: char_at_def)
  define i where "i = length a - m"
  have i: "m + i = length a" "0 < i" using assms(4) by (simp_all add: i_def)
  have lt: "m + i < length json" using json i by (simp add: quoted_def)
  have at_i: "(quoted key @ ws @ CHR '':'' # drop (Suc q) json) ! i = CHR 0x22" using nth [OF lt] at_a i(1) by simp
  consider "i \<le> length key" | "i = length key + 1" | "length key + 2 \<le> i" "i \<le> length key + 2 + length ws"
    | "length key + 2 + length ws < i" by linarith
  then show False
  proof cases
    case 1
    with i(2) have "(quoted key @ ws @ CHR '':'' # drop (Suc q) json) ! i = key ! (i - 1)"
      by (auto simp: quoted_def nth_append nth_Cons')
    with at_i quote 1 i(2) show False by (metis Suc_pred' less_eq_Suc_le nth_mem)
  next
    case 2
    have "length a + 1 < length json" using json key by (auto simp: quoted_def key_ok_def)
    then have "char_at json (m + (length key + 2)) = (ws @ CHR '':'' # drop (Suc q) json) ! 0"
      using nth [of "length key + 2"] i(1) 2 by (simp add: nth_append)
    moreover have "char_at json (m + (length key + 2)) = key ! 0"
    proof -
      obtain k ks where k: "key = k # ks" using key by (cases key) (auto simp: key_ok_def)
      have "json = (a @ [CHR 0x22]) @ k # (ks @ CHR 0x22 # rest)" by (simp add: json k quoted_def)
      then show ?thesis using char_at_appendI [of "m + (length key + 2)" "a @ [CHR 0x22]" k] i(1) 2 by (simp add: k)
    qed
    ultimately have "key ! 0 = CHR '':'' \<or> is_space (key ! 0)" using ws(2) by (cases ws) auto
    then show False using key by (cases key) (auto simp: key_ok_def)
  next
    case 3
    then have "(quoted key @ ws @ CHR '':'' # drop (Suc q) json) ! i = (ws @ [CHR '':'']) ! (i - (length key + 2))"
      by (auto simp: nth_append)
    moreover have "(ws @ [CHR '':'']) ! (i - (length key + 2)) \<in> set (ws @ [CHR '':''])" using 3 by (intro nth_mem) simp
    ultimately have "CHR 0x22 \<in> set (ws @ [CHR '':''])" using at_i by metis
    then have "is_space CHR 0x22" using ws(2) by auto
    then show False by (simp add: is_space_def)
  next
    case 4
    have "drop m a = take i (drop m json)" using json i by simp
    also have "\<dots> = quoted key @ ws @ CHR '':'' # take (i - (length key + 3 + length ws)) (drop (Suc q) json)"
      using ws(1) 4 by (simp add: take_Cons' numeral_3_eq_3)
    finally have "has_member key (drop m a)" using has_memberI [of _ "[]"] ws(2) by simp
    then have "has_member key (drop p a)" using has_member_drop [of key p "m - p" a] assms(3) by simp
    with assms(6) show False by (simp add: clean_def)
  qed
qed

lemma find_key_loop_first:
  assumes json: "json = a @ quoted key @ CHR '':'' # ws @ c # r" and "NUL \<notin> set json" and key: "key_ok key"
    and ws: "\<forall>x \<in> set ws. is_space x" "\<not> is_space c" and stop: "stop \<le> length json" "length a + length key + 3 + length ws < stop"
  shows "p \<le> length a \<Longrightarrow> clean key (drop p a) \<Longrightarrow>
    find_key_loop json stop (quoted key) p = Some (length a + length key + 3 + length ws)"
proof (induction "length a - p" arbitrary: p rule: less_induct)
  case less
  have lt: "p < stop" using less.prems(1) stop(2) by simp
  have here: "take (length (quoted key)) (drop (length a - p) (drop p json)) = quoted key"
    using less.prems(1) json by simp
  have "length a - p \<le> length (drop p json)" using json by simp
  with here have "\<not> (\<forall>k \<le> length (drop p json). take (length (quoted key)) (drop k (drop p json)) \<noteq> quoted key)" by blast
  then obtain off where off: "strstr (drop p json) (quoted key) = Some off"
    using strstr_None [of "drop p json" "quoted key"] by (cases "strstr (drop p json) (quoted key)") blast+
  have "off \<le> length a - p" using strstr_Some [OF off] here not_le by blast
  then have le: "p + off \<le> length a" using less.prems(1) by simp
  note eq = find_key_loop_turn [OF assms(2) lt stop(1), of "quoted key", THEN conjunct2, rule_format, OF off]
  have m: "take (length (quoted key)) (drop (p + off) json) = quoted key"
    using strstr_Some [OF off] by (simp add: add.commute)
  have below: "\<not> stop \<le> p + off" using le stop(2) by simp
  show ?case
  proof (cases "p + off = length a")
    case True
    have j1: "json = (a @ quoted key) @ [] @ CHR '':'' # ws @ c # r" using json by simp
    have "skip_ws json (length a + length (quoted key)) stop = length a + length (quoted key)"
      using skip_ws_text [of "[]" "CHR '':''" "a @ quoted key" stop "ws @ c # r"] stop(2) j1 by (simp add: is_space_def)
    moreover have "char_at json (length a + length (quoted key)) = CHR '':''"
      using char_at_append [of "a @ quoted key"] json by simp
    moreover have "skip_ws json (Suc (length a + length (quoted key))) stop = length a + length key + 3 + length ws"
      using skip_ws_text [OF ws, of "a @ quoted key @ [CHR '':'']" stop r] stop(2) json by (simp add: numeral_3_eq_3)
    ultimately show ?thesis using eq True below stop(2) by simp
  next
    case False
    with le have lt_a: "p + off < length a" by simp
    have no_colon: "\<not> (skip_ws json (p + off + length (quoted key)) stop < stop \<and>
        char_at json (skip_ws json (p + off + length (quoted key)) stop) = CHR '':'')"
      using no_earlier_member [OF json key _ lt_a m less.prems(2) stop(1) refl] by auto
    note eq [unfolded if_not_P [OF below] if_not_P [OF no_colon]]
    moreover have "clean key (drop (Suc (p + off)) a)"
      using less.prems(2) has_member_drop [of key p "Suc off" a] by (auto simp: clean_def)
    ultimately show ?thesis using less.hyps [of "Suc (p + off)"] lt_a by simp
  qed
qed

text \<open>The value of the first member of that name in a range.\<close>

lemma find_key_value_first:
  assumes "json = a @ quoted key @ CHR '':'' # ws @ c # r" and "NUL \<notin> set json" and "key_ok key"
    and "\<forall>x \<in> set ws. is_space x" "\<not> is_space c" and "stop \<le> length json" "length a + length key + 3 + length ws < stop"
    and "b \<le> length a" and "clean key (drop b a)"
  shows "find_key_value json \<lparr>jr_begin = b, jr_end = stop\<rparr> key = Some (length a + length key + 3 + length ws)"
  using find_key_loop_first [OF assms] assms(3) by (simp add: find_key_value_def key_ok_def)

subsection \<open>The bracket scanner\<close>

text \<open>Counting on from an offset.\<close>

definition shift :: "nat \<Rightarrow> nat option \<Rightarrow> nat option" where
  "shift n x = map_option (\<lambda>k. n + k) x"

lemma shift_simps [simp]:
  "shift 0 x = x" "shift m (shift n x) = shift (m + n) x" "shift n None = None" "shift n (Some k) = Some (n + k)"
  by (cases x; simp add: shift_def)+

text \<open>The scanner on a list of characters: the number of characters up to and including the closing one.\<close>

fun scan_text :: "char \<Rightarrow> char \<Rightarrow> int \<Rightarrow> bool \<Rightarrow> bool \<Rightarrow> string \<Rightarrow> nat option" where
  "scan_text op c depth in_string escaped [] = None"
| "scan_text op c depth in_string escaped (ch # s) =
     (if in_string
      then if escaped then shift 1 (scan_text op c depth True False s)
           else if ch = CHR 0x5C then shift 1 (scan_text op c depth True True s)
           else if ch = CHR 0x22 then shift 1 (scan_text op c depth False False s)
           else shift 1 (scan_text op c depth True False s)
      else if ch = CHR 0x22 then shift 1 (scan_text op c depth True escaped s)
      else if ch = op then shift 1 (scan_text op c (depth + 1) False escaped s)
      else if ch = c then if depth - 1 = 0 then Some 1 else shift 1 (scan_text op c (depth - 1) False escaped s)
      else shift 1 (scan_text op c depth False escaped s))"

lemma scan_loop_text:
  "stop \<le> length json \<Longrightarrow> scan_loop json stop op c p depth in_string escaped =
   shift p (scan_text op c depth in_string escaped (take (stop - p) (drop p json)))"
proof (induction "stop - p" arbitrary: p depth in_string escaped op c rule: less_induct)
  case less
  show ?case
  proof (cases "p < stop")
    case True
    with less.prems have "drop p json = json ! p # drop (Suc p) json" "char_at json p = json ! p"
      by (simp_all add: Cons_nth_drop_Suc char_at_def)
    moreover have "stop - p = Suc (stop - Suc p)" using True by simp
    ultimately have t: "take (stop - p) (drop p json) = char_at json p # take (stop - Suc p) (drop (Suc p) json)" by simp
    have "stop - Suc p < stop - p" using True by simp
    note IH = less.hyps [OF this less.prems]
    show ?thesis unfolding t using True
      by (subst scan_loop.simps) (simp add: Let_def IH)
  next
    case False
    then show ?thesis by (subst scan_loop.simps) simp
  qed
qed

text \<open>Text that takes the scanner from one depth to another without ending it, outside strings.\<close>

definition passes :: "char \<Rightarrow> char \<Rightarrow> int \<Rightarrow> int \<Rightarrow> string \<Rightarrow> bool" where
  "passes op c d d' t \<longleftrightarrow>
     (\<forall>s. scan_text op c d False False (t @ s) = shift (length t) (scan_text op c d' False False s))"

lemma passes_Nil [simp]: "passes op c d d []"
  by (simp add: passes_def)

lemma passes_append: "passes op c d d1 t \<Longrightarrow> passes op c d1 d2 u \<Longrightarrow> passes op c d d2 (t @ u)"
  by (simp add: passes_def)

lemma passes_plain:
  "CHR 0x22 \<notin> set t \<Longrightarrow> op \<notin> set t \<Longrightarrow> c \<notin> set t \<Longrightarrow> passes op c d d t"
  by (induction t) (auto simp: passes_def)

lemma scan_in_string:
  "CHR 0x22 \<notin> set t \<Longrightarrow> CHR 0x5C \<notin> set t \<Longrightarrow>
   scan_text op c d True False (t @ CHR 0x22 # s) = shift (Suc (length t)) (scan_text op c d False False s)"
  by (induction t) auto

lemma passes_quoted:
  "CHR 0x22 \<notin> set t \<Longrightarrow> CHR 0x5C \<notin> set t \<Longrightarrow> passes op c d d (quoted t)"
  by (simp add: passes_def quoted_def scan_in_string)

lemma passes_open: "op \<noteq> CHR 0x22 \<Longrightarrow> passes op c d (d + 1) [op]"
  by (simp add: passes_def)

lemma passes_close: "c \<noteq> CHR 0x22 \<Longrightarrow> c \<noteq> op \<Longrightarrow> d \<noteq> 1 \<Longrightarrow> passes op c d (d - 1) [c]"
  by (simp add: passes_def)

lemma scan_balanced_text:
  assumes "json = a @ (op # t @ [c]) @ r" and "passes op c 1 1 t" and "op \<noteq> CHR 0x22" "c \<noteq> CHR 0x22" "op \<noteq> c"
    and "length a + length t + 2 \<le> stop" "stop \<le> length json"
  shows "scan_balanced json (length a) stop op c = Some \<lparr>jr_begin = length a, jr_end = length a + length t + 2\<rparr>"
proof -
  have "take (stop - length a) (drop (length a) json) = (op # t @ [c]) @ take (stop - (length a + length t + 2)) r"
    using assms(1,6) by (simp add: take_Cons' diff_diff_left add.commute Suc_diff_Suc)
  moreover have "scan_text op c 0 False False ((op # t @ [c]) @ u) = Some (length t + 2)" for u
    using assms(2-5) by (simp add: passes_def)
  ultimately have "scan_loop json stop op c (length a) 0 False False = Some (length a + length t + 2)"
    using scan_loop_text [OF assms(7), of op c "length a" 0 False False] by simp
  moreover have "char_at json (length a) = op" using assms(1) by simp
  ultimately show ?thesis using assms(6) by (simp add: scan_balanced_def)
qed

subsection \<open>Extractors\<close>

text \<open>Text that may stand inside a string literal as it is.\<close>

definition literal :: "string \<Rightarrow> bool" where
  "literal s \<longleftrightarrow> CHR 0x22 \<notin> set s \<and> CHR 0x5C \<notin> set s \<and> NUL \<notin> set s"

lemma string_loop_text:
  "literal s \<Longrightarrow> length dst + length s < sz \<Longrightarrow> length a + length s < stop \<Longrightarrow>
   string_loop (a @ s @ CHR 0x22 # r) stop sz (length a) dst False = (CALIBRATION_OK, dst @ s)"
proof (induction s arbitrary: a dst)
  case Nil
  then show ?case by (subst string_loop.simps) simp
next
  case (Cons c s)
  have "string_loop (a @ (c # s) @ CHR 0x22 # r) stop sz (length a) dst False =
      string_loop ((a @ [c]) @ s @ CHR 0x22 # r) stop sz (length (a @ [c])) (dst @ [c]) False"
    using Cons.prems by (subst string_loop.simps) (auto simp: literal_def)
  also have "\<dots> = (CALIBRATION_OK, dst @ c # s)"
    using Cons.IH [of "dst @ [c]" "a @ [c]"] Cons.prems by (simp add: literal_def)
  finally show ?case .
qed

lemma extract_string_text:
  assumes "find_key_value json rng key = Some (length a)" and "json = a @ quoted s @ r" and "literal s" and "length s < sz"
    and "length a + length s + 2 \<le> jr_end rng"
  shows "extract_string json rng key sz = (CALIBRATION_OK, s)"
proof -
  have "string_loop ((a @ [CHR 0x22]) @ s @ CHR 0x22 # r) (jr_end rng) sz (length (a @ [CHR 0x22])) [] False = (CALIBRATION_OK, [] @ s)"
    using assms(3-5) by (intro string_loop_text) simp_all
  with assms show ?thesis by (simp add: extract_string_def quoted_def)
qed

lemma extract_bool_text:
  assumes "find_key_value json rng key = Some (length a)" and "json = a @ show_bool b @ r"
    and "length a + length (show_bool b) \<le> jr_end rng"
  shows "extract_bool json rng key = Some b"
  using assms by (cases b) (auto simp: extract_bool_def show_bool_def)

lemma cstr_suffix: "json = a @ s \<Longrightarrow> NUL \<notin> set json \<Longrightarrow> cstr (drop (length a) json) = s"
  by (simp add: cstr_id)

lemma endptr_pos_text: "json = a @ s @ r \<Longrightarrow> NUL \<notin> set json \<Longrightarrow> endptr_pos json (length a) r = length a + length s"
  using cstr_suffix [of json a "s @ r"] by (simp add: endptr_pos_def)

lemma extract_u64_text:
  assumes "find_key_value json rng key = Some (length a)" and "json = a @ show_nat n @ r" and "n < 2 ^ 64"
    and "r = [] \<or> digit_val 10 (hd r) = None" and "NUL \<notin> set json" and "length a + length (show_nat n) \<le> jr_end rng"
  shows "extract_u64 json rng key = Some (of_nat n)"
  using assms(1,6) cstr_suffix [OF assms(2,5)] endptr_pos_text [OF assms(2,5)] strtoull_show_nat [OF assms(3,4)] show_nat_nonempty
  by (simp add: extract_u64_def)

lemma extract_double_text:
  assumes "find_key_value json rng key = Some (length a)" and "json = a @ dec_text x z b @ r"
    and "r = [] \<or> digit_val 10 (hd r) = None \<and> to_lower (hd r) \<noteq> CHR ''e''" and "NUL \<notin> set json"
    and "length a + length (dec_text x z b) \<le> jr_end rng" and "rnd (dec_value x z b) = Fin v"
    and "dec_value x z b = 0 \<or> pow_real 2 (- 1022) \<le> dec_value x z b"
  shows "extract_double rnd json rng key = Some (Fin v)"
proof -
  have nonneg: "0 \<le> dec_value x z b" by (simp add: dec_value_def)
  have "strtod rnd (cstr (drop (length a) json)) = (Fin v, False, r)"
    using cstr_suffix [OF assms(2,4)] strtod_dec_text [OF assms(3), of rnd x z b] assms(6,7) nonneg
    by (auto simp: strtod_value_def)
  moreover have "0 < length (dec_text x z b)" by (simp add: dec_text_def)
  ultimately show ?thesis
    using assms(1,5) endptr_pos_text [OF assms(2,4)] by (simp add: extract_double_def)
qed

subsection \<open>The masks\<close>

text \<open>The worker prints a mask as \<open>0x\<close> and 16 hexadecimal digits.\<close>

definition hex_digit :: "nat \<Rightarrow> char" where
  "hex_digit n = char_of (if n < 10 then 48 + n else 87 + n)"

fun hex_text :: "nat \<Rightarrow> nat \<Rightarrow> string" where
  "hex_text 0 n = []"
| "hex_text (Suc k) n = hex_text k (n div 16) @ [hex_digit (n mod 16)]"

definition show_mask :: "u64 \<Rightarrow> string" where
  "show_mask m = ''0x'' @ hex_text 16 (unat m)"

lemma digit_val_hex: "n < 16 \<Longrightarrow> digit_val 16 (hex_digit n) = Some n"
  by (auto simp: digit_val_def hex_digit_def Let_def take_bit_eq_mod)

lemma hex_text_digits: "\<forall>c \<in> set (hex_text k n). digit_val 16 c \<noteq> None"
  by (induction k n rule: hex_text.induct) (auto simp: digit_val_hex)

lemma scan_hex_text: "fst (scan_digits 16 0 (hex_text k n)) = n mod 16 ^ k"
proof (induction k n rule: hex_text.induct)
  case (2 k n)
  have "n mod 16 ^ Suc k = 16 * (n div 16 mod 16 ^ k) + n mod 16"
    by (simp add: mod_mult2_eq)
  with 2 show ?case by (simp add: scan_digits_append [OF hex_text_digits] digit_val_hex)
qed simp

lemma length_hex_text [simp]: "length (hex_text k n) = k"
  by (induction k n rule: hex_text.induct) simp_all

lemma digit_val_16_plain:
  assumes "digit_val 16 c \<noteq> None"
  shows "c \<noteq> CHR 0x22" "c \<noteq> NUL" "c \<noteq> CHR 0x5C" "\<not> separator c" "\<not> is_space c"
proof -
  have "c \<noteq> d" if "digit_val 16 d = None" for d using assms that by auto
  moreover have "digit_val 16 CHR 0x22 = None" "digit_val 16 NUL = None" "digit_val 16 CHR 0x5C = None"
    "digit_val 16 CHR '','' = None" "digit_val 16 CHR ''{'' = None" "digit_val 16 CHR ''}'' = None"
    "digit_val 16 CHR ''['' = None" "digit_val 16 CHR '']'' = None" "digit_val 16 CHR '' '' = None"
    "digit_val 16 CHR 0x09 = None" "digit_val 16 CHR 0x0A = None" "digit_val 16 CHR 0x0B = None"
    "digit_val 16 CHR 0x0C = None" "digit_val 16 CHR 0x0D = None" by code_simp+
  ultimately show "c \<noteq> CHR 0x22" "c \<noteq> NUL" "c \<noteq> CHR 0x5C" "\<not> separator c" "\<not> is_space c"
    by (simp_all add: separator_def is_space_def)
qed

lemma show_mask_literal: "literal (show_mask m)"
proof -
  have "CHR 0x22 \<notin> set (hex_text 16 (unat m))" "CHR 0x5C \<notin> set (hex_text 16 (unat m))" "NUL \<notin> set (hex_text 16 (unat m))"
    using bspec [OF hex_text_digits, THEN digit_val_16_plain(1)] bspec [OF hex_text_digits, THEN digit_val_16_plain(3)]
      bspec [OF hex_text_digits, THEN digit_val_16_plain(2)] by (metis (full_types))+
  then show ?thesis by (simp add: literal_def show_mask_def NUL_def)
qed

lemma mask_value_show_mask:
  assumes "m \<noteq> 0"
  shows "mask_value (show_mask m) = Some m"
proof -
  have all: "\<forall>c \<in> set (hex_text 16 (unat m)). digit_val 16 c \<noteq> None" by (rule hex_text_digits)
  have ne: "hex_text 16 (unat m) \<noteq> []" by (metis length_hex_text list.size(3) zero_neq_numeral)
  have c: "cstr (show_mask m) = show_mask m" using show_mask_literal by (intro cstr_id) (simp add: literal_def)
  have d: "scan_digits 16 0 (hex_text 16 (unat m)) = (unat m, [])"
    using scan_digits_all [OF all, of 0] scan_hex_text [of 16 "unat m"] by (simp add: prod_eq_iff)
  have start: "starts_digit 16 (hex_text 16 (unat m))" using ne all by (auto simp: starts_digit_def)
  have "scan_number 0 (show_mask m) = Some (False, unat m, [])"
    using d start by (simp add: scan_number_def show_mask_def is_space_def scan_sign_def scan_base_def)
  then have "strtoull 0 (show_mask m) = (m, False, [])" by (simp add: strtoull_def of_nat_unat not_le)
  moreover have "length (show_mask m) \<noteq> 0" by (simp add: show_mask_def)
  ultimately show ?thesis using assms c by (simp add: mask_value_def)
qed

lemma mask_text_text:
  "CHR 0x22 \<notin> set s \<Longrightarrow> length buf + length s < 64 \<Longrightarrow> length a + length s < stop \<Longrightarrow>
   mask_text (a @ s @ CHR 0x22 # r) stop (length a) buf = Some (length a + length s, buf @ s)"
proof (induction s arbitrary: a buf)
  case Nil
  then show ?case by (subst mask_text.simps) simp
next
  case (Cons c s)
  have "mask_text (a @ (c # s) @ CHR 0x22 # r) stop (length a) buf =
      mask_text ((a @ [c]) @ s @ CHR 0x22 # r) stop (length (a @ [c])) (buf @ [c])"
    using Cons.prems by (subst mask_text.simps) auto
  also have "\<dots> = Some (length a + length (c # s), buf @ c # s)"
    using Cons.IH [of "buf @ [c]" "a @ [c]"] Cons.prems by simp
  finally show ?case .
qed

end
