(* ===== verification/Calibration_Document.thy ===== *)
theory Calibration_Document
  imports Calibration_Text
begin

text \<open>
  The document the calibration worker writes (\<open>scripts/kk_calibrate.py\<close>: \<open>json.dump\<close> with \<open>indent=2\<close> and sorted keys, then a newline)
  and the proof that the result reader delivers its contents. The members the daemon reads are explicit; the worker's other members are
  arbitrary, as long as none of them is named like one that is read.
\<close>

subsection \<open>The array of masks\<close>

definition add_mask :: "calibration_result \<Rightarrow> u64 \<Rightarrow> calibration_result" where
  "add_mask out m = out\<lparr>cr_bank_masks := (cr_bank_masks out)(cr_bank_mask_count out := m),
     cr_bank_mask_count := Suc (cr_bank_mask_count out)\<rparr>"

lemma add_mask_simps [simp]:
  "cr_bank_mask_count (add_mask out m) = Suc (cr_bank_mask_count out)" "result_masks (add_mask out m) = result_masks out @ [m]"
  by (simp_all add: add_mask_def result_masks_def)

lemma foldl_add_mask [simp]:
  "cr_bank_mask_count (foldl add_mask out ms) = cr_bank_mask_count out + length ms"
  "result_masks (foldl add_mask out ms) = result_masks out @ ms"
  by (induction ms arbitrary: out) simp_all

lemma foldl_add_mask_others [simp]:
  "cr_status_success (foldl add_mask out ms) = cr_status_success out"
  "cr_acceptance_passed (foldl add_mask out ms) = cr_acceptance_passed out"
  "cr_holdout (foldl add_mask out ms) = cr_holdout out"
  "cr_worker_exit_code (foldl add_mask out ms) = cr_worker_exit_code out"
  "cr_error_message (foldl add_mask out ms) = cr_error_message out"
  by (induction ms arbitrary: out) (simp_all add: add_mask_def)

lemma skip_ws_all:
  assumes "\<forall>x \<in> set ws. is_space x"
  shows "skip_ws (a @ ws @ r) (length a) (length a + length ws) = length a + length ws"
  using assms
proof (induction ws arbitrary: a)
  case Nil
  then show ?case by (subst skip_ws.simps) simp
next
  case (Cons x ws)
  have "skip_ws (a @ (x # ws) @ r) (length a) (length a + length (x # ws)) =
      skip_ws (a @ (x # ws) @ r) (Suc (length a)) (length a + length (x # ws))"
    using Cons.prems by (subst skip_ws.simps) simp
  with Cons.IH [of "a @ [x]"] Cons.prems show ?case by simp
qed

lemma masks_loop_end:
  assumes "\<forall>x \<in> set ws. is_space x" and "stop = length a + length ws" and "0 < cr_bank_mask_count out"
  shows "masks_loop (a @ ws @ r) stop (length a) out = (CALIBRATION_OK, out)"
  using assms(3) skip_ws_all [OF assms(1), of a r] unfolding assms(2)
  by (subst masks_loop.simps) (simp add: Let_def)

lemma masks_loop_comma:
  assumes "length a < stop"
  shows "masks_loop (a @ CHR '','' # r) stop (length a) out = masks_loop (a @ CHR '','' # r) stop (Suc (length a)) out"
proof -
  have "skip_ws (a @ CHR '','' # r) (length a) stop = length a"
    using skip_ws_text [of "[]" "CHR '',''" a stop r] assms by (simp add: is_space_def)
  with assms show ?thesis by (subst masks_loop.simps) (simp add: Let_def)
qed

lemma masks_loop_mask:
  assumes "\<forall>x \<in> set ws. is_space x" and "m \<noteq> 0" and "length a + length ws + length (show_mask m) + 2 \<le> stop"
    and "cr_bank_mask_count out < CALIBRATION_MAX_BANK_MASKS"
  shows "masks_loop (a @ ws @ quoted (show_mask m) @ r) stop (length a) out =
    masks_loop (a @ ws @ quoted (show_mask m) @ r) stop (length (a @ ws @ quoted (show_mask m))) (add_mask out m)"
proof -
  let ?json = "a @ ws @ quoted (show_mask m) @ r" and ?p = "length a + length ws"
  have len: "length (show_mask m) = 18" by (simp add: show_mask_def)
  have quote: "\<not> is_space CHR 0x22" by (simp add: is_space_def)
  have p: "skip_ws ?json (length a) stop = ?p"
    using skip_ws_text [OF assms(1) quote, of a stop "show_mask m @ CHR 0x22 # r"] assms(3) by (simp add: quoted_def)
  have c1: "char_at ?json ?p = CHR 0x22" using char_at_append [of "a @ ws" "CHR 0x22"] by (simp add: quoted_def)
  have "mask_text ((a @ ws @ [CHR 0x22]) @ show_mask m @ CHR 0x22 # r) stop (length (a @ ws @ [CHR 0x22])) [] =
      Some (length (a @ ws @ [CHR 0x22]) + length (show_mask m), [] @ show_mask m)"
    using show_mask_literal [of m] assms(3) len by (intro mask_text_text) (simp_all add: literal_def)
  then have t: "mask_text ?json stop (Suc ?p) [] = Some (?p + 19, show_mask m)" by (simp add: quoted_def len)
  have c2: "char_at ?json (?p + 19) = CHR 0x22"
    using char_at_appendI [of "?p + 19" "a @ ws @ CHR 0x22 # show_mask m" "CHR 0x22" r] len by (simp add: quoted_def)
  show ?thesis
    using assms(3,4) len p c1 c2 t mask_value_show_mask [OF assms(2)]
    by (subst masks_loop.simps) (simp add: Let_def add_mask_def [symmetric] add.assoc add.commute [of 20])
qed

text \<open>The items of an array after the first, each after a comma.\<close>

lemma masks_loop_items:
  assumes "\<forall>x \<in> set ws. is_space x" and "\<forall>x \<in> set ws'. is_space x"
  shows "0 \<notin> set ms \<Longrightarrow> cr_bank_mask_count out + length ms \<le> CALIBRATION_MAX_BANK_MASKS \<Longrightarrow> 0 < cr_bank_mask_count out \<Longrightarrow>
    json = a @ concat (map (\<lambda>m. '','' @ ws @ quoted (show_mask m)) ms) @ ws' @ r \<Longrightarrow>
    stop = length a + length (concat (map (\<lambda>m. '','' @ ws @ quoted (show_mask m)) ms)) + length ws' \<Longrightarrow>
    masks_loop json stop (length a) out = (CALIBRATION_OK, foldl add_mask out ms)"
proof (induction ms arbitrary: a out)
  case Nil
  then show ?case using masks_loop_end [OF assms(2)] by simp
next
  case (Cons m ms)
  let ?items = "concat (map (\<lambda>m. '','' @ ws @ quoted (show_mask m)) ms)"
  let ?rest = "?items @ ws' @ r"
  have j1: "json = a @ CHR '','' # (ws @ quoted (show_mask m) @ ?rest)" using Cons.prems(4) by simp
  have j2: "json = (a @ '','') @ ws @ quoted (show_mask m) @ ?rest" using j1 by simp
  have j3: "json = ((a @ '','') @ ws @ quoted (show_mask m)) @ ?items @ ws' @ r" using j2 by simp
  have "masks_loop json stop (length a) out = masks_loop json stop (length (a @ '','')) out"
    using masks_loop_comma [of a stop] Cons.prems(5) unfolding j1 by simp
  also have "\<dots> = masks_loop json stop (length ((a @ '','') @ ws @ quoted (show_mask m))) (add_mask out m)"
    unfolding j2 using Cons.prems by (intro masks_loop_mask [OF assms(1)]) auto
  also have "\<dots> = (CALIBRATION_OK, foldl add_mask (add_mask out m) ms)"
    using Cons.prems by (intro Cons.IH j3) simp_all
  finally show ?case by simp
qed

subsection \<open>Printing with indentation\<close>

definition nl :: "nat \<Rightarrow> string" where
  "nl k = CHR 0x0A # replicate k CHR '' ''"

fun join_commas :: "string list \<Rightarrow> string" where
  "join_commas [] = []"
| "join_commas [x] = x"
| "join_commas (x # y # zs) = x @ '','' @ join_commas (y # zs)"

definition json_member :: "nat \<Rightarrow> string \<times> string \<Rightarrow> string" where
  "json_member k m = nl k @ quoted (fst m) @ '': '' @ snd m"

definition json_object :: "nat \<Rightarrow> (string \<times> string) list \<Rightarrow> string" where
  "json_object k ms = ''{'' @ join_commas (map (json_member (k + 2)) ms) @ nl k @ ''}''"

definition json_array :: "nat \<Rightarrow> string list \<Rightarrow> string" where
  "json_array k vs = ''['' @ join_commas (map (\<lambda>v. nl (k + 2) @ v) vs) @ nl k @ '']''"

lemma nl_space: "\<forall>x \<in> set (nl k). is_space x"
  by (auto simp: nl_def is_space_def)

lemma nl_plain: "set (nl k) \<subseteq> {CHR 0x0A, CHR '' ''}"
  by (auto simp: nl_def)

lemma nl_notin [simp]:
  "CHR 0x22 \<notin> set (nl k)" "CHR ''{'' \<notin> set (nl k)" "CHR ''}'' \<notin> set (nl k)" "CHR ''['' \<notin> set (nl k)"
  "CHR '']'' \<notin> set (nl k)" "NUL \<notin> set (nl k)"
  using nl_plain [of k] by (auto simp: NUL_def)

lemma join_commas_split:
  "join_commas (xs @ y # ys) = concat (map (\<lambda>x. x @ '','') xs) @ y @ concat (map (\<lambda>z. '','' @ z) ys)"
proof (induction xs)
  case Nil
  show ?case by (induction ys arbitrary: y) simp_all
next
  case (Cons x xs)
  then show ?case by (cases "xs @ y # ys") simp_all
qed

lemma notin_join_commas: "\<forall>x \<in> set xs. c \<notin> set x \<Longrightarrow> c \<noteq> CHR '','' \<Longrightarrow> c \<notin> set (join_commas xs)"
  by (induction xs rule: join_commas.induct) simp_all

lemma NUL_punctuation [simp]:
  "NUL \<noteq> CHR '',''" "NUL \<noteq> CHR ''{''" "NUL \<noteq> CHR ''}''" "NUL \<noteq> CHR ''[''" "NUL \<noteq> CHR '']''" "NUL \<noteq> CHR '':''" "NUL \<noteq> CHR 0x22"
  by (simp_all add: NUL_def)

text \<open>Members between which the search for \<open>key\<close> passes.\<close>

definition members_clean :: "string \<Rightarrow> (string \<times> string) list \<Rightarrow> bool" where
  "members_clean key ms \<longleftrightarrow> (\<forall>(k, v) \<in> set ms. literal k \<and> k \<noteq> key \<and> clean key v)"

lemma clean_json_member:
  assumes "literal k" "k \<noteq> key" "clean key v" "key_ok key"
  shows "clean key (json_member i (k, v))"
proof -
  have "clean key ('' '' @ v)" using assms(3) by (intro clean_plain_append) simp_all
  then have "clean key (quoted k @ CHR '':'' # '' '' @ v)"
    using assms by (intro clean_member) (simp_all add: literal_def)
  then show ?thesis unfolding json_member_def by (simp add: clean_plain_append)
qed

lemma clean_members_before:
  assumes "members_clean key ms" "key_ok key"
  shows "clean key (concat (map (\<lambda>x. json_member i x @ '','') ms))"
  using assms(1)
proof (induction ms)
  case Nil
  show ?case by (simp add: clean_plain)
next
  case (Cons m ms)
  obtain k v where m: "m = (k, v)" by (rule prod.exhaust)
  have "clean key (json_member i m)" using Cons.prems assms(2) m by (auto simp: members_clean_def intro: clean_json_member)
  moreover have "clean key (concat (map (\<lambda>x. json_member i x @ '','') ms))" using Cons by (simp add: members_clean_def)
  ultimately have "clean key (json_member i m @ CHR '','' # concat (map (\<lambda>x. json_member i x @ '','') ms))"
    using assms(2) by (intro clean_join) (simp_all add: separator_def)
  then show ?case by simp
qed

lemma clean_join_commas:
  assumes "\<forall>x \<in> set xs. clean key x" "key_ok key"
  shows "clean key (join_commas xs)"
  using assms(1)
proof (induction xs rule: join_commas.induct)
  case 1
  show ?case by (simp add: clean_plain)
next
  case (3 x y zs)
  then have "clean key (x @ CHR '','' # join_commas (y # zs))"
    using assms(2) by (intro clean_join) (simp_all add: separator_def)
  then show ?case by simp
qed simp

lemma clean_spaces:
  assumes "clean key a" "\<forall>x \<in> set w. is_space x"
  shows "clean key (a @ w)"
  unfolding clean_def
proof
  assume "has_member key (a @ w)"
  then obtain x ws y where eq: "a @ w = (x @ quoted key @ ws @ [CHR '':'']) @ y" and ws: "\<forall>c \<in> set ws. is_space c"
    unfolding has_member_def by auto
  define m where "m = x @ quoted key @ ws @ [CHR '':'']"
  have m: "m \<noteq> []" "last m = CHR '':''" by (simp_all add: m_def)
  from eq [folded m_def] obtain us where us: "a = m @ us \<or> m = a @ us \<and> w = us @ y"
    by (auto simp: append_eq_append_conv2)
  have "us = []" if "m = a @ us" "w = us @ y"
  proof (rule ccontr)
    assume "us \<noteq> []"
    with that m have "CHR '':'' \<in> set us" by (metis last_appendR last_in_set)
    with that(2) assms(2) have "is_space CHR '':''" by simp
    then show False by (simp add: is_space_def)
  qed
  with us obtain us' where "a = m @ us'" by auto
  then have "a = x @ quoted key @ ws @ CHR '':'' # us'" by (simp add: m_def)
  from has_memberI [OF this ws] assms(1) show False by (simp add: clean_def)
qed

lemma clean_brackets:
  assumes "clean key t" "key_ok key" "separator o1" "separator c1" "\<forall>x \<in> set w. is_space x"
  shows "clean key ([o1] @ t @ w @ [c1])"
proof -
  have "clean key ((t @ w) @ c1 # [])"
    using clean_spaces [OF assms(1,5)] assms(2,4) by (intro clean_join) (simp_all add: clean_plain)
  moreover have "CHR 0x22 \<notin> set [o1]" using separator_plain [OF assms(3)] by auto
  ultimately show ?thesis using clean_plain_append by fastforce
qed

lemma clean_json_object:
  assumes "members_clean key ms" "key_ok key"
  shows "clean key (json_object i ms)"
proof -
  have "clean key (join_commas (map (json_member (i + 2)) ms))"
    using assms clean_json_member by (intro clean_join_commas) (auto simp: members_clean_def)
  from clean_brackets [OF this assms(2) _ _ nl_space [of i]] show ?thesis
    by (simp add: json_object_def separator_def)
qed

lemma clean_json_array:
  assumes "\<forall>v \<in> set vs. clean key v" "key_ok key"
  shows "clean key (json_array i vs)"
proof -
  have "clean key (join_commas (map (\<lambda>v. nl (i + 2) @ v) vs))"
    using assms by (intro clean_join_commas) (auto intro: clean_plain_append)
  from clean_brackets [OF this assms(2) _ _ nl_space [of i]] show ?thesis
    by (simp add: json_array_def separator_def)
qed

subsection \<open>Looking up a member of an object\<close>

text \<open>What follows a member.\<close>

definition after_member :: "nat \<Rightarrow> (string \<times> string) list \<Rightarrow> string \<Rightarrow> string" where
  "after_member i ms rest = concat (map (\<lambda>m. '','' @ json_member (i + 2) m) ms) @ nl i @ ''}'' @ rest"

lemma after_member_start: "after_member i ms rest \<noteq> [] \<and> hd (after_member i ms rest) \<in> {CHR '','', CHR 0x0A}"
  by (cases ms) (simp_all add: after_member_def nl_def)

lemma json_object_split:
  "json_object i (ms1 @ (key, v) # ms2) @ rest =
   (''{'' @ concat (map (\<lambda>x. json_member (i + 2) x @ '','') ms1) @ nl (i + 2)) @ quoted key @ CHR '':'' # '' '' @ v @ after_member i ms2 rest"
  by (simp add: json_object_def join_commas_split after_member_def json_member_def comp_def)

lemma find_in_object:
  assumes json: "json = x @ json_object i (ms1 @ (key, v) # ms2) @ rest" and "NUL \<notin> set json" and key: "key_ok key"
    and v: "v \<noteq> []" "\<not> is_space (hd v)" and clean: "members_clean key ms1"
    and rng: "jr_begin rng = length x" "length x + length (json_object i (ms1 @ (key, v) # ms2)) \<le> jr_end rng" "jr_end rng \<le> length json"
  obtains pre where "json = pre @ v @ after_member i ms2 rest" "find_key_value json rng key = Some (length pre)"
    "length pre + length v + 2 \<le> jr_end rng" "length x \<le> length pre"
proof -
  let ?a = "x @ ''{'' @ concat (map (\<lambda>x. json_member (i + 2) x @ '','') ms1) @ nl (i + 2)"
  obtain c v' where c: "v = c # v'" "\<not> is_space c" using v by (cases v) auto
  have j: "json = ?a @ quoted key @ CHR '':'' # '' '' @ c # v' @ after_member i ms2 rest"
    unfolding json json_object_split c(1) by simp
  have cl: "clean key (drop (length x) ?a)"
  proof -
    have "clean key (concat (map (\<lambda>x. json_member (i + 2) x @ '','') ms1) @ nl (i + 2))"
      by (intro clean_spaces clean_members_before clean key nl_space)
    from clean_plain_append [of "''{''", OF _ this] show ?thesis by simp
  qed
  have stop: "length ?a + length key + 3 + length '' '' + length v + 2 \<le> jr_end rng"
    using rng(2) arg_cong [OF json_object_split [of i ms1 key v ms2 "[]"], of length]
    by (simp add: after_member_def nl_def)
  have rng_eq: "rng = \<lparr>jr_begin = length x, jr_end = jr_end rng\<rparr>" using rng(1) by (cases rng) simp
  have "find_key_value json \<lparr>jr_begin = length x, jr_end = jr_end rng\<rparr> key = Some (length ?a + length key + 3 + length '' '')"
    using find_key_value_first [OF j assms(2) key _ c(2) rng(3) _ _ cl] stop c(1) by (simp add: is_space_def)
  then have found: "find_key_value json rng key = Some (length (?a @ quoted key @ '': ''))" using rng_eq by simp
  have "json = (?a @ quoted key @ '': '') @ v @ after_member i ms2 rest" using j c(1) by simp
  moreover note found
  moreover have "length (?a @ quoted key @ '': '') + length v + 2 \<le> jr_end rng" using stop by simp
  moreover have "length x \<le> length (?a @ quoted key @ '': '')" by simp
  ultimately show ?thesis by (rule that)
qed

subsection \<open>Values\<close>

text \<open>Values the scanner of objects passes over.\<close>

definition value_passes :: "string \<Rightarrow> bool" where
  "value_passes v \<longleftrightarrow> (\<forall>d \<ge> 1. passes CHR ''{'' CHR ''}'' d d v)"

definition members_pass :: "(string \<times> string) list \<Rightarrow> bool" where
  "members_pass ms \<longleftrightarrow> (\<forall>(k, v) \<in> set ms. literal k \<and> value_passes v)"

lemma passes_join_commas:
  assumes "\<forall>x \<in> set xs. passes op c d d x" "op \<noteq> CHR '',''" "c \<noteq> CHR '',''"
  shows "passes op c d d (join_commas xs)"
  using assms(1)
proof (induction xs rule: join_commas.induct)
  case (3 x y zs)
  then have "passes op c d d (join_commas (y # zs))" "passes op c d d x" by simp_all
  moreover have "passes op c d d '',''" using assms(2,3) by (intro passes_plain) auto
  ultimately show ?case unfolding join_commas.simps by (intro passes_append [of op c d d _ d])
qed simp_all

lemma passes_members:
  assumes "members_pass ms" "1 \<le> d"
  shows "passes CHR ''{'' CHR ''}'' d d (join_commas (map (json_member k) ms) @ nl i)"
proof (rule passes_append [OF passes_join_commas passes_plain])
  show "\<forall>x \<in> set (map (json_member k) ms). passes CHR ''{'' CHR ''}'' d d x"
  proof (clarsimp)
    fix key v
    assume "(key, v) \<in> set ms"
    with assms have "literal key" "passes CHR ''{'' CHR ''}'' d d v" by (auto simp: members_pass_def value_passes_def)
    moreover have "passes CHR ''{'' CHR ''}'' d d (nl k)" "passes CHR ''{'' CHR ''}'' d d '': ''"
      by (intro passes_plain; simp)+
    ultimately show "passes CHR ''{'' CHR ''}'' d d (json_member k (key, v))"
      unfolding json_member_def fst_conv snd_conv
      by (intro passes_append [of _ _ d d _ d] passes_quoted) (simp_all add: literal_def)
  qed
qed simp_all

lemma value_passes_object:
  assumes "members_pass ms"
  shows "value_passes (json_object k ms)"
  unfolding value_passes_def
proof (intro allI impI)
  fix d :: int
  assume d: "1 \<le> d"
  have "passes CHR ''{'' CHR ''}'' d (d + 1) ''{''" by (rule passes_open) simp
  moreover have "passes CHR ''{'' CHR ''}'' (d + 1) (d + 1) (join_commas (map (json_member (k + 2)) ms) @ nl k)"
    using assms d by (intro passes_members) simp_all
  moreover have "passes CHR ''{'' CHR ''}'' (d + 1) d ''}''"
    using passes_close [of "CHR ''}''" "CHR ''{''" "d + 1"] d by simp
  ultimately have "passes CHR ''{'' CHR ''}'' d d (''{'' @ (join_commas (map (json_member (k + 2)) ms) @ nl k) @ ''}'')"
    by (rule passes_append [OF _ passes_append])
  then show "passes CHR ''{'' CHR ''}'' d d (json_object k ms)" by (simp add: json_object_def)
qed

text \<open>Numbers.\<close>

definition number_text :: "string \<Rightarrow> bool" where
  "number_text v \<longleftrightarrow> v \<noteq> [] \<and> (\<forall>c \<in> set v. digit_val 10 c \<noteq> None \<or> c = CHR ''.'')"

lemma number_text_show_nat: "number_text (show_nat n)"
  using show_nat_digits show_nat_nonempty by (auto simp: number_text_def)

lemma number_text_dec_text: "number_text (dec_text a z b)"
  using show_nat_digits [of a] show_nat_digits [of b] by (auto simp: number_text_def dec_text_def)

lemma number_text_notin:
  assumes "number_text v" "digit_val 10 c = None" "c \<noteq> CHR ''.''"
  shows "c \<notin> set v"
  using assms by (auto simp: number_text_def)

lemma number_text_plain:
  assumes "number_text v"
  shows "CHR 0x22 \<notin> set v" "CHR ''{'' \<notin> set v" "CHR ''}'' \<notin> set v" "NUL \<notin> set v" "v \<noteq> []" "\<not> is_space (hd v)"
proof -
  show "CHR 0x22 \<notin> set v" "CHR ''{'' \<notin> set v" "CHR ''}'' \<notin> set v" "NUL \<notin> set v"
    by (rule number_text_notin [OF assms]; code_simp)+
  show "v \<noteq> []" using assms by (simp add: number_text_def)
  then have "digit_val 10 (hd v) \<noteq> None \<or> hd v = CHR ''.''" using assms by (auto simp: number_text_def)
  then show "\<not> is_space (hd v)" using digit_not_special(1) by (auto simp: is_space_def)
qed

lemma number_text_passes: "number_text v \<Longrightarrow> value_passes v"
  using number_text_plain by (auto simp: value_passes_def intro: passes_plain)

lemma number_text_clean: "number_text v \<Longrightarrow> clean key v"
  using number_text_plain(1) by (rule clean_plain)

subsection \<open>Extracting members of an object\<close>

text \<open>The range of an object inside a text.\<close>

definition object_at :: "string \<Rightarrow> json_range \<Rightarrow> string \<Rightarrow> nat \<Rightarrow> (string \<times> string) list \<Rightarrow> string \<Rightarrow> bool" where
  "object_at json rng x i ms rest \<longleftrightarrow>
     json = x @ json_object i ms @ rest \<and> NUL \<notin> set json \<and> jr_begin rng = length x \<and>
     length x + length (json_object i ms) \<le> jr_end rng \<and> jr_end rng \<le> length json"

lemma object_find:
  assumes "object_at json rng x i (ms1 @ (key, v) # ms2) rest" and "key_ok key" and "v \<noteq> []" "\<not> is_space (hd v)"
    and "members_clean key ms1"
  obtains pre where "json = pre @ v @ after_member i ms2 rest" "find_key_value json rng key = Some (length pre)"
    "length pre + length v \<le> jr_end rng" "NUL \<notin> set json" "jr_end rng \<le> length json"
proof -
  from find_in_object [OF _ _ assms(2-5), of json x i ms2 rest rng] assms(1) obtain pre where
    "json = pre @ v @ after_member i ms2 rest" "find_key_value json rng key = Some (length pre)" "length pre + length v + 2 \<le> jr_end rng"
    unfolding object_at_def by blast
  moreover from this(3) have "length pre + length v \<le> jr_end rng" by linarith
  moreover from assms(1) have "NUL \<notin> set json" "jr_end rng \<le> length json" unfolding object_at_def by blast+
  ultimately show ?thesis by (intro that)
qed

lemma object_string:
  assumes "object_at json rng x i (ms1 @ (key, quoted s) # ms2) rest" "key_ok key" "members_clean key ms1"
    and "literal s" "length s < sz"
  shows "extract_string json rng key sz = (CALIBRATION_OK, s)"
proof -
  have "\<not> is_space (hd (quoted s))" by (simp add: quoted_def is_space_def)
  from object_find [OF assms(1,2) _ this assms(3)] obtain pre where
    "json = pre @ quoted s @ after_member i ms2 rest" "find_key_value json rng key = Some (length pre)"
    "length pre + length (quoted s) \<le> jr_end rng" by (metis quoted_neq_Nil)
  with assms(4,5) show ?thesis by (intro extract_string_text) simp_all
qed

lemma object_bool:
  assumes "object_at json rng x i (ms1 @ (key, show_bool b) # ms2) rest" "key_ok key" "members_clean key ms1"
  shows "extract_bool json rng key = Some b"
proof -
  have "show_bool b \<noteq> []" "\<not> is_space (hd (show_bool b))" by (simp_all add: show_bool_def is_space_def)
  from object_find [OF assms(1,2) this assms(3)] obtain pre where
    "json = pre @ show_bool b @ after_member i ms2 rest" "find_key_value json rng key = Some (length pre)"
    "length pre + length (show_bool b) \<le> jr_end rng" by metis
  then show ?thesis by (intro extract_bool_text) simp_all
qed

lemma after_member_no_digit:
  "digit_val 10 (hd (after_member i ms rest)) = None \<and> to_lower (hd (after_member i ms rest)) \<noteq> CHR ''e''"
proof -
  have "digit_val 10 CHR '','' = None \<and> to_lower CHR '','' \<noteq> CHR ''e''" "digit_val 10 CHR 0x0A = None \<and> to_lower CHR 0x0A \<noteq> CHR ''e''"
    by (code_simp)+
  with after_member_start [of i ms rest] show ?thesis by auto
qed

lemma object_u64:
  assumes "object_at json rng x i (ms1 @ (key, show_nat n) # ms2) rest" "key_ok key" "members_clean key ms1" "n < 2 ^ 64"
  shows "extract_u64 json rng key = Some (of_nat n)"
proof -
  note plain = number_text_plain(5,6) [OF number_text_show_nat [of n]]
  from object_find [OF assms(1,2) plain assms(3)] obtain pre where
    "json = pre @ show_nat n @ after_member i ms2 rest" "find_key_value json rng key = Some (length pre)"
    "length pre + length (show_nat n) \<le> jr_end rng" "NUL \<notin> set json" by metis
  then show ?thesis
    by (intro extract_u64_text [where r = "after_member i ms2 rest", OF _ _ assms(4) disjI2 [OF conjunct1 [OF after_member_no_digit]]])
qed

lemma object_double:
  assumes "object_at json rng x i (ms1 @ (key, dec_text a z b) # ms2) rest" "key_ok key" "members_clean key ms1"
    and "rnd (dec_value a z b) = Fin v" "dec_value a z b = 0 \<or> pow_real 2 (- 1022) \<le> dec_value a z b"
  shows "extract_double rnd json rng key = Some (Fin v)"
proof -
  note plain = number_text_plain(5,6) [OF number_text_dec_text [of a z b]]
  from object_find [OF assms(1,2) plain assms(3)] obtain pre where
    "json = pre @ dec_text a z b @ after_member i ms2 rest" "find_key_value json rng key = Some (length pre)"
    "length pre + length (dec_text a z b) \<le> jr_end rng" "NUL \<notin> set json" by metis
  then show ?thesis
    by (intro extract_double_text [where r = "after_member i ms2 rest" and rnd = rnd, OF _ _ disjI2 [OF after_member_no_digit] _ _ assms(4,5)])
qed

lemma object_object:
  assumes "object_at json rng x i (ms1 @ (key, json_object j ms) # ms2) rest" "key_ok key" "members_clean key ms1"
    and "members_pass ms"
  obtains x' rng' rest' where "extract_object json rng key = Some rng'" "object_at json rng' x' j ms rest'"
proof -
  have "json_object j ms \<noteq> []" "\<not> is_space (hd (json_object j ms))" by (simp_all add: json_object_def is_space_def)
  from object_find [OF assms(1,2) this assms(3)] obtain pre where
    pre: "json = pre @ json_object j ms @ after_member i ms2 rest" "find_key_value json rng key = Some (length pre)"
    "length pre + length (json_object j ms) \<le> jr_end rng" "NUL \<notin> set json" "jr_end rng \<le> length json" by metis
  let ?t = "join_commas (map (json_member (j + 2)) ms) @ nl j"
  have t: "json_object j ms = CHR ''{'' # ?t @ ''}''" by (simp add: json_object_def)
  have "scan_balanced json (length pre) (jr_end rng) CHR ''{'' CHR ''}'' =
      Some \<lparr>jr_begin = length pre, jr_end = length pre + length ?t + 2\<rparr>"
    using pre(1,3,5) passes_members [OF assms(4), of 1] by (intro scan_balanced_text) (simp_all add: t)
  then have "extract_object json rng key = Some \<lparr>jr_begin = length pre, jr_end = length pre + length (json_object j ms)\<rparr>"
    using pre(2) by (simp add: extract_object_def t)
  moreover have "object_at json \<lparr>jr_begin = length pre, jr_end = length pre + length (json_object j ms)\<rparr> pre j ms (after_member i ms2 rest)"
    using pre(1,4) by (simp add: object_at_def)
  ultimately show ?thesis by (rule that)
qed

subsection \<open>The masks of a document\<close>

definition masks_text :: "u64 list \<Rightarrow> string" where
  "masks_text masks = json_array 2 (map (\<lambda>m. quoted (show_mask m)) masks)"

lemma masks_text_Cons:
  "masks_text (m # ms) = ''['' @ nl 4 @ quoted (show_mask m) @ concat (map (\<lambda>m. '','' @ nl 4 @ quoted (show_mask m)) ms) @ nl 2 @ '']''"
  using join_commas_split [of "[]" "nl 4 @ quoted (show_mask m)" "map (\<lambda>v. nl 4 @ v) (map (\<lambda>m. quoted (show_mask m)) ms)"]
  by (simp add: masks_text_def json_array_def comp_def)

lemma parse_bank_masks_text:
  assumes "json = pre @ masks_text masks @ post" and "masks \<noteq> []" "length masks \<le> CALIBRATION_MAX_BANK_MASKS" "0 \<notin> set masks"
    and "cr_bank_mask_count out = 0"
  shows "parse_bank_masks json \<lparr>jr_begin = length pre, jr_end = length pre + length (masks_text masks)\<rparr> out =
    (CALIBRATION_OK, foldl add_mask out masks)"
proof -
  obtain m ms where masks: "masks = m # ms" using assms(2) by (cases masks) auto
  let ?items = "concat (map (\<lambda>m. '','' @ nl 4 @ quoted (show_mask m)) ms)"
  let ?stop = "length pre + length (masks_text masks) - 1"
  have j1: "json = (pre @ ''['') @ nl 4 @ quoted (show_mask m) @ (?items @ nl 2 @ '']'' @ post)"
    using assms(1) by (simp add: masks masks_text_Cons)
  have j2: "json = ((pre @ ''['') @ nl 4 @ quoted (show_mask m)) @ ?items @ nl 2 @ ('']'' @ post)" using j1 by simp
  have stop: "?stop = length ((pre @ ''['') @ nl 4 @ quoted (show_mask m)) + length ?items + length (nl 2)"
    by (simp add: masks masks_text_Cons)
  have max: "(0::nat) < CALIBRATION_MAX_BANK_MASKS" by (simp add: CALIBRATION_MAX_BANK_MASKS_def)
  have "masks_loop json ?stop (length (pre @ ''['')) out =
      masks_loop json ?stop (length ((pre @ ''['') @ nl 4 @ quoted (show_mask m))) (add_mask out m)"
    unfolding j1 using assms(4,5) max stop by (intro masks_loop_mask nl_space) (simp_all add: masks)
  also have "\<dots> = (CALIBRATION_OK, foldl add_mask (add_mask out m) ms)"
    using assms(3-5) by (intro masks_loop_items [OF nl_space nl_space _ _ _ j2 stop]) (simp_all add: masks)
  finally show ?thesis by (simp add: parse_bank_masks_def masks)
qed

lemma object_masks:
  assumes "object_at json rng x i (ms1 @ (key, masks_text masks) # ms2) rest" "key_ok key" "members_clean key ms1"
  obtains pre post where "extract_array json rng key = Some \<lparr>jr_begin = length pre, jr_end = length pre + length (masks_text masks)\<rparr>"
    "json = pre @ masks_text masks @ post"
proof -
  have "masks_text masks \<noteq> []" "\<not> is_space (hd (masks_text masks))" by (simp_all add: masks_text_def json_array_def is_space_def)
  from object_find [OF assms(1,2) this assms(3)] obtain pre where
    pre: "json = pre @ masks_text masks @ after_member i ms2 rest" "find_key_value json rng key = Some (length pre)"
    "length pre + length (masks_text masks) \<le> jr_end rng" "jr_end rng \<le> length json" by metis
  let ?t = "join_commas (map (\<lambda>m. nl 4 @ quoted (show_mask m)) masks) @ nl 2"
  have t: "masks_text masks = CHR ''['' # ?t @ '']''" by (simp add: masks_text_def json_array_def comp_def)
  have item: "passes CHR ''['' CHR '']'' 1 1 (nl 4 @ quoted (show_mask m))" for m
    using show_mask_literal [of m] by (intro passes_append [of _ _ 1 1] passes_plain passes_quoted) (simp_all add: literal_def)
  have "passes CHR ''['' CHR '']'' 1 1 ?t"
    using item by (intro passes_append [of _ _ 1 1] passes_join_commas passes_plain) auto
  then have "scan_balanced json (length pre) (jr_end rng) CHR ''['' CHR '']'' =
      Some \<lparr>jr_begin = length pre, jr_end = length pre + length ?t + 2\<rparr>"
    using pre(1,3,4) by (intro scan_balanced_text) (simp_all add: t)
  then have "extract_array json rng key = Some \<lparr>jr_begin = length pre, jr_end = length pre + length (masks_text masks)\<rparr>"
    using pre(2) by (simp add: extract_array_def t)
  from that [OF this pre(1)] show ?thesis .
qed

lemma masks_text_clean: "key_ok key \<Longrightarrow> clean key (masks_text masks)"
  using show_mask_literal unfolding masks_text_def
  by (intro clean_json_array) (auto intro!: clean_string simp: literal_def)

subsection \<open>The metrics of a document\<close>

type_synonym dec = "nat \<times> nat \<times> nat"

definition show_dec :: "dec \<Rightarrow> string" where "show_dec d = dec_text (fst d) (fst (snd d)) (snd (snd d))"
definition dec_val :: "dec \<Rightarrow> real" where "dec_val d = dec_value (fst d) (fst (snd d)) (snd (snd d))"

record printed_metrics =
  pm_tp :: nat
  pm_tn :: nat
  pm_fp :: nat
  pm_fn :: nat
  pm_accuracy :: dec
  pm_precision :: dec
  pm_recall :: dec
  pm_f1 :: dec

definition metrics_members :: "printed_metrics \<Rightarrow> (string \<times> string) list" where
  "metrics_members m =
     [(''accuracy'', show_dec (pm_accuracy m)), (''f1'', show_dec (pm_f1 m)), (''fn'', show_nat (pm_fn m)),
      (''fp'', show_nat (pm_fp m)), (''precision'', show_dec (pm_precision m)), (''recall'', show_dec (pm_recall m)),
      (''tn'', show_nat (pm_tn m)), (''tp'', show_nat (pm_tp m))]"

definition dec_ok :: "rounding \<Rightarrow> dec \<Rightarrow> bool" where
  "dec_ok rnd d \<longleftrightarrow> isfinite (rnd (dec_val d)) \<and> (dec_val d = 0 \<or> pow_real 2 (- 1022) \<le> dec_val d)"

definition metrics_ok :: "rounding \<Rightarrow> printed_metrics \<Rightarrow> bool" where
  "metrics_ok rnd m \<longleftrightarrow> pm_tp m < 2 ^ 64 \<and> pm_tn m < 2 ^ 64 \<and> pm_fp m < 2 ^ 64 \<and> pm_fn m < 2 ^ 64 \<and>
     dec_ok rnd (pm_accuracy m) \<and> dec_ok rnd (pm_precision m) \<and> dec_ok rnd (pm_recall m) \<and> dec_ok rnd (pm_f1 m)"

definition read_metrics :: "rounding \<Rightarrow> printed_metrics \<Rightarrow> calibration_metrics" where
  "read_metrics rnd m =
     \<lparr>cm_tp = of_nat (pm_tp m), cm_tn = of_nat (pm_tn m), cm_fp = of_nat (pm_fp m), cm_fn = of_nat (pm_fn m),
      cm_accuracy = rnd (dec_val (pm_accuracy m)), cm_precision = rnd (dec_val (pm_precision m)),
      cm_recall = rnd (dec_val (pm_recall m)), cm_f1 = rnd (dec_val (pm_f1 m))\<rparr>"

lemma key_ok_keys [simp]:
  "key_ok ''accuracy''" "key_ok ''f1''" "key_ok ''fn''" "key_ok ''fp''" "key_ok ''precision''" "key_ok ''recall''"
  "key_ok ''tn''" "key_ok ''tp''" "key_ok ''passed''" "key_ok ''holdout''" "key_ok ''error''" "key_ok ''status''"
  "key_ok ''acceptance''" "key_ok ''bank_masks''" "key_ok ''mask_set_id''" "key_ok ''metrics''"
  by code_simp+

lemma literal_keys [simp]:
  "literal ''accuracy''" "literal ''f1''" "literal ''fn''" "literal ''fp''" "literal ''precision''" "literal ''recall''"
  "literal ''tn''" "literal ''tp''" "literal ''passed''" "literal ''fit''" "literal ''holdout''" "literal ''tune''"
  "literal ''status''" "literal ''acceptance''" "literal ''bank_masks''" "literal ''mask_set_id''" "literal ''metrics''"
  "literal ''success''"
  by code_simp+

lemma number_text_show_dec: "number_text (show_dec d)"
  unfolding show_dec_def by (rule number_text_dec_text)

lemma members_clean_simps [simp]:
  "members_clean key []"
  "members_clean key ((k, v) # ms) \<longleftrightarrow> literal k \<and> k \<noteq> key \<and> clean key v \<and> members_clean key ms"
  "members_clean key (ms @ ms') \<longleftrightarrow> members_clean key ms \<and> members_clean key ms'"
  by (auto simp: members_clean_def)

lemma clean_numbers [simp]: "clean key (show_dec d)" "clean key (show_nat n)"
  by (rule number_text_clean [OF number_text_show_dec], rule number_text_clean [OF number_text_show_nat])

lemma object_dec:
  assumes "object_at json rng x i (ms1 @ (key, show_dec d) # ms2) rest" "key_ok key" "members_clean key ms1" "dec_ok rnd d"
  shows "extract_double rnd json rng key = Some (rnd (dec_val d))"
proof -
  from assms(4) obtain v where "rnd (dec_val d) = Fin v" "dec_val d = 0 \<or> pow_real 2 (- 1022) \<le> dec_val d"
    by (auto simp: dec_ok_def elim: isfiniteE)
  with object_double [OF assms(1) [unfolded show_dec_def] assms(2,3), of rnd v] show ?thesis by (simp add: dec_val_def)
qed

lemma load_holdout_object:
  assumes obj: "object_at json rng x i (metrics_members m) rest" and ok: "metrics_ok rnd m"
  shows "load_holdout rnd json rng h = (True, read_metrics rnd m)"
proof -
  have at: "object_at json rng x i (take n (metrics_members m) @ metrics_members m ! n # drop (Suc n) (metrics_members m)) rest"
    if "n < 8" for n
    using obj id_take_nth_drop [of n "metrics_members m"] that by (simp add: metrics_members_def)
  have count: "extract_u64 json rng key = Some (of_nat v)"
    if "n < 8" "metrics_members m ! n = (key, show_nat v)" "members_clean key (take n (metrics_members m))" "key_ok key" "v < 2 ^ 64"
    for n key v
    using at [OF that(1)] that(2-5) by (intro object_u64) simp_all
  have rate: "extract_double rnd json rng key = Some (rnd (dec_val d))"
    if "n < 8" "metrics_members m ! n = (key, show_dec d)" "members_clean key (take n (metrics_members m))" "key_ok key" "dec_ok rnd d"
    for n key d
    using at [OF that(1)] that(2-5) by (intro object_dec) simp_all
  have "extract_u64 json rng ''tp'' = Some (of_nat (pm_tp m))" "extract_u64 json rng ''tn'' = Some (of_nat (pm_tn m))"
    "extract_u64 json rng ''fp'' = Some (of_nat (pm_fp m))" "extract_u64 json rng ''fn'' = Some (of_nat (pm_fn m))"
    using ok count [of 7 "''tp''"] count [of 6 "''tn''"] count [of 3 "''fp''"] count [of 2 "''fn''"]
    by (simp_all add: metrics_members_def metrics_ok_def)
  moreover have "extract_double rnd json rng ''accuracy'' = Some (rnd (dec_val (pm_accuracy m)))"
    "extract_double rnd json rng ''precision'' = Some (rnd (dec_val (pm_precision m)))"
    "extract_double rnd json rng ''recall'' = Some (rnd (dec_val (pm_recall m)))"
    "extract_double rnd json rng ''f1'' = Some (rnd (dec_val (pm_f1 m)))"
    using ok rate [of 0 "''accuracy''"] rate [of 4 "''precision''"] rate [of 5 "''recall''"] rate [of 1 "''f1''"]
    by (simp_all add: metrics_members_def metrics_ok_def)
  ultimately show ?thesis by (simp add: load_holdout_def stored_def read_metrics_def)
qed

subsection \<open>The document\<close>

definition metrics_object :: "printed_metrics \<Rightarrow> string" where
  "metrics_object m = json_object 4 (metrics_members m)"

text \<open>The members in the order of their names. \<open>acc\<close> are the other members of \<open>acceptance\<close>; \<open>os1\<close> and \<open>os2\<close> are the other
  members of the document.\<close>

record printed_result =
  wr_acc :: "(string \<times> string) list"
  wr_masks :: "u64 list"
  wr_others1 :: "(string \<times> string) list"
  wr_id :: string
  wr_fit :: printed_metrics
  wr_holdout :: printed_metrics
  wr_tune :: printed_metrics
  wr_others2 :: "(string \<times> string) list"

definition acceptance_object :: "printed_result \<Rightarrow> string" where
  "acceptance_object r = json_object 2 (wr_acc r @ [(''passed'', show_bool True)])"

definition all_metrics_object :: "printed_result \<Rightarrow> string" where
  "all_metrics_object r = json_object 2 [(''fit'', metrics_object (wr_fit r)), (''holdout'', metrics_object (wr_holdout r)),
     (''tune'', metrics_object (wr_tune r))]"

definition worker_members :: "printed_result \<Rightarrow> (string \<times> string) list" where
  "worker_members r =
     [(''acceptance'', acceptance_object r), (''bank_masks'', masks_text (wr_masks r))] @ wr_others1 r @
     [(''mask_set_id'', quoted (wr_id r)), (''metrics'', all_metrics_object r)] @ wr_others2 r @
     [(''status'', quoted ''success'')]"

definition worker_document :: "printed_result \<Rightarrow> string" where
  "worker_document r = json_object 0 (worker_members r) @ nl 0"

definition result_keys :: "string set" where
  "result_keys = {''error'', ''status'', ''acceptance'', ''bank_masks'', ''mask_set_id'', ''metrics''}"

text \<open>Members the daemon does not read.\<close>

definition others_ok :: "(string \<times> string) list \<Rightarrow> bool" where
  "others_ok ms \<longleftrightarrow> (\<forall>(k, v) \<in> set ms. literal k \<and> k \<notin> result_keys \<and> NUL \<notin> set v \<and> (\<forall>key \<in> result_keys. clean key v))"

definition result_ok :: "rounding \<Rightarrow> printed_result \<Rightarrow> bool" where
  "result_ok rnd r \<longleftrightarrow>
     (\<forall>(k, v) \<in> set (wr_acc r). literal k \<and> k \<notin> result_keys \<and> k \<noteq> ''passed'' \<and> number_text v) \<and>
     wr_masks r \<noteq> [] \<and> length (wr_masks r) \<le> CALIBRATION_MAX_BANK_MASKS \<and> 0 \<notin> set (wr_masks r) \<and>
     literal (wr_id r) \<and> length (wr_id r) < CALIBRATION_MASK_SET_ID_MAX \<and>
     metrics_ok rnd (wr_holdout r) \<and> others_ok (wr_others1 r) \<and> others_ok (wr_others2 r)"

lemma result_keys_ok: "key \<in> result_keys \<Longrightarrow> key_ok key"
  by (auto simp: result_keys_def)

lemma members_clean_others: "others_ok ms \<Longrightarrow> key \<in> result_keys \<Longrightarrow> members_clean key ms"
  by (auto simp: others_ok_def members_clean_def)

lemma members_clean_metrics:
  "key \<in> result_keys \<union> {''holdout''} \<Longrightarrow> members_clean key (metrics_members m)"
  by (auto simp: metrics_members_def result_keys_def)

lemma metrics_object_clean: "key \<in> result_keys \<union> {''holdout''} \<Longrightarrow> clean key (metrics_object m)"
  unfolding metrics_object_def
proof (rule clean_json_object [OF members_clean_metrics])
  assume "key \<in> result_keys \<union> {''holdout''}"
  then show "key_ok key" using result_keys_ok [of key] by (cases "key \<in> result_keys") simp_all
qed

lemma acceptance_object_clean:
  assumes "result_ok rnd r" "key \<in> result_keys"
  shows "clean key (acceptance_object r)"
proof -
  have "members_clean key (wr_acc r)"
    using assms by (auto simp: result_ok_def members_clean_def intro: number_text_clean)
  moreover have "clean key (show_bool True)" by (intro clean_plain) (simp add: show_bool_def)
  moreover have "''passed'' \<noteq> key" using assms(2) by (auto simp: result_keys_def)
  ultimately show ?thesis unfolding acceptance_object_def
    using assms(2) by (intro clean_json_object) (simp_all add: result_keys_ok)
qed

lemma all_metrics_object_clean: "key \<in> result_keys \<Longrightarrow> clean key (all_metrics_object r)"
  unfolding all_metrics_object_def using metrics_object_clean result_keys_ok
  by (intro clean_json_object) (auto simp: result_keys_def)

lemma number_members_pass:
  assumes "\<forall>(k, v) \<in> set ms. literal k \<and> number_text v"
  shows "members_pass ms"
  using assms by (auto simp: members_pass_def intro: number_text_passes)

lemma metrics_members_numbers: "\<forall>(k, v) \<in> set (metrics_members m). literal k \<and> number_text v"
  by (simp add: metrics_members_def number_text_show_dec number_text_show_nat)

subsection \<open>No terminator inside the document\<close>

lemma NUL_quoted: "literal s \<Longrightarrow> NUL \<notin> set (quoted s)"
  by (simp add: literal_def quoted_def)

lemma NUL_json_object:
  assumes "\<forall>(k, v) \<in> set ms. literal k \<and> NUL \<notin> set v"
  shows "NUL \<notin> set (json_object i ms)"
proof -
  have "NUL \<notin> set (json_member j m)" if "m \<in> set ms" for j m
  proof -
    obtain k v where m: "m = (k, v)" by (rule prod.exhaust)
    with assms that have "literal k" "NUL \<notin> set v" by auto
    with NUL_quoted show ?thesis by (simp add: json_member_def m)
  qed
  then have "NUL \<notin> set (join_commas (map (json_member (i + 2)) ms))" by (intro notin_join_commas) auto
  then show ?thesis by (simp add: json_object_def)
qed

lemma NUL_masks_text: "NUL \<notin> set (masks_text masks)"
proof -
  have "NUL \<notin> set (nl 4 @ quoted (show_mask m))" for m using NUL_quoted [OF show_mask_literal] by simp
  then have "NUL \<notin> set (join_commas (map (\<lambda>m. nl 4 @ quoted (show_mask m)) masks))" by (intro notin_join_commas) auto
  then show ?thesis by (simp add: masks_text_def json_array_def comp_def)
qed

lemma NUL_metrics_object: "NUL \<notin> set (metrics_object m)"
  unfolding metrics_object_def using metrics_members_numbers [of m] number_text_plain(4) by (intro NUL_json_object) blast

lemma NUL_document:
  assumes "result_ok rnd r"
  shows "NUL \<notin> set (worker_document r)"
proof -
  have "NUL \<notin> set (acceptance_object r)"
    unfolding acceptance_object_def using assms number_text_plain(4)
    by (intro NUL_json_object) (auto simp: result_ok_def show_bool_def NUL_def)
  moreover have "NUL \<notin> set (all_metrics_object r)"
    unfolding all_metrics_object_def using NUL_metrics_object by (intro NUL_json_object) simp
  ultimately have "NUL \<notin> set (json_object 0 (worker_members r))"
    using assms NUL_masks_text NUL_quoted
    by (intro NUL_json_object) (auto simp: worker_members_def result_ok_def others_ok_def)
  then show ?thesis by (simp add: worker_document_def)
qed

subsection \<open>Reading the document\<close>

abbreviation root_of :: "string \<Rightarrow> json_range" where
  "root_of json \<equiv> \<lparr>jr_begin = 0, jr_end = length json\<rparr>"

lemma document_at:
  assumes "result_ok rnd r"
  shows "object_at (worker_document r) (root_of (worker_document r)) [] 0 (worker_members r) (nl 0)"
  using NUL_document [OF assms] by (simp add: object_at_def worker_document_def)

lemma members_clean_document:
  assumes "result_ok rnd r" "key \<in> result_keys"
  shows "members_clean key (wr_others1 r)" "members_clean key (wr_others2 r)" "clean key (acceptance_object r)"
    "clean key (masks_text (wr_masks r))" "clean key (quoted (wr_id r))" "clean key (all_metrics_object r)"
  using assms result_keys_ok [OF assms(2)]
  by (auto simp: result_ok_def literal_def
      intro: members_clean_others acceptance_object_clean masks_text_clean clean_string all_metrics_object_clean)

lemma document_error:
  assumes "result_ok rnd r"
  shows "extract_string (worker_document r) (root_of (worker_document r)) ''error'' sz = (CALIBRATION_ERR_JSON, [])"
proof -
  have key: "''error'' \<in> result_keys" by (simp add: result_keys_def)
  note clean = members_clean_document [OF assms key]
  have "clean ''error'' (quoted ''success'')" by (intro clean_string) simp_all
  with clean have "members_clean ''error'' (worker_members r)"
    using assms by (simp add: worker_members_def result_ok_def)
  then have "clean ''error'' (worker_document r)"
    unfolding worker_document_def by (intro clean_spaces clean_json_object nl_space) simp_all
  from find_key_value_None [OF NUL_document [OF assms] this] show ?thesis by (simp add: extract_string_def)
qed

lemma document_status:
  assumes "result_ok rnd r"
  shows "extract_string (worker_document r) (root_of (worker_document r)) ''status'' 32 = (CALIBRATION_OK, ''success'')"
proof (rule object_string)
  let ?ms = "[(''acceptance'', acceptance_object r), (''bank_masks'', masks_text (wr_masks r))] @ wr_others1 r @
     [(''mask_set_id'', quoted (wr_id r)), (''metrics'', all_metrics_object r)] @ wr_others2 r"
  show "object_at (worker_document r) (root_of (worker_document r)) [] 0 (?ms @ (''status'', quoted ''success'') # []) (nl 0)"
    using document_at [OF assms] by (simp add: worker_members_def)
  have "''status'' \<in> result_keys" by (simp add: result_keys_def)
  from members_clean_document [OF assms this] show "members_clean ''status'' ?ms" by simp
qed simp_all

lemma document_acceptance:
  assumes "result_ok rnd r"
  shows "Option.bind (extract_object (worker_document r) (root_of (worker_document r)) ''acceptance'')
    (\<lambda>acceptance. extract_bool (worker_document r) acceptance ''passed'') = Some True"
proof -
  let ?ms = "wr_acc r @ [(''passed'', show_bool True)]"
  have at: "object_at (worker_document r) (root_of (worker_document r)) [] 0
      ([] @ (''acceptance'', json_object 2 ?ms) # tl (worker_members r)) (nl 0)"
    using document_at [OF assms] by (simp add: worker_members_def acceptance_object_def)
  have "value_passes (show_bool True)"
    by (auto simp: value_passes_def show_bool_def intro!: passes_plain)
  moreover have "members_pass (wr_acc r)" using assms by (intro number_members_pass) (auto simp: result_ok_def)
  ultimately have "members_pass ?ms" by (auto simp: members_pass_def)
  then obtain x rng rest where obj: "extract_object (worker_document r) (root_of (worker_document r)) ''acceptance'' = Some rng"
    "object_at (worker_document r) rng x 2 ?ms rest"
    using object_object [OF at] by (metis key_ok_keys(13) members_clean_simps(1))
  have "members_clean ''passed'' (wr_acc r)" using assms by (auto simp: result_ok_def members_clean_def intro: number_text_clean)
  with object_bool [of "worker_document r" rng x 2 "wr_acc r" "''passed''" True "[]" rest] obj(2)
  have "extract_bool (worker_document r) rng ''passed'' = Some True" by simp
  with obj(1) show ?thesis by simp
qed

lemma document_masks:
  assumes "result_ok rnd r" and "cr_bank_mask_count out = 0"
  obtains masks where "extract_array (worker_document r) (root_of (worker_document r)) ''bank_masks'' = Some masks"
    "parse_bank_masks (worker_document r) masks out = (CALIBRATION_OK, foldl add_mask out (wr_masks r))"
proof -
  have at: "object_at (worker_document r) (root_of (worker_document r)) [] 0
      ([(''acceptance'', acceptance_object r)] @ (''bank_masks'', masks_text (wr_masks r)) # tl (tl (worker_members r))) (nl 0)"
    using document_at [OF assms(1)] by (simp add: worker_members_def)
  have "''bank_masks'' \<in> result_keys" by (simp add: result_keys_def)
  from members_clean_document [OF assms(1) this] have "members_clean ''bank_masks'' [(''acceptance'', acceptance_object r)]" by simp
  from object_masks [OF at _ this] obtain pre post where
    a: "extract_array (worker_document r) (root_of (worker_document r)) ''bank_masks'' =
          Some \<lparr>jr_begin = length pre, jr_end = length pre + length (masks_text (wr_masks r))\<rparr>"
      "worker_document r = pre @ masks_text (wr_masks r) @ post" by auto
  from parse_bank_masks_text [OF a(2) _ _ _ assms(2)] assms(1) that [OF a(1)] show ?thesis by (simp add: result_ok_def)
qed

lemma document_id:
  assumes "result_ok rnd r"
  shows "extract_string (worker_document r) (root_of (worker_document r)) ''mask_set_id'' CALIBRATION_MASK_SET_ID_MAX =
    (CALIBRATION_OK, wr_id r)"
proof (rule object_string)
  let ?ms = "[(''acceptance'', acceptance_object r), (''bank_masks'', masks_text (wr_masks r))] @ wr_others1 r"
  show "object_at (worker_document r) (root_of (worker_document r)) [] 0
      (?ms @ (''mask_set_id'', quoted (wr_id r)) # (''metrics'', all_metrics_object r) # wr_others2 r @ [(''status'', quoted ''success'')]) (nl 0)"
    using document_at [OF assms] by (simp add: worker_members_def)
  have "''mask_set_id'' \<in> result_keys" by (simp add: result_keys_def)
  from members_clean_document [OF assms this] show "members_clean ''mask_set_id'' ?ms" by simp
qed (use assms in \<open>simp_all add: result_ok_def\<close>)

lemma document_metrics:
  assumes "result_ok rnd r"
  obtains rng where "Option.bind (extract_object (worker_document r) (root_of (worker_document r)) ''metrics'')
      (\<lambda>metrics. extract_object (worker_document r) metrics ''holdout'') = Some rng"
    "\<And>h. load_holdout rnd (worker_document r) rng h = (True, read_metrics rnd (wr_holdout r))"
proof -
  let ?ms1 = "[(''acceptance'', acceptance_object r), (''bank_masks'', masks_text (wr_masks r))] @ wr_others1 r @
     [(''mask_set_id'', quoted (wr_id r))]"
  let ?ms = "[(''fit'', metrics_object (wr_fit r)), (''holdout'', metrics_object (wr_holdout r)), (''tune'', metrics_object (wr_tune r))]"
  have at: "object_at (worker_document r) (root_of (worker_document r)) [] 0
      (?ms1 @ (''metrics'', json_object 2 ?ms) # wr_others2 r @ [(''status'', quoted ''success'')]) (nl 0)"
    using document_at [OF assms] by (simp add: worker_members_def all_metrics_object_def)
  have "''metrics'' \<in> result_keys" by (simp add: result_keys_def)
  from members_clean_document [OF assms this] have c1: "members_clean ''metrics'' ?ms1" by simp
  have pass: "value_passes (metrics_object m)" for m
    unfolding metrics_object_def by (intro value_passes_object number_members_pass metrics_members_numbers)
  then have "members_pass ?ms" by (simp add: members_pass_def)
  with object_object [OF at _ c1] obtain x rng rest where obj:
    "extract_object (worker_document r) (root_of (worker_document r)) ''metrics'' = Some rng" "object_at (worker_document r) rng x 2 ?ms rest"
    by (metis key_ok_keys(16))
  from obj(2) have at2: "object_at (worker_document r) rng x 2 ([(''fit'', metrics_object (wr_fit r))] @
      (''holdout'', json_object 4 (metrics_members (wr_holdout r))) # [(''tune'', metrics_object (wr_tune r))]) rest"
    by (simp add: metrics_object_def)
  have "members_clean ''holdout'' [(''fit'', metrics_object (wr_fit r))]" using metrics_object_clean by simp
  moreover have "members_pass (metrics_members (wr_holdout r))" by (intro number_members_pass metrics_members_numbers)
  ultimately obtain x' rng' rest' where obj':
    "extract_object (worker_document r) rng ''holdout'' = Some rng'" "object_at (worker_document r) rng' x' 4 (metrics_members (wr_holdout r)) rest'"
    using object_object [OF at2] by (metis key_ok_keys(10))
  show ?thesis
  proof (rule that)
    show "Option.bind (extract_object (worker_document r) (root_of (worker_document r)) ''metrics'')
      (\<lambda>metrics. extract_object (worker_document r) metrics ''holdout'') = Some rng'" using obj(1) obj'(1) by simp
    show "load_holdout rnd (worker_document r) rng' h = (True, read_metrics rnd (wr_holdout r))" for h
      using load_holdout_object [OF obj'(2)] assms by (simp add: result_ok_def)
  qed
qed

text \<open>The result that is loaded.\<close>

definition loaded_result :: "rounding \<Rightarrow> printed_result \<Rightarrow> calibration_result" where
  "loaded_result rnd r =
     (foldl add_mask (calibration_result_reset\<lparr>cr_status_success := True, cr_acceptance_passed := True\<rparr>) (wr_masks r))
       \<lparr>cr_mask_set_id := wr_id r, cr_holdout := read_metrics rnd (wr_holdout r)\<rparr>"

lemma load_json_document:
  assumes "result_ok rnd r"
  shows "load_json rnd (worker_document r) = (CALIBRATION_OK, loaded_result rnd r)"
proof -
  let ?out = "calibration_result_reset\<lparr>cr_status_success := True, cr_acceptance_passed := True\<rparr>"
  have "cr_bank_mask_count ?out = 0" by (simp add: calibration_result_reset_def)
  then obtain masks where masks: "extract_array (worker_document r) (root_of (worker_document r)) ''bank_masks'' = Some masks"
    "parse_bank_masks (worker_document r) masks ?out = (CALIBRATION_OK, foldl add_mask ?out (wr_masks r))"
    using document_masks [OF assms] by blast
  obtain rng where rng: "Option.bind (extract_object (worker_document r) (root_of (worker_document r)) ''metrics'')
      (\<lambda>metrics. extract_object (worker_document r) metrics ''holdout'') = Some rng"
    "\<And>h. load_holdout rnd (worker_document r) rng h = (True, read_metrics rnd (wr_holdout r))"
    using document_metrics [OF assms] by blast
  have "load_mapping rnd (worker_document r) (root_of (worker_document r)) ?out = (CALIBRATION_OK, loaded_result rnd r)"
    using masks rng document_id [OF assms] by (simp add: load_mapping_def loaded_result_def)
  moreover have "cstr ''success'' = ''success''" by (simp add: cstr_def NUL_def)
  ultimately show ?thesis
    using document_error [OF assms] document_status [OF assms] document_acceptance [OF assms]
    by (simp add: load_json_def)
qed

end
