(* ===== verification/Calibration_Properties.thy ===== *)
theory Calibration_Properties
  imports Calibration_Document Calibration_Run_Correct
begin

text \<open>
  The properties of the calibration: the worker's document is read back, a run accepts only a fresh and complete result of a worker that
  ended well, a run with a timeout always returns, and what the key search does with nested members.
\<close>

subsection \<open>Reading the worker's document\<close>

text \<open>The operating system delivers the whole file and nothing fails.\<close>

definition delivers :: "os \<Rightarrow> string \<Rightarrow> string \<Rightarrow> bool" where
  "delivers os path text \<longleftrightarrow>
     (\<forall>w. os_fopen os w path = Some text \<and> os_ftell os w = int (length text) \<and> os_fseek os w \<and> os_fclose os w \<and>
        (\<forall>n. n \<le> os_fread os w n \<and> os_alloc os w n))"

lemma loaded_result_simps [simp]:
  "result_masks (loaded_result rnd r) = wr_masks r" "cr_mask_set_id (loaded_result rnd r) = wr_id r"
  "cr_holdout (loaded_result rnd r) = read_metrics rnd (wr_holdout r)" "cr_status_success (loaded_result rnd r)"
  "cr_acceptance_passed (loaded_result rnd r)" "cr_bank_mask_count (loaded_result rnd r) = length (wr_masks r)"
proof -
  let ?out = "calibration_result_reset\<lparr>cr_status_success := True, cr_acceptance_passed := True\<rparr>"
  have "result_masks ?out = []" by (simp add: result_masks_def calibration_result_reset_def)
  then have "result_masks (foldl add_mask ?out (wr_masks r)) = wr_masks r" by simp
  then show "result_masks (loaded_result rnd r) = wr_masks r" by (simp add: loaded_result_def result_masks_def)
qed (simp_all add: loaded_result_def calibration_result_reset_def)

lemma load_result_document:
  assumes "result_ok rnd r" "length (worker_document r) \<le> CALIBRATION_JSON_MAX_BYTES" "delivers os path (worker_document r)"
  shows "\<exists>w'. calibration_load_result rnd os (Some path) (Some out0) w = (CALIBRATION_OK, Some (loaded_result rnd r), w')"
proof -
  from read_file_limited_whole [of os w path "worker_document r"] assms(2,3) obtain w'
    where "read_file_limited os (Some path) w = (Inr (worker_document r), w')" unfolding delivers_def by blast
  then show ?thesis using load_json_document [OF assms(1)] by (simp add: calibration_load_result_def)
qed

text \<open>The mapping built from masks that are nonzero and distinct and an identifier that is a C string.\<close>

lemma mapping_of_masks:
  assumes "result_masks out = masks" "cr_status_success out" "cr_acceptance_passed out" "0 < cr_bank_mask_count out"
    and "cr_bank_mask_count out \<le> CALIBRATION_MAX_BANK_MASKS" "0 \<notin> set masks" "distinct masks"
    and "cr_mask_set_id out = i" "NUL \<notin> set i" "i \<noteq> []" "length i < CALIBRATION_MASK_SET_ID_MAX"
  obtains m' where "dram_mapping_init_from_calibration (Some m) (Some out) = (DRAM_MAPPING_OK, Some m')"
    "map (dm_masks m') [0..<dm_mask_count m'] = masks" "dm_mask_set_id m' = i" "dm_ready m'"
proof -
  let ?n = "cr_bank_mask_count out"
  have nth: "masks ! j = cr_bank_masks out j" "j < length masks" if "j < ?n" for j
    using that assms(1) by (auto simp: result_masks_def)
  have masks: "cr_bank_masks out j \<noteq> 0" if "j < ?n" for j
    using nth [OF that] assms(6) by (metis nth_mem)
  have diff: "cr_bank_masks out j \<noteq> cr_bank_masks out k" if "j < ?n" "k < j" for j k
  proof -
    have "k < ?n" using that by simp
    with nth [OF that(1)] nth [of k] assms(7) that(2) show ?thesis by (metis nth_eq_iff_index_eq nat_neq_iff)
  qed
  have len: "bounded_strlen i DRAM_MAPPING_MASK_SET_ID_MAX = length i"
    using assms(9,11) by (simp add: bounded_strlen_def DRAM_MAPPING_MASK_SET_ID_MAX_def cstr_id)
  have "validate_calibration_result out = DRAM_MAPPING_OK"
    unfolding validate_calibration_result_OK using assms(2-5,8,10,11) len masks diff
    by (auto simp: DRAM_MAPPING_MAX_MASKS_def DRAM_MAPPING_MASK_SET_ID_MAX_def)
  then show ?thesis
    using assms(1,8) len by (intro that) (auto simp: dram_mapping_init_from_calibration_def result_masks_def intro: map_cong)
qed

text \<open>C14: The result reader delivers what the worker wrote. For the document the worker prints for its masks, identifier and metrics, with
  whatever other members it adds that are not named like one the daemon reads, the loaded result has exactly these masks in their
  order, this identifier and these metrics, and the file is closed; the bank mapping built from it has these masks when they are distinct.\<close>

theorem load_result_reads_document:
  assumes "result_ok rnd r" and "length (worker_document r) \<le> CALIBRATION_JSON_MAX_BYTES"
    and "delivers os path (worker_document r)"
  shows "\<exists>out w'. calibration_load_result rnd os (Some path) (Some out0) w = (CALIBRATION_OK, Some out, w') \<and>
    w_open w' = w_open w \<and> result_masks out = wr_masks r \<and> cr_mask_set_id out = wr_id r \<and>
    cr_holdout out = read_metrics rnd (wr_holdout r) \<and>
    (distinct (wr_masks r) \<and> wr_id r \<noteq> [] \<longrightarrow>
      (\<exists>m'. dram_mapping_init_from_calibration (Some m) (Some out) = (DRAM_MAPPING_OK, Some m') \<and>
        map (dm_masks m') [0..<dm_mask_count m'] = wr_masks r \<and> dm_mask_set_id m' = wr_id r))"
proof -
  obtain w' where load: "calibration_load_result rnd os (Some path) (Some out0) w = (CALIBRATION_OK, Some (loaded_result rnd r), w')"
    using load_result_document [OF assms] by blast
  have "w_open w' = w_open w"
    using load read_file_limited_frame [of os "Some path" w]
    by (auto simp: calibration_load_result_def split: prod.splits sum.splits)
  moreover have "\<exists>m'. dram_mapping_init_from_calibration (Some m) (Some (loaded_result rnd r)) = (DRAM_MAPPING_OK, Some m') \<and>
      map (dm_masks m') [0..<dm_mask_count m'] = wr_masks r \<and> dm_mask_set_id m' = wr_id r"
    if "distinct (wr_masks r)" "wr_id r \<noteq> []"
    using mapping_of_masks [of "loaded_result rnd r" "wr_masks r" "wr_id r" m] assms(1) that
    by (auto simp: result_ok_def literal_def)
  ultimately show ?thesis using load by auto
qed

text \<open>A small document, with members the daemon does not read.\<close>

definition demo_metrics :: printed_metrics where
  "demo_metrics = \<lparr>pm_tp = 7, pm_tn = 5, pm_fp = 0, pm_fn = 1, pm_accuracy = (1, 0, 5), pm_precision = (1, 0, 0),
     pm_recall = (1, 0, 0), pm_f1 = (1, 1, 2)\<rparr>"

definition demo_result :: printed_result where
  "demo_result = \<lparr>wr_acc = [(''min_holdout_recall'', ''0.8'')], wr_masks = [0x60, 0x11], wr_others1 = [(''schema_version'', ''1'')],
     wr_id = ''ab12'', wr_fit = demo_metrics, wr_holdout = demo_metrics, wr_tune = demo_metrics, wr_others2 = [(''split_mode'', quoted ''cross'')]\<rparr>"

definition os_demo_file :: os where
  "os_demo_file = os_fine\<lparr>os_fopen := (\<lambda>_ _. Some (worker_document demo_result)),
     os_ftell := (\<lambda>_. int (length (worker_document demo_result)))\<rparr>"

lemma dec_ok_Fin: "1 \<le> fst d \<Longrightarrow> dec_ok Fin d"
proof -
  assume "1 \<le> fst d"
  then have "1 \<le> dec_val d" by (simp add: dec_val_def dec_value_def add_increasing2)
  moreover have "pow_real 2 (- 1022) \<le> 1" using pow_real_neg [of 2 1022] by simp
  ultimately show ?thesis by (simp add: dec_ok_def)
qed

lemma demo_result_ok: "result_ok Fin demo_result"
proof -
  have m: "metrics_ok Fin demo_metrics" by (simp add: metrics_ok_def demo_metrics_def dec_ok_Fin)
  have lit: "literal ''min_holdout_recall''" "literal ''schema_version''" "literal ''split_mode''" "literal ''ab12''" "literal ''cross''"
    "number_text ''0.8''" "number_text ''1''" by code_simp+
  have "others_ok [(''schema_version'', ''1'')]"
    using lit number_text_plain(4) [OF lit(7)] number_text_clean [OF lit(7)] by (simp add: others_ok_def result_keys_def)
  moreover have "clean key (quoted ''cross'')" if "key \<in> result_keys" for key
    using lit(5) result_keys_ok [OF that] by (intro clean_string) (simp_all add: literal_def)
  then have "others_ok [(''split_mode'', quoted ''cross'')]"
    using lit NUL_quoted [OF lit(5)] by (simp add: others_ok_def result_keys_def)
  ultimately show ?thesis
    using m lit by (simp add: result_ok_def demo_result_def result_keys_def CALIBRATION_MAX_BANK_MASKS_def CALIBRATION_MASK_SET_ID_MAX_def)
qed

lemma length_show_nat_digit: "n < 10 \<Longrightarrow> length (show_nat n) = 1"
  by (simp add: show_nat.simps)

lemmas document_defs = worker_document_def worker_members_def json_object_def json_member_def nl_def masks_text_def json_array_def
  acceptance_object_def all_metrics_object_def metrics_object_def metrics_members_def show_dec_def dec_text_def show_mask_def show_bool_def

lemma demo_document_fits: "length (worker_document demo_result) \<le> CALIBRATION_JSON_MAX_BYTES"
  by (simp add: document_defs demo_result_def demo_metrics_def length_show_nat_digit CALIBRATION_JSON_MAX_BYTES_def)

lemma demo_delivers: "delivers os_demo_file path (worker_document demo_result)"
  by (simp add: delivers_def os_demo_file_def os_fine_def)

theorem load_result_reads_document_witness:
  "\<exists>out w'. calibration_load_result Fin os_demo_file (Some ''/r'') (Some calibration_result_reset) world0 = (CALIBRATION_OK, Some out, w') \<and>
    result_masks out = [0x60, 0x11] \<and> cr_mask_set_id out = ''ab12''"
  using load_result_reads_document [OF demo_result_ok demo_document_fits demo_delivers, where path = "''/r''" and
      m = dram_mapping_reset and w = world0 and ?out0.0 = calibration_result_reset]
  by (auto simp: demo_result_def)

subsection \<open>A run accepts only a fresh result\<close>

lemma calibration_run_OK_valid:
  assumes "calibration_run rnd os (Some cfg) (Some out0) w = Some (CALIBRATION_OK, outp, w')"
  obtains path where "calibration_validate_config (Some cfg) = CALIBRATION_OK" "cc_result_path cfg = Some path"
proof -
  have "calibration_validate_config (Some cfg) = CALIBRATION_OK"
    using assms by (auto simp: calibration_run_def Let_def split: if_splits)
  moreover from this obtain path where "cc_result_path cfg = Some path"
    by (auto simp: calibration_validate_config_def split: if_splits)
  ultimately show ?thesis by (rule that)
qed

text \<open>What an accepted run went through: the stale result was removed or absent, then the worker ran, then the result file was read.\<close>

lemma calibration_run_accepted:
  assumes run: "calibration_run rnd os (Some cfg) (Some out0) w = Some (CALIBRATION_OK, outp, w')"
    and fork: "\<And>w. os_fork os w \<noteq> 0"
  obtains path stale pid status w1 json out where "cc_result_path cfg = Some path" "stale_removed os w path stale" "0 < pid"
    "went w (stale @ [Ev_forked pid, Ev_reaped pid status]) w1" "status mod 128 = 0" "status div 256 mod 256 = 0"
    "read_file_limited os (Some path) w1 = (Inr json, w')"
    "load_json rnd json = (CALIBRATION_OK, out)" "outp = Some (out\<lparr>cr_worker_exit_code := 0\<rparr>)"
proof -
  obtain path where path: "calibration_validate_config (Some cfg) = CALIBRATION_OK" "cc_result_path cfg = Some path"
    using calibration_run_OK_valid [OF run] .
  from run path(1) fork path(2) show ?thesis
  proof (cases rule: calibration_run_cases)
    case (not_started evs)
    then show ?thesis by simp
  next
    case (not_waited evs pid w2 code)
    then show ?thesis by simp
  next
    case (loaded evs pid w2 code w3 out)
    from loaded(4) obtain status where w3: "went w2 [Ev_reaped pid status] w3" and code: "status_code status code"
      by (auto simp: waited_def)
    have "went w (evs @ [Ev_forked pid, Ev_reaped pid status]) w3" using went_trans [OF loaded(3) w3] by simp
    moreover have "status mod 128 = 0" "status div 256 mod 256 = 0"
      using code finish_run_OK [OF loaded(5) path(2)] by (auto simp: status_code_def split: if_splits)
    ultimately show ?thesis using finish_run_OK [OF loaded(5) path(2)] loaded path(2) by (auto intro: that)
  qed
qed

text \<open>C7: A calibration is accepted only on fresh evidence. When a run returns success, an earlier result file had been removed or did not
  exist, then a worker was started and waited for, the status word of the wait says that it exited by itself and with code 0 (its low
  seven bits and its second byte are 0), and only then was the result file read;
  the text read there is a complete accepted result, with 1 to 32 nonzero masks; no file stays open and nothing else was done.\<close>

theorem calibration_run_fresh:
  assumes "calibration_run rnd os (Some cfg) (Some out0) w = Some (CALIBRATION_OK, outp, w')" and "\<And>w. os_fork os w \<noteq> 0"
  shows "\<exists>path stale pid status w1 json out. outp = Some out \<and> cc_result_path cfg = Some path \<and>
    (os_unlink os w path = None \<and> stale = [Ev_unlinked path] \<or> os_unlink os w path = Some ENOENT \<and> stale = []) \<and>
    0 < pid \<and> w_log w1 = w_log w @ stale @ [Ev_forked pid, Ev_reaped pid status] \<and>
    status mod 128 = 0 \<and> status div 256 mod 256 = 0 \<and>
    read_file_limited os (Some path) w1 = (Inr json, w') \<and> load_json rnd json = (CALIBRATION_OK, out\<lparr>cr_worker_exit_code := - 1\<rparr>) \<and>
    cr_worker_exit_code out = 0 \<and> cr_status_success out \<and> cr_acceptance_passed out \<and>
    0 < cr_bank_mask_count out \<and> cr_bank_mask_count out \<le> 32 \<and> 0 \<notin> set (result_masks out) \<and>
    w_log w' = w_log w1 \<and> w_open w' = w_open w \<and> w_writes w' = w_writes w"
proof -
  from calibration_run_accepted [OF assms] obtain path stale pid status w1 json out where
    run: "cc_result_path cfg = Some path" "stale_removed os w path stale" "0 < pid"
      "went w (stale @ [Ev_forked pid, Ev_reaped pid status]) w1" "status mod 128 = 0" "status div 256 mod 256 = 0"
      "read_file_limited os (Some path) w1 = (Inr json, w')" "load_json rnd json = (CALIBRATION_OK, out)"
      "outp = Some (out\<lparr>cr_worker_exit_code := 0\<rparr>)" by blast
  note frame = read_file_limited_frame [OF run(7)]
  have ok: "loaded_ok out" by (rule load_json_OK [OF run(8)])
  have code: "cr_worker_exit_code out = - 1" by (rule load_json_exit_code [OF run(8)])
  then have "out = out\<lparr>cr_worker_exit_code := - 1\<rparr>" by (cases out) simp
  with run frame ok show ?thesis
    by (intro exI [of _ path] exI [of _ stale] exI [of _ pid] exI [of _ status] exI [of _ w1] exI [of _ json]
        exI [of _ "out\<lparr>cr_worker_exit_code := 0\<rparr>"])
      (auto simp: stale_removed_def went_def loaded_ok_def result_masks_def CALIBRATION_MAX_BANK_MASKS_def)
qed

text \<open>A small valid configuration, and a run with it.\<close>

definition small_config :: calibration_config where
  "small_config =
     \<lparr>cc_worker_path = Some ''/w'', cc_kk_main_path = None, cc_result_path = Some ''/r'', cc_work_dir = Some ''/d'',
      cc_log_path = None, cc_runs = 1, cc_memory_percent = Fin 25, cc_measurements = 5, cc_timing_rounds = 2,
      cc_timeout_sec = 10, cc_keep_csv = False\<rparr>"

lemma small_config_valid: "calibration_validate_config (Some small_config) = CALIBRATION_OK"
  by (simp add: calibration_validate_config_def small_config_def)

text \<open>A run in which nothing fails and the worker's document is in the result file.\<close>

definition serves :: "os \<Rightarrow> bool" where
  "serves os \<longleftrightarrow> os_unlink os = os_unlink os_fine \<and> os_fork os = os_fork os_fine \<and> os_setpgid os = os_setpgid os_fine \<and>
     os_waitpid os = os_waitpid os_fine \<and> os_clock os = os_clock os_fine"

lemma served_run:
  assumes "serves os" "delivers os path (worker_document r)" "result_ok rnd r" "length (worker_document r) \<le> CALIBRATION_JSON_MAX_BYTES"
    and "calibration_validate_config (Some cfg) = CALIBRATION_OK" "cc_result_path cfg = Some path" "0 < cc_timeout_sec cfg"
  shows "\<exists>w'. calibration_run rnd os (Some cfg) (Some out0) w =
     Some (CALIBRATION_OK, Some ((loaded_result rnd r)\<lparr>cr_worker_exit_code := 0\<rparr>), w')"
proof -
  note os = assms(1) [unfolded serves_def os_fine_def os.simps]
  obtain w1 where u: "sys_unlink os (the (cc_result_path cfg)) w = (None, w1)" using os by (simp add: sys_unlink_def)
  obtain w2 where l: "launch_worker os w1 = Some (Inr 1000, w2)" using os by (simp add: launch_worker_def sys_fork_def sys_setpgid_def)
  obtain w3 where w: "wait_child os 1000 (cc_timeout_sec cfg) (- 1) w2 = Some (CALIBRATION_OK, 0, w3)"
    using os assms(7) by (simp add: wait_child_def monotonic_ms_def clock_gettime_def wait_loop.simps sys_waitpid_def
        WIFEXITED_def WEXITSTATUS_def)
  obtain w4 where "calibration_load_result rnd os (cc_result_path cfg) (Some calibration_result_reset) w3 =
      (CALIBRATION_OK, Some (loaded_result rnd r), w4)"
    using load_result_document [OF assms(3,4,2), of calibration_result_reset w3] assms(6) by auto
  then have "finish_run rnd os cfg 0 w3 = (CALIBRATION_OK, (loaded_result rnd r)\<lparr>cr_worker_exit_code := 0\<rparr>, w4)"
    by (simp add: finish_run_def)
  with l w show ?thesis by (simp add: calibration_run_started [OF assms(5) u _ l])
qed

lemma demo_run:
  "\<exists>w'. calibration_run Fin os_demo_file (Some small_config) (Some calibration_result_reset) world0 =
     Some (CALIBRATION_OK, Some ((loaded_result Fin demo_result)\<lparr>cr_worker_exit_code := 0\<rparr>), w')"
  by (rule served_run [OF _ demo_delivers demo_result_ok demo_document_fits small_config_valid])
    (simp_all add: serves_def os_demo_file_def small_config_def)

theorem calibration_run_fresh_witness:
  "\<exists>w'. calibration_run Fin os_demo_file (Some small_config) (Some calibration_result_reset) world0 =
     Some (CALIBRATION_OK, Some ((loaded_result Fin demo_result)\<lparr>cr_worker_exit_code := 0\<rparr>), w') \<and>
     w_open w' = 0 \<and> (\<exists>pid status. w_log w' = [Ev_unlinked ''/r'', Ev_forked pid, Ev_reaped pid status] \<and> status mod 128 = 0 \<and> status div 256 mod 256 = 0)"
proof -
  have fork: "os_fork os_demo_file w \<noteq> 0" for w by (simp add: os_demo_file_def os_fine_def)
  from demo_run obtain w' where run: "calibration_run Fin os_demo_file (Some small_config) (Some calibration_result_reset) world0 =
     Some (CALIBRATION_OK, Some ((loaded_result Fin demo_result)\<lparr>cr_worker_exit_code := 0\<rparr>), w')" ..
  from calibration_run_fresh [OF run fork] show ?thesis
    unfolding run by (auto simp: world0_def small_config_def) (simp add: os_demo_file_def os_fine_def)
qed


subsection \<open>A run returns\<close>

lemma valid_config_path:
  assumes "calibration_validate_config (Some cfg) = CALIBRATION_OK"
  obtains path where "cc_result_path cfg = Some path"
  using assms by (auto simp: calibration_validate_config_def split: if_splits)

text \<open>What the events of a run say about the worker it started.\<close>

definition run_events :: "os \<Rightarrow> world \<Rightarrow> calibration_rc \<Rightarrow> sys_event list \<Rightarrow> bool" where
  "run_events os w' rc evs \<longleftrightarrow>
    (\<forall>pid. Ev_forked pid \<in> set evs \<longrightarrow>
       (\<exists>status. Ev_reaped pid status \<in> set evs) \<or> Ev_kill (- pid) SIGKILL \<in> set evs \<or>
       rc = CALIBRATION_ERR_WAIT \<and> wait_refused os pid w') \<and>
    (rc = CALIBRATION_ERR_TIMEOUT \<longrightarrow> (\<exists>stale pid ending. evs = stale @ Ev_forked pid # ending \<and> ended_by pid ending))"

lemma run_events_ended:
  assumes "ended_by pid ending" "stale = [] \<or> stale = [Ev_unlinked path]"
  shows "run_events os w' rc (stale @ Ev_forked pid # ending)"
  using assms by (auto simp: run_events_def ended_by_def)

lemma run_events_other:
  assumes "rc \<noteq> CALIBRATION_ERR_TIMEOUT" "stale = [] \<or> stale = [Ev_unlinked path]"
  shows "run_events os w' rc (stale @ [Ev_forked pid, Ev_reaped pid status])" "run_events os w' rc stale"
    "rc = CALIBRATION_ERR_WAIT \<Longrightarrow> wait_refused os pid w' \<Longrightarrow> run_events os w' rc (stale @ [Ev_forked pid])"
  using assms by (auto simp: run_events_def)

lemma calibration_run_events:
  assumes run: "calibration_run rnd os (Some cfg) (Some out0) w = Some (rc, outp, w')"
    and valid: "calibration_validate_config (Some cfg) = CALIBRATION_OK" and fork: "\<And>w. os_fork os w \<noteq> 0"
    and path: "cc_result_path cfg = Some path"
  obtains evs where "went w evs w'" "run_events os w' rc evs"
  using run valid fork path
proof (cases rule: calibration_run_cases)
  case (not_started evs)
  from not_started(1) have "rc \<noteq> CALIBRATION_ERR_TIMEOUT" by auto
  with not_started run_events_ended run_events_other(2) that show ?thesis by metis
next
  case (not_waited evs pid w2 code)
  have evs: "evs = [] \<or> evs = [Ev_unlinked path]" using not_waited(1) by (auto simp: stale_removed_def)
  from not_waited(4,5) consider (ended) ending where "ended_by pid ending" "went w2 ending w'"
    | (reaped) status where "rc = CALIBRATION_ERR_WAIT" "went w2 [Ev_reaped pid status] w'"
    | (refused) "rc = CALIBRATION_ERR_WAIT" "wait_refused os pid w'" "went w2 [] w'" unfolding waited_def by auto
  then show ?thesis
  proof cases
    case ended
    then show ?thesis using that [of "evs @ Ev_forked pid # ending"] run_events_ended [OF ended(1) evs]
      went_trans [OF not_waited(3) ended(2)] by simp
  next
    case (reaped status)
    with went_trans [OF not_waited(3) reaped(2)] run_events_other(1) [OF _ evs] that show ?thesis by simp
  next
    case refused
    with went_trans [OF not_waited(3) refused(3)] run_events_other(3) [OF _ evs] that show ?thesis by simp
  qed
next
  case (loaded evs pid w2 code w3 out)
  have evs: "evs = [] \<or> evs = [Ev_unlinked path]" using loaded(1) by (auto simp: stale_removed_def)
  obtain status where "went w2 [Ev_reaped pid status] w'"
    using loaded(4) went_after [OF _ finish_run_went [OF loaded(5)]] by (auto simp: waited_def)
  from went_trans [OF loaded(3) this] have "went w (evs @ [Ev_forked pid, Ev_reaped pid status]) w'" by simp
  moreover have "rc \<noteq> CALIBRATION_ERR_TIMEOUT"
    using finish_run_code [OF loaded(5) path] by (auto simp: load_codes_def)
  ultimately show ?thesis using that run_events_other(1) evs by blast
qed

text \<open>While the clock can be read, only a wait that failed is left.\<close>

lemma wait_refused_live:
  assumes "os_live os" "wait_refused os pid w'"
  obtains v r status err where "w' = tick v" "os_waitpid os v pid True = (r, status, err)" "r < 0" "err \<noteq> EINTR"
proof -
  have "\<not> fst (monotonic_ms os v) < 0" for v
    using monotonic_ms_reads [of os v] assms(1) unfolding os_live_def by (metis fst_conv not_less)
  with assms(2) that show thesis unfolding wait_refused_def by blast
qed


text \<open>A worker that never ends by itself: only a blocking wait, after the group was killed, returns it.\<close>

definition os_hung :: os where
  "os_hung = os_fine\<lparr>os_waitpid := (\<lambda>_ pid nohang. if nohang then (0, 0, ENOENT) else (\<bar>pid\<bar>, 9, ENOENT))\<rparr>"

lemma os_hung_live: "os_live os_hung"
  by (rule seconds_live) (simp_all add: os_hung_def os_fine_def)

lemma hung_run:
  "\<exists>out w'. calibration_run rnd os_hung (Some small_config) (Some calibration_result_reset) world0 = Some (CALIBRATION_ERR_TIMEOUT, out, w')"
proof -
  define w1 where "w1 = (tick world0)\<lparr>w_log := [Ev_unlinked ''/r'']\<rparr>"
  have u: "sys_unlink os_hung (the (cc_result_path small_config)) world0 = (None, w1)"
    by (simp add: sys_unlink_def os_hung_def os_fine_def small_config_def w1_def world0_def)
  define w2 where "w2 = \<lparr>w_calls = 3, w_open = 0, w_writes = [], w_log = [Ev_unlinked ''/r'', Ev_forked 1000]\<rparr>"
  have l: "launch_worker os_hung w1 = Some (Inr 1000, w2)"
    by (simp add: launch_worker_def sys_fork_def sys_setpgid_def os_hung_def os_fine_def w1_def w2_def world0_def tick_def)
  note eval = monotonic_ms_def clock_gettime_def os_hung_def os_fine_def small_config_def
        wait_loop.simps term_loop.simps reap_loop.simps sys_waitpid_def sleep_ms_def sleep_loop.simps sys_nanosleep_def tick_def
        terminate_process_group_def sys_kill_def w2_def TERM_GRACE_MS_def WAIT_POLL_MS_def
  have w: "\<exists>c w3. wait_child os_hung 1000 (cc_timeout_sec small_config) (- 1) w2 = Some (CALIBRATION_ERR_TIMEOUT, c, w3)"
    by (simp add: wait_child_def eval)
  show ?thesis using w by (auto simp: calibration_run_started [OF small_config_valid u _ l])
qed


subsection \<open>The key search\<close>

text \<open>C36: The reader does not follow the structure of the document: it takes the first member of the wanted name at any depth. Whatever precedes,
  when it has no member of that name, and however deep the member is nested, the string found is the one of that member, also when the
  document has another member of the name at its top level.\<close>

theorem key_search_ignores_nesting:
  assumes "json = a @ quoted key @ CHR '':'' # ws @ quoted s @ r" and "NUL \<notin> set json" and "key_ok key" and "literal s"
    and "length s < sz" and "\<forall>x \<in> set ws. is_space x" and "\<not> has_member key a"
  shows "extract_string json (root_of json) key sz = (CALIBRATION_OK, s)"
proof (rule extract_string_text)
  have quote: "\<not> is_space CHR 0x22" by (simp add: is_space_def)
  have json: "json = a @ quoted key @ CHR '':'' # ws @ CHR 0x22 # s @ CHR 0x22 # r" using assms(1) by (simp add: quoted_def)
  show "find_key_value json (root_of json) key = Some (length (a @ quoted key @ CHR '':'' # ws))"
    using find_key_value_first [OF json assms(2,3,6) quote, of "length json" 0] assms(7) json by (simp add: clean_def)
  show "length (a @ quoted key @ CHR '':'' # ws) + length s + 2 \<le> jr_end (root_of json)"
    using assms(1) by simp
qed (use assms in simp_all)

text \<open>A worker that failed is taken for one that succeeded because of a member of an inner object.\<close>

definition nested_document :: string where
  "nested_document = ''{'' @ quoted ''log'' @ '':{'' @ quoted ''status'' @ '': '' @ quoted ''success'' @ ''},'' @
     quoted ''status'' @ '': '' @ quoted ''failed'' @ ''}''"

theorem key_search_ignores_nesting_witness:
  "extract_string nested_document (root_of nested_document) ''status'' 32 = (CALIBRATION_OK, ''success'')"
proof (rule key_search_ignores_nesting)
  let ?a = "''{'' @ quoted ''log'' @ '':{''"
  show "nested_document = ?a @ quoted ''status'' @ CHR '':'' # '' '' @ quoted ''success'' @ ''},'' @
     quoted ''status'' @ '': '' @ quoted ''failed'' @ ''}''" by (simp add: nested_document_def)
  have "clean ''status'' (''{'' @ quoted ''log'' @ CHR '':'' # ''{'')"
    by (intro clean_plain_append clean_member clean_plain) (simp_all add: is_space_def)
  then show "\<not> has_member ''status'' ?a" by (simp add: clean_def)
  show "NUL \<notin> set nested_document" by code_simp
qed (simp_all add: is_space_def)

end
