(* ===== verification/Daemon_Correct.thy ===== *)
theory Daemon_Correct
  imports Daemon_Main Calibration_Properties
begin

text \<open>
  The daemon as a whole: its start-up always comes to an end and refuses to go on without a validated bank mapping, and a daemon that ends has
  handled every event with the invariants of the event path and has only ever moved processes into the protected group.
\<close>

subsection \<open>What a handled event writes\<close>

text \<open>From \<open>w\<close> to \<open>w'\<close> only process ids were written to the protected group, and no file stayed open.\<close>

definition protected_moves :: "string \<Rightarrow> world \<Rightarrow> world \<Rightarrow> bool" where
  "protected_moves base w w' \<longleftrightarrow> w_open w' = w_open w \<and>
     (\<exists>moves. w_writes w' = w_writes w @ map (\<lambda>pid. (control_file_path base GROUP_PROTECTED ''cgroup.procs'', pid_line pid)) moves \<and>
        (\<forall>pid \<in> set moves. 0 < pid))"

lemma protected_moves_same: "w_open w' = w_open w \<Longrightarrow> w_writes w' = w_writes w \<Longrightarrow> protected_moves base w w'"
  by (auto simp: protected_moves_def intro: exI [of _ "[]"])

lemma protected_moves_trans:
  assumes "protected_moves base w w1" "protected_moves base w1 w2"
  shows "protected_moves base w w2"
proof -
  from assms obtain a b where "w_writes w1 = w_writes w @ map (\<lambda>pid. (control_file_path base GROUP_PROTECTED ''cgroup.procs'', pid_line pid)) a"
    "w_writes w2 = w_writes w1 @ map (\<lambda>pid. (control_file_path base GROUP_PROTECTED ''cgroup.procs'', pid_line pid)) b"
    "\<forall>pid \<in> set a. 0 < pid" "\<forall>pid \<in> set b. 0 < pid" unfolding protected_moves_def by auto
  with assms show ?thesis unfolding protected_moves_def by (intro conjI exI [of _ "a @ b"]) auto
qed

lemma move_pid_moves: "protected_moves base w (snd (cgroup_move_pid os base pid GROUP_PROTECTED w))"
proof -
  obtain rc w' where move: "cgroup_move_pid os base pid GROUP_PROTECTED w = (rc, w')" by (rule prod.exhaust)
  from cgroup_move_pid_cases [OF move] show ?thesis
  proof
    assume "rc = 0 \<and> 0 < pid \<and> managed_group GROUP_PROTECTED \<and>
      w_writes w' = w_writes w @ [(control_file_path base GROUP_PROTECTED ''cgroup.procs'', pid_line pid)]"
    with cgroup_move_pid_open [OF move] move show ?thesis
      unfolding protected_moves_def by (intro conjI exI [of _ "[pid]"]) simp_all
  next
    assume "rc = - 1 \<and> w_writes w' = w_writes w"
    with cgroup_move_pid_open [OF move] move show ?thesis by (auto intro: protected_moves_same)
  qed
qed

lemma handle_event_moves:
  assumes inv: "daemon_inv d" and h: "handle_event os base e d w = (d', w')"
  shows "protected_moves base w w'"
proof -
  have tab: "tab_inv (d_tab d)" using inv by (simp add: daemon_inv_def)
  have same: "protected_moves base w w" by (intro protected_moves_same) simp_all
  show ?thesis
  proof (cases "ev_type e")
    case EVENT_EXEC
    with h have "handle_event_exec os base e d w = (d', w')" by (simp add: handle_event_def)
    with tab show ?thesis
    proof (cases rule: handle_event_exec_cases)
      case refused
      with same show ?thesis by simp
    next
      case (entered p exe cmd w1)
      have "protected_moves base w w1" using entered(5,6) by (intro protected_moves_same) simp_all
      then show ?thesis using protected_moves_trans [OF _ move_pid_moves] unfolding entered(7) by (simp del: classify_simps)
    qed
  next
    case EVENT_FORK
    with h have "handle_event_fork os base e d w = (d', w')" by (simp add: handle_event_def)
    with tab show ?thesis
      by (cases rule: handle_event_fork_cases) (use same move_pid_moves in auto)
  qed (use h same in \<open>simp_all add: handle_event_def\<close>)
qed

text \<open>What handling keeps: the run, hence its invariant, and what was written.\<close>

definition handled :: "string \<Rightarrow> daemon \<times> world \<Rightarrow> daemon \<times> world \<Rightarrow> bool" where
  "handled base s s' \<longleftrightarrow>
     (daemon_run base (fst s) (snd s) \<longrightarrow> daemon_run base (fst s') (snd s') \<and> protected_moves base (snd s) (snd s'))"

lemma handled_refl [simp]: "handled base s s"
  by (simp add: handled_def protected_moves_same)

lemma handled_trans: "handled base s s1 \<Longrightarrow> handled base s1 s2 \<Longrightarrow> handled base s s2"
  by (auto simp: handled_def intro: protected_moves_trans)

lemma handled_poll: "handled base (d, w) (d, tick w)"
  by (simp add: handled_def protected_moves_same daemon_run.poll)

lemma handled_event: "handle_event os base e d w = s' \<Longrightarrow> handled base (d, w) s'"
  by (cases s') (auto simp: handled_def intro: daemon_run.event handle_event_moves daemon_run_inv)

lemma handled_events: "handle_events os base es d w = s' \<Longrightarrow> handled base (d, w) s'"
proof (induction os base es d w rule: handle_events.induct)
  case (2 os base e es d w)
  obtain d1 w1 where e: "handle_event os base e d w = (d1, w1)" by (rule prod.exhaust)
  with 2 show ?case using handled_trans [OF handled_event [OF e]] by auto
qed simp

text \<open>The loop returns only after a poll that failed, with its error.\<close>

lemma poll_loop_handled:
  assumes "poll_loop bpf os base d w = Some (err, d', w')"
  shows "handled base (d, w) (d', w') \<and> err < 0 \<and> (\<exists>wp. snd (bpf_ring_buffer_poll bpf wp) = err)"
proof -
  have "case (err, d', w') of (err, s') \<Rightarrow> handled base (d, w) s' \<and> err < 0 \<and> (\<exists>wp. snd (bpf_ring_buffer_poll bpf wp) = err)"
    using assms
  proof (rule poll_loop.raw_induct [rotated])
    fix loop :: "bpf_lib \<Rightarrow> os \<Rightarrow> string \<Rightarrow> daemon \<Rightarrow> world \<Rightarrow> (int \<times> daemon \<times> world) option" and bpf os base d w r
    assume IH: "\<And>bpf os base d w r. loop bpf os base d w = Some r \<Longrightarrow>
        (case r of (err, s') \<Rightarrow> handled base (d, w) s' \<and> err < 0 \<and> (\<exists>wp. snd (bpf_ring_buffer_poll bpf wp) = err))"
      and eq: "(case bpf_ring_buffer_poll bpf w of (events, err) \<Rightarrow>
          case handle_events os base events d (tick w) of
            (d', w') \<Rightarrow> if err < 0 then Some (err, d', w') else loop bpf os base d' w') = Some r"
    obtain events err where poll: "bpf_ring_buffer_poll bpf w = (events, err)" by (rule prod.exhaust)
    obtain d1 w1 where events: "handle_events os base events d (tick w) = (d1, w1)" by (rule prod.exhaust)
    note step = handled_trans [OF handled_poll handled_events [OF events]]
    show "case r of (err, s') \<Rightarrow> handled base (d, w) s' \<and> err < 0 \<and> (\<exists>wp. snd (bpf_ring_buffer_poll bpf wp) = err)"
    proof (cases "err < 0")
      case True
      with eq poll events step show ?thesis by (auto intro: exI [of _ w])
    next
      case False
      with eq poll events have "loop bpf os base d1 w1 = Some r" by simp
      from IH [OF this] handled_trans [OF step] show ?thesis by auto
    qed
  qed
  then show ?thesis by simp
qed

subsection \<open>Start-up\<close>

lemma daemon_calibration_config_valid: "calibration_validate_config (Some daemon_calibration_config) = CALIBRATION_OK"
  by (simp add: calibration_validate_config_def daemon_calibration_config_def)

lemma daemon_calibration_frame:
  assumes "calibration_run rnd os (Some daemon_calibration_config) (Some out0) w = Some (rc, outp, w')" "\<And>w. os_fork os w \<noteq> 0"
  shows "w_open w' = w_open w \<and> w_writes w' = w_writes w"
proof -
  have "cc_result_path daemon_calibration_config = Some ''/run/protected-daemon/dram-map.json''"
    by (simp add: daemon_calibration_config_def)
  from calibration_run_events [OF assms(1) daemon_calibration_config_valid assms(2) this] obtain evs where "went w evs w'" .
  then show ?thesis by (simp add: went_def)
qed

text \<open>The state of the context after start-up: the mapping is either absent or complete.\<close>

definition context_ok :: "daemon_context \<Rightarrow> bool" where
  "context_ok ctx \<longleftrightarrow>
     (dc_bank_mapping_ready ctx \<longleftrightarrow> dc_state ctx = DAEMON_STATE_BANK_READY) \<and>
     (dc_bank_mapping_ready ctx \<longrightarrow> dram_mapping_is_ready (Some (dc_dram_mapping ctx)) \<and> mapping_ok (dc_dram_mapping ctx))"

lemma init_dram_bank_mapping_cases:
  assumes "init_dram_bank_mapping rnd os (Some ctx0) w = Some (rc, ctxp, w')" "\<And>w. os_fork os w \<noteq> 0"
  obtains ctx where "ctxp = Some ctx" "context_ok ctx" "w_open w' = w_open w" "w_writes w' = w_writes w"
    "rc = 0 \<and> dc_state ctx = DAEMON_STATE_BANK_READY \<or> rc = - 1 \<and> dc_state ctx = DAEMON_STATE_FAILED"
proof -
  obtain rc1 outp w1 where run: "calibration_run rnd os (Some daemon_calibration_config) (Some (dc_calibration ctx0)) w = Some (rc1, outp, w1)"
    using assms(1) by (auto simp: init_dram_bank_mapping_def Let_def split: option.splits)
  note frame = daemon_calibration_frame [OF run assms(2)]
  show ?thesis
  proof (cases "rc1 = CALIBRATION_OK \<and> validate_calibration_result (the outp) = DRAM_MAPPING_OK")
    case True
    then obtain m where "dram_mapping_init_from_calibration (Some (dc_dram_mapping ctx0)) (Some (the outp)) = (DRAM_MAPPING_OK, Some m)"
      "mapping_ok m" "dm_ready m" by (metis init_from_calibration_OK)
    moreover from this have "dram_mapping_is_ready (Some m)" by (simp add: mapping_ok_def dram_mapping_is_ready_def)
    ultimately show ?thesis using assms(1) run frame True
      by (intro that) (auto simp: init_dram_bank_mapping_def context_ok_def Let_def)
  next
    case False
    with assms(1) run frame show ?thesis
      by (intro that [of "the ctxp"]) (auto simp: init_dram_bank_mapping_def context_ok_def Let_def init_from_calibration_refused split: if_splits)
  qed
qed


lemma init_dram_bank_mapping_returns:
  assumes "os_live os"
  shows "\<exists>r. init_dram_bank_mapping rnd os (Some ctx) w = Some r"
proof -
  have "0 < cc_timeout_sec daemon_calibration_config" by (simp add: daemon_calibration_config_def)
  from calibration_run_total [OF assms this, of rnd "dc_calibration ctx" w] obtain rc out w1 where
    "calibration_run rnd os (Some daemon_calibration_config) (Some (dc_calibration ctx)) w = Some (rc, Some out, w1)" by blast
  then show ?thesis by (auto simp: init_dram_bank_mapping_def Let_def split: prod.splits)
qed

lemma policy_load_config_frame:
  "policy_load_config os path w = (rc, names, w') \<Longrightarrow> w_open w' = w_open w \<and> w_writes w' = w_writes w"
  by (auto simp: policy_load_config_def fopen_r_def fclose_r_def Let_def split: option.splits)

text \<open>The outcomes of start-up.\<close>

definition started :: "os \<Rightarrow> bpf_lib \<Rightarrow> world \<Rightarrow> int option \<times> daemon \<times> daemon_context \<times> world \<Rightarrow> bool" where
  "started os bpf w r =
     (case r of (code, d, ctx, w') \<Rightarrow>
        w_open w' = w_open w \<and> w_writes w' = w_writes w \<and> d_tab d = process_table_reset \<and> d_daemon_pid d = os_getpid os \<and>
        context_ok ctx \<and> (code = None \<longrightarrow> dc_bank_mapping_ready ctx) \<and> code \<noteq> Some 0)"

lemma main_start_started:
  assumes "main_start rnd os bpf argv w = Some r" "\<And>w. os_fork os w \<noteq> 0"
  shows "started os bpf w r"
proof -
  obtain rc names w1 where cfg: "policy_load_config os (case argv of [] \<Rightarrow> ''config/protected.conf'' | arg # _ \<Rightarrow> arg) w = (rc, names, w1)"
    by (rule prod_cases3)
  note w1 = policy_load_config_frame [OF cfg]
  show ?thesis
  proof (cases "rc < 0")
    case True
    with assms(1) cfg w1 show ?thesis by (auto simp: main_start_def Let_def started_def context_ok_def g_ctx_zero_def)
  next
    case False
    obtain rc2 ctxp w2 where init: "init_dram_bank_mapping rnd os (Some (g_ctx_zero\<lparr>dc_state := DAEMON_STATE_CONFIG_READY\<rparr>)) w1 =
        Some (rc2, ctxp, w2)"
      using assms(1) cfg False by (auto simp: main_start_def Let_def split: option.splits)
    from init_dram_bank_mapping_cases [OF init assms(2)] obtain ctx where ctx: "ctxp = Some ctx" "context_ok ctx"
      "w_open w2 = w_open w1" "w_writes w2 = w_writes w1"
      "rc2 = 0 \<and> dc_state ctx = DAEMON_STATE_BANK_READY \<or> rc2 = - 1 \<and> dc_state ctx = DAEMON_STATE_FAILED" by blast
    from ctx(2,5) have ready: "\<not> rc2 < 0 \<Longrightarrow> dc_bank_mapping_ready ctx" by (auto simp: context_ok_def)
    from assms(1) cfg False init ctx(1) w1 ctx(2-4) ready show ?thesis
      by (auto simp: main_start_def Let_def started_def split: if_splits)
  qed
qed

lemma main_start_returns:
  assumes "os_live os"
  shows "\<exists>r. main_start rnd os bpf argv w = Some r"
proof -
  obtain rc names w1 where cfg: "policy_load_config os (case argv of [] \<Rightarrow> ''config/protected.conf'' | arg # _ \<Rightarrow> arg) w = (rc, names, w1)"
    by (rule prod_cases3)
  obtain rc2 ctxp w2 where "init_dram_bank_mapping rnd os (Some (g_ctx_zero\<lparr>dc_state := DAEMON_STATE_CONFIG_READY\<rparr>)) w1 =
        Some (rc2, ctxp, w2)" using init_dram_bank_mapping_returns [OF assms] by (metis surj_pair)
  with cfg show ?thesis by (simp add: main_start_def Let_def)
qed

text \<open>A machine on which everything works, with a configuration that names \<open>srv\<close>; the first poll hands over an exec event and fails.\<close>

definition os_start :: os where
  "os_start = os_demo_file\<lparr>os_fopen := (\<lambda>_ path. Some (if path = ''config/protected.conf'' then ''srv'' else worker_document demo_result))\<rparr>"

definition bpf_demo :: bpf_lib where
  "bpf_demo = \<lparr>bpf_open_and_load = (\<lambda>_. True), bpf_attach = (\<lambda>_. 0), bpf_ring_buffer_new = (\<lambda>_. True),
     bpf_ring_buffer_poll = (\<lambda>_. ([demo_exec], - 4))\<rparr>"

lemma os_start_fork: "os_fork os_start w \<noteq> 0"
  by (simp add: os_start_def os_demo_file_def os_fine_def)

lemma os_start_live: "os_live os_start"
  by (rule seconds_live) (simp_all add: os_start_def os_demo_file_def os_fine_def)

lemma os_start_calibrates:
  "\<exists>w'. calibration_run Fin os_start (Some daemon_calibration_config) (Some out0) w =
     Some (CALIBRATION_OK, Some ((loaded_result Fin demo_result)\<lparr>cr_worker_exit_code := 0\<rparr>), w')"
proof (rule served_run [OF _ _ demo_result_ok demo_document_fits daemon_calibration_config_valid])
  show "delivers os_start ''/run/protected-daemon/dram-map.json'' (worker_document demo_result)"
    by (simp add: delivers_def os_start_def os_demo_file_def os_fine_def)
qed (simp_all add: serves_def os_start_def os_demo_file_def daemon_calibration_config_def)

lemma demo_result_mapping:
  "\<exists>m'. dram_mapping_init_from_calibration (Some m) (Some ((loaded_result Fin demo_result)\<lparr>cr_worker_exit_code := 0\<rparr>)) =
     (DRAM_MAPPING_OK, Some m')"
proof -
  let ?out = "(loaded_result Fin demo_result)\<lparr>cr_worker_exit_code := 0\<rparr>"
  have masks: "result_masks ?out = [0x60, 0x11]" by (simp add: result_masks_exit_code demo_result_def)
  have "0 < cr_bank_mask_count ?out" "cr_bank_mask_count ?out \<le> CALIBRATION_MAX_BANK_MASKS"
    by (simp_all add: demo_result_def CALIBRATION_MAX_BANK_MASKS_def)
  moreover have "cr_mask_set_id ?out = ''ab12''" by (simp add: demo_result_def)
  ultimately show ?thesis
    using mapping_of_masks [OF masks, of "''ab12''" m] by (auto simp: CALIBRATION_MASK_SET_ID_MAX_def NUL_def)
qed

lemma demo_start: "\<exists>d ctx w'. main_start Fin os_start bpf_demo [] world0 = Some (None, d, ctx, w')"
proof -
  obtain names w1 where cfg: "policy_load_config os_start ''config/protected.conf'' world0 = (0, names, w1)"
    by (simp add: policy_load_config_def fopen_r_def fclose_r_def os_start_def)
  let ?out0 = "dc_calibration g_ctx_zero"
  obtain w2 where run: "calibration_run Fin os_start (Some daemon_calibration_config) (Some ?out0) w1 =
     Some (CALIBRATION_OK, Some ((loaded_result Fin demo_result)\<lparr>cr_worker_exit_code := 0\<rparr>), w2)" using os_start_calibrates by blast
  obtain m' where "dram_mapping_init_from_calibration (Some (dc_dram_mapping g_ctx_zero))
      (Some ((loaded_result Fin demo_result)\<lparr>cr_worker_exit_code := 0\<rparr>)) = (DRAM_MAPPING_OK, Some m')" using demo_result_mapping by blast
  with run obtain ctx where "init_dram_bank_mapping Fin os_start (Some (g_ctx_zero\<lparr>dc_state := DAEMON_STATE_CONFIG_READY\<rparr>)) w1 =
      Some (0, Some ctx, w2)" by (simp add: init_dram_bank_mapping_def)
  with cfg show ?thesis by (simp add: main_start_def bpf_demo_def)
qed

lemma demo_main: "\<exists>d ctx w'. daemon_main Fin os_start bpf_demo [] world0 = Some (4, d, ctx, w')"
proof -
  from demo_start obtain d ctx w1 where start: "main_start Fin os_start bpf_demo [] world0 = Some (None, d, ctx, w1)" by blast
  have "\<exists>d' w'. poll_loop bpf_demo os_start CGROUP_DEFAULT_BASE d w1 = Some (- 4, d', w')"
    by (subst poll_loop.simps) (simp add: bpf_demo_def split: prod.splits)
  with start show ?thesis by (auto simp: daemon_main_def)
qed

subsection \<open>Properties\<close>

text \<open>C8: Start-up comes to an end and fails closed. On an operating system whose clock and waits go on, everything before the event loop returns,
  with nothing written and no file left open; the process table is still empty. The loop is entered only with a bank
  mapping that is ready and valid, with 1 to 32 nonzero masks, no two equal; otherwise the exit code is not zero. The flag \<open>bank_mapping_ready\<close> is set
  exactly in the state \<open>DAEMON_STATE_BANK_READY\<close>.\<close>

theorem startup_fail_closed:
  assumes "os_live os" and "\<And>w. os_fork os w \<noteq> 0"
  shows "\<exists>code d ctx w'. main_start rnd os bpf argv w = Some (code, d, ctx, w') \<and>
    w_open w' = w_open w \<and> w_writes w' = w_writes w \<and> d_tab d = process_table_reset \<and>
    (dc_bank_mapping_ready ctx \<longleftrightarrow> dc_state ctx = DAEMON_STATE_BANK_READY) \<and>
    (case code of
       None \<Rightarrow> dc_bank_mapping_ready ctx \<and> dram_mapping_is_ready (Some (dc_dram_mapping ctx)) \<and>
         0 < dm_mask_count (dc_dram_mapping ctx) \<and> dm_mask_count (dc_dram_mapping ctx) \<le> 32 \<and>
         (\<forall>i < dm_mask_count (dc_dram_mapping ctx). dm_masks (dc_dram_mapping ctx) i \<noteq> 0) \<and>
         inj_on (dm_masks (dc_dram_mapping ctx)) {..<dm_mask_count (dc_dram_mapping ctx)}
     | Some c \<Rightarrow> c \<noteq> 0)"
proof -
  obtain code d ctx w' where start: "main_start rnd os bpf argv w = Some (code, d, ctx, w')"
    using main_start_returns [OF assms(1), of rnd bpf argv w] by (metis surj_pair)
  from main_start_started [OF start assms(2)] start show ?thesis
    by (cases code) (auto simp: started_def context_ok_def mapping_ok_def DRAM_MAPPING_MAX_MASKS_def CALIBRATION_MAX_BANK_MASKS_def)
qed

theorem startup_fail_closed_witness:
  "\<exists>d ctx w'. main_start Fin os_start bpf_demo [] world0 = Some (None, d, ctx, w') \<and> dc_state ctx = DAEMON_STATE_BANK_READY \<and>
     dram_mapping_is_ready (Some (dc_dram_mapping ctx))"
  using startup_fail_closed [OF os_start_live os_start_fork, of Fin bpf_demo "[]" world0] demo_start by auto

text \<open>C15: A daemon that ends has done nothing but protect. When \<open>main\<close> returns, its exit code is not zero; the process table came from an empty
  one by the events of the ring buffer, so that the invariants of the event path hold of it; no file stays
  open; all that was written are positive process ids to the protected group's \<open>cgroup.procs\<close>, and none of these without
  a ready, validated bank mapping; and when the mapping is ready and the programs were attached, it ended because a poll
  failed, with the negated error of that poll.\<close>

theorem daemon_main_exit:
  assumes "daemon_main rnd os bpf argv w = Some (code, d, ctx, w')" and "\<And>w. os_fork os w \<noteq> 0"
  shows "code \<noteq> 0 \<and> daemon_run CGROUP_DEFAULT_BASE d w' \<and> w_open w' = w_open w \<and>
    (\<exists>moves. w_writes w' = w_writes w @
        map (\<lambda>pid. (''/sys/fs/cgroup/cgroup_research/protected/cgroup.procs'', show_int pid @ [CHR 0x0A])) moves \<and>
      (\<forall>pid \<in> set moves. 0 < pid) \<and>
      (moves \<noteq> [] \<longrightarrow> dc_bank_mapping_ready ctx \<and> mapping_ok (dc_dram_mapping ctx))) \<and>
    (\<forall>d1 w1. main_start rnd os bpf argv w = Some (None, d1, ctx, w1) \<longrightarrow>
      (\<exists>wp. snd (bpf_ring_buffer_poll bpf wp) < 0 \<and> code = - snd (bpf_ring_buffer_poll bpf wp)))"
proof -
  obtain r d1 ctx1 w1 where start: "main_start rnd os bpf argv w = Some (r, d1, ctx1, w1)"
    using assms(1) by (cases "main_start rnd os bpf argv w") (auto simp: daemon_main_def)
  note s = main_start_started [OF start assms(2), unfolded started_def prod.case]
  have run: "daemon_run CGROUP_DEFAULT_BASE d1 w1" using s by (intro daemon_run.start) simp
  show ?thesis
  proof (cases r)
    case (Some c)
    with assms(1) start s run show ?thesis by (auto simp: daemon_main_def intro: exI [of _ "[]"])
  next
    case None
    then obtain err where loop: "poll_loop bpf os CGROUP_DEFAULT_BASE d1 w1 = Some (err, d, w')" and code: "code = - err" and ctx: "ctx = ctx1"
      using assms(1) start by (auto simp: daemon_main_def split: option.splits)
    note h = poll_loop_handled [OF loop]
    from h run have "daemon_run CGROUP_DEFAULT_BASE d w'" and moves: "protected_moves CGROUP_DEFAULT_BASE w1 w'"
      by (auto simp: handled_def)
    moreover have "dc_bank_mapping_ready ctx \<and> mapping_ok (dc_dram_mapping ctx)"
      using s None ctx by (auto simp: context_ok_def)
    moreover have "control_file_path CGROUP_DEFAULT_BASE GROUP_PROTECTED ''cgroup.procs'' =
        ''/sys/fs/cgroup/cgroup_research/protected/cgroup.procs''"
      by (simp add: control_file_path_def CGROUP_DEFAULT_BASE_def)
    moreover from h obtain wp where "err < 0" "snd (bpf_ring_buffer_poll bpf wp) = err" by blast
    ultimately show ?thesis using s code unfolding protected_moves_def pid_line_def by auto
  qed
qed

theorem daemon_main_exit_witness:
  "\<exists>d ctx w'. daemon_main Fin os_start bpf_demo [] world0 = Some (4, d, ctx, w') \<and> daemon_run CGROUP_DEFAULT_BASE d w' \<and>
     w_open w' = 0"
proof -
  from demo_main obtain d ctx w' where main: "daemon_main Fin os_start bpf_demo [] world0 = Some (4, d, ctx, w')" by blast
  from daemon_main_exit [OF main os_start_fork] main show ?thesis by (auto simp: world0_def)
qed

end
