(* ===== verification/Oracle_Config.thy ===== *)
theory Oracle_Config
  imports C_Number OS_World
begin

text \<open>
  The selective-control experiment
  (\<open>experiments/stage6_5/6_5d_selective_control/src/oracle_selective_control.c\<close>), first part: the random numbers and shuffles, the names
  and orders of its conditions, and the command line. \<open>size_t\<close> values are natural numbers below \<open>2 ^ 64\<close>.
\<close>

unbundle bit_operations_syntax

subsection \<open>Random numbers\<close>

text \<open>The new state and the value.\<close>

definition rng_next :: "u64 \<Rightarrow> u64 \<times> u64" where
  "rng_next state =
     (let x = (if state = 0 then 0x9e3779b97f4a7c15 else state);
          x = x XOR drop_bit 12 x;
          x = x XOR push_bit 25 x;
          x = x XOR drop_bit 27 x
      in (x, x * 2685821657736338717))"

text \<open>The loop of both shuffles, from index \<open>i\<close> down to 1.\<close>

fun shuffle_from :: "nat \<Rightarrow> u64 \<Rightarrow> 'a list \<Rightarrow> 'a list" where
  "shuffle_from 0 state vals = vals"
| "shuffle_from (Suc i) state vals =
     (let (state', r) = rng_next state;
          j = unat r mod (Suc i + 1)
      in shuffle_from i state' (vals[Suc i := vals ! j, j := vals ! Suc i]))"

definition shuffle_size_t :: "nat list \<Rightarrow> u64 \<Rightarrow> nat list" where
  "shuffle_size_t vals seed = (if length vals < 2 then vals else shuffle_from (length vals - 1) seed vals)"

definition shuffle_u64 :: "u64 list \<Rightarrow> u64 \<Rightarrow> u64 list" where
  "shuffle_u64 vals seed = (if length vals < 2 then vals else shuffle_from (length vals - 1) seed vals)"

subsection \<open>Conditions\<close>

datatype condition = CONDITION_NONE | CONDITION_UNCONTROLLED | CONDITION_SELECTIVE | CONDITION_ALL

definition CONDITION_COUNT :: nat where "CONDITION_COUNT = 4"

fun condition_name :: "condition \<Rightarrow> string" where
  "condition_name CONDITION_NONE = ''none''"
| "condition_name CONDITION_UNCONTROLLED = ''uncontrolled''"
| "condition_name CONDITION_SELECTIVE = ''selective''"
| "condition_name CONDITION_ALL = ''all''"

definition condition_from_name :: "string \<Rightarrow> condition option" where
  "condition_from_name text =
     (if text = ''none'' then Some CONDITION_NONE
      else if text = ''uncontrolled'' then Some CONDITION_UNCONTROLLED
      else if text = ''selective'' then Some CONDITION_SELECTIVE
      else if text = ''all'' then Some CONDITION_ALL
      else None)"

text \<open>The tokens \<open>strtok_r\<close> delivers one after the other.\<close>

function strtok_tokens :: "char \<Rightarrow> string \<Rightarrow> string list" where
  "strtok_tokens sep s =
     (let t = dropWhile (\<lambda>c. c = sep) s
      in if t = [] then []
         else takeWhile (\<lambda>c. c \<noteq> sep) t # strtok_tokens sep (dropWhile (\<lambda>c. c \<noteq> sep) t))"
  by pat_completeness auto
termination
proof (relation "measure (\<lambda>(sep, s). length s)", goal_cases)
  case 1
  show ?case by simp
next
  case (2 sep s t)
  then have "t \<noteq> []" "hd t \<noteq> sep" "length t \<le> length s"
    using hd_dropWhile [of "\<lambda>c. c = sep" s] by (auto intro: length_dropWhile_le)
  moreover from this have "length (dropWhile (\<lambda>c. c \<noteq> sep) t) < length t"
    by (cases t) (auto intro: le_imp_less_Suc length_dropWhile_le)
  ultimately show ?case by simp
qed

declare strtok_tokens.simps [simp del]

text \<open>The loop over the tokens; \<open>seen[condition]\<close> holds for the conditions stored so far.\<close>

fun order_loop :: "string list \<Rightarrow> condition list \<Rightarrow> condition list option" where
  "order_loop [] order = Some order"
| "order_loop (token # tokens) order =
     (if CONDITION_COUNT \<le> length order then None
      else case condition_from_name token of
        None \<Rightarrow> None
      | Some condition \<Rightarrow> if condition \<in> set order then None else order_loop tokens (order @ [condition]))"

definition parse_order :: "string \<Rightarrow> condition list option" where
  "parse_order text =
     (if 128 \<le> length text then None
      else case order_loop (strtok_tokens CHR '','' text) [] of
        None \<Rightarrow> None
      | Some order \<Rightarrow> if length order \<noteq> CONDITION_COUNT then None else Some order)"

subsection \<open>Numbers\<close>

definition parse_size :: "string \<Rightarrow> nat option" where
  "parse_size text =
     (case strtoull 10 text of
        (v, erange, rest) \<Rightarrow> if erange \<or> length rest = length text \<or> rest \<noteq> [] then None else Some (unat v))"

definition parse_uint :: "string \<Rightarrow> u32 option" where
  "parse_uint text =
     (case parse_size text of None \<Rightarrow> None | Some v \<Rightarrow> if 2 ^ 32 - 1 < v then None else Some (of_nat v))"

definition parse_int :: "string \<Rightarrow> int option" where
  "parse_int text =
     (case strtoll 10 text of
        (v, erange, rest) \<Rightarrow>
          if erange \<or> length rest = length text \<or> rest \<noteq> [] \<or> v < - (2 ^ 31) \<or> 2 ^ 31 - 1 < v then None else Some v)"

definition parse_u64 :: "string \<Rightarrow> u64 option" where
  "parse_u64 text =
     (case strtoull 0 text of
        (v, erange, rest) \<Rightarrow> if erange \<or> length rest = length text \<or> rest \<noteq> [] then None else Some v)"

subsection \<open>Command line\<close>

record config =
  cf_pool_mib :: nat
  cf_workset_mib :: nat
  cf_group_classes :: nat
  cf_seconds :: u32
  cf_victim_cpu :: int
  cf_high_aggressor_cpu :: int
  cf_low_aggressor_cpu :: int
  cf_throttle_quota_us :: u32
  cf_throttle_period_us :: u32
  cf_seed :: u64
  cf_self_test :: bool
  cf_order :: "condition list"

definition config_default :: config where
  "config_default =
     \<lparr>cf_pool_mib = 2048, cf_workset_mib = 64, cf_group_classes = 16, cf_seconds = 10,
      cf_victim_cpu = 14, cf_high_aggressor_cpu = 12, cf_low_aggressor_cpu = 10,
      cf_throttle_quota_us = 50000, cf_throttle_period_us = 100000, cf_seed = 20260814, cf_self_test = False,
      cf_order = [CONDITION_NONE, CONDITION_UNCONTROLLED, CONDITION_SELECTIVE, CONDITION_ALL]\<rparr>"

definition config_self_test :: "config \<Rightarrow> config" where
  "config_self_test cfg =
     cfg\<lparr>cf_self_test := True, cf_pool_mib := 512, cf_workset_mib := 8, cf_group_classes := 8, cf_seconds := 2\<rparr>"

text \<open>The option and its value: the assignment, or \<open>None\<close> for a value that is refused.\<close>

definition nonzero :: "'a::zero option \<Rightarrow> 'a option" where
  "nonzero v = (case v of None \<Rightarrow> None | Some x \<Rightarrow> if x = 0 then None else Some x)"

definition option_names :: "string list" where
  "option_names = [''--pool-mib'', ''--workset-mib'', ''--classes'', ''--seconds'', ''--victim-cpu'', ''--high-cpu'', ''--low-cpu'',
     ''--throttle-quota-us'', ''--throttle-period-us'', ''--seed'', ''--order'']"

definition set_option :: "string \<Rightarrow> string \<Rightarrow> config \<Rightarrow> config option" where
  "set_option arg text cfg =
     (if arg = ''--pool-mib'' then map_option (\<lambda>v. cfg\<lparr>cf_pool_mib := v\<rparr>) (nonzero (parse_size text))
      else if arg = ''--workset-mib'' then map_option (\<lambda>v. cfg\<lparr>cf_workset_mib := v\<rparr>) (nonzero (parse_size text))
      else if arg = ''--classes'' then map_option (\<lambda>v. cfg\<lparr>cf_group_classes := v\<rparr>) (nonzero (parse_size text))
      else if arg = ''--seconds'' then map_option (\<lambda>v. cfg\<lparr>cf_seconds := v\<rparr>) (nonzero (parse_uint text))
      else if arg = ''--victim-cpu'' then map_option (\<lambda>v. cfg\<lparr>cf_victim_cpu := v\<rparr>) (parse_int text)
      else if arg = ''--high-cpu'' then map_option (\<lambda>v. cfg\<lparr>cf_high_aggressor_cpu := v\<rparr>) (parse_int text)
      else if arg = ''--low-cpu'' then map_option (\<lambda>v. cfg\<lparr>cf_low_aggressor_cpu := v\<rparr>) (parse_int text)
      else if arg = ''--throttle-quota-us'' then map_option (\<lambda>v. cfg\<lparr>cf_throttle_quota_us := v\<rparr>) (nonzero (parse_uint text))
      else if arg = ''--throttle-period-us'' then map_option (\<lambda>v. cfg\<lparr>cf_throttle_period_us := v\<rparr>) (nonzero (parse_uint text))
      else if arg = ''--seed'' then map_option (\<lambda>v. cfg\<lparr>cf_seed := v\<rparr>) (parse_u64 text)
      else if arg = ''--order'' then map_option (\<lambda>v. cfg\<lparr>cf_order := v\<rparr>) (parse_order text)
      else None)"

text \<open>\<open>ARGS_HELP\<close> is the exit with success after the usage text.\<close>

datatype args_result = ARGS_OK config | ARGS_INVALID | ARGS_HELP

text \<open>The second loop over the arguments; an option takes the argument after it.\<close>

fun parse_options :: "string list \<Rightarrow> config \<Rightarrow> args_result" where
  "parse_options [] cfg = ARGS_OK cfg"
| "parse_options (arg # rest) cfg =
     (if arg = ''--self-test'' then parse_options rest cfg
      else if arg \<in> set option_names
      then (case rest of
              [] \<Rightarrow> ARGS_INVALID
            | text # tail \<Rightarrow>
                (case set_option arg text cfg of None \<Rightarrow> ARGS_INVALID | Some cfg' \<Rightarrow> parse_options tail cfg'))
      else if arg = ''-h'' \<or> arg = ''--help'' then ARGS_HELP
      else ARGS_INVALID)"

text \<open>\<open>argv\<close> without the program's name.\<close>

definition parse_args :: "string list \<Rightarrow> args_result" where
  "parse_args argv =
     (let self_test = list_ex (\<lambda>a. a = ''--self-test'') argv;
          cfg = (if self_test then config_self_test config_default else config_default)
      in case parse_options argv cfg of
        ARGS_OK cfg \<Rightarrow>
          if cf_victim_cpu cfg = cf_high_aggressor_cpu cfg \<or> cf_victim_cpu cfg = cf_low_aggressor_cpu cfg \<or>
             cf_high_aggressor_cpu cfg = cf_low_aggressor_cpu cfg \<or> cf_throttle_period_us cfg < cf_throttle_quota_us cfg
          then ARGS_INVALID else ARGS_OK cfg
      | r \<Rightarrow> r)"

subsection \<open>Shuffles permute\<close>

lemma mset_shuffle_from: "i < length vals \<Longrightarrow> mset (shuffle_from i state vals) = mset vals"
proof (induction i state vals rule: shuffle_from.induct)
  case (2 i state vals)
  obtain state' r where r: "rng_next state = (state', r)" by (rule prod.exhaust)
  let ?j = "unat r mod (Suc i + 1)"
  have "?j < Suc i + 1" by (rule mod_less_divisor) simp
  then have j: "?j < length vals" using 2(2) by linarith
  from 2 r have "mset (shuffle_from (Suc i) state vals) = mset (vals[Suc i := vals ! ?j, ?j := vals ! Suc i])"
    by (simp add: Let_def)
  also have "\<dots> = mset vals" using j 2(2) by (rule mset_swap)
  finally show ?case .
qed simp

lemma mset_shuffle [simp]:
  "mset (shuffle_size_t ns seed) = mset ns" "mset (shuffle_u64 ws seed) = mset ws"
  by (auto simp: shuffle_size_t_def shuffle_u64_def mset_shuffle_from)

lemma shuffle_simps [simp]:
  "length (shuffle_size_t ns seed) = length ns" "set (shuffle_size_t ns seed) = set ns"
  "distinct (shuffle_size_t ns seed) = distinct ns"
  "length (shuffle_u64 ws seed) = length ws" "set (shuffle_u64 ws seed) = set ws"
  "distinct (shuffle_u64 ws seed) = distinct ws"
  by (metis mset_shuffle size_mset mset_eq_setD mset_eq_imp_distinct_iff)+

end
