(* ===== verification/Oracle_Lines.thy ===== *)
theory Oracle_Lines
  imports Oracle_Config Addr_Translate Dram_Mapping
begin

text \<open>
  The selective-control experiment, second part: the pools of memory and their physical pages, the classification of cache lines
  by bank class, the choice of classes, the collection of the worksets and the histograms
  (\<open>oracle_selective_control.c\<close>). Addresses and \<open>size_t\<close> counts are natural numbers, class values are \<open>uint64_t\<close>; counters of lines are natural
  numbers, since they are bounded by the number of lines of a pool. Whether the allocations of a call succeed is its argument \<open>mem\<close>. Messages
  are left out.
\<close>

unbundle bit_operations_syntax

definition CACHELINE_BYTES :: nat where "CACHELINE_BYTES = 64"
definition MIB_BYTES :: nat where "MIB_BYTES = 1024 * 1024"
definition SIZE_MAX :: nat where "SIZE_MAX = 2 ^ 64 - 1"

definition PAGEMAP_PRESENT :: u64 where "PAGEMAP_PRESENT = push_bit 63 1"
definition PAGEMAP_SWAPPED :: u64 where "PAGEMAP_SWAPPED = push_bit 62 1"
definition ORACLE_PFN_MASK :: u64 where "ORACLE_PFN_MASK = push_bit 55 1 - 1"

subsection \<open>Pools\<close>

record memory_pool =
  mp_base :: nat
  mp_bytes :: nat
  mp_page_size :: nat
  mp_page_count :: nat
  mp_pfns :: "u64 list"

definition read_one_pfn :: "os \<Rightarrow> int \<Rightarrow> nat \<Rightarrow> nat \<Rightarrow> world \<Rightarrow> (int + u64) \<times> world" where
  "read_one_pfn os pagemap_fd virtual_address page_size w =
     (if page_size = 0 then (Inl (- 1), w)
      else let vpn = of_nat (virtual_address div page_size) :: u64;
               (bytes, w') = sys_pread os pagemap_fd (vpn * 8) w
      in if length bytes \<noteq> 8 then (Inl (- 1), w')
      else let entry = decode_u64_le bytes
      in if entry AND PAGEMAP_PRESENT = 0 then (Inl (- 2), w')
      else if entry AND PAGEMAP_SWAPPED \<noteq> 0 then (Inl (- 3), w')
      else let pfn = entry AND ORACLE_PFN_MASK
      in if pfn = 0 then (Inl (- 4), w') else (Inr pfn, w'))"

text \<open>The loop over the pages: the array of frame numbers and the number of valid ones. The other counters only appear in a message.\<close>

fun read_pfns :: "os \<Rightarrow> int \<Rightarrow> nat \<Rightarrow> nat \<Rightarrow> nat list \<Rightarrow> u64 list \<times> nat \<Rightarrow> world \<Rightarrow> (u64 list \<times> nat) \<times> world" where
  "read_pfns os fd base page_size [] acc w = (acc, w)"
| "read_pfns os fd base page_size (i # is) (pfns, valid) w =
     (case read_one_pfn os fd (base + i * page_size) page_size w of
        (Inr pfn, w') \<Rightarrow> read_pfns os fd base page_size is (pfns[i := pfn], valid + 1) w'
      | (Inl _, w') \<Rightarrow> read_pfns os fd base page_size is (pfns, valid) w')"

text \<open>\<open>base\<close> is the address \<open>mmap\<close> delivers and \<open>advised\<close> whether \<open>madvise\<close> succeeds. The bytes written to fault the pages in are
  overwritten by the pointer chains where it matters, and are left out.\<close>

definition pool_create :: "os \<Rightarrow> nat option \<Rightarrow> bool \<Rightarrow> bool \<Rightarrow> nat \<Rightarrow> nat \<Rightarrow> world \<Rightarrow> memory_pool option \<times> world" where
  "pool_create os base advised mem pool_mib page_size w =
     (if pool_mib = 0 \<or> page_size = 0 then (None, w)
      else if SIZE_MAX div MIB_BYTES < pool_mib then (None, w)
      else let bytes = pool_mib * MIB_BYTES
      in if bytes mod page_size \<noteq> 0 then (None, w)
      else let page_count = bytes div page_size
      in case base of
        None \<Rightarrow> (None, w)
      | Some a \<Rightarrow>
          if \<not> advised \<or> \<not> mem then (None, w)
          else let (fd, w1) = sys_open os ''/proc/self/pagemap'' w
          in if fd < 0 then (None, w1)
          else let ((pfns, valid), w2) = read_pfns os fd a page_size [0..<page_count] (replicate page_count 0, 0) w1;
                   w3 = sys_close w2
          in if valid \<noteq> page_count then (None, w3)
             else (Some \<lparr>mp_base = a, mp_bytes = bytes, mp_page_size = page_size, mp_page_count = page_count, mp_pfns = pfns\<rparr>, w3))"

text \<open>The counts of moved and of unreadable pages.\<close>

fun verify_pages :: "os \<Rightarrow> int \<Rightarrow> memory_pool \<Rightarrow> nat list \<Rightarrow> nat \<times> nat \<Rightarrow> world \<Rightarrow> (nat \<times> nat) \<times> world" where
  "verify_pages os fd pool [] acc w = (acc, w)"
| "verify_pages os fd pool (i # is) (moved, unreadable) w =
     (case read_one_pfn os fd (mp_base pool + i * mp_page_size pool) (mp_page_size pool) w of
        (Inl _, w') \<Rightarrow> verify_pages os fd pool is (moved, unreadable + 1) w'
      | (Inr pfn, w') \<Rightarrow>
          verify_pages os fd pool is (if pfn \<noteq> mp_pfns pool ! i then moved + 1 else moved, unreadable) w')"

definition verify_pool_pfns :: "os \<Rightarrow> memory_pool \<Rightarrow> world \<Rightarrow> (nat \<times> nat) option \<times> world" where
  "verify_pool_pfns os pool w =
     (let (fd, w1) = sys_open os ''/proc/self/pagemap'' w
      in if fd < 0 then (None, w1)
      else let (r, w2) = verify_pages os fd pool [0..<mp_page_count pool] (0, 0) w1
      in (Some r, sys_close w2))"

subsection \<open>Classes of cache lines\<close>

definition class_space_from_mapping :: "dram_mapping \<Rightarrow> nat option" where
  "class_space_from_mapping mapping =
     (if \<not> dram_mapping_is_ready (Some mapping) then None
      else if 20 < dm_mask_count mapping then None
      else let space64 = 2 ^ dm_mask_count mapping
      in if SIZE_MAX < space64 then None else Some space64)"

definition build_offset_classes :: "bool \<Rightarrow> dram_mapping \<Rightarrow> nat \<Rightarrow> u64 list option" where
  "build_offset_classes mem mapping page_size =
     (if page_size mod CACHELINE_BYTES \<noteq> 0 then None
      else let lines_per_page = page_size div CACHELINE_BYTES
      in if \<not> mem then None
      else Some (map (\<lambda>line. dram_mapping_bank_class_fast mapping (of_nat (line * CACHELINE_BYTES))) [0..<lines_per_page]))"

text \<open>The loop over the lines of one page, and the loop over the pages.\<close>

fun count_lines :: "nat \<Rightarrow> u64 \<Rightarrow> u64 list \<Rightarrow> nat list \<Rightarrow> nat list option" where
  "count_lines class_space base_class [] counts = Some counts"
| "count_lines class_space base_class (offset_class # rest) counts =
     (let cls = unat (base_class XOR offset_class)
      in if class_space \<le> cls then None
         else count_lines class_space base_class rest (counts[cls := counts ! cls + 1]))"

definition page_class :: "dram_mapping \<Rightarrow> nat \<Rightarrow> u64 \<Rightarrow> u64" where
  "page_class mapping page_size pfn = dram_mapping_bank_class_fast mapping (pfn * of_nat page_size)"

fun count_pages :: "dram_mapping \<Rightarrow> nat \<Rightarrow> nat \<Rightarrow> u64 list \<Rightarrow> u64 list \<Rightarrow> nat list \<Rightarrow> nat list option" where
  "count_pages mapping page_size class_space offset_classes [] counts = Some counts"
| "count_pages mapping page_size class_space offset_classes (pfn # pfns) counts =
     (case count_lines class_space (page_class mapping page_size pfn) offset_classes counts of
        None \<Rightarrow> None
      | Some counts' \<Rightarrow> count_pages mapping page_size class_space offset_classes pfns counts')"

definition count_line_classes :: "memory_pool \<Rightarrow> dram_mapping \<Rightarrow> u64 list \<Rightarrow> nat \<Rightarrow> nat list option" where
  "count_line_classes pool mapping offset_classes class_space =
     count_pages mapping (mp_page_size pool) class_space offset_classes (mp_pfns pool) (replicate class_space 0)"

subsection \<open>Choice of classes\<close>

definition eligible_class :: "nat list \<Rightarrow> nat list \<Rightarrow> nat list \<Rightarrow> nat \<Rightarrow> nat \<Rightarrow> bool" where
  "eligible_class victim_counts high_counts low_counts quota_lines cls \<longleftrightarrow>
     quota_lines \<le> victim_counts ! cls \<and> quota_lines \<le> high_counts ! cls \<and> quota_lines \<le> low_counts ! cls"

text \<open>The classes of the victim (and of the high aggressor), and those of the low aggressor. The product \<open>group_classes * 2U\<close> wraps.\<close>

definition choose_class_sets ::
  "bool \<Rightarrow> nat list \<Rightarrow> nat list \<Rightarrow> nat list \<Rightarrow> nat \<Rightarrow> nat \<Rightarrow> nat \<Rightarrow> u64 \<Rightarrow> (u64 list \<times> u64 list) option" where
  "choose_class_sets mem victim_counts high_counts low_counts class_space group_classes quota_lines seed =
     (if group_classes = 0 \<or> quota_lines = 0 then None
      else if \<not> mem then None
      else let candidates = map of_nat (filter (eligible_class victim_counts high_counts low_counts quota_lines) [0..<class_space])
      in if length candidates < group_classes * 2 mod 2 ^ 64 then None
      else let shuffled = shuffle_u64 candidates seed
      in Some (map (\<lambda>i. shuffled ! i) [0..<group_classes], map (\<lambda>i. shuffled ! (group_classes + i)) [0..<group_classes]))"

subsection \<open>Collection of a workset\<close>

record line_set =
  ls_pool :: memory_pool
  ls_addresses :: "nat list"
  ls_line_count :: nat

text \<open>The array \<open>class_to_slot\<close>: \<open>None\<close> is the entry -1. A class outside the space ends the function.\<close>

fun fill_slots :: "nat \<Rightarrow> nat \<Rightarrow> u64 list \<Rightarrow> (nat \<Rightarrow> nat option) \<Rightarrow> (nat \<Rightarrow> nat option) option" where
  "fill_slots class_space slot [] class_to_slot = Some class_to_slot"
| "fill_slots class_space slot (cls # classes) class_to_slot =
     (if class_space \<le> unat cls then None
      else fill_slots class_space (slot + 1) classes (class_to_slot(unat cls := Some slot)))"

record collection =
  co_addresses :: "nat list"
  co_filled :: "nat list"
  co_remaining :: nat

text \<open>One line that belongs to slot \<open>slot\<close>.\<close>

definition take_line :: "nat \<Rightarrow> nat \<Rightarrow> nat \<Rightarrow> collection \<Rightarrow> collection" where
  "take_line quota_lines slot address co =
     (let k = co_filled co ! slot
      in if quota_lines \<le> k then co
         else \<lparr>co_addresses = (co_addresses co)[slot * quota_lines + k := address],
               co_filled = (co_filled co)[slot := k + 1],
               co_remaining = (if k + 1 = quota_lines then co_remaining co - 1 else co_remaining co)\<rparr>)"

fun collect_lines ::
  "nat \<Rightarrow> nat \<Rightarrow> (nat \<Rightarrow> nat option) \<Rightarrow> u64 list \<Rightarrow> u64 \<Rightarrow> nat \<Rightarrow> nat list \<Rightarrow> collection \<Rightarrow> collection option" where
  "collect_lines class_space quota_lines class_to_slot offset_classes base_class page_address [] co = Some co"
| "collect_lines class_space quota_lines class_to_slot offset_classes base_class page_address (line # lines) co =
     (let cls = unat (base_class XOR offset_classes ! line)
      in if class_space \<le> cls then None
         else collect_lines class_space quota_lines class_to_slot offset_classes base_class page_address lines
                (case class_to_slot cls of
                   None \<Rightarrow> co
                 | Some slot \<Rightarrow> take_line quota_lines slot (page_address + line * CACHELINE_BYTES) co))"

text \<open>The loop over the pages ends early when every slot is full.\<close>

fun collect_pages ::
  "memory_pool \<Rightarrow> dram_mapping \<Rightarrow> nat \<Rightarrow> nat \<Rightarrow> (nat \<Rightarrow> nat option) \<Rightarrow> u64 list \<Rightarrow> nat list \<Rightarrow> nat list \<Rightarrow> collection \<Rightarrow>
   collection option" where
  "collect_pages pool mapping class_space quota_lines class_to_slot offset_classes line_order [] co = Some co"
| "collect_pages pool mapping class_space quota_lines class_to_slot offset_classes line_order (page # pages) co =
     (if co_remaining co = 0 then Some co
      else case collect_lines class_space quota_lines class_to_slot offset_classes
                  (page_class mapping (mp_page_size pool) (mp_pfns pool ! page))
                  (mp_base pool + page * mp_page_size pool) line_order co of
        None \<Rightarrow> None
      | Some co' \<Rightarrow> collect_pages pool mapping class_space quota_lines class_to_slot offset_classes line_order pages co')"

definition collect_line_set ::
  "bool \<Rightarrow> memory_pool \<Rightarrow> dram_mapping \<Rightarrow> u64 list \<Rightarrow> nat \<Rightarrow> u64 list \<Rightarrow> nat \<Rightarrow> u64 \<Rightarrow> line_set option" where
  "collect_line_set mem pool mapping offset_classes class_space classes quota_lines seed =
     (let class_count = length classes
      in if class_count = 0 \<or> quota_lines = 0 then None
      else if SIZE_MAX div quota_lines < class_count then None
      else if \<not> mem then None
      else case fill_slots class_space 0 classes (\<lambda>_. None) of
        None \<Rightarrow> None
      | Some class_to_slot \<Rightarrow>
          (let page_order = shuffle_size_t [0..<mp_page_count pool] (seed XOR 0x9e3779b97f4a7c15);
               line_order = shuffle_size_t [0..<length offset_classes] (seed XOR 0xd1b54a32d192ed03);
               co0 = \<lparr>co_addresses = replicate (class_count * quota_lines) 0, co_filled = replicate class_count 0,
                      co_remaining = class_count\<rparr>
           in case collect_pages pool mapping class_space quota_lines class_to_slot offset_classes line_order page_order co0 of
             None \<Rightarrow> None
           | Some co \<Rightarrow>
               if co_remaining co \<noteq> 0 then None
               else Some \<lparr>ls_pool = pool, ls_addresses = co_addresses co, ls_line_count = class_count * quota_lines\<rparr>))"

subsection \<open>Histograms\<close>

definition address_bank_class :: "line_set \<Rightarrow> dram_mapping \<Rightarrow> nat \<Rightarrow> u64 option" where
  "address_bank_class ls mapping address =
     (let pool = ls_pool ls; base = mp_base pool
      in if address < base \<or> base + mp_bytes pool \<le> address then None
      else let delta = address - base;
               page = delta div mp_page_size pool;
               offset = delta mod mp_page_size pool
      in if offset mod CACHELINE_BYTES \<noteq> 0 then None
      else Some (dram_mapping_bank_class_fast mapping (mp_pfns pool ! page * of_nat (mp_page_size pool) + of_nat offset)))"

fun histogram_loop :: "line_set \<Rightarrow> dram_mapping \<Rightarrow> nat \<Rightarrow> nat list \<Rightarrow> nat list \<Rightarrow> nat list option" where
  "histogram_loop ls mapping class_space [] histogram = Some histogram"
| "histogram_loop ls mapping class_space (address # addresses) histogram =
     (case address_bank_class ls mapping address of
        None \<Rightarrow> None
      | Some cls \<Rightarrow>
          if class_space \<le> unat cls then None
          else histogram_loop ls mapping class_space addresses (histogram[unat cls := histogram ! unat cls + 1]))"

definition build_histogram :: "line_set \<Rightarrow> dram_mapping \<Rightarrow> nat \<Rightarrow> nat list option" where
  "build_histogram ls mapping class_space =
     histogram_loop ls mapping class_space (take (ls_line_count ls) (ls_addresses ls)) (replicate class_space 0)"

text \<open>The score, the intersection and the union; the sums wrap.\<close>

definition histogram_jaccard :: "rounding \<Rightarrow> nat list \<Rightarrow> nat list \<Rightarrow> nat \<Rightarrow> cdouble \<times> nat \<times> nat" where
  "histogram_jaccard rnd a b class_space =
     (let (intersection, union_count) =
            foldl (\<lambda>(s, u) i. ((s + (if a ! i < b ! i then a ! i else b ! i)) mod 2 ^ 64,
                               (u + (if b ! i < a ! i then a ! i else b ! i)) mod 2 ^ 64)) (0, 0) [0..<class_space]
      in (if union_count = 0 then Fin 0
          else fdiv rnd (double_of_u64 rnd (of_nat intersection)) (double_of_u64 rnd (of_nat union_count)),
          intersection, union_count))"

definition histogram_unique_classes :: "nat list \<Rightarrow> nat \<Rightarrow> nat" where
  "histogram_unique_classes histogram class_space = length (filter (\<lambda>i. histogram ! i \<noteq> 0) [0..<class_space])"

end
