(* ===== verification/Oracle_Main.thy ===== *)
theory Oracle_Main
  imports Oracle_Lines
begin

text \<open>
  The selective-control experiment, third part: the pointer chains the workers follow, the measuring loops, and the preparation of the
  three worksets in \<open>main\<close> (\<open>oracle_selective_control.c\<close>). The memory of the pools maps the address of a line to the pointer stored
  at its start; the chains use no other memory.
\<close>

unbundle bit_operations_syntax

type_synonym memory = "nat \<Rightarrow> nat"

definition AGGRESSOR_STREAMS :: nat where "AGGRESSOR_STREAMS = 16"
definition VICTIM_CHUNK_READS :: nat where "VICTIM_CHUNK_READS = 4096"
definition AGGRESSOR_CHUNK_ITERS :: nat where "AGGRESSOR_CHUNK_ITERS = 1024"

subsection \<open>Chains\<close>

definition make_permutation :: "bool \<Rightarrow> nat \<Rightarrow> u64 \<Rightarrow> nat list option" where
  "make_permutation mem n seed = (if n = 0 then None else if \<not> mem then None else Some (shuffle_size_t [0..<n] seed))"

text \<open>The memory after the loop, and the root.\<close>

definition build_single_chain :: "line_set \<Rightarrow> nat list \<Rightarrow> memory \<Rightarrow> (nat \<times> memory) option" where
  "build_single_chain ls permutation memory =
     (if ls_line_count ls = 0 then None
      else Some (ls_addresses ls ! (permutation ! 0),
             foldl (\<lambda>mem i. mem(ls_addresses ls ! (permutation ! i) :=
                      ls_addresses ls ! (permutation ! ((i + 1) mod ls_line_count ls)))) memory [0..<ls_line_count ls]))"

text \<open>The inner loop from \<open>position\<close> on: the last address of the stream and the memory. (The step is never 0 in the calls.)\<close>

function stream_chain :: "line_set \<Rightarrow> nat list \<Rightarrow> nat \<Rightarrow> nat \<Rightarrow> nat \<Rightarrow> memory \<Rightarrow> nat \<times> memory" where
  "stream_chain ls permutation stream_count position previous memory =
     (if position < ls_line_count ls \<and> stream_count \<noteq> 0
      then let current = ls_addresses ls ! (permutation ! position)
           in stream_chain ls permutation stream_count (position + stream_count) current (memory(previous := current))
      else (previous, memory))"
  by pat_completeness auto
termination
  by (relation "measure (\<lambda>(ls, permutation, stream_count, position, previous, memory). ls_line_count ls - position)") auto

declare stream_chain.simps [simp del]

fun build_streams :: "line_set \<Rightarrow> nat list \<Rightarrow> nat \<Rightarrow> nat list \<Rightarrow> nat list \<Rightarrow> memory \<Rightarrow> nat list \<times> memory" where
  "build_streams ls permutation stream_count [] roots memory = (roots, memory)"
| "build_streams ls permutation stream_count (stream # streams) roots memory =
     (let first = ls_addresses ls ! (permutation ! stream);
          (previous, memory') = stream_chain ls permutation stream_count (stream + stream_count) first memory
      in build_streams ls permutation stream_count streams (roots @ [first]) (memory'(previous := first)))"

definition build_multi_chain :: "line_set \<Rightarrow> nat list \<Rightarrow> nat \<Rightarrow> memory \<Rightarrow> (nat list \<times> memory) option" where
  "build_multi_chain ls permutation stream_count memory =
     (if stream_count = 0 \<or> ls_line_count ls < stream_count then None
      else Some (build_streams ls permutation stream_count [0..<stream_count] [] memory))"

subsection \<open>The measuring loops\<close>

record worker_result =
  wk_ok :: bool
  wk_elapsed_sec :: cdouble
  wk_operations :: nat

definition elapsed_sec :: "rounding \<Rightarrow> int \<times> int \<Rightarrow> int \<times> int \<Rightarrow> cdouble" where
  "elapsed_sec rnd start finish =
     fadd rnd (double_of_int rnd (fst finish - fst start))
       (fdiv rnd (double_of_int rnd (snd finish - snd start)) (Fin 1000000000))"

text \<open>The loop of \<open>victim_loop\<close>: the last pointer, and the result or the failure of a clock reading. \<open>None\<close> is a loop that does not end.\<close>

partial_function (option) victim_rounds ::
  "rounding \<Rightarrow> os \<Rightarrow> memory \<Rightarrow> cdouble \<Rightarrow> int \<times> int \<Rightarrow> nat \<Rightarrow> nat \<Rightarrow> world \<Rightarrow> ((nat \<times> worker_result) option \<times> world) option" where
  "victim_rounds rnd os memory seconds start pointer operations w =
     (let pointer = (memory ^^ VICTIM_CHUNK_READS) pointer;
          operations = (operations + VICTIM_CHUNK_READS) mod 2 ^ 64
      in case clock_gettime os w of
        (None, w') \<Rightarrow> Some (None, w')
      | (Some now, w') \<Rightarrow>
          if fle seconds (elapsed_sec rnd start now)
          then Some (Some (pointer, \<lparr>wk_ok = True, wk_elapsed_sec = elapsed_sec rnd start now, wk_operations = operations\<rparr>), w')
          else victim_rounds rnd os memory seconds start pointer operations w')"

definition victim_loop ::
  "rounding \<Rightarrow> os \<Rightarrow> memory \<Rightarrow> nat \<Rightarrow> cdouble \<Rightarrow> world \<Rightarrow> ((nat \<times> worker_result) option \<times> world) option" where
  "victim_loop rnd os memory root_ptr seconds w =
     (if root_ptr = 0 \<or> fle seconds (Fin 0) then Some (None, w)
      else case clock_gettime os w of
        (None, w') \<Rightarrow> Some (None, w')
      | (Some start, w') \<Rightarrow> victim_rounds rnd os memory seconds start root_ptr 0 w')"

text \<open>The aggressor follows its streams in turn; a round of the inner loop advances every pointer by one.\<close>

partial_function (option) aggressor_rounds ::
  "rounding \<Rightarrow> os \<Rightarrow> memory \<Rightarrow> cdouble \<Rightarrow> int \<times> int \<Rightarrow> nat list \<Rightarrow> nat \<Rightarrow> world \<Rightarrow> ((nat list \<times> worker_result) option \<times> world) option" where
  "aggressor_rounds rnd os memory seconds start pointers operations w =
     (let pointers = map (memory ^^ AGGRESSOR_CHUNK_ITERS) pointers;
          operations = (operations + AGGRESSOR_CHUNK_ITERS * AGGRESSOR_STREAMS) mod 2 ^ 64
      in case clock_gettime os w of
        (None, w') \<Rightarrow> Some (None, w')
      | (Some now, w') \<Rightarrow>
          if fle seconds (elapsed_sec rnd start now)
          then Some (Some (pointers, \<lparr>wk_ok = True, wk_elapsed_sec = elapsed_sec rnd start now, wk_operations = operations\<rparr>), w')
          else aggressor_rounds rnd os memory seconds start pointers operations w')"

definition aggressor_loop ::
  "rounding \<Rightarrow> os \<Rightarrow> memory \<Rightarrow> nat list \<Rightarrow> cdouble \<Rightarrow> world \<Rightarrow> ((nat list \<times> worker_result) option \<times> world) option" where
  "aggressor_loop rnd os memory roots seconds w =
     (if fle seconds (Fin 0) then Some (None, w)
      else case clock_gettime os w of
        (None, w') \<Rightarrow> Some (None, w')
      | (Some start, w') \<Rightarrow> aggressor_rounds rnd os memory seconds start roots 0 w')"

subsection \<open>The preparation in \<open>main\<close>\<close>

text \<open>The number of lines of a workset and the quota of a class.\<close>

definition workset_quota :: "config \<Rightarrow> (nat \<times> nat) option" where
  "workset_quota cfg =
     (if SIZE_MAX div MIB_BYTES < cf_workset_mib cfg then None
      else let workset_bytes = cf_workset_mib cfg * MIB_BYTES
      in if workset_bytes mod CACHELINE_BYTES \<noteq> 0 then None
      else let workset_lines = workset_bytes div CACHELINE_BYTES
      in if workset_lines mod cf_group_classes cfg \<noteq> 0 then None
      else Some (workset_lines, workset_lines div cf_group_classes cfg))"

record oracle_setup =
  ex_victim :: line_set
  ex_high :: line_set
  ex_low :: line_set
  ex_permutation :: "nat list"
  ex_victim_root :: nat
  ex_high_roots :: "nat list"
  ex_low_roots :: "nat list"
  ex_memory :: memory

text \<open>The worksets of the victim, of the high and of the low aggressor, with the acceptance test on their histograms.\<close>

definition select_worksets ::
  "rounding \<Rightarrow> bool \<Rightarrow> config \<Rightarrow> dram_mapping \<Rightarrow> u64 list \<Rightarrow> nat \<Rightarrow> nat \<Rightarrow> memory_pool \<Rightarrow> memory_pool \<Rightarrow> memory_pool \<Rightarrow>
   (line_set \<times> line_set \<times> line_set) option" where
  "select_worksets rnd mem cfg mapping offset_classes class_space quota_lines victim_pool high_pool low_pool =
     (case (count_line_classes victim_pool mapping offset_classes class_space,
            count_line_classes high_pool mapping offset_classes class_space,
            count_line_classes low_pool mapping offset_classes class_space) of
        (Some victim_counts, Some high_counts, Some low_counts) \<Rightarrow>
          (case choose_class_sets mem victim_counts high_counts low_counts class_space (cf_group_classes cfg) quota_lines (cf_seed cfg) of
             None \<Rightarrow> None
           | Some (victim_classes, low_classes) \<Rightarrow>
               (case (collect_line_set mem victim_pool mapping offset_classes class_space victim_classes quota_lines
                        (cf_seed cfg XOR 0x4444444444444444),
                      collect_line_set mem high_pool mapping offset_classes class_space victim_classes quota_lines
                        (cf_seed cfg XOR 0x5555555555555555),
                      collect_line_set mem low_pool mapping offset_classes class_space low_classes quota_lines
                        (cf_seed cfg XOR 0x6666666666666666)) of
                  (Some victim_set, Some high_set, Some low_set) \<Rightarrow>
                    (case (build_histogram victim_set mapping class_space, build_histogram high_set mapping class_space,
                           build_histogram low_set mapping class_space) of
                       (Some victim_hist, Some high_hist, Some low_hist) \<Rightarrow>
                         (case histogram_jaccard rnd victim_hist low_hist class_space of
                            (low_jaccard, low_intersection, low_union) \<Rightarrow>
                              if victim_hist \<noteq> high_hist then None
                              else if low_intersection \<noteq> 0 then None
                              else Some (victim_set, high_set, low_set))
                     | _ \<Rightarrow> None)
                | _ \<Rightarrow> None))
      | _ \<Rightarrow> None)"

text \<open>From the mapping and the created pools to the chains, before the first condition runs.\<close>

definition prepare_experiment ::
  "rounding \<Rightarrow> bool \<Rightarrow> config \<Rightarrow> dram_mapping \<Rightarrow> nat \<Rightarrow> memory_pool \<Rightarrow> memory_pool \<Rightarrow> memory_pool \<Rightarrow> memory \<Rightarrow> oracle_setup option" where
  "prepare_experiment rnd mem cfg mapping page_size victim_pool high_pool low_pool memory =
     (case class_space_from_mapping mapping of
        None \<Rightarrow> None
      | Some class_space \<Rightarrow>
          (case build_offset_classes mem mapping page_size of
             None \<Rightarrow> None
           | Some offset_classes \<Rightarrow>
               (case workset_quota cfg of
                  None \<Rightarrow> None
                | Some (workset_lines, quota_lines) \<Rightarrow>
                    if \<not> mem then None
                    else (case select_worksets rnd mem cfg mapping offset_classes class_space quota_lines victim_pool high_pool low_pool of
                       None \<Rightarrow> None
                     | Some (victim_set, high_set, low_set) \<Rightarrow>
                         (case make_permutation mem workset_lines (cf_seed cfg XOR 0x7777777777777777) of
                            None \<Rightarrow> None
                          | Some permutation \<Rightarrow>
                              (case build_single_chain victim_set permutation memory of
                                 None \<Rightarrow> None
                               | Some (victim_root, memory1) \<Rightarrow>
                                   (case build_multi_chain high_set permutation AGGRESSOR_STREAMS memory1 of
                                      None \<Rightarrow> None
                                    | Some (high_roots, memory2) \<Rightarrow>
                                        (case build_multi_chain low_set permutation AGGRESSOR_STREAMS memory2 of
                                           None \<Rightarrow> None
                                         | Some (low_roots, memory3) \<Rightarrow>
                                             Some \<lparr>ex_victim = victim_set, ex_high = high_set, ex_low = low_set,
                                                   ex_permutation = permutation, ex_victim_root = victim_root,
                                                   ex_high_roots = high_roots, ex_low_roots = low_roots,
                                                   ex_memory = memory3\<rparr>))))))))"

end
