(* ===== verification/Oracle_Lines_Correct.thy ===== *)
theory Oracle_Lines_Correct
  imports Oracle_Lines
begin

text \<open>
  Facts on the lines of the experiment: the class of a line is the class of its physical address, counting is exact, a collection delivers for every
  chosen class its quota of distinct lines of that class or fails for lack of lines, and the histogram of a collected workset.
\<close>

unbundle bit_operations_syntax

subsection \<open>The class of a line\<close>

text \<open>A pool as \<open>pool_create\<close> leaves it, with pages of a power of two of at least one line.\<close>

definition pool_ok :: "memory_pool \<Rightarrow> bool" where
  "pool_ok pool \<longleftrightarrow> length (mp_pfns pool) = mp_page_count pool \<and> mp_bytes pool = mp_page_count pool * mp_page_size pool \<and>
     (\<exists>k \<ge> 6. k < 64 \<and> mp_page_size pool = 2 ^ k)"

definition lines_per_page :: "memory_pool \<Rightarrow> nat" where
  "lines_per_page pool = mp_page_size pool div CACHELINE_BYTES"

text \<open>Lines are pairs of a page and a line of it; their address, and the bank class of their physical address.\<close>

fun line_address :: "memory_pool \<Rightarrow> nat \<times> nat \<Rightarrow> nat" where
  "line_address pool (page, line) = mp_base pool + page * mp_page_size pool + line * CACHELINE_BYTES"

fun line_class :: "dram_mapping \<Rightarrow> memory_pool \<Rightarrow> nat \<times> nat \<Rightarrow> nat" where
  "line_class mapping pool (page, line) =
     unat (dram_mapping_bank_class_fast mapping (mp_pfns pool ! page * of_nat (mp_page_size pool) + of_nat (line * CACHELINE_BYTES)))"

definition pool_lines :: "memory_pool \<Rightarrow> (nat \<times> nat) list" where
  "pool_lines pool = List.product [0..<mp_page_count pool] [0..<lines_per_page pool]"

definition offset_table :: "dram_mapping \<Rightarrow> memory_pool \<Rightarrow> u64 list" where
  "offset_table mapping pool = map (\<lambda>line. dram_mapping_bank_class_fast mapping (of_nat (line * CACHELINE_BYTES))) [0..<lines_per_page pool]"

lemma build_offset_classes_table:
  "pool_ok pool \<Longrightarrow> page_size = mp_page_size pool \<Longrightarrow> build_offset_classes mem mapping page_size = Some oc \<Longrightarrow> oc = offset_table mapping pool"
  by (simp add: build_offset_classes_def offset_table_def lines_per_page_def split: if_splits)

lemma page_plus_offset:
  fixes pfn :: u64
  assumes "k < 64" "off < 2 ^ k"
  shows "pfn * of_nat (2 ^ k) + of_nat off = (pfn * of_nat (2 ^ k)) XOR of_nat off"
proof -
  have page: "pfn * of_nat (2 ^ k) = push_bit k pfn" by (simp add: push_bit_eq_mult)
  have "(of_nat off :: u64) = take_bit k (of_nat off)"
    using assms by (metis of_nat_take_bit take_bit_nat_eq_self_iff)
  then have "push_bit k pfn AND of_nat off = 0"
    by (metis (no_types) bit_eqI bit_and_iff bit_push_bit_iff bit_take_bit_iff bit_0_eq bot_apply bot_bool_def not_less)
  then show ?thesis unfolding page by (rule disjunctive_add_eq_xor)
qed

lemma lines_per_page_size: "pool_ok pool \<Longrightarrow> lines_per_page pool * CACHELINE_BYTES = mp_page_size pool"
  unfolding pool_ok_def lines_per_page_def CACHELINE_BYTES_def
  by (auto simp: le_iff_add power_add)

lemma line_fits: "pool_ok pool \<Longrightarrow> line < lines_per_page pool \<Longrightarrow> line * CACHELINE_BYTES < mp_page_size pool"
  using lines_per_page_size by (metis CACHELINE_BYTES_def mult_less_cancel2 zero_less_numeral)

lemma line_class_xor:
  assumes "pool_ok pool" "dm_mask_count mapping \<le> 64" "line < lines_per_page pool"
  shows "unat (page_class mapping (mp_page_size pool) (mp_pfns pool ! page) XOR offset_table mapping pool ! line) =
    line_class mapping pool (page, line)"
proof -
  from assms(1) obtain k where k: "k < 64" "mp_page_size pool = 2 ^ k" by (auto simp: pool_ok_def)
  from line_fits [OF assms(1,3)] k(2) have "line * CACHELINE_BYTES < 2 ^ k" by simp
  from page_plus_offset [OF k(1) this, of "mp_pfns pool ! page"] assms k(2) show ?thesis
    by (simp add: page_class_def offset_table_def bank_class_xor)
qed

lemma line_class_less: "dm_mask_count mapping \<le> 64 \<Longrightarrow> line_class mapping pool p < 2 ^ dm_mask_count mapping"
  by (cases p) (simp add: bank_class_less)

lemma line_address_inj:
  assumes "pool_ok pool"
  shows "inj_on (line_address pool) (UNIV \<times> {..<lines_per_page pool})"
proof (rule inj_onI)
  fix p q
  assume "p \<in> UNIV \<times> {..<lines_per_page pool}" "q \<in> UNIV \<times> {..<lines_per_page pool}" and eq: "line_address pool p = line_address pool q"
  then obtain a b c d where p: "p = (a, b)" "q = (c, d)" "b < lines_per_page pool" "d < lines_per_page pool" by auto
  note b = line_fits [OF assms p(3)] and d = line_fits [OF assms p(4)]
  from eq p(1,2) have e: "a * mp_page_size pool + b * CACHELINE_BYTES = c * mp_page_size pool + d * CACHELINE_BYTES" by simp
  from arg_cong [OF e, of "\<lambda>x. x div mp_page_size pool"] b d have "a = c" by simp
  with e have "b = d" by (simp add: CACHELINE_BYTES_def)
  with \<open>a = c\<close> p show "p = q" by simp
qed

subsection \<open>Counting\<close>

text \<open>Counting on: the counts grow by the number of lines of each class.\<close>

definition counted :: "nat \<Rightarrow> ('a \<Rightarrow> nat) \<Rightarrow> 'a list \<Rightarrow> nat list \<Rightarrow> nat list \<Rightarrow> bool" where
  "counted n f ps counts counts' \<longleftrightarrow> length counts' = n \<and> (\<forall>c < n. counts' ! c = counts ! c + length (filter (\<lambda>p. f p = c) ps))"

lemma counted_Nil: "length counts = n \<Longrightarrow> counted n f [] counts counts"
  by (simp add: counted_def)

lemma counted_append: "counted n f ps a b \<Longrightarrow> counted n f qs b c \<Longrightarrow> counted n f (ps @ qs) a c"
  by (simp add: counted_def)

lemma counted_step: "length counts = n \<Longrightarrow> f p < n \<Longrightarrow> counted n f [p] counts (counts[f p := counts ! f p + 1])"
  by (auto simp: counted_def nth_list_update)

lemma count_lines_counted:
  assumes "length counts = n" "\<And>l. l \<in> set ls \<Longrightarrow> unat (bc XOR g l) < n"
  shows "\<exists>counts'. count_lines n bc (map g ls) counts = Some counts' \<and> counted n (\<lambda>l. unat (bc XOR g l)) ls counts counts'"
  using assms
proof (induction ls arbitrary: counts)
  case Nil
  then show ?case by (simp add: counted_Nil)
next
  case (Cons l ls)
  let ?c = "unat (bc XOR g l)"
  have lt: "?c < n" using Cons.prems(2) by simp
  from Cons.IH [of "counts[?c := counts ! ?c + 1]"] Cons.prems obtain counts' where
    "count_lines n bc (map g ls) (counts[?c := counts ! ?c + 1]) = Some counts'"
    "counted n (\<lambda>l. unat (bc XOR g l)) ls (counts[?c := counts ! ?c + 1]) counts'" by auto
  moreover have "counted n (\<lambda>l. unat (bc XOR g l)) [l] counts (counts[?c := counts ! ?c + 1])"
    using counted_step [OF Cons.prems(1), of "\<lambda>l. unat (bc XOR g l)" l] lt by simp
  ultimately show ?case using lt counted_append [of n _ "[l]"] by (simp add: Let_def)
qed

text \<open>The classified pool: what the functions of the experiment rely on.\<close>

definition classified :: "dram_mapping \<Rightarrow> memory_pool \<Rightarrow> u64 list \<Rightarrow> nat \<Rightarrow> bool" where
  "classified mapping pool oc n \<longleftrightarrow> pool_ok pool \<and> oc = offset_table mapping pool \<and> class_space_from_mapping mapping = Some n"

lemma classifiedD:
  assumes "classified mapping pool oc n"
  shows "pool_ok pool" "oc = offset_table mapping pool" "n = 2 ^ dm_mask_count mapping" "dm_mask_count mapping \<le> 20"
    "length oc = lines_per_page pool"
  using assms by (auto simp: classified_def class_space_from_mapping_def Let_def offset_table_def split: if_splits)

lemma classified_line:
  assumes "classified mapping pool oc n" "line < lines_per_page pool"
  shows "unat (page_class mapping (mp_page_size pool) (mp_pfns pool ! page) XOR oc ! line) = line_class mapping pool (page, line)"
  using classifiedD [OF assms(1)] assms(2) line_class_xor by simp

lemma classified_less: "classified mapping pool oc n \<Longrightarrow> line_class mapping pool p < n"
  using classifiedD [of mapping pool oc n] line_class_less [of mapping pool p] by simp

lemma count_pages_counted:
  assumes cl: "classified mapping pool oc n" and "length counts = n" "\<And>i. i < length pages \<Longrightarrow> pages ! i < mp_page_count pool"
  shows "\<exists>counts'. count_pages mapping (mp_page_size pool) n oc (map (\<lambda>page. mp_pfns pool ! page) pages) counts = Some counts' \<and>
    counted n (line_class mapping pool) (List.product pages [0..<lines_per_page pool]) counts counts'"
  using assms(2,3)
proof (induction pages arbitrary: counts)
  case Nil
  then show ?case by (simp add: counted_Nil)
next
  case (Cons page pages)
  let ?bc = "page_class mapping (mp_page_size pool) (mp_pfns pool ! page)"
  let ?lines = "[0..<lines_per_page pool]"
  have oc: "oc = map (\<lambda>l. oc ! l) ?lines" using classifiedD(5) [OF cl] by (metis map_nth)
  have cls: "unat (?bc XOR oc ! l) = line_class mapping pool (page, l)" "unat (?bc XOR oc ! l) < n" if "l \<in> set ?lines" for l
    using classified_line [OF cl] classified_less [OF cl] that by auto
  from count_lines_counted [OF Cons.prems(1), of ?lines ?bc "\<lambda>l. oc ! l"] cls(2) obtain c1 where
    c1: "count_lines n ?bc oc counts = Some c1" "counted n (\<lambda>l. unat (?bc XOR oc ! l)) ?lines counts c1" using oc by metis
  have "counted n (line_class mapping pool) (map (Pair page) ?lines) counts c1"
    using c1(2) cls(1) by (auto simp: counted_def comp_def filter_map intro!: arg_cong [of _ _ length] filter_cong)
  moreover have "length c1 = n" using c1(2) by (simp add: counted_def)
  with Cons.IH [of c1] Cons.prems(2) obtain c2 where
    "count_pages mapping (mp_page_size pool) n oc (map (\<lambda>page. mp_pfns pool ! page) pages) c1 = Some c2"
    "counted n (line_class mapping pool) (List.product pages ?lines) c1 c2" by force
  ultimately show ?case using c1(1) counted_append by fastforce
qed

lemma count_line_classes_counts:
  assumes "classified mapping pool oc n"
  shows "\<exists>counts. count_line_classes pool mapping oc n = Some counts \<and> length counts = n \<and>
    (\<forall>c < n. counts ! c = length (filter (\<lambda>p. line_class mapping pool p = c) (pool_lines pool)))"
proof -
  have pfns: "mp_pfns pool = map (\<lambda>page. mp_pfns pool ! page) [0..<mp_page_count pool]"
    using classifiedD(1) [OF assms] by (metis map_nth pool_ok_def)
  from count_pages_counted [OF assms, of "replicate n 0" "[0..<mp_page_count pool]"] obtain counts where
    "count_pages mapping (mp_page_size pool) n oc (mp_pfns pool) (replicate n 0) = Some counts"
    "counted n (line_class mapping pool) (pool_lines pool) (replicate n 0) counts" using pfns by (auto simp: pool_lines_def)
  then show ?thesis by (auto simp: count_line_classes_def counted_def)
qed

subsection \<open>Collecting\<close>

lemma fill_slots_slots:
  assumes "fill_slots n slot classes m = Some m'"
  shows "(\<forall>c s. m' c = Some s \<longrightarrow> m c = Some s \<or> (\<exists>i < length classes. s = slot + i \<and> unat (classes ! i) = c)) \<and>
    (distinct classes \<longrightarrow> (\<forall>i < length classes. m' (unat (classes ! i)) = Some (slot + i))) \<and>
    (\<forall>c. c \<notin> unat ` set classes \<longrightarrow> m' c = m c) \<and> (\<forall>c \<in> set classes. unat c < n)"
  using assms
proof (induction n slot classes m rule: fill_slots.induct)
  case (2 n slot cls classes m)
  then have eq: "fill_slots n (slot + 1) classes (m(unat cls := Some slot)) = Some m'" and lt: "unat cls < n"
    by (auto split: if_splits)
  note IH = 2(1) [OF _ eq]
  show ?case
  proof (intro conjI allI impI ballI)
    fix c s
    assume "m' c = Some s"
    with IH lt consider "(m(unat cls := Some slot)) c = Some s" | i where "i < length classes" "s = slot + 1 + i" "unat (classes ! i) = c"
      by auto
    then show "m c = Some s \<or> (\<exists>i < length (cls # classes). s = slot + i \<and> unat ((cls # classes) ! i) = c)"
    proof cases
      case 1
      then show ?thesis by (auto split: if_splits)
    next
      case (2 i)
      then show ?thesis by (intro disjI2 exI [of _ "Suc i"]) simp
    qed
  next
    fix i
    assume d: "distinct (cls # classes)" and i: "i < length (cls # classes)"
    show "m' (unat ((cls # classes) ! i)) = Some (slot + i)"
    proof (cases i)
      case 0
      have "unat cls \<notin> unat ` set classes" using d by (auto dest: unsigned_word_eqI)
      with IH lt 0 show ?thesis by auto
    next
      case (Suc j)
      with IH lt d i show ?thesis by auto
    qed
  qed (use IH lt in auto)
qed auto


text \<open>The lines of a slot among the lines seen so far, and what the collection holds of them.\<close>

definition slot_lines :: "(nat \<Rightarrow> nat option) \<Rightarrow> ('a \<Rightarrow> nat) \<Rightarrow> nat \<Rightarrow> 'a list \<Rightarrow> 'a list" where
  "slot_lines m f s ps = filter (\<lambda>p. m (f p) = Some s) ps"

definition collected ::
  "nat \<Rightarrow> nat \<Rightarrow> (nat \<Rightarrow> nat option) \<Rightarrow> ('a \<Rightarrow> nat) \<Rightarrow> ('a \<Rightarrow> nat) \<Rightarrow> 'a list \<Rightarrow> collection \<Rightarrow> bool" where
  "collected n q m f addr ps co \<longleftrightarrow>
     length (co_addresses co) = n * q \<and> length (co_filled co) = n \<and>
     co_remaining co = card {s. s < n \<and> co_filled co ! s < q} \<and>
     (\<forall>s < n. co_filled co ! s = min q (length (slot_lines m f s ps)) \<and>
        (\<forall>k < co_filled co ! s. co_addresses co ! (s * q + k) = addr (slot_lines m f s ps ! k)))"

lemma slot_lines_simps [simp]:
  "slot_lines m f s [] = []" "slot_lines m f s (ps @ qs) = slot_lines m f s ps @ slot_lines m f s qs"
  "slot_lines m f s (p # ps) = (if m (f p) = Some s then p # slot_lines m f s ps else slot_lines m f s ps)"
  by (simp_all add: slot_lines_def)

lemma collected_start:
  "0 < q \<Longrightarrow> collected n q m f addr [] \<lparr>co_addresses = replicate (n * q) 0, co_filled = replicate n 0, co_remaining = n\<rparr>"
  by (simp add: collected_def cong: conj_cong)

lemma collected_skip:
  assumes "collected n q m f addr ps co" "\<And>s. s < n \<Longrightarrow> slot_lines m f s qs = [] \<or> co_filled co ! s = q"
  shows "collected n q m f addr (ps @ qs) co"
proof -
  have "co_filled co ! s = min q (length (slot_lines m f s (ps @ qs))) \<and>
      (\<forall>k < co_filled co ! s. co_addresses co ! (s * q + k) = addr (slot_lines m f s (ps @ qs) ! k))" if "s < n" for s
    using assms(1) assms(2) [OF that] that unfolding collected_def by (auto simp: nth_append min_def split: if_splits)
  with assms(1) show ?thesis unfolding collected_def by blast
qed

lemma slot_index_neq:
  fixes q :: nat
  assumes "k < q" "j < q" "s \<noteq> t"
  shows "s * q + k \<noteq> t * q + j"
proof
  assume "s * q + k = t * q + j"
  from arg_cong [OF this, of "\<lambda>x. x div q"] assms show False by simp
qed

lemma collected_take:
  assumes col: "collected n q m f addr ps co" and s: "m (f p) = Some s" "s < n"
  shows "collected n q m f addr (ps @ [p]) (take_line q s (addr p) co)"
proof (cases "q \<le> co_filled co ! s")
  case True
  have "co_filled co ! s = q" using col s(2) True by (simp add: collected_def)
  then have "collected n q m f addr (ps @ [p]) co" using s by (intro collected_skip [OF col]) auto
  with True show ?thesis by (simp add: take_line_def)
next
  case False
  let ?k = "co_filled co ! s"
  define co' where "co' = take_line q s (addr p) co"
  have co': "co_addresses co' = (co_addresses co)[s * q + ?k := addr p]" "co_filled co' = (co_filled co)[s := ?k + 1]"
    "co_remaining co' = (if ?k + 1 = q then co_remaining co - 1 else co_remaining co)"
    using False by (simp_all add: co'_def take_line_def Let_def)
  have len: "length (co_addresses co) = n * q" "length (co_filled co) = n" using col by (simp_all add: collected_def)
  have k: "?k = length (slot_lines m f s ps)" "?k < q" using col s(2) False by (auto simp: collected_def)
  have idx: "s * q + ?k < n * q"
  proof -
    have "s * q + ?k < (s + 1) * q" using k(2) by simp
    also have "\<dots> \<le> n * q" using s(2) by (intro mult_le_mono1) simp
    finally show ?thesis .
  qed
  have slots: "co_filled co' ! t = min q (length (slot_lines m f t (ps @ [p]))) \<and>
      (\<forall>j < co_filled co' ! t. co_addresses co' ! (t * q + j) = addr (slot_lines m f t (ps @ [p]) ! j))" if t: "t < n" for t
  proof (cases "t = s")
    case True
    have "co_addresses co' ! (s * q + j) = addr ((slot_lines m f s ps @ [p]) ! j)" if "j < ?k + 1" for j
      using that col s(2) len idx k(1) by (cases "j = ?k") (auto simp: co' collected_def nth_append less_Suc_eq)
    with True s k len show ?thesis by (auto simp: co')
  next
    case other: False
    have "co_addresses co' ! (t * q + j) = co_addresses co ! (t * q + j)" if "j < q" for j
      using slot_index_neq [OF that k(2), of t s] other by (simp add: co')
    with other s col t show ?thesis by (auto simp: co' collected_def)
  qed
  have "co_remaining co' = card {t. t < n \<and> co_filled co' ! t < q}"
  proof (cases "?k + 1 = q")
    case True
    have "{t. t < n \<and> co_filled co' ! t < q} = {t. t < n \<and> co_filled co ! t < q} - {s}"
      using True len s(2) by (auto simp: co' nth_list_update split: if_splits)
    then show ?thesis using True k s(2) col by (simp add: co' collected_def card_Diff_singleton)
  next
    case False
    have "{t. t < n \<and> co_filled co' ! t < q} = {t. t < n \<and> co_filled co ! t < q}"
      using False k len s(2) by (auto simp: co' nth_list_update split: if_splits)
    then show ?thesis using False col by (simp add: co' collected_def)
  qed
  with slots len show ?thesis unfolding co'_def [symmetric] by (simp add: collected_def co'(1,2))
qed


lemma collect_lines_collected:
  assumes cl: "classified mapping pool oc n" and m: "\<And>c s. m c = Some s \<Longrightarrow> s < slots"
    and "collected slots q m (line_class mapping pool) (line_address pool) ps co" "\<And>l. l \<in> set ls \<Longrightarrow> l < lines_per_page pool"
  shows "\<exists>co'. collect_lines n q m oc (page_class mapping (mp_page_size pool) (mp_pfns pool ! page))
      (mp_base pool + page * mp_page_size pool) ls co = Some co' \<and>
    collected slots q m (line_class mapping pool) (line_address pool) (ps @ map (Pair page) ls) co'"
  using assms(3,4)
proof (induction ls arbitrary: ps co)
  case Nil
  then show ?case by simp
next
  case (Cons l ls)
  note line = classified_line [OF cl, of l page] classified_less [OF cl, of "(page, l)"]
  let ?c = "line_class mapping pool (page, l)"
  let ?co = "case m ?c of None \<Rightarrow> co | Some s \<Rightarrow> take_line q s (mp_base pool + page * mp_page_size pool + l * CACHELINE_BYTES) co"
  have "collected slots q m (line_class mapping pool) (line_address pool) (ps @ [(page, l)]) ?co"
  proof (cases "m ?c")
    case None
    have "collected slots q m (line_class mapping pool) (line_address pool) (ps @ [(page, l)]) co"
      using None by (intro collected_skip [OF Cons.prems(1)]) (simp del: line_class.simps)
    with None show ?thesis by (simp del: line_class.simps)
  next
    case (Some s)
    with collected_take [OF Cons.prems(1) Some m [OF Some]] show ?thesis by (simp del: line_class.simps)
  qed
  from Cons.IH [OF this] Cons.prems(2) obtain co' where
    "collect_lines n q m oc (page_class mapping (mp_page_size pool) (mp_pfns pool ! page))
      (mp_base pool + page * mp_page_size pool) ls ?co = Some co'"
    "collected slots q m (line_class mapping pool) (line_address pool) ((ps @ [(page, l)]) @ map (Pair page) ls) co'" by auto
  moreover have "l < lines_per_page pool" using Cons.prems(2) by simp
  ultimately show ?case using line by (simp add: Let_def del: line_class.simps)
qed

lemma collect_pages_collected:
  assumes cl: "classified mapping pool oc n" and m: "\<And>c s. m c = Some s \<Longrightarrow> s < slots"
    and lines: "\<And>l. l \<in> set ls \<Longrightarrow> l < lines_per_page pool"
    and "collected slots q m (line_class mapping pool) (line_address pool) ps co"
  shows "\<exists>co'. collect_pages pool mapping n q m oc ls pages co = Some co' \<and>
    collected slots q m (line_class mapping pool) (line_address pool) (ps @ List.product pages ls) co'"
  using assms(4)
proof (induction pages arbitrary: ps co)
  case Nil
  then show ?case by simp
next
  case (Cons page pages)
  show ?case
  proof (cases "co_remaining co = 0")
    case True
    then have "\<not> co_filled co ! s < q" if "s < slots" for s using Cons.prems that by (auto simp: collected_def)
    then have "co_filled co ! s = q" if "s < slots" for s using Cons.prems that by (fastforce simp: collected_def)
    with True show ?thesis by (auto intro!: collected_skip [OF Cons.prems])
  next
    case False
    from collect_lines_collected [OF cl _ Cons.prems, of ls page] m lines obtain co1 where
      co1: "collect_lines n q m oc (page_class mapping (mp_page_size pool) (mp_pfns pool ! page))
        (mp_base pool + page * mp_page_size pool) ls co = Some co1"
      "collected slots q m (line_class mapping pool) (line_address pool) (ps @ map (Pair page) ls) co1" by blast
    from Cons.IH [OF co1(2)] co1(1) False show ?thesis by simp
  qed
qed

text \<open>The workset of a collection: for every slot the first \<open>q\<close> lines of its class, in the shuffled order.\<close>

definition workset_ok :: "dram_mapping \<Rightarrow> memory_pool \<Rightarrow> u64 list \<Rightarrow> nat \<Rightarrow> line_set \<Rightarrow> bool" where
  "workset_ok mapping pool classes q ls \<longleftrightarrow>
     ls_pool ls = pool \<and> ls_line_count ls = length classes * q \<and> length (ls_addresses ls) = length classes * q \<and>
     (\<exists>chosen. ls_addresses ls = map (line_address pool) chosen \<and> distinct chosen \<and> set chosen \<subseteq> set (pool_lines pool) \<and>
        (\<forall>s < length classes. \<forall>k < q. line_class mapping pool (chosen ! (s * q + k)) = unat (classes ! s)))"


lemma pool_lines_shuffled:
  assumes "set pages = {..<mp_page_count pool}" "set ls = {..<lines_per_page pool}" "distinct pages" "distinct ls"
  shows "set (List.product pages ls) = set (pool_lines pool)" "distinct (List.product pages ls)"
    "length (filter P (List.product pages ls)) = length (filter P (pool_lines pool))"
proof -
  show s: "set (List.product pages ls) = set (pool_lines pool)"
    by (simp add: pool_lines_def assms(1,2) lessThan_atLeast0)
  show d: "distinct (List.product pages ls)" using assms(3,4) by (rule distinct_product)
  have "distinct (pool_lines pool)" unfolding pool_lines_def by (intro distinct_product) simp_all
  with s d show "length (filter P (List.product pages ls)) = length (filter P (pool_lines pool))"
    by (simp add: distinct_length_filter)
qed

text \<open>The slots hold disjoint segments of the lines.\<close>

lemma slot_line_nth:
  assumes "k < length (slot_lines m f s ps)"
  shows "m (f (slot_lines m f s ps ! k)) = Some s" "slot_lines m f s ps ! k \<in> set ps"
  using nth_mem [OF assms] by (auto simp: slot_lines_def)

lemma slot_lines_distinct:
  assumes "distinct ps" "k < length (slot_lines m f s ps)" "j < length (slot_lines m f t ps)"
    "slot_lines m f s ps ! k = slot_lines m f t ps ! j"
  shows "s = t \<and> k = j"
proof -
  have st: "s = t" using slot_line_nth(1) [OF assms(2)] slot_line_nth(1) [OF assms(3)] assms(4) by simp
  have "distinct (slot_lines m f s ps)" using assms(1) by (simp add: slot_lines_def)
  with st assms(2-4) show ?thesis by (simp add: nth_eq_iff_index_eq)
qed

lemma collected_workset:
  assumes pool: "pool_ok pool" and ps: "distinct ps" "set ps \<subseteq> set (pool_lines pool)" and q: "0 < q"
    and col: "collected (length classes) q m (line_class mapping pool) (line_address pool) ps co" "co_remaining co = 0"
    and m: "\<And>c s. m c = Some s \<Longrightarrow> s < length classes \<and> unat (classes ! s) = c"
  shows "workset_ok mapping pool classes q
    \<lparr>ls_pool = pool, ls_addresses = co_addresses co, ls_line_count = length classes * q\<rparr>"
proof -
  let ?n = "length classes" and ?M = "\<lambda>s. slot_lines m (line_class mapping pool) s ps"
  have len: "length (co_addresses co) = ?n * q" using col(1) by (simp add: collected_def)
  have full: "co_filled co ! s = q" "q \<le> length (?M s)" if "s < ?n" for s
  proof -
    have "\<not> co_filled co ! s < q" using col that by (auto simp: collected_def)
    with col(1) that show "co_filled co ! s = q" "q \<le> length (?M s)" by (fastforce simp: collected_def)+
  qed
  define chosen where "chosen = map (\<lambda>i. ?M (i div q) ! (i mod q)) [0..<?n * q]"
  have idx: "i div q < ?n" "i mod q < q" "i mod q < length (?M (i div q))" "i div q * q + i mod q = i" if "i < ?n * q" for i
  proof -
    show "i div q < ?n" using that q by (simp add: less_mult_imp_div_less)
    then show "i mod q < length (?M (i div q))" using full(2) q by (meson less_le_trans mod_less_divisor)
  qed (use q in simp_all)
  have "co_addresses co ! i = line_address pool (chosen ! i)" if "i < ?n * q" for i
    using col(1) idx [OF that] full that unfolding collected_def chosen_def by (metis (no_types, lifting) add.left_neutral diff_zero length_upt nth_map nth_upt)
  then have addr: "co_addresses co = map (line_address pool) chosen" using len by (intro nth_equalityI) (simp_all add: chosen_def)
  have "i = j" if "i < ?n * q" "j < ?n * q" "chosen ! i = chosen ! j" for i j
    using slot_lines_distinct [OF ps(1) idx(3) idx(3), OF that(1,2)] that by (simp add: chosen_def) (metis div_mult_mod_eq)
  then have "distinct chosen" by (auto simp: distinct_conv_nth chosen_def)
  moreover have "set chosen \<subseteq> set (pool_lines pool)"
    using slot_line_nth(2) idx(3) ps(2) by (fastforce simp: chosen_def)
  moreover have "line_class mapping pool (chosen ! (s * q + k)) = unat (classes ! s)" if "s < ?n" "k < q" for s k
  proof -
    have "s * q + k < (s + 1) * q" using that(2) by simp
    also have "\<dots> \<le> ?n * q" using that(1) by (intro mult_le_mono1) simp
    finally have "chosen ! (s * q + k) = ?M s ! k" using that(2) by (simp add: chosen_def)
    moreover have "k < length (?M s)" using full(2) [OF that(1)] that(2) by simp
    ultimately show ?thesis using slot_line_nth(1) m by metis
  qed
  ultimately show ?thesis using addr len by (auto simp: workset_ok_def)
qed


lemma fill_slots_total: "\<forall>c \<in> set classes. unat c < n \<Longrightarrow> \<exists>m'. fill_slots n slot classes m = Some m'"
  by (induction n slot classes m rule: fill_slots.induct) auto

lemma collect_line_set_collects:
  assumes cl: "classified mapping pool oc n" and c: "classes \<noteq> []" "distinct classes" "\<forall>c \<in> set classes. unat c < n"
    and q: "0 < q" "length classes * q \<le> SIZE_MAX" and mem
  shows "case collect_line_set mem pool mapping oc n classes q seed of
      None \<Rightarrow> \<exists>c \<in> set classes. length (filter (\<lambda>p. line_class mapping pool p = unat c) (pool_lines pool)) < q
    | Some ls \<Rightarrow> workset_ok mapping pool classes q ls"
proof -
  let ?pages = "shuffle_size_t [0..<mp_page_count pool] (seed XOR 0x9e3779b97f4a7c15)"
  let ?lines = "shuffle_size_t [0..<length oc] (seed XOR 0xd1b54a32d192ed03)"
  let ?ps = "List.product ?pages ?lines" and ?f = "line_class mapping pool"
  let ?co0 = "\<lparr>co_addresses = replicate (length classes * q) 0, co_filled = replicate (length classes) 0, co_remaining = length classes\<rparr>"
  from fill_slots_total [OF c(3), of 0 "\<lambda>_. None"] obtain m where m: "fill_slots n 0 classes (\<lambda>_. None) = Some m" by blast
  note slots = fill_slots_slots [OF m]
  have in_range: "s < length classes \<and> unat (classes ! s) = c" if "m c = Some s" for c s using slots that by auto
  have slot_of: "m (unat (classes ! s)) = Some s" if "s < length classes" for s using slots c(2) that by auto
  have lines: "l < lines_per_page pool" if "l \<in> set ?lines" for l using that classifiedD(5) [OF cl] by auto
  have shuffled: "set ?ps = set (pool_lines pool)" "distinct ?ps"
    "length (filter P ?ps) = length (filter P (pool_lines pool))" for P
    by (rule pool_lines_shuffled; use classifiedD(5) [OF cl] in auto)+
  have "\<exists>co. collect_pages pool mapping n q m oc ?lines ?pages ?co0 = Some co \<and>
      collected (length classes) q m ?f (line_address pool) ([] @ ?ps) co"
    by (rule collect_pages_collected [OF cl _ lines collected_start [OF q(1)]]) (use in_range in auto)
  then obtain co where co: "collect_pages pool mapping n q m oc ?lines ?pages ?co0 = Some co"
    "collected (length classes) q m ?f (line_address pool) ?ps co" by auto
  have guard: "\<not> SIZE_MAX div q < length classes"
    using q by (simp add: not_less less_eq_div_iff_mult_less_eq)
  have eq: "collect_line_set mem pool mapping oc n classes q seed =
      (if co_remaining co \<noteq> 0 then None
       else Some \<lparr>ls_pool = pool, ls_addresses = co_addresses co, ls_line_count = length classes * q\<rparr>)"
    using c(1) q(1) guard m co(1) \<open>mem\<close> by (simp add: collect_line_set_def Let_def)
  show ?thesis
  proof (cases "co_remaining co = 0")
    case True
    with eq collected_workset [OF classifiedD(1) [OF cl] shuffled(2) _ q(1) co(2) True in_range] shuffled(1) show ?thesis by simp
  next
    case False
    moreover have "co_remaining co = card {s. s < length classes \<and> co_filled co ! s < q}"
      using co(2) unfolding collected_def by blast
    ultimately have "{s. s < length classes \<and> co_filled co ! s < q} \<noteq> {}" by (metis card.empty)
    then obtain s where s: "s < length classes" "co_filled co ! s < q" by blast
    have "length (slot_lines m ?f s ?ps) < q" using s co(2) by (auto simp: collected_def min_def split: if_splits)
    moreover have "m d = Some s \<longleftrightarrow> d = unat (classes ! s)" for d using in_range slot_of [OF s(1)] by blast
    then have "slot_lines m ?f s ?ps = filter (\<lambda>p. ?f p = unat (classes ! s)) ?ps" by (simp only: slot_lines_def)
    ultimately have "length (filter (\<lambda>p. ?f p = unat (classes ! s)) (pool_lines pool)) < q" using shuffled(3) by metis
    with nth_mem [OF s(1)] have "\<exists>c \<in> set classes. length (filter (\<lambda>p. ?f p = unat c) (pool_lines pool)) < q" by blast
    with eq False show ?thesis by simp
  qed
qed


subsection \<open>Histograms\<close>

lemma address_bank_class_line:
  assumes "pool_ok pool" "ls_pool ls = pool" "p \<in> set (pool_lines pool)"
  shows "\<exists>cls. address_bank_class ls mapping (line_address pool p) = Some cls \<and> unat cls = line_class mapping pool p"
proof -
  obtain page line where p: "p = (page, line)" "page < mp_page_count pool" "line < lines_per_page pool"
    using assms(3) by (auto simp: pool_lines_def)
  have fits: "line * CACHELINE_BYTES < mp_page_size pool" using line_fits [OF assms(1) p(3)] .
  have delta: "line_address pool p - mp_base pool = page * mp_page_size pool + line * CACHELINE_BYTES" using p(1) by simp
  have "page * mp_page_size pool + line * CACHELINE_BYTES < (page + 1) * mp_page_size pool" using fits by simp
  also have "\<dots> \<le> mp_bytes pool" using assms(1) p(2) unfolding pool_ok_def by (metis Suc_eq_plus1 Suc_leI mult_le_mono1)
  finally have "\<not> (line_address pool p < mp_base pool \<or> mp_base pool + mp_bytes pool \<le> line_address pool p)" using p(1) by simp
  moreover have "line_address pool p - mp_base pool < mp_page_size pool * (page + 1)" using delta fits by simp
  ultimately show ?thesis using assms(2) delta fits p(1) by (simp add: address_bank_class_def Let_def)
qed

lemma histogram_loop_counted:
  assumes cl: "classified mapping pool oc n" "ls_pool ls = pool" and "length hist = n" "set ps \<subseteq> set (pool_lines pool)"
  shows "\<exists>hist'. histogram_loop ls mapping n (map (line_address pool) ps) hist = Some hist' \<and>
    counted n (line_class mapping pool) ps hist hist'"
  using assms(3,4)
proof (induction ps arbitrary: hist)
  case Nil
  then show ?case by (simp add: counted_Nil)
next
  case (Cons p ps)
  let ?c = "line_class mapping pool p"
  have c: "?c < n" by (rule classified_less [OF cl(1)])
  from address_bank_class_line [OF classifiedD(1) [OF cl(1)] cl(2)] Cons.prems(2) obtain cls where
    cls: "address_bank_class ls mapping (line_address pool p) = Some cls" "unat cls = ?c" by fastforce
  from Cons.IH [of "hist[?c := hist ! ?c + 1]"] Cons.prems obtain hist' where
    "histogram_loop ls mapping n (map (line_address pool) ps) (hist[?c := hist ! ?c + 1]) = Some hist'"
    "counted n (line_class mapping pool) ps (hist[?c := hist ! ?c + 1]) hist'" by auto
  with cls c counted_append [OF counted_step [where f = "line_class mapping pool", OF Cons.prems(1) c]] show ?case by fastforce
qed

text \<open>The lines of a workset by class: the quota for a chosen class, none for the others.\<close>

lemma workset_class_count:
  assumes "length chosen = length classes * q" "distinct classes"
    and "\<forall>s < length classes. \<forall>k < q. f (chosen ! (s * q + k)) = unat (classes ! s)"
  shows "length (filter (\<lambda>p. f p = c) chosen) = (if c \<in> unat ` set classes then q else 0)"
  using assms
proof (induction classes arbitrary: chosen)
  case Nil
  then show ?case by simp
next
  case (Cons cls classes)
  obtain a b where ab: "chosen = a @ b" "length a = q" "length b = length classes * q"
    using Cons.prems(1) that [of "take q chosen" "drop q chosen"] by simp
  have b: "length (filter (\<lambda>p. f p = c) b) = (if c \<in> unat ` set classes then q else 0)"
  proof (rule Cons.IH)
    show "\<forall>s < length classes. \<forall>k < q. f (b ! (s * q + k)) = unat (classes ! s)"
    proof (intro allI impI)
      fix s k
      assume "s < length classes" "k < q"
      with Cons.prems(3) have "f (chosen ! (Suc s * q + k)) = unat (classes ! s)" by fastforce
      with ab show "f (b ! (s * q + k)) = unat (classes ! s)" by (simp add: nth_append add.assoc)
    qed
  qed (use Cons.prems ab in auto)
  have "f p = unat cls" if "p \<in> set a" for p
  proof -
    from that ab obtain k where "k < q" "p = chosen ! k" by (auto simp: in_set_conv_nth nth_append)
    with Cons.prems(3) show ?thesis by fastforce
  qed
  then have "filter (\<lambda>p. f p = c) a = filter (\<lambda>p. c = unat cls) a" by (intro filter_cong) auto
  moreover have "c = unat cls \<Longrightarrow> c \<notin> unat ` set classes" using Cons.prems(2) by (auto dest: unsigned_word_eqI)
  ultimately show ?case using b ab by (cases "c = unat cls") auto
qed

lemma build_histogram_workset:
  assumes cl: "classified mapping pool oc n" and w: "workset_ok mapping pool classes q ls" and "distinct classes"
  shows "build_histogram ls mapping n = Some (map (\<lambda>c. if c \<in> unat ` set classes then q else 0) [0..<n])"
proof -
  from w obtain chosen where chosen: "ls_addresses ls = map (line_address pool) chosen" "set chosen \<subseteq> set (pool_lines pool)"
    "\<forall>s < length classes. \<forall>k < q. line_class mapping pool (chosen ! (s * q + k)) = unat (classes ! s)"
    "length chosen = length classes * q" "ls_line_count ls = length classes * q" "ls_pool ls = pool"
    unfolding workset_ok_def by (metis length_map)
  from histogram_loop_counted [OF cl chosen(6) _ chosen(2), of "replicate n 0"] obtain hist where
    "build_histogram ls mapping n = Some hist" and h: "counted n (line_class mapping pool) chosen (replicate n 0) hist"
    using chosen by (auto simp: build_histogram_def)
  moreover have "hist = map (\<lambda>c. if c \<in> unat ` set classes then q else 0) [0..<n]"
    using h workset_class_count [OF chosen(4) assms(3) chosen(3)] by (intro nth_equalityI) (auto simp: counted_def)
  ultimately show ?thesis by simp
qed

end
