(* ===== verification/Oracle_Main_Correct.thy ===== *)
theory Oracle_Main_Correct
  imports Oracle_Main Oracle_Lines_Correct
begin

text \<open>
  The chains, the choice of classes and the overlaps of the selective-control experiment: in the memory the builders leave, every
  line points to the next of its stream (\<open>chained\<close>), so that following the pointers from a root visits the stream's lines in turn; the chosen
  classes are distinct and eligible; the histograms of the worksets overlap completely or not at all, and the selection fails only
  for lack of common classes.
\<close>

unbundle bit_operations_syntax

lemma unat_of_nat_u64: "n < 2 ^ 64 \<Longrightarrow> unat (of_nat n :: u64) = n"
  by (simp add: unat_of_nat)

subsection \<open>Chains\<close>

text \<open>The line at a position of the permuted workset.\<close>

definition chain_line :: "line_set \<Rightarrow> nat list \<Rightarrow> nat \<Rightarrow> nat" where
  "chain_line ls permutation p = ls_addresses ls ! (permutation ! p)"

text \<open>The position after \<open>p\<close> in its stream: a step of \<open>c\<close>, and back to the first position at the end.\<close>

definition next_pos :: "nat \<Rightarrow> nat \<Rightarrow> nat \<Rightarrow> nat" where
  "next_pos c n p = (if p + c < n then p + c else p mod c)"

text \<open>In this memory the lines form the streams; everything else is as before.\<close>

definition chained :: "(nat \<Rightarrow> nat) \<Rightarrow> nat \<Rightarrow> nat \<Rightarrow> memory \<Rightarrow> memory \<Rightarrow> bool" where
  "chained x c n memory memory' \<longleftrightarrow>
     (\<forall>p < n. memory' (x p) = x (next_pos c n p)) \<and> (\<forall>a. a \<notin> x ` {..<n} \<longrightarrow> memory' a = memory a)"

lemma next_pos_1: "i < n \<Longrightarrow> (i + 1) mod n = next_pos 1 n i"
  by (cases "i + 1 = n") (auto simp: next_pos_def)

lemma foldl_updates:
  assumes "inj_on f {..<n}"
  shows "(\<forall>i < n. foldl (\<lambda>m i. m(f i := g i)) m0 [0..<n] (f i) = g i) \<and>
    (\<forall>a. a \<notin> f ` {..<n} \<longrightarrow> foldl (\<lambda>m i. m(f i := g i)) m0 [0..<n] a = m0 a)"
  using assms
proof (induction n)
  case (Suc n)
  have inj: "inj_on f {..<n}" using Suc.prems by (rule inj_on_subset) auto
  have "f i \<noteq> f n" if "i < n" for i using Suc.prems that by (auto simp: inj_on_def)
  with Suc.IH [OF inj] show ?case by (auto simp: less_Suc_eq lessThan_Suc fun_upd_def)
qed simp

lemma build_single_chain_chained:
  assumes "build_single_chain ls permutation memory = Some (r, memory')" "inj_on (chain_line ls permutation) {..<ls_line_count ls}"
  shows "chained (chain_line ls permutation) 1 (ls_line_count ls) memory memory' \<and> r = chain_line ls permutation 0"
proof -
  let ?n = "ls_line_count ls" and ?x = "chain_line ls permutation"
  have n: "?n \<noteq> 0" and r: "r = ?x 0"
    and memory': "memory' = foldl (\<lambda>mem i. mem(?x i := ?x ((i + 1) mod ?n))) memory [0..<?n]"
    using assms(1) by (auto simp: build_single_chain_def chain_line_def split: if_splits)
  have nx: "?x ((i + 1) mod ?n) = ?x (next_pos 1 ?n i)" if "i < ?n" for i using next_pos_1 [OF that] by simp
  note upd = foldl_updates [OF assms(2), of "\<lambda>i. ?x ((i + 1) mod ?n)" memory, folded memory']
  show ?thesis unfolding chained_def
  proof (intro conjI allI impI)
    fix p
    assume "p < ?n"
    with upd nx show "memory' (?x p) = ?x (next_pos 1 ?n p)" by metis
  qed (use upd r in blast)+
qed

lemma mod_step: "0 < c \<Longrightarrow> p mod c = q mod c \<Longrightarrow> q < p \<Longrightarrow> q + c \<le> (p :: nat)"
  by (metis add.commute add_le_cancel_left le_add_diff_inverse less_imp_le mod_eq_dvd_iff_nat nat_dvd_not_less not_le zero_less_diff)

lemma stream_chain_links:
  assumes "stream_chain ls permutation c pos prev memory = (l, memory')" "0 < c"
    and "pos = q + c" "q < ls_line_count ls" "prev = chain_line ls permutation q"
    and inj: "inj_on (chain_line ls permutation) {..<ls_line_count ls}"
  shows "\<exists>e. l = chain_line ls permutation e \<and> q \<le> e \<and> e < ls_line_count ls \<and> ls_line_count ls \<le> e + c \<and> e mod c = q mod c \<and>
    (\<forall>p < ls_line_count ls. memory' (chain_line ls permutation p) =
       (if p mod c = q mod c \<and> q \<le> p \<and> p < e then chain_line ls permutation (p + c) else memory (chain_line ls permutation p))) \<and>
    (\<forall>a. a \<notin> chain_line ls permutation ` {..<ls_line_count ls} \<longrightarrow> memory' a = memory a)"
  using assms(1,3-5)
proof (induction "ls_line_count ls - pos" arbitrary: pos prev memory q rule: less_induct)
  case less
  let ?n = "ls_line_count ls" and ?x = "chain_line ls permutation"
  show ?case
  proof (cases "pos < ?n")
    case False
    with less.prems(1) have "l = prev" "memory' = memory" by (simp_all add: stream_chain.simps [of ls permutation c pos])
    with False less.prems show ?thesis by (intro exI [of _ q]) auto
  next
    case True
    let ?m = "memory(?x q := ?x pos)"
    have "stream_chain ls permutation c (pos + c) (?x pos) ?m = (l, memory')"
      using less.prems(1,4) True assms(2) by (simp add: stream_chain.simps [of ls permutation c pos] Let_def chain_line_def)
    moreover have dec: "?n - (pos + c) < ?n - pos" using True assms(2) by simp
    ultimately obtain e where
      e: "l = ?x e" "pos \<le> e" "e < ?n" "?n \<le> e + c" "e mod c = pos mod c"
      and links: "\<forall>p < ?n. memory' (?x p) = (if p mod c = pos mod c \<and> pos \<le> p \<and> p < e then ?x (p + c) else ?m (?x p))"
      and rest: "\<forall>a. a \<notin> ?x ` {..<?n} \<longrightarrow> memory' a = ?m a"
      using less.hyps [OF dec _ refl True refl, of ?m] by blast
    have pos: "pos mod c = q mod c" using less.prems(2) by simp
    have "memory' (?x p) = (if p mod c = q mod c \<and> q \<le> p \<and> p < e then ?x (p + c) else memory (?x p))" if p: "p < ?n" for p
    proof (cases "p = q")
      case True
      with links p pos less.prems(2) e(2) assms(2) show ?thesis by auto
    next
      case False
      then have "?x p \<noteq> ?x q" using inj p less.prems(3) by (auto simp: inj_on_def)
      moreover have "pos \<le> p" if "p mod c = q mod c" "q \<le> p"
        using mod_step [OF assms(2) that(1)] False that(2) less.prems(2) by simp
      ultimately show ?thesis using links p pos less.prems(2) by auto
    qed
    moreover have "?x q \<in> ?x ` {..<?n}" using less.prems(3) by simp
    ultimately show ?thesis using e rest pos less.prems(2) by (intro exI [of _ e]) auto
  qed
qed

text \<open>The streams from \<open>s\<close> on are linked, the earlier ones are as they were.\<close>

lemma build_streams_links:
  assumes "build_streams ls permutation c [s..<c] roots memory = (roots', memory')" "0 < c" "c \<le> ls_line_count ls"
    and inj: "inj_on (chain_line ls permutation) {..<ls_line_count ls}"
  shows "roots' = roots @ map (chain_line ls permutation) [s..<c] \<and>
    (\<forall>p < ls_line_count ls. memory' (chain_line ls permutation p) =
       (if s \<le> p mod c then chain_line ls permutation (next_pos c (ls_line_count ls) p) else memory (chain_line ls permutation p))) \<and>
    (\<forall>a. a \<notin> chain_line ls permutation ` {..<ls_line_count ls} \<longrightarrow> memory' a = memory a)"
  using assms(1)
proof (induction "c - s" arbitrary: s roots memory)
  case 0
  have "\<not> s \<le> p mod c" for p using 0(1) assms(2) by (metis diff_is_0_eq not_le order_less_le_trans mod_less_divisor)
  with 0 show ?case by simp
next
  case (Suc d)
  let ?n = "ls_line_count ls" and ?x = "chain_line ls permutation"
  have s: "s < c" "d = c - Suc s" using Suc(2) by simp_all
  obtain l m1 where st: "stream_chain ls permutation c (s + c) (?x s) memory = (l, m1)" by (rule prod.exhaust)
  have sn: "s < ?n" using s(1) assms(3) by simp
  from stream_chain_links [OF st assms(2) refl sn refl inj] obtain e where
    e: "l = ?x e" "s \<le> e" "e < ?n" "?n \<le> e + c" "e mod c = s mod c"
    and links: "\<forall>p < ?n. m1 (?x p) = (if p mod c = s mod c \<and> s \<le> p \<and> p < e then ?x (p + c) else memory (?x p))"
    and rest: "\<forall>a. a \<notin> ?x ` {..<?n} \<longrightarrow> m1 a = memory a" by blast
  have "[s..<c] = s # [Suc s..<c]" using s(1) by (simp add: upt_conv_Cons)
  with Suc(3) st have "build_streams ls permutation c [Suc s..<c] (roots @ [?x s]) (m1(l := ?x s)) = (roots', memory')"
    by (simp add: chain_line_def Let_def)
  note IH = Suc(1) [OF s(2) this]
  have smod: "s mod c = s" using s(1) by simp
  have step: "(m1(l := ?x s)) (?x p) = (if p mod c = s then ?x (next_pos c ?n p) else memory (?x p))" if p: "p < ?n" for p
  proof (cases "p = e")
    case True
    with e smod show ?thesis by (auto simp: next_pos_def)
  next
    case False
    then have "?x p \<noteq> l" using inj p e(1,3) by (auto simp: inj_on_def)
    moreover have "s \<le> p \<and> p < e \<and> p + c < ?n" if "p mod c = s"
    proof -
      have "\<not> e < p" using mod_step [OF assms(2), of p e] that e(4,5) p smod by force
      then have "p < e" using False by simp
      moreover from this have "p + c \<le> e" using mod_step [OF assms(2), of e p] that e(5) smod by simp
      moreover have "s \<le> p" using that mod_less_eq_dividend by blast
      ultimately show ?thesis using e(3) by simp
    qed
    ultimately show ?thesis using links p smod by (auto simp: next_pos_def)
  qed
  have in_lines: "l \<in> ?x ` {..<?n}" using e(1,3) by simp
  show ?case
  proof (intro conjI allI impI)
    show "roots' = roots @ map ?x [s..<c]" using IH \<open>[s..<c] = s # [Suc s..<c]\<close> by simp
  next
    fix p
    assume p: "p < ?n"
    with IH have "memory' (?x p) = (if Suc s \<le> p mod c then ?x (next_pos c ?n p) else (m1(l := ?x s)) (?x p))" by blast
    then show "memory' (?x p) = (if s \<le> p mod c then ?x (next_pos c ?n p) else memory (?x p))"
      unfolding step [OF p] by (simp add: Suc_le_eq le_less)
  next
    fix a
    assume a: "a \<notin> ?x ` {..<?n}"
    with IH have "memory' a = (m1(l := ?x s)) a" by blast
    with a in_lines rest show "memory' a = memory a" by auto
  qed
qed

lemma build_multi_chain_chained:
  assumes "build_multi_chain ls permutation c memory = Some (roots, memory')" "inj_on (chain_line ls permutation) {..<ls_line_count ls}"
  shows "chained (chain_line ls permutation) c (ls_line_count ls) memory memory' \<and> roots = map (chain_line ls permutation) [0..<c]"
proof -
  have "build_streams ls permutation c [0..<c] [] memory = (roots, memory')" "0 < c" "c \<le> ls_line_count ls"
    using assms(1) by (auto simp: build_multi_chain_def split: if_splits)
  from build_streams_links [OF this assms(2)] show ?thesis by (simp add: chained_def)
qed

text \<open>Following the pointers from the first line of a stream.\<close>

lemma next_pos_less: "0 < c \<Longrightarrow> c \<le> n \<Longrightarrow> next_pos c n p < n"
  by (auto simp: next_pos_def intro: order_less_le_trans [OF mod_less_divisor])

lemma chased:
  assumes "chained x c n memory memory'" "0 < c" "c \<le> n" "p < n"
  shows "(memory' ^^ k) (x p) = x ((next_pos c n ^^ k) p) \<and> (next_pos c n ^^ k) p < n"
proof (induction k)
  case (Suc k)
  then show ?case using assms next_pos_less [OF assms(2,3)] by (simp add: chained_def)
qed (simp add: assms)

lemma next_pos_iterate:
  assumes "s < c" "s + (L - 1) * c < n" "n \<le> s + L * c" "0 < L"
  shows "(next_pos c n ^^ k) s = s + (k mod L) * c"
proof (induction k)
  case (Suc k)
  let ?j = "k mod L"
  have j: "?j < L" using assms(4) by simp
  show ?case
  proof (cases "Suc ?j = L")
    case True
    then have "s + ?j * c + c = s + L * c" by (metis add.assoc mult_Suc add.commute)
    then have "\<not> s + ?j * c + c < n" using assms(3) by simp
    with Suc True assms(1) show ?thesis by (simp add: next_pos_def mod_Suc)
  next
    case False
    then have "Suc ?j \<le> L - 1" using j by simp
    then have "Suc ?j * c \<le> (L - 1) * c" by (rule mult_le_mono1)
    then have "s + ?j * c + c < n" using assms(2) by simp
    with Suc False show ?thesis by (simp add: next_pos_def mod_Suc)
  qed
qed simp

definition stream_length :: "nat \<Rightarrow> nat \<Rightarrow> nat \<Rightarrow> nat" where
  "stream_length c n s = (n - s + c - 1) div c"

lemma stream_length_bounds:
  assumes "s < c" "c \<le> n"
  shows "s + (stream_length c n s - 1) * c < n" "n \<le> s + stream_length c n s * c" "0 < stream_length c n s"
proof -
  let ?L = "stream_length c n s"
  have c: "0 < c" using assms by simp
  have "?L * c \<le> n - s + c - 1" "n - s + c - 1 < ?L * c + c"
    using div_mult_mod_eq [of "n - s + c - 1" c] mod_less_divisor [OF c, of "n - s + c - 1"] unfolding stream_length_def by linarith+
  moreover show pos: "0 < ?L" unfolding stream_length_def using assms by (simp add: div_greater_zero_iff)
  ultimately show "s + (?L - 1) * c < n" "n \<le> s + ?L * c" using assms by (auto simp: diff_mult_distrib)
qed

lemma stream_visits:
  assumes "chained x c n memory memory'" "s < c" "c \<le> n"
  shows "(memory' ^^ k) (x s) = x (s + (k mod stream_length c n s) * c)"
proof -
  have "0 < c" "s < n" using assms by simp_all
  with chased [OF assms(1) _ assms(3), of s k] next_pos_iterate [OF assms(2) stream_length_bounds [OF assms(2,3)]] show ?thesis by simp
qed

subsection \<open>Choice of classes\<close>

lemma choose_class_sets_Some:
  assumes "choose_class_sets mem vc hc lc n g q seed = Some (V, L)" "g < 2 ^ 63" "n \<le> 2 ^ 20"
  shows "length V = g" "length L = g" "distinct (V @ L)" "0 < q" "0 < g" "mem"
    "\<forall>c \<in> set (V @ L). unat c < n \<and> eligible_class vc hc lc q (unat c)"
proof -
  let ?cand = "map of_nat (filter (eligible_class vc hc lc q) [0..<n]) :: u64 list"
  let ?sh = "shuffle_u64 ?cand seed"
  have wrap: "g * 2 mod 2 ^ 64 = g * 2" using assms(2) by (intro mod_less) simp
  from assms(1) wrap have VL: "V = map (\<lambda>i. ?sh ! i) [0..<g]" "L = map (\<lambda>i. ?sh ! (g + i)) [0..<g]"
    and len: "g * 2 \<le> length ?sh" and "mem" "0 < g" "0 < q"
    by (auto simp: choose_class_sets_def Let_def split: if_splits)
  then show "length V = g" "length L = g" "mem" "0 < g" "0 < q" by simp_all
  have "V @ L = take (g * 2) ?sh" using VL len by (intro nth_equalityI) (auto simp: nth_append)
  moreover have small: "unat (of_nat i :: u64) = i" if "i < n" for i
    using that assms(3) by (intro unat_of_nat_u64) simp
  have "inj_on (of_nat :: nat \<Rightarrow> u64) {..<n}" by (rule inj_on_inverseI [of _ unat]) (use small in simp)
  then have "distinct ?cand" by (auto simp: distinct_map intro: inj_on_subset)
  ultimately show "distinct (V @ L)" by (simp add: distinct_take)
  show "\<forall>c \<in> set (V @ L). unat c < n \<and> eligible_class vc hc lc q (unat c)"
    using \<open>V @ L = take (g * 2) ?sh\<close> small by (auto dest!: in_set_takeD simp del: set_append)
qed

lemma choose_class_sets_None:
  assumes "g < 2 ^ 63" "0 < g" "0 < q" "mem"
  shows "choose_class_sets mem vc hc lc n g q seed = None \<longleftrightarrow> length (filter (eligible_class vc hc lc q) [0..<n]) < 2 * g"
proof -
  have "g * 2 mod 2 ^ 64 = g * 2" using assms(1) by (intro mod_less) simp
  with assms show ?thesis by (auto simp: choose_class_sets_def Let_def mult.commute)
qed

subsection \<open>Overlap of histograms\<close>

lemma jaccard_fold:
  assumes "(\<Sum>i<n. max (a ! i) (b ! i)) < 2 ^ 64"
  shows "foldl (\<lambda>(s, u) i. ((s + (if a ! i < b ! i then a ! i else b ! i)) mod 2 ^ 64,
      (u + (if b ! i < a ! i then a ! i else b ! i)) mod 2 ^ 64)) (0, 0) [0..<n] =
    (\<Sum>i<n. min (a ! i) (b ! i), \<Sum>i<n. max (a ! i) (b ! i :: nat))"
  using assms
proof (induction n)
  case (Suc n)
  have le: "(\<Sum>i<Suc n. min (a ! i) (b ! i)) \<le> (\<Sum>i<Suc n. max (a ! i) (b ! i))" by (intro sum_mono) simp
  have m: "min (a ! n) (b ! n) = (if a ! n < b ! n then a ! n else b ! n)" "max (a ! n) (b ! n) = (if b ! n < a ! n then a ! n else b ! n)"
    by (simp_all add: min_def max_def)
  from Suc le show ?case unfolding upt_Suc_append [OF le0] foldl_append sum.lessThan_Suc m by simp
qed simp

lemma histogram_jaccard_sums:
  assumes "(\<Sum>i<n. max (a ! i) (b ! i)) < 2 ^ 64"
  shows "histogram_jaccard rnd a b n =
    (let i = (\<Sum>i<n. min (a ! i) (b ! i)); u = (\<Sum>i<n. max (a ! i) (b ! i))
     in (if u = 0 then Fin 0 else fdiv rnd (rnd (real i)) (rnd (real u)), i, u))"
proof -
  have le: "(\<Sum>i<n. min (a ! i) (b ! i)) \<le> (\<Sum>i<n. max (a ! i) (b ! i))" by (intro sum_mono) simp
  have "unat (of_nat k :: u64) = k" if "k < 2 ^ 64" for k using that by (intro unat_of_nat_u64) simp
  with assms le show ?thesis unfolding histogram_jaccard_def jaccard_fold [OF assms] Let_def double_of_u64_def
    by (simp del: of_nat_sum)
qed


lemma ieee_rnd_count:
  assumes "ieee_rnd rnd" "0 < k" "k < 2 ^ 64"
  obtains y where "rnd (real k) = Fin y" "1 \<le> y"
proof -
  have "real k \<le> 2 ^ 64" using assms(3) by (metis less_imp_le of_nat_less_iff of_nat_numeral of_nat_power)
  then have "isfinite (rnd (real k))" using assms(1) by (simp add: ieee_rnd_def)
  then obtain y where y: "rnd (real k) = Fin y" by (auto elim: isfiniteE)
  moreover have "fle (rnd 1) (rnd (real k))" using assms(2) by (intro ieee_rnd_mono [OF assms(1)]) simp
  ultimately show ?thesis using assms(1) that by (simp add: ieee_rnd_def)
qed

text \<open>The histogram of a workset.\<close>

definition class_histogram :: "nat \<Rightarrow> u64 list \<Rightarrow> nat \<Rightarrow> nat list" where
  "class_histogram n classes q = map (\<lambda>c. if c \<in> unat ` set classes then q else 0) [0..<n]"

lemma class_histogram_nth [simp]: "i < n \<Longrightarrow> class_histogram n classes q ! i = (if i \<in> unat ` set classes then q else 0)"
  by (simp add: class_histogram_def)

lemma class_histogram_sum:
  assumes "distinct classes" "\<forall>c \<in> set classes. unat c < n"
  shows "(\<Sum>i<n. if i \<in> unat ` set classes then q else 0) = length classes * q"
proof -
  have "unat ` set classes \<subseteq> {..<n}" using assms(2) by auto
  then have "{..<n} \<inter> {i. i \<in> unat ` set classes} = unat ` set classes" by auto
  moreover have "card (unat ` set classes) = length classes"
    using assms(1) by (subst card_image) (auto simp: distinct_card intro: inj_onI dest: unsigned_word_eqI)
  ultimately show ?thesis by (simp add: sum.If_cases)
qed

lemma jaccard_same:
  assumes "distinct V" "\<forall>c \<in> set V. unat c < n" "length V * q < 2 ^ 64" "0 < length V * q" "ieee_rnd rnd"
  shows "histogram_jaccard rnd (class_histogram n V q) (class_histogram n V q) n = (Fin 1, length V * q, length V * q)"
proof -
  let ?h = "class_histogram n V q"
  have "(\<Sum>i<n. max (?h ! i) (?h ! i)) = length V * q" "(\<Sum>i<n. min (?h ! i) (?h ! i)) = length V * q"
    using class_histogram_sum [OF assms(1,2), of q] by simp_all
  moreover obtain y where "rnd (real (length V * q)) = Fin y" "1 \<le> y" by (rule ieee_rnd_count [OF assms(5,4,3)])
  then have "fdiv rnd (rnd (real (length V * q))) (rnd (real (length V * q))) = Fin 1"
    using assms(5) by (simp add: ieee_rnd_def)
  ultimately show ?thesis using histogram_jaccard_sums [of ?h ?h n rnd] assms(3,4) by (simp add: Let_def)
qed

lemma jaccard_disjoint:
  assumes "distinct (V @ L)" "\<forall>c \<in> set (V @ L). unat c < n" "(length V + length L) * q < 2 ^ 64" "ieee_rnd rnd"
  shows "\<exists>u. histogram_jaccard rnd (class_histogram n V q) (class_histogram n L q) n = (Fin 0, 0, u)"
proof -
  let ?a = "class_histogram n V q" and ?b = "class_histogram n L q"
  have disj: "\<not> (i \<in> unat ` set V \<and> i \<in> unat ` set L)" for i
    using assms(1) by (auto dest: unsigned_word_eqI)
  then have zero: "(\<Sum>i<n. min (?a ! i) (?b ! i)) = 0" by auto
  have "(\<Sum>i<n. max (?a ! i) (?b ! i)) \<le> (\<Sum>i<n. ?a ! i + ?b ! i)" by (intro sum_mono) simp
  also have "\<dots> = (length V + length L) * q"
    using class_histogram_sum [of V n q] class_histogram_sum [of L n q] assms(1,2) by (simp add: sum.distrib distrib_right)
  finally have small: "(\<Sum>i<n. max (?a ! i) (?b ! i)) < 2 ^ 64" using assms(3) by simp
  define u where "u = (\<Sum>i<n. max (?a ! i) (?b ! i))"
  have "fdiv rnd (rnd (real 0)) (rnd (real u)) = Fin 0" if "u \<noteq> 0"
  proof -
    have "0 < u" using that by simp
    moreover have "u < 2 ^ 64" using small by (simp only: u_def)
    ultimately obtain y where "rnd (real u) = Fin y" "1 \<le> y" using ieee_rnd_count [OF assms(4), of u] by blast
    then show ?thesis using assms(4) by (simp add: ieee_rnd_def)
  qed
  then show ?thesis unfolding histogram_jaccard_sums [OF small, of rnd] zero u_def [symmetric] Let_def by auto
qed


subsection \<open>The worksets\<close>

definition line_count :: "dram_mapping \<Rightarrow> memory_pool \<Rightarrow> nat \<Rightarrow> nat" where
  "line_count mapping pool c = length (filter (\<lambda>p. line_class mapping pool p = c) (pool_lines pool))"

text \<open>The classes with enough lines in all three pools.\<close>

definition common_classes :: "dram_mapping \<Rightarrow> nat \<Rightarrow> nat \<Rightarrow> memory_pool \<Rightarrow> memory_pool \<Rightarrow> memory_pool \<Rightarrow> nat" where
  "common_classes mapping n q vp hp lp =
     length (filter (\<lambda>c. q \<le> line_count mapping vp c \<and> q \<le> line_count mapping hp c \<and> q \<le> line_count mapping lp c) [0..<n])"

text \<open>What the three worksets are meant to be: victim and high aggressor on the same classes, the low aggressor on others.\<close>

definition worksets_intended ::
  "dram_mapping \<Rightarrow> nat \<Rightarrow> nat \<Rightarrow> nat \<Rightarrow> memory_pool \<Rightarrow> memory_pool \<Rightarrow> memory_pool \<Rightarrow> line_set \<times> line_set \<times> line_set \<Rightarrow> bool" where
  "worksets_intended mapping n g q vp hp lp sets =
     (case sets of (v, h, l) \<Rightarrow>
        \<exists>V L. length V = g \<and> length L = g \<and> distinct (V @ L) \<and> (\<forall>c \<in> set (V @ L). unat c < n) \<and>
          workset_ok mapping vp V q v \<and> workset_ok mapping hp V q h \<and> workset_ok mapping lp L q l)"

text \<open>The overlaps the program computes and reports: everything for the high aggressor, nothing for the low one.\<close>

definition overlaps_intended :: "rounding \<Rightarrow> dram_mapping \<Rightarrow> nat \<Rightarrow> line_set \<times> line_set \<times> line_set \<Rightarrow> bool" where
  "overlaps_intended rnd mapping n sets =
     (case sets of (v, h, l) \<Rightarrow>
        (case (build_histogram v mapping n, build_histogram h mapping n, build_histogram l mapping n) of
           (Some hv, Some hh, Some hl) \<Rightarrow> hh = hv \<and> fst (histogram_jaccard rnd hv hh n) = Fin 1 \<and> fst (histogram_jaccard rnd hv hl n) = Fin 0
         | _ \<Rightarrow> False))"

lemma collect_line_set_enough:
  assumes cl: "classified mapping pool oc n" and c: "classes \<noteq> []" "distinct classes" "\<forall>c \<in> set classes. unat c < n"
    and q: "0 < q" "length classes * q \<le> SIZE_MAX" and mem and "\<forall>c \<in> set classes. q \<le> line_count mapping pool (unat c)"
  obtains ls where "collect_line_set mem pool mapping oc n classes q seed = Some ls" "workset_ok mapping pool classes q ls"
proof (cases "collect_line_set mem pool mapping oc n classes q seed")
  case None
  with collect_line_set_collects [OF cl c q \<open>mem\<close>, of seed] assms(8) have False by (auto simp: line_count_def not_less)
  then show ?thesis ..
next
  case (Some ls)
  with collect_line_set_collects [OF cl c q \<open>mem\<close>, of seed] show ?thesis by (intro that) simp_all
qed

lemma select_worksets_cases:
  assumes cl: "classified mapping vp oc n" "classified mapping hp oc n" "classified mapping lp oc n"
    and g: "0 < g" "cf_group_classes cfg = g" and q: "0 < q" "g * q < 2 ^ 63" and mem and rnd: "ieee_rnd rnd"
  shows "case select_worksets rnd mem cfg mapping oc n q vp hp lp of
      None \<Rightarrow> common_classes mapping n q vp hp lp < 2 * g
    | Some sets \<Rightarrow> 2 * g \<le> common_classes mapping n q vp hp lp \<and> worksets_intended mapping n g q vp hp lp sets \<and>
        overlaps_intended rnd mapping n sets"
proof -
  from count_line_classes_counts [OF cl(1)] count_line_classes_counts [OF cl(2)] count_line_classes_counts [OF cl(3)]
  obtain vc hc lc where counts: "count_line_classes vp mapping oc n = Some vc" "count_line_classes hp mapping oc n = Some hc"
    "count_line_classes lp mapping oc n = Some lc" and
    lines: "\<forall>c < n. vc ! c = line_count mapping vp c \<and> hc ! c = line_count mapping hp c \<and> lc ! c = line_count mapping lp c"
    unfolding line_count_def by blast
  have el: "eligible_class vc hc lc q c \<longleftrightarrow>
      q \<le> line_count mapping vp c \<and> q \<le> line_count mapping hp c \<and> q \<le> line_count mapping lp c" if "c < n" for c
    using lines that by (simp add: eligible_class_def)
  have g63: "g < 2 ^ 63" using q g(1) by (metis le_less_trans mult_le_mono2 nat_mult_1_right Suc_leI One_nat_def)
  have n: "n \<le> 2 ^ 20" using classifiedD(3,4) [OF cl(1)] power_increasing [of _ 20 "2 :: nat"] by simp
  have common: "common_classes mapping n q vp hp lp = length (filter (eligible_class vc hc lc q) [0..<n])"
    unfolding common_classes_def using el by (intro arg_cong [of _ _ length] filter_cong) auto
  show ?thesis
  proof (cases "choose_class_sets mem vc hc lc n g q (cf_seed cfg)")
    case None
    with choose_class_sets_None [OF g63 g(1) q(1) \<open>mem\<close>, of vc hc lc n "cf_seed cfg"] common counts g(2) show ?thesis
      by (simp add: select_worksets_def)
  next
    case (Some VL)
    obtain V L where VL: "VL = (V, L)" by (rule prod.exhaust)
    note ch = choose_class_sets_Some [OF Some [unfolded VL] g63 n]
    have enough: "q \<le> line_count mapping vp (unat c)" "q \<le> line_count mapping hp (unat c)" "q \<le> line_count mapping lp (unat c)"
      if "c \<in> set (V @ L)" for c using ch(7) el that by blast+
    have len: "length V * q \<le> SIZE_MAX" "length L * q \<le> SIZE_MAX" using q(2) ch(1,2) by (simp_all add: SIZE_MAX_def)
    have V: "V \<noteq> []" "distinct V" "\<forall>c \<in> set V. unat c < n" and L: "L \<noteq> []" "distinct L" "\<forall>c \<in> set L. unat c < n"
      using ch g(1) by auto
    obtain v where v: "collect_line_set mem vp mapping oc n V q (cf_seed cfg XOR 0x4444444444444444) = Some v" "workset_ok mapping vp V q v"
      using collect_line_set_enough [OF cl(1) V q(1) len(1) \<open>mem\<close>] enough by (metis Un_iff set_append)
    obtain h where h: "collect_line_set mem hp mapping oc n V q (cf_seed cfg XOR 0x5555555555555555) = Some h" "workset_ok mapping hp V q h"
      using collect_line_set_enough [OF cl(2) V q(1) len(1) \<open>mem\<close>] enough by (metis Un_iff set_append)
    obtain l where l: "collect_line_set mem lp mapping oc n L q (cf_seed cfg XOR 0x6666666666666666) = Some l" "workset_ok mapping lp L q l"
      using collect_line_set_enough [OF cl(3) L q(1) len(2) \<open>mem\<close>] enough by (metis Un_iff set_append)
    have hist: "build_histogram v mapping n = Some (class_histogram n V q)" "build_histogram h mapping n = Some (class_histogram n V q)"
      "build_histogram l mapping n = Some (class_histogram n L q)"
      using build_histogram_workset [OF cl(1) v(2) V(2)] build_histogram_workset [OF cl(2) h(2) V(2)]
        build_histogram_workset [OF cl(3) l(2) L(2)] by (simp_all add: class_histogram_def)
    have "(length V + length L) * q < 2 ^ 64" using q(2) ch(1,2) by (simp add: distrib_right)
    from jaccard_disjoint [OF ch(3) _ this rnd, of n] ch(7) obtain u where
      J: "histogram_jaccard rnd (class_histogram n V q) (class_histogram n L q) n = (Fin 0, 0, u)" by blast
    from J Some VL counts v h l hist g(2) have "select_worksets rnd mem cfg mapping oc n q vp hp lp = Some (v, h, l)"
      by (simp add: select_worksets_def)
    moreover have "worksets_intended mapping n g q vp hp lp (v, h, l)"
      unfolding worksets_intended_def prod.case
      by (intro exI [of _ V] exI [of _ L] conjI ch(1,2,3) v(2) h(2) l(2)) (use ch(7) in blast)
    moreover have "length V * q < 2 ^ 64" "0 < length V * q" using q g(1) ch(1) by simp_all
    from jaccard_same [OF V(2,3) this rnd] J hist have "overlaps_intended rnd mapping n (v, h, l)"
      by (simp add: overlaps_intended_def)
    moreover have "2 * g \<le> common_classes mapping n q vp hp lp"
      using choose_class_sets_None [OF g63 g(1) q(1) \<open>mem\<close>, of vc hc lc n "cf_seed cfg"] Some common by simp
    ultimately show ?thesis by simp
  qed
qed

end
