(* ===== verification/Oracle_Prepared.thy ===== *)
theory Oracle_Prepared
  imports Oracle_Main_Correct
begin

text \<open>
  The preparation of the selective-control experiment as a whole: the pointer chains are tours of their worksets (\<open>tours\<close>), later chains
  do not disturb earlier ones, and \<open>prepare_experiment\<close> either finds too few common classes or delivers worksets and chains as intended.
\<close>

unbundle bit_operations_syntax

subsection \<open>Tours\<close>


text \<open>From each root, \<open>len\<close> steps of the memory lead back to it, and all the steps together meet every line exactly once.\<close>

definition tours :: "memory \<Rightarrow> nat list \<Rightarrow> nat \<Rightarrow> nat set \<Rightarrow> bool" where
  "tours memory roots len lines \<longleftrightarrow>
     bij_betw (\<lambda>(j, k). (memory ^^ k) (roots ! j)) ({..<length roots} \<times> {..<len}) lines \<and>
     (\<forall>j < length roots. (memory ^^ len) (roots ! j) = roots ! j)"

lemma workset_lines_distinct:
  assumes "workset_ok mapping pool classes q ls" "pool_ok pool"
  shows "distinct (ls_addresses ls)" "set (ls_addresses ls) \<subseteq> {mp_base pool ..< mp_base pool + mp_bytes pool}"
    "length (ls_addresses ls) = ls_line_count ls"
proof -
  from assms(1) obtain chosen where ch: "ls_addresses ls = map (line_address pool) chosen" "distinct chosen"
    "set chosen \<subseteq> set (pool_lines pool)" and len: "length (ls_addresses ls) = ls_line_count ls"
    by (auto simp: workset_ok_def)
  have lines: "set (pool_lines pool) \<subseteq> UNIV \<times> {..<lines_per_page pool}" by (auto simp: pool_lines_def)
  have "inj_on (line_address pool) (set chosen)"
    by (rule inj_on_subset [OF line_address_inj [OF assms(2)]]) (use ch(3) lines in blast)
  with ch(1,2) show "distinct (ls_addresses ls)" by (simp add: distinct_map)
  have "line_address pool p \<in> {mp_base pool ..< mp_base pool + mp_bytes pool}" if "p \<in> set (pool_lines pool)" for p
  proof -
    from that obtain page line where p: "p = (page, line)" "page < mp_page_count pool" "line < lines_per_page pool"
      by (auto simp: pool_lines_def)
    have "(page + 1) * mp_page_size pool \<le> mp_page_count pool * mp_page_size pool" using p(2) by (intro mult_le_mono1) simp
    with line_fits [OF assms(2) p(3)] p(1) assms(2) show ?thesis by (simp add: pool_ok_def)
  qed
  with ch(1,3) show "set (ls_addresses ls) \<subseteq> {mp_base pool ..< mp_base pool + mp_bytes pool}" by auto
  show "length (ls_addresses ls) = ls_line_count ls" by (rule len)
qed

lemma chain_line_bij:
  assumes "distinct (ls_addresses ls)" "length (ls_addresses ls) = n" "mset permutation = mset [0..<n]"
  shows "bij_betw (chain_line ls permutation) {..<n} (set (ls_addresses ls))"
proof -
  have perm: "length permutation = n" "distinct permutation" "set permutation = {..<n}"
    using assms(3) by (metis mset_eq_length length_upt diff_zero, metis mset_eq_imp_distinct_iff distinct_upt,
      metis mset_eq_setD set_upt lessThan_atLeast0)
  have "bij_betw ((!) (ls_addresses ls) \<circ> (!) permutation) {..<n} (set (ls_addresses ls))"
    by (rule bij_betw_trans [of _ _ "{..<n}"]) (use perm assms bij_betw_nth [of permutation] bij_betw_nth [of "ls_addresses ls"] in auto)
  then show ?thesis by (simp add: chain_line_def [abs_def] comp_def)
qed

lemma stream_length_multiple: "s < c \<Longrightarrow> stream_length c (m * c) s = m"
proof (cases m)
  case (Suc k)
  assume s: "s < c"
  show ?thesis unfolding stream_length_def
    by (rule div_nat_eqI) (use s Suc in \<open>auto simp: algebra_simps\<close>)
qed (auto simp: stream_length_def)

text \<open>The positions \<open>(j, k)\<close> of \<open>c\<close> streams of length \<open>m\<close> are the positions of the permuted workset.\<close>

lemma stream_positions: "0 < (c :: nat) \<Longrightarrow> bij_betw (\<lambda>(j, k). j + k * c) ({..<c} \<times> {..<m}) {..<m * c}"
proof (rule bij_betw_byWitness [of _ "\<lambda>p. (p mod c, p div c)"])
  assume c: "0 < c"
  show "(\<lambda>p. (p mod c, p div c)) ` {..<m * c} \<subseteq> {..<c} \<times> {..<m}" using c by (auto simp: less_mult_imp_div_less)
  have "j + k * c < m * c" if "j < c" "k < m" for j k
  proof -
    have "j + k * c < (k + 1) * c" using that by simp
    also have "\<dots> \<le> m * c" using that by (intro mult_le_mono1) simp
    finally show ?thesis .
  qed
  then show "(\<lambda>(j, k). j + k * c) ` ({..<c} \<times> {..<m}) \<subseteq> {..<m * c}" by auto
qed auto

lemma chained_tours:
  assumes "chained x c (m * c) memory memory'" "0 < c" "0 < m" "bij_betw x {..<m * c} lines"
  shows "tours memory' (map x [0..<c]) m lines"
proof -
  have visit: "(memory' ^^ k) (x j) = x (j + (k mod m) * c)" if "j < c" for j k
    using stream_visits [OF assms(1) that, of k] stream_length_multiple [OF that, of m] assms(3) by simp
  have "bij_betw (x \<circ> (\<lambda>(j, k). j + k * c)) ({..<c} \<times> {..<m}) lines"
    by (rule bij_betw_trans [OF stream_positions [OF assms(2)] assms(4)])
  moreover have "(x \<circ> (\<lambda>(j, k). j + k * c)) p = (\<lambda>(j, k). (memory' ^^ k) (map x [0..<c] ! j)) p" if "p \<in> {..<c} \<times> {..<m}" for p
    using that visit by auto
  ultimately have "bij_betw (\<lambda>(j, k). (memory' ^^ k) (map x [0..<c] ! j)) ({..<c} \<times> {..<m}) lines" by (metis (no_types, lifting) bij_betw_cong)
  with visit show ?thesis by (simp add: tours_def)
qed

text \<open>A tour depends on the memory of its lines only.\<close>

lemma tours_iterate:
  assumes "tours memory roots len lines" "\<forall>a \<in> lines. memory' a = memory a" "j < length roots" "k \<le> len"
  shows "(memory' ^^ k) (roots ! j) = (memory ^^ k) (roots ! j)"
  using assms(4)
proof (induction k)
  case (Suc k)
  then have "(j, k) \<in> {..<length roots} \<times> {..<len}" using assms(3) by simp
  then have "(memory ^^ k) (roots ! j) \<in> lines" using assms(1) unfolding tours_def bij_betw_def by force
  with Suc assms(2) show ?case by simp
qed simp

lemma tours_frame:
  assumes "tours memory roots len lines" "\<forall>a \<in> lines. memory' a = memory a"
  shows "tours memory' roots len lines"
proof -
  note same = tours_iterate [OF assms]
  have "bij_betw (\<lambda>(j, k). (memory ^^ k) (roots ! j)) ({..<length roots} \<times> {..<len}) lines" using assms(1) by (simp add: tours_def)
  then have "bij_betw (\<lambda>(j, k). (memory' ^^ k) (roots ! j)) ({..<length roots} \<times> {..<len}) lines"
    by (rule bij_betw_cong [THEN iffD1, rotated]) (auto simp: same)
  with assms(1) same show ?thesis by (simp add: tours_def)
qed

subsection \<open>The preparation\<close>

text \<open>No address belongs to two pools.\<close>

definition pools_apart :: "memory_pool \<Rightarrow> memory_pool \<Rightarrow> bool" where
  "pools_apart p q \<longleftrightarrow> mp_base p + mp_bytes p \<le> mp_base q \<or> mp_base q + mp_bytes q \<le> mp_base p"

text \<open>What the preparation needs: a ready mapping of at most 20 masks, three pools of pages of one size, sizes as the command line gives them.\<close>

definition preparable :: "config \<Rightarrow> dram_mapping \<Rightarrow> nat \<Rightarrow> memory_pool \<Rightarrow> memory_pool \<Rightarrow> memory_pool \<Rightarrow> bool" where
  "preparable cfg mapping page_size vp hp lp \<longleftrightarrow>
     dram_mapping_is_ready (Some mapping) \<and> dm_mask_count mapping \<le> 20 \<and>
     (\<forall>p \<in> {vp, hp, lp}. pool_ok p \<and> mp_page_size p = page_size) \<and> pools_apart vp hp \<and> pools_apart vp lp \<and> pools_apart hp lp \<and>
     0 < cf_workset_mib cfg \<and> 0 < cf_group_classes cfg \<and>
     cf_workset_mib cfg * MIB_BYTES \<le> SIZE_MAX \<and> cf_workset_mib cfg * (MIB_BYTES div CACHELINE_BYTES) mod cf_group_classes cfg = 0"

text \<open>The lines of a workset and of a class in it.\<close>

definition workset_lines :: "config \<Rightarrow> nat" where
  "workset_lines cfg = cf_workset_mib cfg * (MIB_BYTES div CACHELINE_BYTES)"

definition class_quota :: "config \<Rightarrow> nat" where
  "class_quota cfg = workset_lines cfg div cf_group_classes cfg"

lemma preparable_quota:
  assumes "preparable cfg mapping page_size vp hp lp"
  shows "workset_quota cfg = Some (workset_lines cfg, class_quota cfg)"
    "cf_group_classes cfg * class_quota cfg = workset_lines cfg" "0 < class_quota cfg" "0 < workset_lines cfg"
    "workset_lines cfg < 2 ^ 63" "workset_lines cfg = (cf_workset_mib cfg * 1024) * AGGRESSOR_STREAMS" "16 \<le> workset_lines cfg"
proof -
  have c: "cf_workset_mib cfg * MIB_BYTES = workset_lines cfg * CACHELINE_BYTES"
    by (simp add: workset_lines_def MIB_BYTES_def CACHELINE_BYTES_def)
  have "\<not> SIZE_MAX div MIB_BYTES < cf_workset_mib cfg"
    using assms by (simp add: preparable_def not_less less_eq_div_iff_mult_less_eq MIB_BYTES_def)
  then show "workset_quota cfg = Some (workset_lines cfg, class_quota cfg)"
    using assms unfolding workset_quota_def Let_def c class_quota_def
    by (simp add: preparable_def workset_lines_def CACHELINE_BYTES_def)
  show pos: "0 < workset_lines cfg" "16 \<le> workset_lines cfg"
    using assms by (auto simp: preparable_def workset_lines_def MIB_BYTES_def CACHELINE_BYTES_def)
  have "workset_lines cfg mod cf_group_classes cfg = 0" using assms unfolding preparable_def workset_lines_def by blast
  then show q: "cf_group_classes cfg * class_quota cfg = workset_lines cfg" unfolding class_quota_def by auto
  show "0 < class_quota cfg" using q pos(1) by (metis gr0I mult_0_right less_irrefl)
  have "workset_lines cfg * 64 \<le> 2 ^ 64 - 1" using assms c by (simp add: preparable_def CACHELINE_BYTES_def SIZE_MAX_def)
  then show "workset_lines cfg < 2 ^ 63" by simp
  show "workset_lines cfg = (cf_workset_mib cfg * 1024) * AGGRESSOR_STREAMS"
    by (simp add: workset_lines_def MIB_BYTES_def CACHELINE_BYTES_def AGGRESSOR_STREAMS_def)
qed

lemma preparable_classified:
  assumes "preparable cfg mapping page_size vp hp lp"
  obtains oc n where "class_space_from_mapping mapping = Some n" "build_offset_classes True mapping page_size = Some oc"
    "classified mapping vp oc n" "classified mapping hp oc n" "classified mapping lp oc n"
proof -
  have pools: "pool_ok vp" "pool_ok hp" "pool_ok lp" "mp_page_size vp = page_size" "mp_page_size hp = page_size" "mp_page_size lp = page_size"
    and m: "dram_mapping_is_ready (Some mapping)" "dm_mask_count mapping \<le> 20"
    using assms by (simp_all add: preparable_def)
  have "2 ^ dm_mask_count mapping \<le> (2 ^ 20 :: nat)" using m(2) by (intro power_increasing) simp_all
  then have n: "class_space_from_mapping mapping = Some (2 ^ dm_mask_count mapping)"
    using m by (simp add: class_space_from_mapping_def Let_def SIZE_MAX_def)
  have "page_size mod CACHELINE_BYTES = 0"
    using lines_per_page_size [OF pools(1)] pools(4) by (metis mod_mult_self2_is_0)
  then obtain oc where oc: "build_offset_classes True mapping page_size = Some oc" by (simp add: build_offset_classes_def)
  have "classified mapping p oc (2 ^ dm_mask_count mapping)" if "pool_ok p" "mp_page_size p = page_size" for p
    unfolding classified_def using that n build_offset_classes_table [OF that(1) _ oc] by simp
  with pools show ?thesis by (intro that [OF n oc]) simp_all
qed

lemma select_worksets_pools:
  assumes "worksets_intended mapping n g q vp hp lp (v, h, l)" "pool_ok vp" "pool_ok hp" "pool_ok lp" "0 < g"
  shows "ls_line_count v = g * q" "ls_line_count h = g * q" "ls_line_count l = g * q"
    "distinct (ls_addresses v)" "distinct (ls_addresses h)" "distinct (ls_addresses l)"
    "length (ls_addresses v) = g * q" "length (ls_addresses h) = g * q" "length (ls_addresses l) = g * q"
    "set (ls_addresses v) \<subseteq> {mp_base vp ..< mp_base vp + mp_bytes vp}"
    "set (ls_addresses h) \<subseteq> {mp_base hp ..< mp_base hp + mp_bytes hp}"
    "set (ls_addresses l) \<subseteq> {mp_base lp ..< mp_base lp + mp_bytes lp}"
proof -
  from assms(1) obtain V L where VL: "length V = g" "length L = g" and
    ok: "workset_ok mapping vp V q v" "workset_ok mapping hp V q h" "workset_ok mapping lp L q l"
    by (auto simp: worksets_intended_def)
  note d = workset_lines_distinct [OF ok(1) assms(2)] workset_lines_distinct [OF ok(2) assms(3)] workset_lines_distinct [OF ok(3) assms(4)]
  from ok VL show n: "ls_line_count v = g * q" "ls_line_count h = g * q" "ls_line_count l = g * q" by (simp_all add: workset_ok_def)
  from d n show "distinct (ls_addresses v)" "distinct (ls_addresses h)" "distinct (ls_addresses l)"
    "length (ls_addresses v) = g * q" "length (ls_addresses h) = g * q" "length (ls_addresses l) = g * q"
    "set (ls_addresses v) \<subseteq> {mp_base vp ..< mp_base vp + mp_bytes vp}"
    "set (ls_addresses h) \<subseteq> {mp_base hp ..< mp_base hp + mp_bytes hp}"
    "set (ls_addresses l) \<subseteq> {mp_base lp ..< mp_base lp + mp_bytes lp}" by simp_all
qed

text \<open>The victim's chain is one tour of its workset, the aggressors' chains are a tour in 16 streams.\<close>

definition chains_ready :: "nat \<Rightarrow> oracle_setup \<Rightarrow> bool" where
  "chains_ready n s \<longleftrightarrow>
     tours (ex_memory s) [ex_victim_root s] n (set (ls_addresses (ex_victim s))) \<and>
     length (ex_high_roots s) = AGGRESSOR_STREAMS \<and>
     tours (ex_memory s) (ex_high_roots s) (n div AGGRESSOR_STREAMS) (set (ls_addresses (ex_high s))) \<and>
     length (ex_low_roots s) = AGGRESSOR_STREAMS \<and>
     tours (ex_memory s) (ex_low_roots s) (n div AGGRESSOR_STREAMS) (set (ls_addresses (ex_low s)))"

lemma single_chain_tours:
  assumes "mset permutation = mset [0..<n]" "distinct (ls_addresses ls)" "length (ls_addresses ls) = n" "ls_line_count ls = n" "0 < n"
  obtains r memory' where "build_single_chain ls permutation memory = Some (r, memory')"
    "tours memory' [r] n (set (ls_addresses ls))" "\<forall>a. a \<notin> set (ls_addresses ls) \<longrightarrow> memory' a = memory a"
proof -
  note bij = chain_line_bij [OF assms(2,3,1)]
  have inj: "inj_on (chain_line ls permutation) {..<ls_line_count ls}" using bij assms(4) by (simp add: bij_betw_def)
  obtain r memory' where b: "build_single_chain ls permutation memory = Some (r, memory')"
    using assms(4,5) by (simp add: build_single_chain_def)
  from build_single_chain_chained [OF b inj] have ch: "chained (chain_line ls permutation) 1 (n * 1) memory memory'"
    and r: "r = chain_line ls permutation 0" using assms(4) by simp_all
  have "tours memory' [r] n (set (ls_addresses ls))" using chained_tours [OF ch _ assms(5)] bij r by simp
  moreover have "\<forall>a. a \<notin> set (ls_addresses ls) \<longrightarrow> memory' a = memory a"
    using ch bij_betw_imp_surj_on [OF bij] by (simp add: chained_def)
  ultimately show ?thesis by (rule that [OF b])
qed

lemma multi_chain_tours:
  assumes "mset permutation = mset [0..<m * c]" "distinct (ls_addresses ls)" "length (ls_addresses ls) = m * c" "ls_line_count ls = m * c"
    "0 < c" "0 < m"
  obtains roots memory' where "build_multi_chain ls permutation c memory = Some (roots, memory')" "length roots = c"
    "tours memory' roots m (set (ls_addresses ls))" "\<forall>a. a \<notin> set (ls_addresses ls) \<longrightarrow> memory' a = memory a"
proof -
  note bij = chain_line_bij [OF assms(2,3,1)]
  have inj: "inj_on (chain_line ls permutation) {..<ls_line_count ls}" using bij assms(4) by (simp add: bij_betw_def)
  have "\<not> m * c < c" using assms(6) by (simp add: not_less)
  then obtain roots memory' where b: "build_multi_chain ls permutation c memory = Some (roots, memory')"
    using assms(4,5) by (cases "build_streams ls permutation c [0..<c] [] memory") (simp add: build_multi_chain_def)
  from build_multi_chain_chained [OF b inj] have ch: "chained (chain_line ls permutation) c (m * c) memory memory'"
    and r: "roots = map (chain_line ls permutation) [0..<c]" using assms(4) by simp_all
  have "tours memory' roots m (set (ls_addresses ls))" using chained_tours [OF ch assms(5,6) bij] r by simp
  moreover have "\<forall>a. a \<notin> set (ls_addresses ls) \<longrightarrow> memory' a = memory a"
    using ch bij_betw_imp_surj_on [OF bij] by (simp add: chained_def)
  ultimately show ?thesis using r by (intro that [OF b]) simp_all
qed

lemma prepare_experiment_cases:
  assumes P: "preparable cfg mapping page_size vp hp lp" and rnd: "ieee_rnd rnd"
    and n: "n = 2 ^ dm_mask_count mapping" and g: "g = cf_group_classes cfg" and q: "q = class_quota cfg"
  shows "case prepare_experiment rnd True cfg mapping page_size vp hp lp memory of
      None \<Rightarrow> common_classes mapping n q vp hp lp < 2 * g
    | Some s \<Rightarrow> 2 * g \<le> common_classes mapping n q vp hp lp \<and>
        worksets_intended mapping n g q vp hp lp (ex_victim s, ex_high s, ex_low s) \<and>
        overlaps_intended rnd mapping n (ex_victim s, ex_high s, ex_low s) \<and> chains_ready (workset_lines cfg) s"
proof -
  obtain oc n' where cs: "class_space_from_mapping mapping = Some n'" "build_offset_classes True mapping page_size = Some oc"
    and cl: "classified mapping vp oc n'" "classified mapping hp oc n'" "classified mapping lp oc n'"
    by (rule preparable_classified [OF P])
  have [simp]: "n' = n" using classifiedD(3) [OF cl(1)] n by simp
  note Q = preparable_quota [OF P, folded g q]
  have g0: "0 < g" and pools: "pool_ok vp" "pool_ok hp" "pool_ok lp" and apart: "pools_apart vp hp" "pools_apart vp lp" "pools_apart hp lp"
    using P g by (simp_all add: preparable_def)
  have gq: "g * q < 2 ^ 63" using Q(2,5) by simp
  note sel = select_worksets_cases [OF cl g0 g [symmetric] Q(3) gq TrueI rnd, simplified]
  show ?thesis
  proof (cases "select_worksets rnd True cfg mapping oc n q vp hp lp")
    case None
    then show ?thesis using cs Q(1) sel by (simp add: prepare_experiment_def)
  next
    case (Some sets)
    obtain v h l where sets: "sets = (v, h, l)" by (rule prod_cases3)
    with sel Some have wi: "worksets_intended mapping n g q vp hp lp (v, h, l)" and rest: "2 * g \<le> common_classes mapping n q vp hp lp"
      "overlaps_intended rnd mapping n (v, h, l)" by simp_all
    note W = select_worksets_pools [OF wi pools g0, unfolded Q(2)]
    let ?perm = "shuffle_size_t [0..<workset_lines cfg] (cf_seed cfg XOR 0x7777777777777777)"
    let ?m = "cf_workset_mib cfg * 1024"
    have perm: "mset ?perm = mset [0..<workset_lines cfg]" by (rule mset_shuffle)
    have m: "0 < ?m" "0 < AGGRESSOR_STREAMS" "workset_lines cfg div AGGRESSOR_STREAMS = ?m"
      using Q(4,6) by (auto simp: AGGRESSOR_STREAMS_def)
    obtain r m1 where c1: "build_single_chain v ?perm memory = Some (r, m1)" "tours m1 [r] (workset_lines cfg) (set (ls_addresses v))"
      by (rule single_chain_tours [OF perm W(4,7,1) Q(4)])
    obtain hr m2 where c2: "build_multi_chain h ?perm AGGRESSOR_STREAMS m1 = Some (hr, m2)" "length hr = AGGRESSOR_STREAMS"
      "tours m2 hr ?m (set (ls_addresses h))" "\<forall>a. a \<notin> set (ls_addresses h) \<longrightarrow> m2 a = m1 a"
      by (rule multi_chain_tours [OF perm [unfolded Q(6)] W(5) W(8,2) [unfolded Q(6)] m(2,1), folded Q(6)])
    obtain lr m3 where c3: "build_multi_chain l ?perm AGGRESSOR_STREAMS m2 = Some (lr, m3)" "length lr = AGGRESSOR_STREAMS"
      "tours m3 lr ?m (set (ls_addresses l))" "\<forall>a. a \<notin> set (ls_addresses l) \<longrightarrow> m3 a = m2 a"
      by (rule multi_chain_tours [OF perm [unfolded Q(6)] W(6) W(9,3) [unfolded Q(6)] m(2,1), folded Q(6)])
    have disj: "set (ls_addresses v) \<inter> set (ls_addresses h) = {}" "set (ls_addresses v) \<inter> set (ls_addresses l) = {}"
      "set (ls_addresses h) \<inter> set (ls_addresses l) = {}"
      using W(10,11,12) apart unfolding pools_apart_def by fastforce+
    have "tours m3 [r] (workset_lines cfg) (set (ls_addresses v))"
      by (rule tours_frame [OF c1(2)]) (use c2(4) c3(4) disj in \<open>metis disjoint_iff\<close>)
    moreover have "tours m3 hr ?m (set (ls_addresses h))"
      by (rule tours_frame [OF c2(3)]) (use c3(4) disj in \<open>metis disjoint_iff\<close>)
    moreover have "prepare_experiment rnd True cfg mapping page_size vp hp lp memory =
        Some \<lparr>ex_victim = v, ex_high = h, ex_low = l, ex_permutation = ?perm, ex_victim_root = r, ex_high_roots = hr,
              ex_low_roots = lr, ex_memory = m3\<rparr>"
      using cs Q(1,4) Some sets c1(1) c2(1) c3(1) by (simp add: prepare_experiment_def make_permutation_def)
    ultimately show ?thesis using wi rest c2(2) c3(2,3) m(3) by (simp add: chains_ready_def)
  qed
qed

end
