(* ===== verification/Oracle_Loops.thy ===== *)
theory Oracle_Loops
  imports Oracle_Prepared
begin

text \<open>
  The measuring loops of the workers: for a clock on which the time is up at the \<open>N\<close>-th reading they return after \<open>N\<close> chunks, and their
  pointers stay on the tour of the workset.
\<close>


subsection \<open>The measuring loops\<close>

text \<open>The clock at its \<open>i\<close>-th reading after \<open>w\<close>, and the time since \<open>start\<close>.\<close>

definition reading :: "os \<Rightarrow> world \<Rightarrow> nat \<Rightarrow> (int \<times> int) option" where
  "reading os w i = os_clock os ((tick ^^ i) w)"

definition time_up :: "rounding \<Rightarrow> cdouble \<Rightarrow> int \<times> int \<Rightarrow> os \<Rightarrow> world \<Rightarrow> nat \<Rightarrow> bool" where
  "time_up rnd seconds start os w i \<longleftrightarrow> (case reading os w i of None \<Rightarrow> False | Some now \<Rightarrow> fle seconds (elapsed_sec rnd start now))"

text \<open>The time is up for the first time at reading \<open>N\<close>, and no reading before it fails.\<close>

definition stops_at :: "rounding \<Rightarrow> cdouble \<Rightarrow> os \<Rightarrow> world \<Rightarrow> nat \<Rightarrow> bool" where
  "stops_at rnd seconds os w N \<longleftrightarrow>
     0 < N \<and> (\<forall>i \<le> N. reading os w i \<noteq> None) \<and> time_up rnd seconds (the (reading os w 0)) os w N \<and>
     (\<forall>i. 0 < i \<and> i < N \<longrightarrow> \<not> time_up rnd seconds (the (reading os w 0)) os w i)"

definition loop_result :: "rounding \<Rightarrow> os \<Rightarrow> world \<Rightarrow> nat \<Rightarrow> nat \<Rightarrow> worker_result" where
  "loop_result rnd os w N ops =
     \<lparr>wk_ok = True, wk_elapsed_sec = elapsed_sec rnd (the (reading os w 0)) (the (reading os w N)), wk_operations = ops mod 2 ^ 64\<rparr>"

lemma stops_at_reading:
  assumes "stops_at rnd seconds os w N" "i \<le> N" "0 < i"
  obtains now where "reading os w i = Some now" "os_clock os ((tick ^^ i) w) = Some now"
    "fle seconds (elapsed_sec rnd (the (reading os w 0)) now) \<longleftrightarrow> i = N"
proof -
  from assms(1,2) obtain now where now: "reading os w i = Some now" unfolding stops_at_def by blast
  have "time_up rnd seconds (the (reading os w 0)) os w i \<longleftrightarrow> i = N"
    using assms unfolding stops_at_def by (metis le_neq_implies_less)
  with now show ?thesis by (intro that) (simp_all add: time_up_def reading_def)
qed

lemma funpow_chunk: "(f ^^ (c * k)) ((f ^^ c) x) = (f ^^ (c * Suc k)) x"
  by (simp add: funpow_add add.commute [of c])

lemma victim_rounds_until:
  assumes "stops_at rnd seconds os w N" "0 < j" "j \<le> N" "ops < 2 ^ 64"
  shows "victim_rounds rnd os memory seconds (the (reading os w 0)) p ops ((tick ^^ j) w) =
    Some (Some ((memory ^^ (VICTIM_CHUNK_READS * (N + 1 - j))) p, loop_result rnd os w N (ops + VICTIM_CHUNK_READS * (N + 1 - j))), (tick ^^ (N + 1)) w)"
  using assms(2-)
proof (induction "N - j" arbitrary: j p ops)
  case 0
  then have j: "j = N" by simp
  from stops_at_reading [OF assms(1) 0(3,2)] j obtain now where
    "reading os w N = Some now" "os_clock os ((tick ^^ N) w) = Some now" "fle seconds (elapsed_sec rnd (the (reading os w 0)) now)" by metis
  then show ?case unfolding j by (subst victim_rounds.simps) (simp add: Let_def clock_gettime_def loop_result_def)
next
  case (Suc d)
  then have j: "j < N" "d = N - Suc j" by simp_all
  from stops_at_reading [OF assms(1) Suc.prems(2,1)] j(1) obtain now where
    now: "os_clock os ((tick ^^ j) w) = Some now" "\<not> fle seconds (elapsed_sec rnd (the (reading os w 0)) now)" by (metis less_irrefl)
  let ?C = VICTIM_CHUNK_READS and ?k = "N + 1 - Suc j"
  have k: "N + 1 - j = Suc ?k" using j(1) by simp
  have ops: "loop_result rnd os w N ((ops + ?C) mod 2 ^ 64 + ?C * ?k) = loop_result rnd os w N (ops + ?C * Suc ?k)"
    unfolding loop_result_def by (simp add: mod_simps add.assoc)
  have "victim_rounds rnd os memory seconds (the (reading os w 0)) p ops ((tick ^^ j) w) =
      victim_rounds rnd os memory seconds (the (reading os w 0)) ((memory ^^ ?C) p) ((ops + ?C) mod 2 ^ 64) ((tick ^^ Suc j) w)"
    using now by (subst victim_rounds.simps) (simp add: Let_def clock_gettime_def)
  also have "\<dots> = Some (Some ((memory ^^ (?C * ?k)) ((memory ^^ ?C) p), loop_result rnd os w N ((ops + ?C) mod 2 ^ 64 + ?C * ?k)), (tick ^^ (N + 1)) w)"
    by (rule Suc.hyps(1) [OF j(2)]) (use j(1) in simp_all)
  finally show ?case unfolding k ops funpow_chunk .
qed

lemma aggressor_rounds_until:
  assumes "stops_at rnd seconds os w N" "0 < j" "j \<le> N" "ops < 2 ^ 64"
  shows "aggressor_rounds rnd os memory seconds (the (reading os w 0)) ps ops ((tick ^^ j) w) =
    Some (Some (map (memory ^^ (AGGRESSOR_CHUNK_ITERS * (N + 1 - j))) ps,
      loop_result rnd os w N (ops + AGGRESSOR_CHUNK_ITERS * AGGRESSOR_STREAMS * (N + 1 - j))), (tick ^^ (N + 1)) w)"
  using assms(2-)
proof (induction "N - j" arbitrary: j ps ops)
  case 0
  then have j: "j = N" by simp
  from stops_at_reading [OF assms(1) 0(3,2)] j obtain now where
    "reading os w N = Some now" "os_clock os ((tick ^^ N) w) = Some now" "fle seconds (elapsed_sec rnd (the (reading os w 0)) now)" by metis
  then show ?case unfolding j by (subst aggressor_rounds.simps) (simp add: Let_def clock_gettime_def loop_result_def)
next
  case (Suc d)
  then have j: "j < N" "d = N - Suc j" by simp_all
  from stops_at_reading [OF assms(1) Suc.prems(2,1)] j(1) obtain now where
    now: "os_clock os ((tick ^^ j) w) = Some now" "\<not> fle seconds (elapsed_sec rnd (the (reading os w 0)) now)" by (metis less_irrefl)
  let ?C = AGGRESSOR_CHUNK_ITERS and ?D = "AGGRESSOR_CHUNK_ITERS * AGGRESSOR_STREAMS" and ?k = "N + 1 - Suc j"
  have k: "N + 1 - j = Suc ?k" using j(1) by simp
  have ops: "loop_result rnd os w N ((ops + ?D) mod 2 ^ 64 + ?D * ?k) = loop_result rnd os w N (ops + ?D * Suc ?k)"
    unfolding loop_result_def by (simp add: mod_simps add.assoc)
  have "aggressor_rounds rnd os memory seconds (the (reading os w 0)) ps ops ((tick ^^ j) w) =
      aggressor_rounds rnd os memory seconds (the (reading os w 0)) (map (memory ^^ ?C) ps) ((ops + ?D) mod 2 ^ 64) ((tick ^^ Suc j) w)"
    using now by (subst aggressor_rounds.simps) (simp add: Let_def clock_gettime_def)
  also have "\<dots> = Some (Some (map (memory ^^ (?C * ?k)) (map (memory ^^ ?C) ps), loop_result rnd os w N ((ops + ?D) mod 2 ^ 64 + ?D * ?k)), (tick ^^ (N + 1)) w)"
    by (rule Suc.hyps(1) [OF j(2)]) (use j(1) in simp_all)
  finally show ?case unfolding k ops map_map comp_def funpow_chunk .
qed

lemma victim_loop_until:
  assumes "stops_at rnd seconds os w N" "root_ptr \<noteq> 0" "\<not> fle seconds (Fin 0)"
  shows "victim_loop rnd os memory root_ptr seconds w =
    Some (Some ((memory ^^ (VICTIM_CHUNK_READS * N)) root_ptr, loop_result rnd os w N (VICTIM_CHUNK_READS * N)), (tick ^^ (N + 1)) w)"
proof -
  have N: "0 < N" and start: "os_clock os w \<noteq> None" using assms(1) by (auto simp: stops_at_def reading_def)
  with victim_rounds_until [OF assms(1), of 1 0 memory root_ptr] assms(2,3) show ?thesis
    by (auto simp: victim_loop_def clock_gettime_def reading_def)
qed

lemma aggressor_loop_until:
  assumes "stops_at rnd seconds os w N" "\<not> fle seconds (Fin 0)"
  shows "aggressor_loop rnd os memory roots seconds w =
    Some (Some (map (memory ^^ (AGGRESSOR_CHUNK_ITERS * N)) roots,
      loop_result rnd os w N (AGGRESSOR_CHUNK_ITERS * AGGRESSOR_STREAMS * N)), (tick ^^ (N + 1)) w)"
proof -
  have N: "0 < N" and start: "os_clock os w \<noteq> None" using assms(1) by (auto simp: stops_at_def reading_def)
  with aggressor_rounds_until [OF assms(1), of 1 0 memory roots] assms(2) show ?thesis
    by (auto simp: aggressor_loop_def clock_gettime_def reading_def)
qed

text \<open>Following a tour for longer than once around.\<close>

lemma tours_mod:
  assumes "tours memory roots len lines" "j < length roots"
  shows "(memory ^^ k) (roots ! j) = (memory ^^ (k mod len)) (roots ! j)"
  using assms by (simp add: tours_def funpow_mod_eq)

lemma tours_stay:
  assumes "tours memory roots len lines" "j < length roots" "0 < len"
  shows "(memory ^^ k) (roots ! j) \<in> lines"
proof -
  have "(j, k mod len) \<in> {..<length roots} \<times> {..<len}" using assms(2,3) by simp
  then have "(memory ^^ (k mod len)) (roots ! j) \<in> lines" using assms(1) unfolding tours_def bij_betw_def by force
  then show ?thesis using tours_mod [OF assms(1,2)] by simp
qed

end
