(* ===== verification/Oracle_Run.thy ===== *)
theory Oracle_Run
  imports Oracle_Main Calibration_Run "HOL-Library.Monad_Syntax"
begin

text \<open>
  The selective-control experiment, fourth part: the control groups of the run, the workers and the measurement of one condition
  (\<open>oracle_selective_control.c\<close>). What the system calls answer is read from a record \<open>run_os\<close>, as a function of the state so far; the state
  counts the calls and the open descriptors and lists, in order, what was written, which directories were made and whether their removal
  succeeded, what happened to the workers (each with the two ends of its pipe) and what was read from their pipes. Loops that repeat an interrupted call may not end; \<open>None\<close> is a function that does not return. Messages are
  left out.
\<close>

definition PATH_MAX :: nat where "PATH_MAX = 4096"
definition CPU_SETSIZE :: int where "CPU_SETSIZE = 1024"
definition WARMUP_SECONDS :: cdouble where "WARMUP_SECONDS = Fin 1"

subsection \<open>System calls\<close>

datatype worker = Victim int u32 nat | Aggressor int u32 "nat list"

datatype run_signal = RUN_SIGCONT | RUN_SIGKILL

datatype run_event =
    Rv_wrote string string
  | Rv_mkdir string
  | Rv_rmdir string bool
  | Rv_spawned pid_t worker "nat \<times> nat"
  | Rv_stopped pid_t
  | Rv_signal pid_t run_signal
  | Rv_ended pid_t nat
  | Rv_read int "u8 list"

record run_world =
  rw_calls :: nat
  rw_open :: nat
  rw_events :: "run_event list"

text \<open>\<open>ro_open\<close> answers a descriptor or a negative number, \<open>ro_fork\<close> the id of the child or 0 for a failure, \<open>ro_waitpid\<close> the status word; its flag is
  \<open>WUNTRACED\<close>. \<open>ro_read_text\<close> answers a single \<open>read\<close> of a text file.\<close>

record run_os =
  ro_open :: "run_world \<Rightarrow> string \<Rightarrow> int"
  ro_read_text :: "run_world \<Rightarrow> int \<Rightarrow> string option"
  ro_write :: "run_world \<Rightarrow> int \<Rightarrow> nat \<Rightarrow> errno + nat"
  ro_read :: "run_world \<Rightarrow> int \<Rightarrow> nat \<Rightarrow> errno + u8 list"
  ro_mkdir :: "run_world \<Rightarrow> string \<Rightarrow> bool"
  ro_rmdir :: "run_world \<Rightarrow> string \<Rightarrow> bool"
  ro_pipe :: "run_world \<Rightarrow> (nat \<times> nat) option"
  ro_fork :: "run_world \<Rightarrow> nat"
  ro_kill :: "run_world \<Rightarrow> pid_t \<Rightarrow> run_signal \<Rightarrow> bool"
  ro_waitpid :: "run_world \<Rightarrow> pid_t \<Rightarrow> bool \<Rightarrow> errno + nat"
  ro_getpid :: pid_t

definition rtick :: "run_world \<Rightarrow> run_world" where
  "rtick w = w\<lparr>rw_calls := Suc (rw_calls w)\<rparr>"

definition rlog :: "run_event \<Rightarrow> run_world \<Rightarrow> run_world" where
  "rlog e w = w\<lparr>rw_events := rw_events w @ [e]\<rparr>"

definition ropened :: "nat \<Rightarrow> run_world \<Rightarrow> run_world" where
  "ropened n w = w\<lparr>rw_open := rw_open w + n\<rparr>"

definition rclose :: "run_world \<Rightarrow> run_world" where
  "rclose w = (rtick w)\<lparr>rw_open := rw_open w - 1\<rparr>"

definition rkill :: "run_os \<Rightarrow> pid_t \<Rightarrow> run_signal \<Rightarrow> run_world \<Rightarrow> bool \<times> run_world" where
  "rkill os pid sig w = (ro_kill os w pid sig, rlog (Rv_signal pid sig) (rtick w))"

definition rmkdir :: "run_os \<Rightarrow> string \<Rightarrow> run_world \<Rightarrow> bool \<times> run_world" where
  "rmkdir os path w = (if ro_mkdir os w path then (True, rlog (Rv_mkdir path) (rtick w)) else (False, rtick w))"

text \<open>The program ignores what \<open>rmdir\<close> returns; the event says whether the directory was removed.\<close>

definition rrmdir :: "run_os \<Rightarrow> string \<Rightarrow> run_world \<Rightarrow> run_world" where
  "rrmdir os path w = rlog (Rv_rmdir path (ro_rmdir os w path)) (rtick w)"

definition WIFSTOPPED :: "nat \<Rightarrow> bool" where "WIFSTOPPED status \<longleftrightarrow> status mod 256 = 127"

subsection \<open>Files\<close>

text \<open>Whether the whole buffer was written, and what was.\<close>

partial_function (option) write_full ::
  "run_os \<Rightarrow> int \<Rightarrow> 'a list \<Rightarrow> 'a list \<Rightarrow> run_world \<Rightarrow> (bool \<times> 'a list \<times> run_world) option" where
  "write_full os fd sent buffer w =
     (if buffer = [] then Some (True, sent, w)
      else case ro_write os w fd (length buffer) of
        Inl e \<Rightarrow> if e = EINTR then write_full os fd sent buffer (rtick w) else Some (False, sent, rtick w)
      | Inr n \<Rightarrow> if n = 0 then Some (False, sent, rtick w)
                 else write_full os fd (sent @ take n buffer) (drop n buffer) (rtick w))"

partial_function (option) read_full ::
  "run_os \<Rightarrow> int \<Rightarrow> u8 list \<Rightarrow> nat \<Rightarrow> run_world \<Rightarrow> (u8 list option \<times> run_world) option" where
  "read_full os fd got bytes w =
     (if bytes = 0 then Some (Some got, w)
      else case ro_read os w fd bytes of
        Inl e \<Rightarrow> if e = EINTR then read_full os fd got bytes (rtick w) else Some (None, rtick w)
      | Inr chunk \<Rightarrow> if chunk = [] then Some (None, rtick w)
                     else read_full os fd (got @ take bytes chunk) (bytes - length chunk)
                            (rlog (Rv_read fd (take bytes chunk)) (rtick w)))"

definition read_text_file :: "run_os \<Rightarrow> string \<Rightarrow> nat \<Rightarrow> run_world \<Rightarrow> string option \<times> run_world" where
  "read_text_file os path buffer_size w =
     (if buffer_size < 2 then (None, w)
      else let fd = ro_open os w path
      in if fd < 0 then (None, rtick w)
      else let w1 = ropened 1 (rtick w);
               n = ro_read_text os w1 fd;
               w2 = rclose (rtick w1)
      in (map_option (\<lambda>s. cstr (take (buffer_size - 1) s)) n, w2))"

definition blank :: "char \<Rightarrow> bool" where
  "blank c \<longleftrightarrow> c = CHR '' '' \<or> c = CHR 0x09 \<or> c = CHR 0x0A \<or> c = CHR 0x0D"

function whitespace_word_present :: "string \<Rightarrow> string \<Rightarrow> bool" where
  "whitespace_word_present text word =
     (if text = [] then False
      else let start = dropWhile blank text
      in if takeWhile (\<lambda>c. \<not> blank c) start = word then True
      else whitespace_word_present (dropWhile (\<lambda>c. \<not> blank c) start) word)"
  by pat_completeness auto
termination
proof (relation "measure (\<lambda>(text, word). length text)", goal_cases)
  case 1
  show ?case by simp
next
  case (2 t word start)
  then obtain c cs where t: "t = c # cs" by (cases t) auto
  show ?case
  proof (cases "blank c")
    case True
    then have "start = dropWhile blank cs" using 2(2) t by simp
    moreover have "length (dropWhile (\<lambda>c. \<not> blank c) (dropWhile blank cs)) \<le> length cs"
      by (meson length_dropWhile_le order_trans)
    ultimately show ?thesis using t by (simp add: le_imp_less_Suc)
  next
    case False
    then have "start = c # cs" using 2(2) t by simp
    then show ?thesis using t False by (simp add: le_imp_less_Suc length_dropWhile_le)
  qed
qed

declare whitespace_word_present.simps [simp del]

definition write_text_path :: "run_os \<Rightarrow> string \<Rightarrow> string \<Rightarrow> run_world \<Rightarrow> (bool \<times> run_world) option" where
  "write_text_path os path text w =
     (let fd = ro_open os w path
      in if fd < 0 then Some (False, rtick w)
      else do {
        (ok, sent, w1) \<leftarrow> write_full os fd [] text (ropened 1 (rtick w));
        if ok then Some (True, rclose (rlog (Rv_wrote path sent) w1)) else Some (False, rclose w1)
      })"

subsection \<open>Control groups\<close>

definition cgroup_write_file :: "run_os \<Rightarrow> string \<Rightarrow> string \<Rightarrow> string \<Rightarrow> run_world \<Rightarrow> (bool \<times> run_world) option" where
  "cgroup_write_file os cgroup_path file_name text w =
     (let path = cgroup_path @ ''/'' @ file_name
      in if PATH_MAX \<le> length path then Some (False, w) else write_text_path os path text w)"

definition oracle_move_pid :: "run_os \<Rightarrow> string \<Rightarrow> pid_t \<Rightarrow> run_world \<Rightarrow> (bool \<times> run_world) option" where
  "oracle_move_pid os cgroup_path pid w =
     (let text = show_int pid @ [CHR 0x0A]
      in if 64 \<le> length text then Some (False, w) else cgroup_write_file os cgroup_path ''cgroup.procs'' text w)"

definition cpu_max_text :: "bool \<Rightarrow> u32 \<Rightarrow> u32 \<Rightarrow> string" where
  "cpu_max_text throttled quota_us period_us =
     (if throttled then show_nat (unat quota_us) @ '' '' @ show_nat (unat period_us) @ [CHR 0x0A]
      else ''max '' @ show_nat (unat period_us) @ [CHR 0x0A])"

definition oracle_set_cpu_max ::
  "run_os \<Rightarrow> string \<Rightarrow> bool \<Rightarrow> u32 \<Rightarrow> u32 \<Rightarrow> run_world \<Rightarrow> (bool \<times> run_world) option" where
  "oracle_set_cpu_max os cgroup_path throttled quota_us period_us w =
     (let text = cpu_max_text throttled quota_us period_us
      in if 128 \<le> length text then Some (False, w) else cgroup_write_file os cgroup_path ''cpu.max'' text w)"

record cgroup_context =
  cc_ready :: bool
  cc_run_path :: string
  cc_high_path :: string
  cc_low_path :: string

definition cgroup_context_zero :: cgroup_context where
  "cgroup_context_zero = \<lparr>cc_ready = False, cc_run_path = [], cc_high_path = [], cc_low_path = []\<rparr>"

definition cgroup_context_destroy :: "run_os \<Rightarrow> cgroup_context \<Rightarrow> run_world \<Rightarrow> cgroup_context \<times> run_world" where
  "cgroup_context_destroy os ctx w =
     (if \<not> cc_ready ctx then (ctx, w)
      else (cgroup_context_zero, rrmdir os (cc_run_path ctx) (rrmdir os (cc_low_path ctx) (rrmdir os (cc_high_path ctx) w))))"

text \<open>The part after the run directory was made; failures go to the label \<open>fail\<close>.\<close>

definition cgroup_context_fill :: "run_os \<Rightarrow> cgroup_context \<Rightarrow> run_world \<Rightarrow> (bool \<times> run_world) option" where
  "cgroup_context_fill os ctx w =
     (let path = cc_run_path ctx @ ''/cgroup.controllers''
      in if PATH_MAX \<le> length path then Some (False, w)
      else case read_text_file os path 4096 w of
        (None, w1) \<Rightarrow> Some (False, w1)
      | (Some child_controllers, w1) \<Rightarrow>
          if \<not> whitespace_word_present child_controllers ''cpu'' then Some (False, w1)
          else do {
            (ok, w2) \<leftarrow> cgroup_write_file os (cc_run_path ctx) ''cgroup.subtree_control'' (''+cpu'' @ [CHR 0x0A]) w1;
            if \<not> ok then Some (False, w2)
            else let (ok, w3) = rmkdir os (cc_high_path ctx) w2
            in if \<not> ok then Some (False, w3)
            else let (ok, w4) = rmkdir os (cc_low_path ctx) w3
            in Some (ok, w4)
          })"

definition cgroup_context_create :: "run_os \<Rightarrow> run_world \<Rightarrow> (bool \<times> cgroup_context \<times> run_world) option" where
  "cgroup_context_create os w =
     (case read_text_file os ''/sys/fs/cgroup/cgroup.subtree_control'' 4096 w of
        (None, w1) \<Rightarrow> Some (False, cgroup_context_zero, w1)
      | (Some root_subtree, w1) \<Rightarrow>
          if \<not> whitespace_word_present root_subtree ''cpu'' then Some (False, cgroup_context_zero, w1)
          else let run_path = ''/sys/fs/cgroup/oracle_6_5d_'' @ show_int (ro_getpid os);
                   high_path = run_path @ ''/high'';
                   low_path = run_path @ ''/low'';
                   ctx = \<lparr>cc_ready = False, cc_run_path = run_path, cc_high_path = high_path, cc_low_path = low_path\<rparr>
          in if PATH_MAX \<le> length run_path \<or> PATH_MAX \<le> length high_path \<or> PATH_MAX \<le> length low_path
             then Some (False, cgroup_context_zero, w1)
          else let (ok, w2) = rmkdir os run_path w1
          in if \<not> ok then Some (False, ctx, w2)
          else do {
            (ok, w3) \<leftarrow> cgroup_context_fill os (ctx\<lparr>cc_ready := True\<rparr>) w2;
            if ok then Some (True, ctx\<lparr>cc_ready := True\<rparr>, w3)
            else let (ctx', w4) = cgroup_context_destroy os (ctx\<lparr>cc_ready := True\<rparr>) w3 in Some (False, ctx', w4)
          })"

subsection \<open>Workers\<close>

definition pin_to_cpu :: "bool \<Rightarrow> int \<Rightarrow> bool" where
  "pin_to_cpu affinity cpu \<longleftrightarrow> 0 \<le> cpu \<and> cpu < CPU_SETSIZE \<and> affinity"

text \<open>The child of \<open>spawn_victim\<close>: its exit status and what it wrote to the pipe \<open>fd\<close>. \<open>encode\<close> is the representation of the result in memory,
  \<open>affinity\<close> and \<open>raised\<close> are the success of \<open>sched_setaffinity\<close> and of \<open>raise\<close>.\<close>

definition victim_child ::
  "rounding \<Rightarrow> os \<Rightarrow> run_os \<Rightarrow> memory \<Rightarrow> (worker_result \<Rightarrow> u8 list) \<Rightarrow> bool \<Rightarrow> bool \<Rightarrow> int \<Rightarrow> u32 \<Rightarrow> nat \<Rightarrow> int \<Rightarrow> world \<Rightarrow> run_world \<Rightarrow>
   (nat \<times> u8 list) option" where
  "victim_child rnd os ros memory encode affinity raised cpu seconds root_ptr fd w rw =
     (if \<not> pin_to_cpu affinity cpu then Some (101, [])
      else if \<not> raised then Some (102, [])
      else do {
        (warmup, w1) \<leftarrow> victim_loop rnd os memory root_ptr WARMUP_SECONDS w;
        case warmup of None \<Rightarrow> Some (103, []) | Some _ \<Rightarrow> do {
          (measured, w2) \<leftarrow> victim_loop rnd os memory root_ptr (double_of_int rnd (uint seconds)) w1;
          case measured of None \<Rightarrow> Some (104, []) | Some (pointer, result) \<Rightarrow> do {
            (ok, sent, rw1) \<leftarrow> write_full ros fd [] (encode result) rw;
            Some (if ok then 0 else 105, sent)
          }
        }
      })"

definition aggressor_child ::
  "rounding \<Rightarrow> os \<Rightarrow> run_os \<Rightarrow> memory \<Rightarrow> (worker_result \<Rightarrow> u8 list) \<Rightarrow> bool \<Rightarrow> bool \<Rightarrow> int \<Rightarrow> u32 \<Rightarrow> nat list \<Rightarrow> int \<Rightarrow> world \<Rightarrow> run_world \<Rightarrow>
   (nat \<times> u8 list) option" where
  "aggressor_child rnd os ros memory encode affinity raised cpu seconds roots fd w rw =
     (if \<not> pin_to_cpu affinity cpu then Some (111, [])
      else if \<not> raised then Some (112, [])
      else do {
        (warmup, w1) \<leftarrow> aggressor_loop rnd os memory roots WARMUP_SECONDS w;
        case warmup of None \<Rightarrow> Some (113, []) | Some _ \<Rightarrow> do {
          (measured, w2) \<leftarrow> aggressor_loop rnd os memory roots (double_of_int rnd (uint seconds)) w1;
          case measured of None \<Rightarrow> Some (114, []) | Some (pointers, result) \<Rightarrow> do {
            (ok, sent, rw1) \<leftarrow> write_full ros fd [] (encode result) rw;
            Some (if ok then 0 else 115, sent)
          }
        }
      })"

text \<open>The parent's part of both \<open>spawn\<close> functions: the id of the worker and the read end of its pipe, -1 on failure.\<close>

definition spawn_worker :: "run_os \<Rightarrow> worker \<Rightarrow> run_world \<Rightarrow> (pid_t \<times> int) \<times> run_world" where
  "spawn_worker os wk w =
     (case ro_pipe os w of
        None \<Rightarrow> ((- 1, - 1), rtick w)
      | Some (read_end, write_end) \<Rightarrow>
          (let w1 = ropened 2 (rtick w); pid = ro_fork os w1
           in if pid = 0 then ((- 1, - 1), rclose (rclose (rtick w1)))
              else ((int pid, int read_end), rclose (rlog (Rv_spawned (int pid) wk (read_end, write_end)) (rtick w1)))))"

definition spawn_victim :: "run_os \<Rightarrow> int \<Rightarrow> u32 \<Rightarrow> nat \<Rightarrow> run_world \<Rightarrow> (pid_t \<times> int) \<times> run_world" where
  "spawn_victim os cpu seconds root_ptr w = spawn_worker os (Victim cpu seconds root_ptr) w"

definition spawn_aggressor :: "run_os \<Rightarrow> int \<Rightarrow> u32 \<Rightarrow> nat list \<Rightarrow> run_world \<Rightarrow> (pid_t \<times> int) \<times> run_world" where
  "spawn_aggressor os cpu seconds roots w = spawn_worker os (Aggressor cpu seconds roots) w"

partial_function (option) wait_until_stopped :: "run_os \<Rightarrow> pid_t \<Rightarrow> run_world \<Rightarrow> (bool \<times> run_world) option" where
  "wait_until_stopped os pid w =
     (case ro_waitpid os w pid True of
        Inl e \<Rightarrow> if e = EINTR then wait_until_stopped os pid (rtick w) else Some (False, rtick w)
      | Inr status \<Rightarrow> if WIFSTOPPED status then Some (True, rlog (Rv_stopped pid) (rtick w))
                      else Some (False, rlog (Rv_ended pid status) (rtick w)))"

partial_function (option) wait_success :: "run_os \<Rightarrow> pid_t \<Rightarrow> run_world \<Rightarrow> (bool \<times> run_world) option" where
  "wait_success os pid w =
     (case ro_waitpid os w pid False of
        Inl e \<Rightarrow> if e = EINTR then wait_success os pid (rtick w) else Some (False, rtick w)
      | Inr status \<Rightarrow> Some (WIFEXITED status \<and> WEXITSTATUS status = 0, rlog (Rv_ended pid status) (rtick w)))"

subsection \<open>One condition\<close>

record condition_result =
  cr_victim :: worker_result
  cr_high :: worker_result
  cr_low :: worker_result
  cr_has_background :: bool

definition worker_result_zero :: worker_result where
  "worker_result_zero = \<lparr>wk_ok = False, wk_elapsed_sec = Fin 0, wk_operations = 0\<rparr>"

text \<open>The local variables of \<open>run_condition\<close>.\<close>

record run_state =
  rs_victim_pid :: pid_t
  rs_high_pid :: pid_t
  rs_low_pid :: pid_t
  rs_victim_fd :: int
  rs_high_fd :: int
  rs_low_fd :: int
  rs_out :: condition_result

type_synonym run_phase = "run_state \<Rightarrow> run_world \<Rightarrow> (bool \<times> run_state \<times> run_world) option"

text \<open>A phase returns whether it succeeded; otherwise the code jumps to \<open>fail\<close>.\<close>

definition and_then :: "run_phase \<Rightarrow> run_phase \<Rightarrow> run_phase" where
  "and_then p q st w = do { (ok, st1, w1) \<leftarrow> p st w; if ok then q st1 w1 else Some (False, st1, w1) }"

definition in_background :: "bool \<Rightarrow> run_phase \<Rightarrow> run_phase" where
  "in_background has_background p st w = (if has_background then p st w else Some (True, st, w))"

definition high_throttled :: "condition \<Rightarrow> bool" where
  "high_throttled condition \<longleftrightarrow> condition = CONDITION_SELECTIVE \<or> condition = CONDITION_ALL"

definition low_throttled :: "condition \<Rightarrow> bool" where
  "low_throttled condition \<longleftrightarrow> condition = CONDITION_ALL"

definition set_limits :: "run_os \<Rightarrow> condition \<Rightarrow> config \<Rightarrow> cgroup_context \<Rightarrow> run_phase" where
  "set_limits os condition cfg cgroups st w = do {
     (ok, w1) \<leftarrow> oracle_set_cpu_max os (cc_high_path cgroups) (high_throttled condition) (cf_throttle_quota_us cfg) (cf_throttle_period_us cfg) w;
     if \<not> ok then Some (False, st, w1) else do {
     (ok, w2) \<leftarrow> oracle_set_cpu_max os (cc_low_path cgroups) (low_throttled condition) (cf_throttle_quota_us cfg) (cf_throttle_period_us cfg) w1;
     Some (ok, st, w2) } }"

definition start_victim :: "run_os \<Rightarrow> config \<Rightarrow> nat \<Rightarrow> run_phase" where
  "start_victim os cfg victim_root st w =
     (let ((pid, fd), w1) = spawn_victim os (cf_victim_cpu cfg) (cf_seconds cfg) victim_root w;
          st1 = st\<lparr>rs_victim_pid := pid, rs_victim_fd := fd\<rparr>
      in if pid < 0 then Some (False, st1, w1)
         else do { (ok, w2) \<leftarrow> wait_until_stopped os pid w1; Some (ok, st1, w2) })"

definition start_high :: "run_os \<Rightarrow> config \<Rightarrow> nat list \<Rightarrow> run_phase" where
  "start_high os cfg high_roots st w =
     (let ((pid, fd), w1) = spawn_aggressor os (cf_high_aggressor_cpu cfg) (cf_seconds cfg) high_roots w;
          st1 = st\<lparr>rs_high_pid := pid, rs_high_fd := fd\<rparr>
      in if pid < 0 then Some (False, st1, w1)
         else do { (ok, w2) \<leftarrow> wait_until_stopped os pid w1; Some (ok, st1, w2) })"

definition start_low :: "run_os \<Rightarrow> config \<Rightarrow> nat list \<Rightarrow> run_phase" where
  "start_low os cfg low_roots st w =
     (let ((pid, fd), w1) = spawn_aggressor os (cf_low_aggressor_cpu cfg) (cf_seconds cfg) low_roots w;
          st1 = st\<lparr>rs_low_pid := pid, rs_low_fd := fd\<rparr>
      in if pid < 0 then Some (False, st1, w1)
         else do { (ok, w2) \<leftarrow> wait_until_stopped os pid w1; Some (ok, st1, w2) })"

definition move_workers :: "run_os \<Rightarrow> cgroup_context \<Rightarrow> run_phase" where
  "move_workers os cgroups st w = do {
     (ok, w1) \<leftarrow> oracle_move_pid os (cc_high_path cgroups) (rs_high_pid st) w;
     if \<not> ok then Some (False, st, w1) else do {
     (ok, w2) \<leftarrow> oracle_move_pid os (cc_low_path cgroups) (rs_low_pid st) w1;
     Some (ok, st, w2) } }"

definition continue_background :: "run_os \<Rightarrow> run_phase" where
  "continue_background os st w =
     (let (ok, w1) = rkill os (rs_high_pid st) RUN_SIGCONT w
      in if \<not> ok then Some (False, st, w1)
      else let (ok, w2) = rkill os (rs_low_pid st) RUN_SIGCONT w1 in Some (ok, st, w2))"

definition continue_victim :: "run_os \<Rightarrow> run_phase" where
  "continue_victim os st w = (let (ok, w1) = rkill os (rs_victim_pid st) RUN_SIGCONT w in Some (ok, st, w1))"

definition wait_victim :: "run_os \<Rightarrow> run_phase" where
  "wait_victim os st w = do {
     (ok, w1) \<leftarrow> wait_success os (rs_victim_pid st) w;
     Some (ok, if ok then st\<lparr>rs_victim_pid := - 1\<rparr> else st, w1) }"

definition wait_high :: "run_os \<Rightarrow> run_phase" where
  "wait_high os st w = do {
     (ok, w1) \<leftarrow> wait_success os (rs_high_pid st) w;
     Some (ok, if ok then st\<lparr>rs_high_pid := - 1\<rparr> else st, w1) }"

definition wait_low :: "run_os \<Rightarrow> run_phase" where
  "wait_low os st w = do {
     (ok, w1) \<leftarrow> wait_success os (rs_low_pid st) w;
     Some (ok, if ok then st\<lparr>rs_low_pid := - 1\<rparr> else st, w1) }"

text \<open>\<open>decode\<close> reads the memory representation of a result, of \<open>struct_bytes\<close> bytes.\<close>

definition read_victim :: "run_os \<Rightarrow> (u8 list \<Rightarrow> worker_result) \<Rightarrow> nat \<Rightarrow> run_phase" where
  "read_victim os decode struct_bytes st w = do {
     (got, w1) \<leftarrow> read_full os (rs_victim_fd st) [] struct_bytes w;
     case got of
       None \<Rightarrow> Some (False, st, w1)
     | Some bytes \<Rightarrow> Some (True, st\<lparr>rs_out := (rs_out st)\<lparr>cr_victim := decode bytes\<rparr>, rs_victim_fd := - 1\<rparr>, rclose w1) }"

definition read_background :: "run_os \<Rightarrow> (u8 list \<Rightarrow> worker_result) \<Rightarrow> nat \<Rightarrow> run_phase" where
  "read_background os decode struct_bytes st w = do {
     (got, w1) \<leftarrow> read_full os (rs_high_fd st) [] struct_bytes w;
     case got of
       None \<Rightarrow> Some (False, st, w1)
     | Some high \<Rightarrow> do {
         (got, w2) \<leftarrow> read_full os (rs_low_fd st) [] struct_bytes w1;
         case got of
           None \<Rightarrow> Some (False, st, w2)
         | Some low \<Rightarrow>
             Some (True, st\<lparr>rs_out := (rs_out st)\<lparr>cr_high := decode high, cr_low := decode low\<rparr>, rs_high_fd := - 1, rs_low_fd := - 1\<rparr>,
                   rclose (rclose w2)) } }"

text \<open>The label \<open>fail\<close>.\<close>

definition end_worker :: "run_os \<Rightarrow> pid_t \<Rightarrow> run_world \<Rightarrow> run_world" where
  "end_worker os pid w =
     (if 0 < pid
      then let w1 = snd (rkill os pid RUN_SIGCONT w);
               w2 = snd (rkill os pid RUN_SIGKILL w1)
           in (case ro_waitpid os w2 pid False of Inl _ \<Rightarrow> rtick w2 | Inr status \<Rightarrow> rlog (Rv_ended pid status) (rtick w2))
      else w)"

definition close_if_open :: "int \<Rightarrow> run_world \<Rightarrow> run_world" where
  "close_if_open fd w = (if 0 \<le> fd then rclose w else w)"

definition run_fail :: "run_os \<Rightarrow> run_state \<Rightarrow> run_world \<Rightarrow> run_world" where
  "run_fail os st w =
     (let w1 = end_worker os (rs_low_pid st) (end_worker os (rs_high_pid st) (end_worker os (rs_victim_pid st) w))
      in close_if_open (rs_low_fd st) (close_if_open (rs_high_fd st) (close_if_open (rs_victim_fd st) w1)))"

definition run_phases ::
  "run_os \<Rightarrow> (u8 list \<Rightarrow> worker_result) \<Rightarrow> nat \<Rightarrow> condition \<Rightarrow> config \<Rightarrow> cgroup_context \<Rightarrow> nat \<Rightarrow> nat list \<Rightarrow> nat list \<Rightarrow> run_phase" where
  "run_phases os decode struct_bytes condition cfg cgroups victim_root high_roots low_roots =
     (let background = in_background (condition \<noteq> CONDITION_NONE)
      in and_then (background (set_limits os condition cfg cgroups))
        (and_then (start_victim os cfg victim_root)
        (and_then (background
           (and_then (start_high os cfg high_roots)
           (and_then (start_low os cfg low_roots)
           (and_then (move_workers os cgroups) (continue_background os)))))
        (and_then (continue_victim os)
        (and_then (wait_victim os)
        (and_then (background (and_then (wait_high os) (wait_low os)))
        (and_then (read_victim os decode struct_bytes) (background (read_background os decode struct_bytes)))))))))"

definition run_condition ::
  "run_os \<Rightarrow> (u8 list \<Rightarrow> worker_result) \<Rightarrow> nat \<Rightarrow> condition \<Rightarrow> config \<Rightarrow> cgroup_context \<Rightarrow> nat \<Rightarrow> nat list \<Rightarrow> nat list \<Rightarrow> run_world \<Rightarrow>
   (condition_result option \<times> run_world) option" where
  "run_condition os decode struct_bytes condition cfg cgroups victim_root high_roots low_roots w =
     (if \<not> cc_ready cgroups then Some (None, w)
      else let out = \<lparr>cr_victim = worker_result_zero, cr_high = worker_result_zero, cr_low = worker_result_zero,
                      cr_has_background = (condition \<noteq> CONDITION_NONE)\<rparr>;
               st = \<lparr>rs_victim_pid = - 1, rs_high_pid = - 1, rs_low_pid = - 1, rs_victim_fd = - 1, rs_high_fd = - 1, rs_low_fd = - 1, rs_out = out\<rparr>
      in do {
        (ok, st1, w1) \<leftarrow> run_phases os decode struct_bytes condition cfg cgroups victim_root high_roots low_roots st w;
        if ok then Some (Some (rs_out st1), w1) else Some (None, run_fail os st1 w1)
      })"

end
