(* ===== verification/Oracle_Program.thy ===== *)
theory Oracle_Program
  imports Oracle_Run
begin

text \<open>
  The selective-control experiment, last part: the loading of the mapping, the figures computed from the results, and \<open>main\<close>
  (\<open>oracle_selective_control.c\<close>). The array of results is a map from conditions, in which an entry that was never stored is \<open>None\<close>. The figures are
  the numbers before they are printed. \<open>ORACLE_FAILURE\<close> and \<open>ORACLE_SUCCESS\<close> are the exit codes; memory given back on the way
  out is left out.
\<close>

definition DEFAULT_CALIBRATION_PATH :: string where
  "DEFAULT_CALIBRATION_PATH = ''/run/protected-daemon/dram-map.json''"

definition oracle_load_mapping :: "rounding \<Rightarrow> os \<Rightarrow> world \<Rightarrow> dram_mapping option \<times> world" where
  "oracle_load_mapping rnd os w =
     (case calibration_load_result rnd os (Some DEFAULT_CALIBRATION_PATH) (Some calibration_result_reset) w of
        (rc, calibration, w1) \<Rightarrow>
          if rc \<noteq> CALIBRATION_OK then (None, w1)
          else case dram_mapping_init_from_calibration (Some dram_mapping_reset) calibration of
            (rc, mapping) \<Rightarrow> (if rc \<noteq> DRAM_MAPPING_OK then None else mapping, w1))"

subsection \<open>Figures\<close>

fun fneg :: "cdouble \<Rightarrow> cdouble" where
  "fneg (Fin a) = Fin (- a)"
| "fneg PInf = NInf"
| "fneg NInf = PInf"
| "fneg NaN = NaN"

definition fsub :: "rounding \<Rightarrow> cdouble \<Rightarrow> cdouble \<Rightarrow> cdouble" where
  "fsub rnd a b = fadd rnd a (fneg b)"

definition ns_per_read :: "rounding \<Rightarrow> worker_result \<Rightarrow> cdouble" where
  "ns_per_read rnd r =
     fdiv rnd (fmul rnd (wk_elapsed_sec r) (Fin 1000000000)) (double_of_u64 rnd (of_nat (wk_operations r)))"

definition mload_per_sec :: "rounding \<Rightarrow> worker_result \<Rightarrow> cdouble" where
  "mload_per_sec rnd r =
     fdiv rnd (fdiv rnd (double_of_u64 rnd (of_nat (wk_operations r))) (wk_elapsed_sec r)) (Fin 1000000)"

definition total_bg :: "rounding \<Rightarrow> condition_result \<Rightarrow> cdouble" where
  "total_bg rnd r =
     (if cr_has_background r then fadd rnd (mload_per_sec rnd (cr_high r)) (mload_per_sec rnd (cr_low r)) else Fin 0)"

record condition_comparison =
  cmp_uncontrolled_vs_none :: cdouble
  cmp_selective_vs_none :: cdouble
  cmp_all_vs_none :: cdouble
  cmp_selective_vs_all :: cdouble
  cmp_selective_recovery :: cdouble
  cmp_all_recovery :: cdouble
  cmp_selective_retention :: "cdouble option"
  cmp_all_retention :: "cdouble option"
  cmp_selective_gain_vs_all :: "cdouble option"

text \<open>\<open>(a / b - 1.0) * 100.0\<close>, and the recovered share of the slowdown.\<close>

definition increase_pct :: "rounding \<Rightarrow> cdouble \<Rightarrow> cdouble \<Rightarrow> cdouble" where
  "increase_pct rnd a b = fmul rnd (fsub rnd (fdiv rnd a b) (Fin 1)) (Fin 100)"

definition recovery_pct :: "rounding \<Rightarrow> cdouble \<Rightarrow> cdouble \<Rightarrow> cdouble \<Rightarrow> cdouble" where
  "recovery_pct rnd none_ns uncontrolled_ns ns =
     (let slowdown_span = fsub rnd uncontrolled_ns none_ns
      in if flt (Fin 0) slowdown_span
         then fmul rnd (fdiv rnd (fsub rnd uncontrolled_ns ns) slowdown_span) (Fin 100)
         else Fin 0)"

text \<open>\<open>None\<close> is the read of an entry that was never stored; the fields of type \<open>option\<close> are printed only for a positive divisor.\<close>

definition compare_conditions :: "rounding \<Rightarrow> (condition \<Rightarrow> condition_result option) \<Rightarrow> condition_comparison option" where
  "compare_conditions rnd results =
     (case (results CONDITION_NONE, results CONDITION_UNCONTROLLED, results CONDITION_SELECTIVE, results CONDITION_ALL) of
        (Some n, Some u, Some s, Some a) \<Rightarrow>
          (let none_ns = ns_per_read rnd (cr_victim n); uncontrolled_ns = ns_per_read rnd (cr_victim u);
               selective_ns = ns_per_read rnd (cr_victim s); all_ns = ns_per_read rnd (cr_victim a);
               bg_u = total_bg rnd u; bg_s = total_bg rnd s; bg_a = total_bg rnd a
           in Some \<lparr>cmp_uncontrolled_vs_none = increase_pct rnd uncontrolled_ns none_ns,
                    cmp_selective_vs_none = increase_pct rnd selective_ns none_ns,
                    cmp_all_vs_none = increase_pct rnd all_ns none_ns,
                    cmp_selective_vs_all = increase_pct rnd selective_ns all_ns,
                    cmp_selective_recovery = recovery_pct rnd none_ns uncontrolled_ns selective_ns,
                    cmp_all_recovery = recovery_pct rnd none_ns uncontrolled_ns all_ns,
                    cmp_selective_retention = (if flt (Fin 0) bg_u then Some (fmul rnd (fdiv rnd bg_s bg_u) (Fin 100)) else None),
                    cmp_all_retention = (if flt (Fin 0) bg_u then Some (fmul rnd (fdiv rnd bg_a bg_u) (Fin 100)) else None),
                    cmp_selective_gain_vs_all = (if flt (Fin 0) bg_a then Some (increase_pct rnd bg_s bg_a) else None)\<rparr>)
      | _ \<Rightarrow> None)"

subsection \<open>The program\<close>

text \<open>The three pools; \<open>maps i\<close> is the answer of \<open>mmap\<close> and whether \<open>madvise\<close> and the allocation succeed for pool \<open>i\<close>.\<close>

definition oracle_pools ::
  "os \<Rightarrow> (nat \<Rightarrow> nat option \<times> bool \<times> bool) \<Rightarrow> nat \<Rightarrow> nat \<Rightarrow> world \<Rightarrow> (memory_pool \<times> memory_pool \<times> memory_pool) option \<times> world" where
  "oracle_pools os maps pool_mib page_size w =
     (let create = (\<lambda>i. pool_create os (fst (maps i)) (fst (snd (maps i))) (snd (snd (maps i))) pool_mib page_size)
      in case create 0 w of
        (None, w1) \<Rightarrow> (None, w1)
      | (Some victim_pool, w1) \<Rightarrow>
          (case create 1 w1 of
             (None, w2) \<Rightarrow> (None, w2)
           | (Some high_pool, w2) \<Rightarrow>
               (case create 2 w2 of
                  (None, w3) \<Rightarrow> (None, w3)
                | (Some low_pool, w3) \<Rightarrow> (Some (victim_pool, high_pool, low_pool), w3))))"

text \<open>The loop over the conditions, and the storing of the results.\<close>

fun run_conditions ::
  "run_os \<Rightarrow> (u8 list \<Rightarrow> worker_result) \<Rightarrow> nat \<Rightarrow> config \<Rightarrow> cgroup_context \<Rightarrow> oracle_setup \<Rightarrow> condition list \<Rightarrow>
   (condition \<Rightarrow> condition_result option) \<Rightarrow> run_world \<Rightarrow> ((condition \<Rightarrow> condition_result option) option \<times> run_world) option" where
  "run_conditions os decode struct_bytes cfg cgroups setup [] results w = Some (Some results, w)"
| "run_conditions os decode struct_bytes cfg cgroups setup (condition # conditions) results w = do {
     (r, w1) \<leftarrow> run_condition os decode struct_bytes condition cfg cgroups
                  (ex_victim_root setup) (ex_high_roots setup) (ex_low_roots setup) w;
     case r of
       None \<Rightarrow> Some (None, w1)
     | Some result \<Rightarrow> run_conditions os decode struct_bytes cfg cgroups setup conditions (results(condition := Some result)) w1 }"

text \<open>The final check of the frame numbers: whether all three pools could be read and nothing moved.\<close>

definition pfns_stable :: "os \<Rightarrow> memory_pool \<Rightarrow> memory_pool \<Rightarrow> memory_pool \<Rightarrow> world \<Rightarrow> bool \<times> world" where
  "pfns_stable os victim_pool high_pool low_pool w =
     (case verify_pool_pfns os victim_pool w of
        (None, w1) \<Rightarrow> (False, w1)
      | (Some v, w1) \<Rightarrow>
          (case verify_pool_pfns os high_pool w1 of
             (None, w2) \<Rightarrow> (False, w2)
           | (Some h, w2) \<Rightarrow>
               (case verify_pool_pfns os low_pool w2 of
                  (None, w3) \<Rightarrow> (False, w3)
                | (Some l, w3) \<Rightarrow> (v = (0, 0) \<and> h = (0, 0) \<and> l = (0, 0), w3))))"

datatype oracle_exit = ORACLE_SUCCESS | ORACLE_FAILURE

text \<open>From the control groups on: the exit code and, when the conditions were all measured, the comparison.\<close>

definition oracle_measure ::
  "rounding \<Rightarrow> os \<Rightarrow> run_os \<Rightarrow> (u8 list \<Rightarrow> worker_result) \<Rightarrow> nat \<Rightarrow> config \<Rightarrow> memory_pool \<times> memory_pool \<times> memory_pool \<Rightarrow> oracle_setup \<Rightarrow>
   world \<Rightarrow> run_world \<Rightarrow> (oracle_exit \<times> condition_comparison option option \<times> world \<times> run_world) option" where
  "oracle_measure rnd os ros decode struct_bytes cfg pools setup w rw = do {
     (ok, ctx, rw1) \<leftarrow> cgroup_context_create ros rw;
     if \<not> ok then Some (ORACLE_FAILURE, None, w, snd (cgroup_context_destroy ros ctx rw1))
     else do {
       (measured, rw2) \<leftarrow> run_conditions ros decode struct_bytes cfg ctx setup (cf_order cfg) (\<lambda>_. None) rw1;
       case measured of
         None \<Rightarrow> Some (ORACLE_FAILURE, None, w, snd (cgroup_context_destroy ros ctx rw2))
       | Some results \<Rightarrow>
           (let (stable, w1) = pfns_stable os (fst pools) (fst (snd pools)) (snd (snd pools)) w
            in Some (if stable then ORACLE_SUCCESS else ORACLE_FAILURE, Some (compare_conditions rnd results), w1,
                     snd (cgroup_context_destroy ros ctx rw2)))
     }
   }"

text \<open>Everything before the control groups: the pools and the prepared experiment.\<close>

definition oracle_prepare ::
  "rounding \<Rightarrow> os \<Rightarrow> bool \<Rightarrow> (nat \<Rightarrow> nat option \<times> bool \<times> bool) \<Rightarrow> memory \<Rightarrow> config \<Rightarrow> world \<Rightarrow>
   ((memory_pool \<times> memory_pool \<times> memory_pool) \<times> oracle_setup) option \<times> world" where
  "oracle_prepare rnd os mem maps memory cfg w =
     (let (page_size_long, w1) = sysconf os SC_PAGESIZE w
      in if page_size_long \<le> 0 then (None, w1)
      else let page_size = nat page_size_long
      in case oracle_load_mapping rnd os w1 of
        (None, w2) \<Rightarrow> (None, w2)
      | (Some mapping, w2) \<Rightarrow>
          if class_space_from_mapping mapping = None \<or> build_offset_classes mem mapping page_size = None \<or> workset_quota cfg = None
          then (None, w2)
          else (case oracle_pools os maps (cf_pool_mib cfg) page_size w2 of
             (None, w3) \<Rightarrow> (None, w3)
           | (Some (victim_pool, high_pool, low_pool), w3) \<Rightarrow>
               (map_option (\<lambda>setup. ((victim_pool, high_pool, low_pool), setup))
                  (prepare_experiment rnd mem cfg mapping page_size victim_pool high_pool low_pool memory), w3)))"

definition oracle_main ::
  "rounding \<Rightarrow> os \<Rightarrow> run_os \<Rightarrow> (u8 list \<Rightarrow> worker_result) \<Rightarrow> nat \<Rightarrow> bool \<Rightarrow> (nat \<Rightarrow> nat option \<times> bool \<times> bool) \<Rightarrow> memory \<Rightarrow> string list \<Rightarrow>
   world \<Rightarrow> run_world \<Rightarrow> (oracle_exit \<times> condition_comparison option option \<times> world \<times> run_world) option" where
  "oracle_main rnd os ros decode struct_bytes mem maps memory argv w rw =
     (case parse_args argv of
        ARGS_HELP \<Rightarrow> Some (ORACLE_SUCCESS, None, w, rw)
      | ARGS_INVALID \<Rightarrow> Some (ORACLE_FAILURE, None, w, rw)
      | ARGS_OK cfg \<Rightarrow>
          (case oracle_prepare rnd os mem maps memory cfg w of
             (None, w1) \<Rightarrow> Some (ORACLE_FAILURE, None, w1, rw)
           | (Some (pools, setup), w1) \<Rightarrow> oracle_measure rnd os ros decode struct_bytes cfg pools setup w1 rw))"

end
