(* ===== verification/Oracle_Run_Correct.thy ===== *)
theory Oracle_Run_Correct
  imports Oracle_Run
begin

text \<open>
  The measurement of one condition: what each operation and phase leaves behind, the exact script of a condition that was measured,
  the bookkeeping of workers and descriptors on the way to the label \<open>fail\<close> (triples \<open>phase_spec\<close> with one assertion for success and
  one for failure), and that a condition returns when interrupted calls are eventually answered.
\<close>

subsection \<open>Single operations\<close>

lemma run_world_simps [simp]:
  "rw_open (rtick w) = rw_open w" "rw_events (rtick w) = rw_events w"
  "rw_open (rlog e w) = rw_open w" "rw_events (rlog e w) = rw_events w @ [e]"
  "rw_open (ropened n w) = rw_open w + n" "rw_events (ropened n w) = rw_events w"
  "rw_open (rclose w) = rw_open w - 1" "rw_events (rclose w) = rw_events w"
  by (simp_all add: rtick_def rlog_def ropened_def rclose_def)

definition run_frame :: "run_world \<Rightarrow> run_world \<Rightarrow> run_event list \<Rightarrow> bool" where
  "run_frame w w' es \<longleftrightarrow> rw_open w' = rw_open w \<and> rw_events w' = rw_events w @ es"

lemma run_frame_tick [simp]: "run_frame (rtick w) w' es = run_frame w w' es" "run_frame w (rtick w) [] = True"
  "run_frame w (rlog e (rtick w)) es \<longleftrightarrow> es = [e]"
  by (auto simp: run_frame_def)

lemma run_frame_log [simp]: "run_frame (rlog e w) w' es \<longleftrightarrow> run_frame w w' (e # es)"
  by (auto simp: run_frame_def)

lemma run_frame_refl [simp]: "run_frame w w []"
  by (simp add: run_frame_def)

lemma write_full_frame:
  assumes "write_full os fd sent buffer w = Some (ok, sent', w')"
  shows "run_frame w w' [] \<and> (ok \<longrightarrow> sent' = sent @ buffer)"
proof -
  have "case y of (ok, sent', w') \<Rightarrow> run_frame w w' [] \<and> (ok \<longrightarrow> sent' = sent @ buffer)"
    if "write_full os fd sent buffer w = Some y" for y
    using that
  proof (induction rule: write_full.raw_induct [rotated, consumes 1, case_names step])
    case (step rec os fd sent buffer w y)
    show ?case
    proof (cases "buffer = []")
      case False
      then show ?thesis using step(1) [of os fd sent buffer "rtick w" y]
        step(1) [of os fd "sent @ take n buffer" "drop n buffer" "rtick w" y for n] step(2)
        by (cases "ro_write os w fd (length buffer)") (auto split: if_splits)
    qed (use step(2) in auto)
  qed
  from this [OF assms] show ?thesis by simp
qed

text \<open>What \<open>read_full\<close> delivers is what was read from the descriptor, piece by piece.\<close>

definition received :: "int \<Rightarrow> u8 list \<Rightarrow> nat \<Rightarrow> run_world \<Rightarrow> u8 list option \<times> run_world \<Rightarrow> bool" where
  "received fd got bytes w y \<longleftrightarrow>
     (\<exists>cs. run_frame w (snd y) (map (Rv_read fd) cs) \<and> (\<forall>bs. fst y = Some bs \<longrightarrow> bs = got @ concat cs \<and> length (concat cs) = bytes))"

lemma received_more:
  assumes "received fd (got @ take bytes chunk) (bytes - length chunk) (rlog (Rv_read fd (take bytes chunk)) (rtick w)) y"
  shows "received fd got bytes w y"
proof -
  from assms obtain cs where cs: "run_frame w (snd y) (Rv_read fd (take bytes chunk) # map (Rv_read fd) cs)"
    "\<forall>bs. fst y = Some bs \<longrightarrow> bs = (got @ take bytes chunk) @ concat cs \<and> length (concat cs) = bytes - length chunk"
    unfolding received_def by auto
  then show ?thesis unfolding received_def by (intro exI [of _ "take bytes chunk # cs"]) (auto simp: min_def)
qed

lemma received_none:
  "run_frame w w' [] \<Longrightarrow> received fd got bytes w (None, w')" "received fd got 0 w (Some got, w)"
  "received fd got bytes (rtick w) y = received fd got bytes w y"
  by (auto simp: received_def intro: exI [of _ "[]"])

lemma read_full_frame:
  assumes "read_full os fd got bytes w = Some y"
  shows "received fd got bytes w y"
  using assms
proof (induction rule: read_full.raw_induct [rotated, consumes 1, case_names step])
  case (step rec os fd got bytes w y)
  have more: "received fd got bytes w y"
    if "rec os fd (got @ take bytes chunk) (bytes - length chunk) (rlog (Rv_read fd (take bytes chunk)) (rtick w)) = Some y" for chunk
    using step(1) [OF that] by (rule received_more)
  show ?case
  proof (cases "bytes = 0")
    case False
    with step(2) step(1) [of os fd got bytes "rtick w" y] more show ?thesis
      by (cases "ro_read os w fd bytes") (auto simp: received_none split: if_splits)
  qed (use step(2) in \<open>auto simp: received_none\<close>)
qed

lemma write_text_path_frame:
  "write_text_path os path text w = Some (ok, w') \<Longrightarrow> run_frame w w' (if ok then [Rv_wrote path text] else [])"
  by (auto simp: write_text_path_def Let_def run_frame_def split: if_splits bind_splits dest!: write_full_frame)

lemma oracle_set_cpu_max_frame:
  "oracle_set_cpu_max os dir throttled quota period w = Some (ok, w') \<Longrightarrow>
   run_frame w w' (if ok then [Rv_wrote (dir @ ''/cpu.max'') (cpu_max_text throttled quota period)] else [])"
  using write_text_path_frame
  by (fastforce simp: oracle_set_cpu_max_def cgroup_write_file_def Let_def run_frame_def split: if_splits)

lemma oracle_move_pid_frame:
  "oracle_move_pid os dir pid w = Some (ok, w') \<Longrightarrow>
   run_frame w w' (if ok then [Rv_wrote (dir @ ''/cgroup.procs'') (show_int pid @ [CHR 0x0A])] else [])"
  using write_text_path_frame
  by (fastforce simp: oracle_move_pid_def cgroup_write_file_def Let_def run_frame_def split: if_splits)

text \<open>A status word of a process that exited by itself with code 0.\<close>

definition exited_0 :: "nat \<Rightarrow> bool" where
  "exited_0 status \<longleftrightarrow> status mod 128 = 0 \<and> status div 256 mod 256 = 0"

lemma exited_0_macros: "exited_0 status \<longleftrightarrow> WIFEXITED status \<and> WEXITSTATUS status = 0"
  by (simp add: exited_0_def WIFEXITED_def WEXITSTATUS_def)

lemma wait_until_stopped_frame:
  assumes "wait_until_stopped os pid w = Some (ok, w')"
  shows "if ok then run_frame w w' [Rv_stopped pid] else run_frame w w' [] \<or> (\<exists>status. run_frame w w' [Rv_ended pid status])"
proof -
  have "case y of (ok, w') \<Rightarrow> if ok then run_frame w w' [Rv_stopped pid] else run_frame w w' [] \<or> (\<exists>status. run_frame w w' [Rv_ended pid status])"
    if "wait_until_stopped os pid w = Some y" for y
    using that
  proof (induction rule: wait_until_stopped.raw_induct [rotated, consumes 1, case_names step])
    case (step rec os pid w y)
    show ?case using step(2) step(1) [of os pid "rtick w" y]
      by (cases "ro_waitpid os w pid True") (auto split: if_splits)
  qed
  from this [OF assms] show ?thesis by simp
qed

lemma wait_success_frame:
  assumes "wait_success os pid w = Some (ok, w')"
  shows "if ok then \<exists>status. exited_0 status \<and> run_frame w w' [Rv_ended pid status]
    else run_frame w w' [] \<or> (\<exists>status. run_frame w w' [Rv_ended pid status])"
proof -
  have "case y of (ok, w') \<Rightarrow> if ok then \<exists>status. exited_0 status \<and> run_frame w w' [Rv_ended pid status]
      else run_frame w w' [] \<or> (\<exists>status. run_frame w w' [Rv_ended pid status])"
    if "wait_success os pid w = Some y" for y
    using that
  proof (induction rule: wait_success.raw_induct [rotated, consumes 1, case_names step])
    case (step rec os pid w y)
    show ?case using step(2) step(1) [of os pid "rtick w" y]
      by (cases "ro_waitpid os w pid False") (auto simp: exited_0_macros split: if_splits)
  qed
  from this [OF assms] show ?thesis by simp
qed

subsection \<open>Phases that succeed\<close>

lemma and_then_Some:
  "and_then p q st w = Some (True, st', w') \<longleftrightarrow> (\<exists>st1 w1. p st w = Some (True, st1, w1) \<and> q st1 w1 = Some (True, st', w'))"
  by (auto simp: and_then_def split: bind_splits)

lemma run_frame_append: "run_frame w w1 es \<Longrightarrow> run_frame w1 w2 fs \<Longrightarrow> run_frame w w2 (es @ fs)"
  by (simp add: run_frame_def)

text \<open>The text of \<open>cpu.max\<close>: a quota for a limited group, \<open>max\<close> otherwise, and the period.\<close>

definition limit_text :: "bool \<Rightarrow> config \<Rightarrow> string" where
  "limit_text limited cfg = (if limited then show_nat (unat (cf_throttle_quota_us cfg)) else ''max'') @ '' '' @
     show_nat (unat (cf_throttle_period_us cfg)) @ [CHR 0x0A]"

definition limit_events :: "condition \<Rightarrow> config \<Rightarrow> cgroup_context \<Rightarrow> run_event list" where
  "limit_events condition cfg cgroups =
     [Rv_wrote (cc_high_path cgroups @ ''/cpu.max'') (limit_text (condition \<in> {CONDITION_SELECTIVE, CONDITION_ALL}) cfg),
      Rv_wrote (cc_low_path cgroups @ ''/cpu.max'') (limit_text (condition = CONDITION_ALL) cfg)]"

lemma cpu_max_text_limit:
  "cpu_max_text (high_throttled condition) (cf_throttle_quota_us cfg) (cf_throttle_period_us cfg) =
     limit_text (condition \<in> {CONDITION_SELECTIVE, CONDITION_ALL}) cfg"
  "cpu_max_text (low_throttled condition) (cf_throttle_quota_us cfg) (cf_throttle_period_us cfg) = limit_text (condition = CONDITION_ALL) cfg"
  by (simp_all add: cpu_max_text_def limit_text_def high_throttled_def low_throttled_def)

definition move_events :: "cgroup_context \<Rightarrow> pid_t \<Rightarrow> pid_t \<Rightarrow> run_event list" where
  "move_events cgroups high low =
     [Rv_wrote (cc_high_path cgroups @ ''/cgroup.procs'') (show_int high @ [CHR 0x0A]),
      Rv_wrote (cc_low_path cgroups @ ''/cgroup.procs'') (show_int low @ [CHR 0x0A])]"

lemma set_limits_True:
  "set_limits os condition cfg cgroups st w = Some (True, st', w') \<Longrightarrow>
   st' = st \<and> run_frame w w' (limit_events condition cfg cgroups)"
  by (auto simp: set_limits_def limit_events_def cpu_max_text_limit run_frame_def split: bind_splits if_splits dest!: oracle_set_cpu_max_frame)

lemma move_workers_True:
  "move_workers os cgroups st w = Some (True, st', w') \<Longrightarrow>
   st' = st \<and> run_frame w w' (move_events cgroups (rs_high_pid st) (rs_low_pid st))"
  by (auto simp: move_workers_def move_events_def run_frame_def split: bind_splits if_splits dest!: oracle_move_pid_frame)

text \<open>A worker that was started with its pipe: its id is positive, the read end of the pipe is open.\<close>

definition started :: "run_world \<Rightarrow> run_world \<Rightarrow> pid_t \<Rightarrow> nat \<times> nat \<Rightarrow> worker \<Rightarrow> bool" where
  "started w w' pid pipe wk \<longleftrightarrow> 0 < pid \<and> rw_open w' = rw_open w + 1 \<and>
     rw_events w' = rw_events w @ [Rv_spawned pid wk pipe, Rv_stopped pid]"

lemma spawn_worker_cases:
  assumes "spawn_worker os wk w = ((pid, fd), w')"
  shows "if pid < 0 then pid = - 1 \<and> fd = - 1 \<and> run_frame w w' []
    else 0 < pid \<and> rw_open w' = rw_open w + 1 \<and>
      (\<exists>pipe. fd = int (fst pipe) \<and> rw_events w' = rw_events w @ [Rv_spawned pid wk pipe])"
  using assms by (auto simp: spawn_worker_def run_frame_def Let_def split: option.splits if_splits)

lemma start_True:
  "start_victim os cfg r st w = Some (True, st', w') \<Longrightarrow>
   \<exists>pid pipe. st' = st\<lparr>rs_victim_pid := pid, rs_victim_fd := int (fst pipe)\<rparr> \<and>
     started w w' pid pipe (Victim (cf_victim_cpu cfg) (cf_seconds cfg) r)"
  "start_high os cfg rs st w = Some (True, st', w') \<Longrightarrow>
   \<exists>pid pipe. st' = st\<lparr>rs_high_pid := pid, rs_high_fd := int (fst pipe)\<rparr> \<and>
     started w w' pid pipe (Aggressor (cf_high_aggressor_cpu cfg) (cf_seconds cfg) rs)"
  "start_low os cfg rs st w = Some (True, st', w') \<Longrightarrow>
   \<exists>pid pipe. st' = st\<lparr>rs_low_pid := pid, rs_low_fd := int (fst pipe)\<rparr> \<and>
     started w w' pid pipe (Aggressor (cf_low_aggressor_cpu cfg) (cf_seconds cfg) rs)"
  unfolding start_victim_def start_high_def start_low_def spawn_victim_def spawn_aggressor_def started_def
  by (fastforce simp: Let_def run_frame_def split: prod.splits if_splits bind_splits dest!: spawn_worker_cases wait_until_stopped_frame)+

lemma continue_True:
  "continue_background os st w = Some (True, st', w') \<Longrightarrow>
   st' = st \<and> run_frame w w' [Rv_signal (rs_high_pid st) RUN_SIGCONT, Rv_signal (rs_low_pid st) RUN_SIGCONT]"
  "continue_victim os st w = Some (True, st', w') \<Longrightarrow> st' = st \<and> run_frame w w' [Rv_signal (rs_victim_pid st) RUN_SIGCONT]"
  by (auto simp: continue_background_def continue_victim_def rkill_def run_frame_def Let_def split: if_splits)

lemma wait_True:
  "wait_victim os st w = Some (True, st', w') \<Longrightarrow>
   st' = st\<lparr>rs_victim_pid := - 1\<rparr> \<and> (\<exists>status. exited_0 status \<and> run_frame w w' [Rv_ended (rs_victim_pid st) status])"
  "wait_high os st w = Some (True, st', w') \<Longrightarrow>
   st' = st\<lparr>rs_high_pid := - 1\<rparr> \<and> (\<exists>status. exited_0 status \<and> run_frame w w' [Rv_ended (rs_high_pid st) status])"
  "wait_low os st w = Some (True, st', w') \<Longrightarrow>
   st' = st\<lparr>rs_low_pid := - 1\<rparr> \<and> (\<exists>status. exited_0 status \<and> run_frame w w' [Rv_ended (rs_low_pid st) status])"
  unfolding wait_victim_def wait_high_def wait_low_def
  by (auto split: bind_splits dest!: wait_success_frame)

lemma read_True:
  "read_victim os decode n st w = Some (True, st', w') \<Longrightarrow>
   rs_victim_fd st' = - 1 \<and> rw_open w' = rw_open w - 1 \<and> rs_high_fd st' = rs_high_fd st \<and> rs_low_fd st' = rs_low_fd st \<and>
   (\<exists>cs. rw_events w' = rw_events w @ map (Rv_read (rs_victim_fd st)) cs \<and> length (concat cs) = n \<and>
      rs_out st' = (rs_out st)\<lparr>cr_victim := decode (concat cs)\<rparr>)"
  "read_background os decode n st w = Some (True, st', w') \<Longrightarrow>
   rw_open w' = rw_open w - 2 \<and>
   (\<exists>hs ls. rw_events w' = rw_events w @ map (Rv_read (rs_high_fd st)) hs @ map (Rv_read (rs_low_fd st)) ls \<and>
      length (concat hs) = n \<and> length (concat ls) = n \<and>
      rs_out st' = (rs_out st)\<lparr>cr_high := decode (concat hs), cr_low := decode (concat ls)\<rparr>)"
  unfolding read_victim_def read_background_def
  by (fastforce simp: run_frame_def received_def split: bind_splits option.splits dest!: read_full_frame)+

subsection \<open>The script of a condition\<close>

text \<open>What became of a worker: its id, its pipe, its final status and what was read from the pipe, piece by piece.\<close>

record worker_outcome =
  wo_pid :: pid_t
  wo_pipe :: "nat \<times> nat"
  wo_status :: nat
  wo_pieces :: "u8 list list"

definition delivered :: "worker_outcome \<Rightarrow> u8 list" where
  "delivered o' = concat (wo_pieces o')"

definition outcome_ok :: "nat \<Rightarrow> worker_outcome \<Rightarrow> bool" where
  "outcome_ok n o' \<longleftrightarrow> exited_0 (wo_status o') \<and> length (delivered o') = n"

definition read_events :: "worker_outcome \<Rightarrow> run_event list" where
  "read_events o' = map (Rv_read (int (fst (wo_pipe o')))) (wo_pieces o')"

text \<open>What is done, in order, when a condition is measured: \<open>v\<close>, \<open>h\<close> and \<open>l\<close> are the workers.\<close>

definition condition_script ::
  "condition \<Rightarrow> config \<Rightarrow> cgroup_context \<Rightarrow> nat \<Rightarrow> nat list \<Rightarrow> nat list \<Rightarrow> worker_outcome \<Rightarrow> worker_outcome \<Rightarrow> worker_outcome \<Rightarrow> run_event list" where
  "condition_script condition cfg cgroups root_v roots_h roots_l v h l =
     (if condition = CONDITION_NONE
      then [Rv_spawned (wo_pid v) (Victim (cf_victim_cpu cfg) (cf_seconds cfg) root_v) (wo_pipe v), Rv_stopped (wo_pid v),
            Rv_signal (wo_pid v) RUN_SIGCONT, Rv_ended (wo_pid v) (wo_status v)] @ read_events v
      else limit_events condition cfg cgroups @
        [Rv_spawned (wo_pid v) (Victim (cf_victim_cpu cfg) (cf_seconds cfg) root_v) (wo_pipe v), Rv_stopped (wo_pid v),
         Rv_spawned (wo_pid h) (Aggressor (cf_high_aggressor_cpu cfg) (cf_seconds cfg) roots_h) (wo_pipe h), Rv_stopped (wo_pid h),
         Rv_spawned (wo_pid l) (Aggressor (cf_low_aggressor_cpu cfg) (cf_seconds cfg) roots_l) (wo_pipe l), Rv_stopped (wo_pid l)] @
        move_events cgroups (wo_pid h) (wo_pid l) @
        [Rv_signal (wo_pid h) RUN_SIGCONT, Rv_signal (wo_pid l) RUN_SIGCONT, Rv_signal (wo_pid v) RUN_SIGCONT,
         Rv_ended (wo_pid v) (wo_status v), Rv_ended (wo_pid h) (wo_status h), Rv_ended (wo_pid l) (wo_status l)] @
        read_events v @ read_events h @ read_events l)"

lemma run_phases_script:
  assumes "run_phases os decode n condition cfg cgroups root_v roots_h roots_l st w = Some (True, st', w')"
    "rs_out st = out"
  shows "rw_open w' = rw_open w \<and> (\<exists>v h l. outcome_ok n v \<and> outcome_ok n h \<and> outcome_ok n l \<and>
    rw_events w' = rw_events w @ condition_script condition cfg cgroups root_v roots_h roots_l v h l \<and>
    rs_out st' = (if condition = CONDITION_NONE then out\<lparr>cr_victim := decode (delivered v)\<rparr>
      else out\<lparr>cr_victim := decode (delivered v), cr_high := decode (delivered h), cr_low := decode (delivered l)\<rparr>))"
proof (cases "condition = CONDITION_NONE")
  case True
  from assms(1) True obtain st1 w1 st2 w2 st3 w3 where p: "start_victim os cfg root_v st w = Some (True, st1, w1)"
    "continue_victim os st1 w1 = Some (True, st2, w2)" "wait_victim os st2 w2 = Some (True, st3, w3)"
    "read_victim os decode n st3 w3 = Some (True, st', w')"
    unfolding run_phases_def Let_def by (auto simp: and_then_Some in_background_def)
  have same: "st2 = st1" using continue_True(2) [OF p(2)] by simp
  note p = p [unfolded same]
  from start_True(1) [OF p(1)] obtain v pv where v: "st1 = st\<lparr>rs_victim_pid := v, rs_victim_fd := int (fst pv)\<rparr>"
    "started w w1 v pv (Victim (cf_victim_cpu cfg) (cf_seconds cfg) root_v)" by blast
  from wait_True(1) [OF p(3)] v(1) obtain sv where sv: "exited_0 sv" "run_frame w2 w3 [Rv_ended v sv]" "st3 = st1\<lparr>rs_victim_pid := - 1\<rparr>" by auto
  from read_True(1) [OF p(4)] v(1) sv(3) assms(2) obtain cv where cv: "rw_events w' = rw_events w3 @ map (Rv_read (int (fst pv))) cv"
    "length (concat cv) = n" "rs_out st' = out\<lparr>cr_victim := decode (concat cv)\<rparr>" "rw_open w' = rw_open w3 - 1" by auto
  define o' where "o' = \<lparr>wo_pid = v, wo_pipe = pv, wo_status = sv, wo_pieces = cv\<rparr>"
  have "rw_open w' = rw_open w" "rw_events w' = rw_events w @ condition_script condition cfg cgroups root_v roots_h roots_l o' o' o'"
    using v sv(2) cv(1,4) continue_True(2) [OF p(2)] True by (simp_all add: condition_script_def read_events_def o'_def started_def run_frame_def)
  moreover have "outcome_ok n o'" using sv(1) cv(2) by (simp add: outcome_ok_def delivered_def o'_def)
  ultimately show ?thesis using cv(3) True by (intro conjI exI [of _ o']) (simp_all add: delivered_def o'_def)
next
  case False
  from assms(1) False obtain st1 w1 st2 w2 st3 w3 st4 w4 st5 w5 st6 w6 st7 w7 st8 w8 st9 w9 st10 w10 st11 w11
    where p: "set_limits os condition cfg cgroups st w = Some (True, st1, w1)"
    "start_victim os cfg root_v st1 w1 = Some (True, st2, w2)"
    "start_high os cfg roots_h st2 w2 = Some (True, st3, w3)"
    "start_low os cfg roots_l st3 w3 = Some (True, st4, w4)"
    "move_workers os cgroups st4 w4 = Some (True, st5, w5)"
    "continue_background os st5 w5 = Some (True, st6, w6)"
    "continue_victim os st6 w6 = Some (True, st7, w7)" "wait_victim os st7 w7 = Some (True, st8, w8)"
    "wait_high os st8 w8 = Some (True, st9, w9)" "wait_low os st9 w9 = Some (True, st10, w10)"
    "read_victim os decode n st10 w10 = Some (True, st11, w11)" "read_background os decode n st11 w11 = Some (True, st', w')"
    unfolding run_phases_def Let_def by (auto simp: and_then_Some in_background_def)
  have same: "st1 = st" "st5 = st4" "st6 = st4" "st7 = st4"
    using set_limits_True [OF p(1)] move_workers_True [OF p(5)] continue_True(1) [OF p(6)] continue_True(2) [OF p(7)] by simp_all
  note p = p [unfolded same]
  note facts = set_limits_True [OF p(1)] start_True(1) [OF p(2)] start_True(2) [OF p(3)] start_True(3) [OF p(4)] move_workers_True [OF p(5)]
    continue_True(1) [OF p(6)] continue_True(2) [OF p(7)] wait_True(1) [OF p(8)] wait_True(2) [OF p(9)] wait_True(3) [OF p(10)]
    read_True(1) [OF p(11)] read_True(2) [OF p(12)]
  from facts(2) obtain v pv where v: "st2 = st\<lparr>rs_victim_pid := v, rs_victim_fd := int (fst pv)\<rparr>"
    "started w1 w2 v pv (Victim (cf_victim_cpu cfg) (cf_seconds cfg) root_v)" by blast
  from facts(3) obtain h ph where h: "st3 = st2\<lparr>rs_high_pid := h, rs_high_fd := int (fst ph)\<rparr>"
    "started w2 w3 h ph (Aggressor (cf_high_aggressor_cpu cfg) (cf_seconds cfg) roots_h)" by blast
  from facts(4) obtain l pl where l: "st4 = st3\<lparr>rs_low_pid := l, rs_low_fd := int (fst pl)\<rparr>"
    "started w3 w4 l pl (Aggressor (cf_low_aggressor_cpu cfg) (cf_seconds cfg) roots_l)" by blast
  have st4: "rs_victim_pid st4 = v" "rs_high_pid st4 = h" "rs_low_pid st4 = l" "rs_out st4 = out"
    "rs_victim_fd st4 = int (fst pv)" "rs_high_fd st4 = int (fst ph)" "rs_low_fd st4 = int (fst pl)" using v(1) h(1) l(1) assms(2) by simp_all
  from facts(8) st4 obtain sv where sv: "exited_0 sv" "run_frame w7 w8 [Rv_ended v sv]" "st8 = st4\<lparr>rs_victim_pid := - 1\<rparr>" by auto
  from facts(9) st4 sv(3) obtain sh where sh: "exited_0 sh" "run_frame w8 w9 [Rv_ended h sh]" "st9 = st8\<lparr>rs_high_pid := - 1\<rparr>" by auto
  from facts(10) st4 sv(3) sh(3) obtain sl where sl: "exited_0 sl" "run_frame w9 w10 [Rv_ended l sl]" "st10 = st9\<lparr>rs_low_pid := - 1\<rparr>" by auto
  have st10: "rs_out st10 = out" "rs_victim_fd st10 = int (fst pv)" "rs_high_fd st10 = int (fst ph)" "rs_low_fd st10 = int (fst pl)"
    using st4 sv(3) sh(3) sl(3) by simp_all
  from facts(11) st10 obtain cv where cv: "rw_events w11 = rw_events w10 @ map (Rv_read (int (fst pv))) cv" "length (concat cv) = n"
    "rs_out st11 = out\<lparr>cr_victim := decode (concat cv)\<rparr>" "rs_high_fd st11 = int (fst ph)" "rs_low_fd st11 = int (fst pl)"
    "rw_open w11 = rw_open w10 - 1" by auto
  from facts(12) cv obtain ch cl where cb: "rw_events w' = rw_events w11 @ map (Rv_read (int (fst ph))) ch @ map (Rv_read (int (fst pl))) cl"
    "length (concat ch) = n" "length (concat cl) = n" "rw_open w' = rw_open w11 - 2"
    "rs_out st' = out\<lparr>cr_victim := decode (concat cv), cr_high := decode (concat ch), cr_low := decode (concat cl)\<rparr>" by auto
  define ov where "ov = \<lparr>wo_pid = v, wo_pipe = pv, wo_status = sv, wo_pieces = cv\<rparr>"
  define oh where "oh = \<lparr>wo_pid = h, wo_pipe = ph, wo_status = sh, wo_pieces = ch\<rparr>"
  define ol where "ol = \<lparr>wo_pid = l, wo_pipe = pl, wo_status = sl, wo_pieces = cl\<rparr>"
  note os = ov_def oh_def ol_def
  have ev: "rw_events w' = rw_events w @ condition_script condition cfg cgroups root_v roots_h roots_l ov oh ol"
    using facts(1,5,6,7) cv(1) cb(1) v(2) h(2) l(2) sv(2) sh(2) sl(2) st4 False
    by (simp add: condition_script_def read_events_def os started_def run_frame_def)
  have op: "rw_open w' = rw_open w"
    using facts(1,5,6,7) cv(6) cb(4) v(2) h(2) l(2) sv(2) sh(2) sl(2) by (simp add: started_def run_frame_def)
  have "outcome_ok n ov" "outcome_ok n oh" "outcome_ok n ol"
    using sv(1) sh(1) sl(1) cv(2) cb(2,3) by (simp_all add: outcome_ok_def delivered_def os)
  then show ?thesis using ev op cb(5) False
    by (intro conjI exI [of _ ov] exI [of _ oh] exI [of _ ol]) (simp_all add: delivered_def os)
qed

subsection \<open>Nothing is left behind\<close>

text \<open>A phase started in \<open>P\<close> ends in \<open>Q\<close> when it succeeds and in \<open>R\<close> when it fails.\<close>

definition phase_spec ::
  "(run_state \<Rightarrow> run_world \<Rightarrow> bool) \<Rightarrow> run_phase \<Rightarrow> (run_state \<Rightarrow> run_world \<Rightarrow> bool) \<Rightarrow> (run_state \<Rightarrow> run_world \<Rightarrow> bool) \<Rightarrow> bool" where
  "phase_spec P p Q R \<longleftrightarrow> (\<forall>st w ok st' w'. P st w \<and> p st w = Some (ok, st', w') \<longrightarrow> (if ok then Q st' w' else R st' w'))"

lemma phase_spec_and_then: "phase_spec P p M R \<Longrightarrow> phase_spec M q Q R \<Longrightarrow> phase_spec P (and_then p q) Q R"
  unfolding phase_spec_def and_then_def by (auto split: bind_splits if_splits) metis+

lemma phase_spec_background: "phase_spec P p Q R \<Longrightarrow> phase_spec P (in_background b p) (if b then Q else P) R"
  by (auto simp: phase_spec_def in_background_def)

text \<open>Events that neither start a worker nor make a directory.\<close>

fun harmless :: "run_event \<Rightarrow> bool" where
  "harmless (Rv_spawned pid wk pipe) = False"
| "harmless (Rv_mkdir path) = False"
| "harmless _ = True"

definition makes_no_dir :: "run_event list \<Rightarrow> bool" where
  "makes_no_dir es \<longleftrightarrow> (\<forall>path. Rv_mkdir path \<notin> set es)"

lemma makes_no_dir_append [simp]: "makes_no_dir (es @ fs) \<longleftrightarrow> makes_no_dir es \<and> makes_no_dir fs" "makes_no_dir []"
  "makes_no_dir (e # es) \<longleftrightarrow> (\<forall>path. e \<noteq> Rv_mkdir path) \<and> makes_no_dir es"
  by (auto simp: makes_no_dir_def)

lemma harmless_no_dir: "\<forall>e \<in> set fs. harmless e \<Longrightarrow> makes_no_dir fs"
  by (auto simp: makes_no_dir_def)

text \<open>Since \<open>es0\<close> and \<open>n0\<close>: the open descriptors are those of the state, and every worker started is one of the state or ended well.\<close>

definition accounted :: "run_state \<Rightarrow> run_event list \<Rightarrow> bool" where
  "accounted st es \<longleftrightarrow> makes_no_dir es \<and> (\<forall>pid wk pipe. Rv_spawned pid wk pipe \<in> set es \<longrightarrow>
     0 < pid \<and> (pid \<in> {rs_victim_pid st, rs_high_pid st, rs_low_pid st} \<or> (\<exists>status. exited_0 status \<and> Rv_ended pid status \<in> set es)))"

definition tidy :: "run_event list \<Rightarrow> nat \<Rightarrow> run_state \<Rightarrow> run_world \<Rightarrow> bool" where
  "tidy es0 n0 st w \<longleftrightarrow>
     rw_open w = n0 + of_bool (0 \<le> rs_victim_fd st) + of_bool (0 \<le> rs_high_fd st) + of_bool (0 \<le> rs_low_fd st) \<and>
     (\<exists>es. rw_events w = es0 @ es \<and> accounted st es)"

text \<open>Which of the three workers have been started and not yet been read from.\<close>

definition shape :: "bool \<Rightarrow> bool \<Rightarrow> bool \<Rightarrow> run_state \<Rightarrow> bool" where
  "shape v h l st \<longleftrightarrow>
     (if v then 0 \<le> rs_victim_fd st else rs_victim_fd st = - 1 \<and> rs_victim_pid st = - 1) \<and>
     (if h then 0 \<le> rs_high_fd st else rs_high_fd st = - 1 \<and> rs_high_pid st = - 1) \<and>
     (if l then 0 \<le> rs_low_fd st else rs_low_fd st = - 1 \<and> rs_low_pid st = - 1)"

lemma accounted_more: "accounted st es \<Longrightarrow> \<forall>e \<in> set fs. harmless e \<Longrightarrow> accounted st (es @ fs)"
  using harmless_no_dir [of fs] unfolding accounted_def by (auto; metis harmless.simps(1))

definition quiet :: "run_world \<Rightarrow> run_world \<Rightarrow> bool" where
  "quiet w w' \<longleftrightarrow> (\<exists>fs. run_frame w w' fs \<and> (\<forall>e \<in> set fs. harmless e))"

lemma quiet_frame: "run_frame w w' fs \<Longrightarrow> \<forall>e \<in> set fs. harmless e \<Longrightarrow> quiet w w'"
  by (auto simp: quiet_def)

lemma quiet_trans [trans]: "quiet w w1 \<Longrightarrow> quiet w1 w2 \<Longrightarrow> quiet w w2"
  unfolding quiet_def by (metis Un_iff run_frame_append set_append)

lemma quiet_simps [simp]: "quiet w w" "quiet w (rtick w)" "harmless e \<Longrightarrow> quiet w (rlog e (rtick w))"
  by (auto simp: quiet_def run_frame_def)

lemma received_quiet: "received fd got n w (r, w') \<Longrightarrow> quiet w w'"
proof -
  assume "received fd got n w (r, w')"
  then obtain cs where "run_frame w w' (map (Rv_read fd) cs)" by (auto simp: received_def)
  then show ?thesis by (rule quiet_frame) auto
qed

lemma quiet_calls:
  "oracle_set_cpu_max os dir throttled quota period w = Some (ok, w') \<Longrightarrow> quiet w w'"
  "oracle_move_pid os dir pid w = Some (ok, w') \<Longrightarrow> quiet w w'"
  "wait_until_stopped os pid w = Some (ok, w') \<Longrightarrow> quiet w w'"
  "wait_success os pid w = Some (ok, w') \<Longrightarrow> quiet w w'"
  "read_full os fd got n w = Some (r, w') \<Longrightarrow> quiet w w'"
  "quiet w (snd (rkill os pid sig w))"
  using oracle_set_cpu_max_frame [of os dir throttled quota period w ok w'] oracle_move_pid_frame [of os dir pid w ok w']
    wait_until_stopped_frame [of os pid w ok w'] wait_success_frame [of os pid w ok w'] read_full_frame [THEN received_quiet, of os fd got n w r w']
  by (auto simp: rkill_def split: if_splits intro: quiet_frame)

lemma tidy_quiet:
  assumes "tidy es0 n0 st w" "quiet w w'"
  shows "tidy es0 n0 st w'"
proof -
  from assms(2) obtain fs where fs: "run_frame w w' fs" "\<forall>e \<in> set fs. harmless e" by (auto simp: quiet_def)
  from assms(1) obtain es where es: "rw_events w = es0 @ es" "accounted st es" by (auto simp: tidy_def)
  from accounted_more [OF es(2) fs(2)] es(1) fs(1) have "rw_events w' = es0 @ (es @ fs)" "accounted st (es @ fs)"
    by (simp_all add: run_frame_def)
  moreover have "rw_open w' = rw_open w" using fs(1) by (simp add: run_frame_def)
  ultimately show ?thesis using assms(1) unfolding tidy_def by metis
qed

lemma phase_spec_quiet:
  assumes "\<And>st w ok st' w'. p st w = Some (ok, st', w') \<Longrightarrow> st' = st \<and> quiet w w'"
  shows "phase_spec (\<lambda>st w. tidy es0 n0 st w \<and> shape v h l st) p (\<lambda>st w. tidy es0 n0 st w \<and> shape v h l st) (tidy es0 n0)"
  unfolding phase_spec_def using assms tidy_quiet by metis

lemma rkill_quiet: "rkill os pid sig w = (ok, w') \<Longrightarrow> quiet w w'"
  using quiet_calls(6) [of w os pid sig] by simp

lemma quiet_phases:
  "set_limits os condition cfg cgroups st w = Some (ok, st', w') \<Longrightarrow> st' = st \<and> quiet w w'"
  "move_workers os cgroups st w = Some (ok, st', w') \<Longrightarrow> st' = st \<and> quiet w w'"
  "continue_background os st w = Some (ok, st', w') \<Longrightarrow> st' = st \<and> quiet w w'"
  "continue_victim os st w = Some (ok, st', w') \<Longrightarrow> st' = st \<and> quiet w w'"
  subgoal by (auto simp: set_limits_def split: bind_splits if_splits dest!: quiet_calls(1) elim: quiet_trans)
  subgoal by (auto simp: move_workers_def split: bind_splits if_splits dest!: quiet_calls(2) elim: quiet_trans)
  subgoal by (auto simp: continue_background_def Let_def split: prod.splits if_splits dest!: rkill_quiet elim: quiet_trans)
  subgoal by (auto simp: continue_victim_def Let_def split: prod.splits dest!: rkill_quiet)
  done

text \<open>Starting a worker in an empty place.\<close>

lemma accounted_spawn:
  assumes "accounted st es" "0 < pid" "pid \<in> {rs_victim_pid st', rs_high_pid st', rs_low_pid st'}"
    "\<forall>p \<in> {rs_victim_pid st, rs_high_pid st, rs_low_pid st}. 0 < p \<longrightarrow> p \<in> {rs_victim_pid st', rs_high_pid st', rs_low_pid st'}"
  shows "accounted st' (es @ [Rv_spawned pid wk pipe])"
  unfolding accounted_def
proof (intro conjI allI impI)
  show "makes_no_dir (es @ [Rv_spawned pid wk pipe])" using assms(1) by (simp add: accounted_def)
next
  fix p wk' pipe'
  let ?pids' = "{rs_victim_pid st', rs_high_pid st', rs_low_pid st'}"
  assume p: "Rv_spawned p wk' pipe' \<in> set (es @ [Rv_spawned pid wk pipe])"
  have "0 < p \<and> (p \<in> ?pids' \<or> (\<exists>status. exited_0 status \<and> Rv_ended p status \<in> set (es @ [Rv_spawned pid wk pipe])))"
  proof (cases "p = pid")
    case False
    with p have "Rv_spawned p wk' pipe' \<in> set es" by simp
    with assms(1) have "0 < p" "p \<in> {rs_victim_pid st, rs_high_pid st, rs_low_pid st} \<or> (\<exists>status. exited_0 status \<and> Rv_ended p status \<in> set es)"
      unfolding accounted_def by blast+
    then show ?thesis using assms(4) by (metis Un_iff set_append)
  qed (use assms(2,3) in simp)
  then show "0 < p" "p \<in> ?pids' \<or> (\<exists>status. exited_0 status \<and> Rv_ended p status \<in> set (es @ [Rv_spawned pid wk pipe]))" by simp_all
qed

definition open_fds :: "run_state \<Rightarrow> nat" where
  "open_fds st = of_bool (0 \<le> rs_victim_fd st) + of_bool (0 \<le> rs_high_fd st) + of_bool (0 \<le> rs_low_fd st)"

lemma tidy_alt: "tidy es0 n0 st w \<longleftrightarrow> rw_open w = n0 + open_fds st \<and> (\<exists>es. rw_events w = es0 @ es \<and> accounted st es)"
  by (simp add: tidy_def open_fds_def add.assoc)

lemma tidy_spawn:
  assumes "tidy es0 n0 st w" "spawn_worker os wk w = ((pid, fd), w')" "\<not> pid < 0"
    "pid \<in> {rs_victim_pid st', rs_high_pid st', rs_low_pid st'}"
    "\<forall>p \<in> {rs_victim_pid st, rs_high_pid st, rs_low_pid st}. 0 < p \<longrightarrow> p \<in> {rs_victim_pid st', rs_high_pid st', rs_low_pid st'}"
    "0 \<le> fd \<Longrightarrow> open_fds st' = open_fds st + 1"
  shows "tidy es0 n0 st' w' \<and> 0 \<le> fd"
proof -
  from assms(1) obtain es where es: "rw_events w = es0 @ es" "accounted st es" "rw_open w = n0 + open_fds st" by (auto simp: tidy_alt)
  from spawn_worker_cases [OF assms(2)] assms(3) obtain pipe where sp: "0 < pid" "0 \<le> fd" "rw_open w' = rw_open w + 1"
    "rw_events w' = rw_events w @ [Rv_spawned pid wk pipe]" by auto
  from accounted_spawn [OF es(2) sp(1) assms(4,5)] es(1,3) sp assms(6) [OF sp(2)] show ?thesis by (auto simp: tidy_alt)
qed

lemma tidy_no_spawn:
  assumes "tidy es0 n0 st w" "spawn_worker os wk w = ((pid, fd), w')" "pid < 0"
  shows "tidy es0 n0 st w' \<and> pid = - 1 \<and> fd = - 1"
  using spawn_worker_cases [OF assms(2)] assms(3) tidy_quiet [OF assms(1) quiet_frame [of w w' "[]"]] by simp

text \<open>The three phases that start a worker differ in the fields they set.\<close>

definition start_in :: "run_os \<Rightarrow> worker \<Rightarrow> (pid_t \<Rightarrow> int \<Rightarrow> run_state \<Rightarrow> run_state) \<Rightarrow> run_phase" where
  "start_in os wk upd st w =
     (let ((pid, fd), w1) = spawn_worker os wk w
      in if pid < 0 then Some (False, upd pid fd st, w1)
         else do { (ok, w2) \<leftarrow> wait_until_stopped os pid w1; Some (ok, upd pid fd st, w2) })"

lemma start_in:
  "start_victim os cfg r = start_in os (Victim (cf_victim_cpu cfg) (cf_seconds cfg) r) (\<lambda>pid fd st. st\<lparr>rs_victim_pid := pid, rs_victim_fd := fd\<rparr>)"
  "start_high os cfg rs = start_in os (Aggressor (cf_high_aggressor_cpu cfg) (cf_seconds cfg) rs) (\<lambda>pid fd st. st\<lparr>rs_high_pid := pid, rs_high_fd := fd\<rparr>)"
  "start_low os cfg rs = start_in os (Aggressor (cf_low_aggressor_cpu cfg) (cf_seconds cfg) rs) (\<lambda>pid fd st. st\<lparr>rs_low_pid := pid, rs_low_fd := fd\<rparr>)"
  by (intro ext; simp add: start_victim_def start_high_def start_low_def spawn_victim_def spawn_aggressor_def start_in_def Let_def)+

lemma tidy_start_in:
  assumes none: "\<And>st. S st \<Longrightarrow> upd (- 1) (- 1) st = st"
    and one: "\<And>st pid fd. S st \<Longrightarrow> 0 \<le> fd \<Longrightarrow> T (upd pid fd st) \<and> open_fds (upd pid fd st) = open_fds st + 1 \<and>
      insert pid {p \<in> {rs_victim_pid st, rs_high_pid st, rs_low_pid st}. 0 < p}
        \<subseteq> {rs_victim_pid (upd pid fd st), rs_high_pid (upd pid fd st), rs_low_pid (upd pid fd st)}"
  shows "phase_spec (\<lambda>st w. tidy es0 n0 st w \<and> S st) (start_in os wk upd) (\<lambda>st w. tidy es0 n0 st w \<and> T st) (tidy es0 n0)"
  unfolding phase_spec_def
proof (intro allI impI, elim conjE)
  fix st w ok st' w'
  assume t: "tidy es0 n0 st w" "S st" and p: "start_in os wk upd st w = Some (ok, st', w')"
  obtain pid fd w1 where sp: "spawn_worker os wk w = ((pid, fd), w1)" by (metis surj_pair)
  show "if ok then tidy es0 n0 st' w' \<and> T st' else tidy es0 n0 st' w'"
  proof (cases "pid < 0")
    case True
    with tidy_no_spawn [OF t(1) sp True] p sp none [OF t(2)] show ?thesis by (simp add: start_in_def)
  next
    case False
    with spawn_worker_cases [OF sp] have fd: "0 \<le> fd" by auto
    note up = one [OF t(2) fd, of pid]
    have "tidy es0 n0 (upd pid fd st) w1 \<and> 0 \<le> fd" by (rule tidy_spawn [OF t(1) sp False]) (use up in auto)
    with p sp False up quiet_calls(3) [THEN tidy_quiet [rotated], of os pid w1] show ?thesis
      by (auto simp: start_in_def split: bind_splits)
  qed
qed

lemma tidy_start:
  "phase_spec (\<lambda>st w. tidy es0 n0 st w \<and> shape False h l st) (start_victim os cfg r) (\<lambda>st w. tidy es0 n0 st w \<and> shape True h l st) (tidy es0 n0)"
  "phase_spec (\<lambda>st w. tidy es0 n0 st w \<and> shape v False l st) (start_high os cfg rs) (\<lambda>st w. tidy es0 n0 st w \<and> shape v True l st) (tidy es0 n0)"
  "phase_spec (\<lambda>st w. tidy es0 n0 st w \<and> shape v h False st) (start_low os cfg rs) (\<lambda>st w. tidy es0 n0 st w \<and> shape v h True st) (tidy es0 n0)"
  unfolding start_in by (rule tidy_start_in; clarsimp simp: shape_def open_fds_def; fastforce)+

text \<open>A worker seen to have exited with 0 may be forgotten.\<close>

lemma tidy_forget:
  assumes "tidy es0 n0 st w" "run_frame w w' [Rv_ended pid status]" "exited_0 status" "open_fds st' = open_fds st"
    "\<forall>p \<in> {rs_victim_pid st, rs_high_pid st, rs_low_pid st}. p = pid \<or> p \<in> {rs_victim_pid st', rs_high_pid st', rs_low_pid st'}"
  shows "tidy es0 n0 st' w'"
proof -
  from assms(1) obtain es where es: "rw_events w = es0 @ es" "accounted st es" "rw_open w = n0 + open_fds st" by (auto simp: tidy_alt)
  have "accounted st' (es @ [Rv_ended pid status])"
    unfolding accounted_def
  proof (intro conjI allI impI)
    show "makes_no_dir (es @ [Rv_ended pid status])" using es(2) by (simp add: accounted_def)
  next
    fix p wk pipe
    assume "Rv_spawned p wk pipe \<in> set (es @ [Rv_ended pid status])"
    then have "Rv_spawned p wk pipe \<in> set es" by simp
    with es(2) have "0 < p" "p \<in> {rs_victim_pid st, rs_high_pid st, rs_low_pid st} \<or> (\<exists>status. exited_0 status \<and> Rv_ended p status \<in> set es)"
      unfolding accounted_def by blast+
    then show "0 < p" "p \<in> {rs_victim_pid st', rs_high_pid st', rs_low_pid st'} \<or>
        (\<exists>s. exited_0 s \<and> Rv_ended p s \<in> set (es @ [Rv_ended pid status]))"
      using assms(3,5) by (simp, metis Un_iff list.set_intros(1) set_append)
  qed
  then show ?thesis using es assms(2,4) by (auto simp: tidy_alt run_frame_def)
qed

lemma tidy_waiting:
  assumes "\<And>st w ok st' w'. p st w = Some (ok, st', w') \<Longrightarrow> S st \<Longrightarrow> \<exists>pid. wait_success os pid w = Some (ok, w') \<and>
    (if ok then open_fds st' = open_fds st \<and> S st' \<and>
       (\<forall>p \<in> {rs_victim_pid st, rs_high_pid st, rs_low_pid st}. p = pid \<or> p \<in> {rs_victim_pid st', rs_high_pid st', rs_low_pid st'})
     else st' = st)"
  shows "phase_spec (\<lambda>st w. tidy es0 n0 st w \<and> S st) p (\<lambda>st w. tidy es0 n0 st w \<and> S st) (tidy es0 n0)"
  unfolding phase_spec_def
proof (intro allI impI, elim conjE)
  fix st w ok st' w'
  assume t: "tidy es0 n0 st w" "S st" and p: "p st w = Some (ok, st', w')"
  from assms [OF p t(2)] obtain pid where w: "wait_success os pid w = Some (ok, w')" and st': "if ok then open_fds st' = open_fds st \<and> S st' \<and>
       (\<forall>p \<in> {rs_victim_pid st, rs_high_pid st, rs_low_pid st}. p = pid \<or> p \<in> {rs_victim_pid st', rs_high_pid st', rs_low_pid st'})
     else st' = st" by blast
  show "if ok then tidy es0 n0 st' w' \<and> S st' else tidy es0 n0 st' w'"
  proof (cases ok)
    case True
    with wait_success_frame [OF w] obtain status where "exited_0 status" "run_frame w w' [Rv_ended pid status]" by auto
    with True st' tidy_forget [OF t(1), of w' pid status st'] show ?thesis by simp
  next
    case False
    with st' tidy_quiet [OF t(1) quiet_calls(4) [OF w]] show ?thesis by simp
  qed
qed

lemma shape_forget:
  "shape v h l st \<Longrightarrow> shape v h l (st\<lparr>rs_victim_pid := - 1\<rparr>)" "shape v h l st \<Longrightarrow> shape v h l (st\<lparr>rs_high_pid := - 1\<rparr>)"
  "shape v h l st \<Longrightarrow> shape v h l (st\<lparr>rs_low_pid := - 1\<rparr>)"
  by (simp_all add: shape_def)

lemma tidy_wait:
  "phase_spec (\<lambda>st w. tidy es0 n0 st w \<and> shape v h l st) (wait_victim os) (\<lambda>st w. tidy es0 n0 st w \<and> shape v h l st) (tidy es0 n0)"
  "phase_spec (\<lambda>st w. tidy es0 n0 st w \<and> shape v h l st) (wait_high os) (\<lambda>st w. tidy es0 n0 st w \<and> shape v h l st) (tidy es0 n0)"
  "phase_spec (\<lambda>st w. tidy es0 n0 st w \<and> shape v h l st) (wait_low os) (\<lambda>st w. tidy es0 n0 st w \<and> shape v h l st) (tidy es0 n0)"
  by (rule tidy_waiting [of _ _ os];
      auto simp: wait_victim_def wait_high_def wait_low_def open_fds_def shape_forget split: bind_splits)+

text \<open>Reading closes what it has read.\<close>

lemma tidy_close:
  assumes "tidy es0 n0 st w" "open_fds st = open_fds st' + k" "rw_open w' = rw_open w - k" "rw_events w' = rw_events w"
    "rs_victim_pid st' = rs_victim_pid st" "rs_high_pid st' = rs_high_pid st" "rs_low_pid st' = rs_low_pid st"
  shows "tidy es0 n0 st' w'"
  using assms by (auto simp: tidy_alt accounted_def)

definition background_open :: "bool \<Rightarrow> run_state \<Rightarrow> bool" where
  "background_open b st \<longleftrightarrow> (b \<longrightarrow> 0 \<le> rs_high_fd st \<and> 0 \<le> rs_low_fd st)"

lemma tidy_read_victim:
  "phase_spec (\<lambda>st w. tidy es0 n0 st w \<and> shape True b b st) (read_victim os decode n) (\<lambda>st w. tidy es0 n0 st w \<and> background_open b st) (tidy es0 n0)"
  unfolding phase_spec_def
proof (intro allI impI, elim conjE)
  fix st w ok st' w'
  assume t: "tidy es0 n0 st w" "shape True b b st" and p: "read_victim os decode n st w = Some (ok, st', w')"
  from p obtain r w1 where r: "read_full os (rs_victim_fd st) [] n w = Some (r, w1)" by (auto simp: read_victim_def split: bind_splits)
  note t1 = tidy_quiet [OF t(1) quiet_calls(5) [OF r]]
  show "if ok then tidy es0 n0 st' w' \<and> background_open b st' else tidy es0 n0 st' w'"
  proof (cases r)
    case None
    with p r t1 show ?thesis by (simp add: read_victim_def)
  next
    case (Some bytes)
    with p r have eq: "st' = st\<lparr>rs_out := (rs_out st)\<lparr>cr_victim := decode bytes\<rparr>, rs_victim_fd := - 1\<rparr>" "w' = rclose w1"
      by (simp_all add: read_victim_def)
    have "tidy es0 n0 st' w'" by (rule tidy_close [OF t1, of _ 1]) (use t(2) in \<open>auto simp: eq open_fds_def shape_def\<close>)
    moreover have "background_open b st'" using t(2) by (simp add: eq shape_def background_open_def)
    ultimately show ?thesis by simp
  qed
qed

lemma tidy_read_background:
  "phase_spec (\<lambda>st w. tidy es0 n0 st w \<and> background_open True st) (read_background os decode n) (tidy es0 n0) (tidy es0 n0)"
  unfolding phase_spec_def
proof (intro allI impI, elim conjE)
  fix st w ok st' w'
  assume t: "tidy es0 n0 st w" "background_open True st" and p: "read_background os decode n st w = Some (ok, st', w')"
  from p obtain r w1 where r: "read_full os (rs_high_fd st) [] n w = Some (r, w1)" by (auto simp: read_background_def split: bind_splits)
  note t1 = tidy_quiet [OF t(1) quiet_calls(5) [OF r]]
  show "if ok then tidy es0 n0 st' w' else tidy es0 n0 st' w'"
  proof (cases r)
    case None
    with p r t1 show ?thesis by (simp add: read_background_def)
  next
    case (Some high)
    with p r obtain r2 w2 where r2: "read_full os (rs_low_fd st) [] n w1 = Some (r2, w2)" by (auto simp: read_background_def split: bind_splits)
    note t2 = tidy_quiet [OF t1 quiet_calls(5) [OF r2]]
    show ?thesis
    proof (cases r2)
      case None
      with p r Some r2 t2 show ?thesis by (simp add: read_background_def)
    next
      case (Some low)
      with p r \<open>r = Some high\<close> r2 have
        "st' = st\<lparr>rs_out := (rs_out st)\<lparr>cr_high := decode high, cr_low := decode low\<rparr>, rs_high_fd := - 1, rs_low_fd := - 1\<rparr>" "w' = rclose (rclose w2)"
        by (simp_all add: read_background_def)
      then have "tidy es0 n0 st' w'" by (intro tidy_close [OF t2, of _ 2]) (use t(2) in \<open>auto simp: open_fds_def background_open_def\<close>)
      then show ?thesis by simp
    qed
  qed
qed

lemma phase_spec_mono:
  assumes "phase_spec P p Q R" "\<And>st w. P' st w \<Longrightarrow> P st w" "\<And>st w. Q st w \<Longrightarrow> Q' st w"
  shows "phase_spec P' p Q' R"
  using assms unfolding phase_spec_def by metis

lemma run_phases_tidy:
  "phase_spec (\<lambda>st w. tidy es0 n0 st w \<and> shape False False False st)
     (run_phases os decode n condition cfg cgroups root_v roots_h roots_l) (tidy es0 n0) (tidy es0 n0)"
proof -
  define b where "b = (condition \<noteq> CONDITION_NONE)"
  let ?T = "\<lambda>v h l st w. tidy es0 n0 st w \<and> shape v h l st"
  note quiet = quiet_phases [THEN phase_spec_quiet]
  have bg: "phase_spec (?T True False False) (in_background b
      (and_then (start_high os cfg roots_h) (and_then (start_low os cfg roots_l) (and_then (move_workers os cgroups) (continue_background os)))))
      (?T True b b) (tidy es0 n0)"
    by (rule phase_spec_mono [OF phase_spec_background
        [OF phase_spec_and_then [OF tidy_start(2) phase_spec_and_then [OF tidy_start(3) phase_spec_and_then [OF quiet(2,3)]]]]])
      (auto split: if_splits)
  have limits: "phase_spec (?T False False False) (in_background b (set_limits os condition cfg cgroups)) (?T False False False) (tidy es0 n0)"
    by (rule phase_spec_mono [OF phase_spec_background [OF quiet(1)]]) (auto split: if_splits)
  have waits: "phase_spec (?T True b b) (in_background b (and_then (wait_high os) (wait_low os))) (?T True b b) (tidy es0 n0)"
    by (rule phase_spec_mono [OF phase_spec_background [OF phase_spec_and_then [OF tidy_wait(2,3)]]]) (auto split: if_splits)
  have reads: "phase_spec (\<lambda>st w. tidy es0 n0 st w \<and> background_open b st) (in_background b (read_background os decode n)) (tidy es0 n0) (tidy es0 n0)"
    using tidy_read_background by (auto simp: phase_spec_def in_background_def)
  show ?thesis
    unfolding run_phases_def Let_def b_def [symmetric]
    by (intro phase_spec_and_then [OF limits] phase_spec_and_then [OF tidy_start(1)] phase_spec_and_then [OF bg]
        phase_spec_and_then [OF quiet(4)] phase_spec_and_then [OF tidy_wait(1)] phase_spec_and_then [OF waits]
        phase_spec_and_then [OF tidy_read_victim reads])
qed

text \<open>After the label \<open>fail\<close>: every worker started was seen to exit with 0 or was sent \<open>SIGKILL\<close>, and every descriptor is closed.\<close>

definition ended_or_killed :: "run_event list \<Rightarrow> bool" where
  "ended_or_killed es \<longleftrightarrow> (\<forall>pid wk pipe. Rv_spawned pid wk pipe \<in> set es \<longrightarrow>
     Rv_signal pid RUN_SIGKILL \<in> set es \<or> (\<exists>status. exited_0 status \<and> Rv_ended pid status \<in> set es))"

lemma end_worker_frame:
  "\<exists>fs. run_frame w (end_worker os pid w) fs \<and> (\<forall>e \<in> set fs. harmless e) \<and> (0 < pid \<longrightarrow> Rv_signal pid RUN_SIGKILL \<in> set fs)"
  by (cases "ro_waitpid os (snd (rkill os pid RUN_SIGKILL (snd (rkill os pid RUN_SIGCONT w)))) pid False")
    (auto simp: end_worker_def Let_def rkill_def run_frame_def)

lemma close_if_open_simps [simp]:
  "rw_events (close_if_open fd w) = rw_events w" "rw_open (close_if_open fd w) = rw_open w - of_bool (0 \<le> fd)"
  by (simp_all add: close_if_open_def)

lemma run_fail_tidy:
  assumes "tidy es0 n0 st w"
  shows "rw_open (run_fail os st w) = n0 \<and> (\<exists>es. rw_events (run_fail os st w) = es0 @ es \<and> ended_or_killed es \<and> makes_no_dir es)"
proof -
  let ?w1 = "end_worker os (rs_victim_pid st) w"
  let ?w2 = "end_worker os (rs_high_pid st) ?w1"
  let ?w3 = "end_worker os (rs_low_pid st) ?w2"
  from assms obtain es where es: "rw_events w = es0 @ es" "accounted st es" "rw_open w = n0 + open_fds st" by (auto simp: tidy_alt)
  from end_worker_frame [of w os "rs_victim_pid st"] obtain f1 where f1: "run_frame w ?w1 f1" "\<forall>e \<in> set f1. harmless e"
    "0 < rs_victim_pid st \<longrightarrow> Rv_signal (rs_victim_pid st) RUN_SIGKILL \<in> set f1" by blast
  from end_worker_frame [of ?w1 os "rs_high_pid st"] obtain f2 where f2: "run_frame ?w1 ?w2 f2" "\<forall>e \<in> set f2. harmless e"
    "0 < rs_high_pid st \<longrightarrow> Rv_signal (rs_high_pid st) RUN_SIGKILL \<in> set f2" by blast
  from end_worker_frame [of ?w2 os "rs_low_pid st"] obtain f3 where f3: "run_frame ?w2 ?w3 f3" "\<forall>e \<in> set f3. harmless e"
    "0 < rs_low_pid st \<longrightarrow> Rv_signal (rs_low_pid st) RUN_SIGKILL \<in> set f3" by blast
  from run_frame_append [OF run_frame_append [OF f1(1) f2(1)] f3(1)] have fr: "run_frame w ?w3 (f1 @ f2 @ f3)" by simp
  have "rw_events (run_fail os st w) = es0 @ (es @ f1 @ f2 @ f3)" "rw_open (run_fail os st w) = n0"
    using fr es by (simp_all add: run_fail_def Let_def run_frame_def open_fds_def)
  moreover have "ended_or_killed (es @ f1 @ f2 @ f3)"
    unfolding ended_or_killed_def
  proof (intro allI impI)
    fix pid wk pipe
    assume "Rv_spawned pid wk pipe \<in> set (es @ f1 @ f2 @ f3)"
    with f1(2) f2(2) f3(2) have "Rv_spawned pid wk pipe \<in> set es" by fastforce
    with es(2) have "0 < pid" "pid \<in> {rs_victim_pid st, rs_high_pid st, rs_low_pid st} \<or> (\<exists>status. exited_0 status \<and> Rv_ended pid status \<in> set es)"
      unfolding accounted_def by blast+
    then show "Rv_signal pid RUN_SIGKILL \<in> set (es @ f1 @ f2 @ f3) \<or> (\<exists>s. exited_0 s \<and> Rv_ended pid s \<in> set (es @ f1 @ f2 @ f3))"
      using f1(3) f2(3) f3(3) by auto
  qed
  moreover have "makes_no_dir (es @ f1 @ f2 @ f3)"
    using es(2) harmless_no_dir [OF f1(2)] harmless_no_dir [OF f2(2)] harmless_no_dir [OF f3(2)] by (simp add: accounted_def)
  ultimately show ?thesis by blast
qed

lemma run_condition_failed:
  assumes "run_condition os decode n condition cfg cgroups root_v roots_h roots_l w = Some (None, w')"
  shows "rw_open w' = rw_open w \<and> (\<exists>es. rw_events w' = rw_events w @ es \<and> ended_or_killed es \<and> makes_no_dir es)"
proof (cases "cc_ready cgroups")
  case False
  with assms show ?thesis by (simp add: run_condition_def ended_or_killed_def)
next
  case True
  define st where "st = \<lparr>rs_victim_pid = - 1, rs_high_pid = - 1, rs_low_pid = - 1, rs_victim_fd = - 1, rs_high_fd = - 1, rs_low_fd = - 1,
    rs_out = \<lparr>cr_victim = worker_result_zero, cr_high = worker_result_zero, cr_low = worker_result_zero,
      cr_has_background = (condition \<noteq> CONDITION_NONE)\<rparr>\<rparr>"
  from assms True obtain st1 w1 where
    p: "run_phases os decode n condition cfg cgroups root_v roots_h roots_l st w = Some (False, st1, w1)" and w': "w' = run_fail os st1 w1"
    by (auto simp: run_condition_def Let_def st_def split: bind_splits if_splits)
  have "tidy (rw_events w) (rw_open w) st w \<and> shape False False False st" by (simp add: st_def tidy_def shape_def accounted_def)
  with run_phases_tidy [unfolded phase_spec_def] p have "tidy (rw_events w) (rw_open w) st1 w1" by metis
  from run_fail_tidy [OF this] show ?thesis unfolding w' by blast
qed

lemma run_condition_measured:
  assumes "run_condition os decode n condition cfg cgroups root_v roots_h roots_l w = Some (Some out, w')"
  shows "rw_open w' = rw_open w \<and> cr_has_background out = (condition \<noteq> CONDITION_NONE) \<and>
    (\<exists>v h l. outcome_ok n v \<and> outcome_ok n h \<and> outcome_ok n l \<and>
       rw_events w' = rw_events w @ condition_script condition cfg cgroups root_v roots_h roots_l v h l \<and>
       cr_victim out = decode (delivered v) \<and>
       (condition \<noteq> CONDITION_NONE \<longrightarrow> cr_high out = decode (delivered h) \<and> cr_low out = decode (delivered l)))"
proof -
  from assms obtain st1 where
    "run_phases os decode n condition cfg cgroups root_v roots_h roots_l
       \<lparr>rs_victim_pid = - 1, rs_high_pid = - 1, rs_low_pid = - 1, rs_victim_fd = - 1, rs_high_fd = - 1, rs_low_fd = - 1,
        rs_out = \<lparr>cr_victim = worker_result_zero, cr_high = worker_result_zero, cr_low = worker_result_zero,
          cr_has_background = (condition \<noteq> CONDITION_NONE)\<rparr>\<rparr> w = Some (True, st1, w')" "out = rs_out st1"
    by (auto simp: run_condition_def Let_def split: bind_splits if_splits)
  from run_phases_script [OF this(1) refl] this(2) obtain v h l where r: "rw_open w' = rw_open w" "outcome_ok n v" "outcome_ok n h" "outcome_ok n l"
    "rw_events w' = rw_events w @ condition_script condition cfg cgroups root_v roots_h roots_l v h l"
    "cr_victim out = decode (delivered v)" "cr_has_background out = (condition \<noteq> CONDITION_NONE)"
    "condition \<noteq> CONDITION_NONE \<longrightarrow> cr_high out = decode (delivered h) \<and> cr_low out = decode (delivered l)"
    by (cases "condition = CONDITION_NONE") auto
  then show ?thesis by blast
qed

subsection \<open>Returning\<close>

definition returns :: "'a option \<Rightarrow> bool" where
  "returns x \<longleftrightarrow> x \<noteq> None"

lemma returns_simps [simp]: "returns (Some x)" "\<not> returns None"
  by (simp_all add: returns_def)

lemma returns_bind: "returns m \<Longrightarrow> (\<And>y. returns (f y)) \<Longrightarrow> returns (m \<bind> f)"
  by (auto simp: returns_def split: bind_splits)

text \<open>A call repeated after \<open>EINTR\<close> is some time answered otherwise.\<close>

definition interruptions_end :: "run_os \<Rightarrow> bool" where
  "interruptions_end os \<longleftrightarrow>
     (\<forall>w fd n. \<exists>k. ro_write os ((rtick ^^ k) w) fd n \<noteq> Inl EINTR) \<and>
     (\<forall>w fd n. \<exists>k. ro_read os ((rtick ^^ k) w) fd n \<noteq> Inl EINTR) \<and>
     (\<forall>w pid u. \<exists>k. ro_waitpid os ((rtick ^^ k) w) pid u \<noteq> Inl EINTR)"

text \<open>A loop that goes on with the next state after \<open>EINTR\<close> returns if it returns from every state without it.\<close>

lemma returns_after_interrupts:
  assumes step: "\<And>w. call w = Inl EINTR \<Longrightarrow> loop w = loop (rtick w)" and stop: "\<And>w. call w \<noteq> Inl EINTR \<Longrightarrow> returns (loop w)"
    and "call ((rtick ^^ k) w) \<noteq> Inl EINTR"
  shows "returns (loop w)"
  using assms(3)
proof (induction k arbitrary: w)
  case (Suc k)
  have "returns (loop (rtick w))" using Suc.prems by (intro Suc.IH) (simp add: funpow_swap1)
  then show ?case using step [of w] stop [of w] by (cases "call w = Inl EINTR") simp_all
qed (use stop in simp)

lemma wait_until_stopped_returns: "interruptions_end os \<Longrightarrow> returns (wait_until_stopped os pid w)"
proof -
  assume "interruptions_end os"
  then obtain k where "ro_waitpid os ((rtick ^^ k) w) pid True \<noteq> Inl EINTR" unfolding interruptions_end_def by meson
  then show ?thesis
    by (rule returns_after_interrupts [where call = "\<lambda>w. ro_waitpid os w pid True", rotated 2])
      (subst wait_until_stopped.simps, auto split: sum.splits)+
qed

lemma wait_success_returns: "interruptions_end os \<Longrightarrow> returns (wait_success os pid w)"
proof -
  assume "interruptions_end os"
  then obtain k where "ro_waitpid os ((rtick ^^ k) w) pid False \<noteq> Inl EINTR" unfolding interruptions_end_def by meson
  then show ?thesis
    by (rule returns_after_interrupts [where call = "\<lambda>w. ro_waitpid os w pid False", rotated 2])
      (subst wait_success.simps, auto split: sum.splits)+
qed

lemma write_full_returns:
  assumes "interruptions_end os"
  shows "returns (write_full os fd sent buffer w)"
proof (induction "length buffer" arbitrary: sent buffer w rule: less_induct)
  case less
  show ?case
  proof (cases "buffer = []")
    case True
    then show ?thesis by (subst write_full.simps) simp
  next
    case False
    have shorter: "returns (write_full os fd sent' (drop n buffer) w')" if "n \<noteq> 0" for sent' n w'
      using that False by (intro less) simp
    obtain k where "ro_write os ((rtick ^^ k) w) fd (length buffer) \<noteq> Inl EINTR" using assms unfolding interruptions_end_def by meson
    then show ?thesis
      by (rule returns_after_interrupts [where call = "\<lambda>w. ro_write os w fd (length buffer)", rotated 2])
        (subst write_full.simps, use False shorter in \<open>auto split: sum.splits\<close>)+
  qed
qed

lemma read_full_returns:
  assumes "interruptions_end os"
  shows "returns (read_full os fd got bytes w)"
proof (induction bytes arbitrary: got w rule: less_induct)
  case (less bytes)
  show ?case
  proof (cases "bytes = 0")
    case True
    then show ?thesis by (subst read_full.simps) simp
  next
    case False
    have shorter: "returns (read_full os fd got' (bytes - length chunk) w')" if "chunk \<noteq> []" for got' chunk w'
      using that False by (intro less) simp
    obtain k where "ro_read os ((rtick ^^ k) w) fd bytes \<noteq> Inl EINTR" using assms unfolding interruptions_end_def by meson
    then show ?thesis
      by (rule returns_after_interrupts [where call = "\<lambda>w. ro_read os w fd bytes", rotated 2])
        (subst read_full.simps, use False shorter in \<open>auto split: sum.splits\<close>)+
  qed
qed

lemma write_text_path_returns: "interruptions_end os \<Longrightarrow> returns (write_text_path os path text w)"
  by (auto simp: write_text_path_def Let_def intro!: returns_bind write_full_returns)

lemma cgroup_write_file_returns: "interruptions_end os \<Longrightarrow> returns (cgroup_write_file os dir name text w)"
  by (auto simp: cgroup_write_file_def Let_def write_text_path_returns)

lemma control_returns:
  "interruptions_end os \<Longrightarrow> returns (oracle_set_cpu_max os dir throttled quota period w)"
  "interruptions_end os \<Longrightarrow> returns (oracle_move_pid os dir pid w)"
  by (auto simp: oracle_set_cpu_max_def oracle_move_pid_def Let_def cgroup_write_file_returns)

definition phase_returns :: "run_phase \<Rightarrow> bool" where
  "phase_returns p \<longleftrightarrow> (\<forall>st w. returns (p st w))"

lemma phase_returns_combine [intro]:
  "phase_returns p \<Longrightarrow> phase_returns q \<Longrightarrow> phase_returns (and_then p q)"
  "phase_returns p \<Longrightarrow> phase_returns (in_background b p)"
  by (auto simp: phase_returns_def and_then_def in_background_def intro!: returns_bind)

lemma phases_return:
  assumes "interruptions_end os"
  shows "phase_returns (set_limits os condition cfg cgroups)" "phase_returns (start_victim os cfg r)"
    "phase_returns (start_high os cfg rs)" "phase_returns (start_low os cfg rs)" "phase_returns (move_workers os cgroups)"
    "phase_returns (continue_background os)" "phase_returns (continue_victim os)" "phase_returns (wait_victim os)"
    "phase_returns (wait_high os)" "phase_returns (wait_low os)" "phase_returns (read_victim os decode n)"
    "phase_returns (read_background os decode n)"
  unfolding phase_returns_def set_limits_def start_victim_def start_high_def start_low_def move_workers_def continue_background_def
    continue_victim_def wait_victim_def wait_high_def wait_low_def read_victim_def read_background_def
  using control_returns [OF assms] wait_until_stopped_returns [OF assms] wait_success_returns [OF assms] read_full_returns [OF assms]
  by (auto simp: Let_def split: prod.split option.split intro!: returns_bind)

lemma run_condition_total:
  assumes "interruptions_end os"
  shows "returns (run_condition os decode n condition cfg cgroups root_v roots_h roots_l w)"
proof -
  have "phase_returns (run_phases os decode n condition cfg cgroups root_v roots_h roots_l)"
    unfolding run_phases_def Let_def using phases_return [OF assms] by (intro phase_returns_combine) simp_all
  then show ?thesis by (auto simp: run_condition_def phase_returns_def Let_def intro!: returns_bind)
qed

end
