(* ===== verification/Oracle_Program_Correct.thy ===== *)
theory Oracle_Program_Correct
  imports Oracle_Program Oracle_Run_Correct Calibration_Correct
begin

unbundle bit_operations_syntax

text \<open>
  The command line and the whole program of the selective-control experiment: accepted configurations are valid, the order of the conditions is
  read exactly, the control groups are removed again, the conditions are measured one after the other, and no outcome leaves a
  worker, a descriptor or a directory behind.
\<close>


subsection \<open>Command line\<close>

definition config_valid :: "config \<Rightarrow> bool" where
  "config_valid cfg \<longleftrightarrow>
     0 < cf_pool_mib cfg \<and> 0 < cf_workset_mib cfg \<and> 0 < cf_group_classes cfg \<and> 0 < cf_seconds cfg \<and>
     0 < cf_throttle_quota_us cfg \<and> 0 < cf_throttle_period_us cfg \<and> distinct (cf_order cfg) \<and> length (cf_order cfg) = CONDITION_COUNT"

definition cpus_distinct :: "config \<Rightarrow> bool" where
  "cpus_distinct cfg \<longleftrightarrow> distinct [cf_victim_cpu cfg, cf_high_aggressor_cpu cfg, cf_low_aggressor_cpu cfg]"


lemma order_loop_distinct: "order_loop tokens order = Some order' \<Longrightarrow> distinct order \<Longrightarrow> distinct order'"
  by (induction tokens order rule: order_loop.induct) (auto split: if_splits option.splits)

lemma parse_order_valid: "parse_order text = Some order \<Longrightarrow> distinct order \<and> length order = CONDITION_COUNT"
  using order_loop_distinct [of "strtok_tokens CHR '','' text" "[]"] by (auto simp: parse_order_def split: if_splits option.splits)

lemma nonzero_Some: "nonzero v = Some x \<longleftrightarrow> v = Some x \<and> x \<noteq> 0"
  by (auto simp: nonzero_def split: option.splits)

lemma set_option_valid: "set_option arg text cfg = Some cfg' \<Longrightarrow> config_valid cfg \<Longrightarrow> config_valid cfg'"
  unfolding set_option_def
  by (auto simp: config_valid_def nonzero_Some word_neq_0_conv parse_order_valid split: if_splits)

lemma parse_options_valid: "parse_options args cfg = ARGS_OK cfg' \<Longrightarrow> config_valid cfg \<Longrightarrow> config_valid cfg'"
  by (induction args cfg rule: parse_options.induct) (auto split: if_splits list.splits option.splits dest: set_option_valid)

lemma config_default_valid: "config_valid config_default" "config_valid (config_self_test config_default)"
  by (simp_all add: config_valid_def config_default_def config_self_test_def CONDITION_COUNT_def)

lemma parse_args_valid:
  assumes "parse_args argv = ARGS_OK cfg"
  shows "config_valid cfg" "cpus_distinct cfg" "cf_throttle_quota_us cfg \<le> cf_throttle_period_us cfg"
proof -
  from assms obtain cfg0 where "parse_options argv cfg0 = ARGS_OK cfg" "config_valid cfg0"
    using config_default_valid by (auto simp: parse_args_def Let_def split: args_result.splits if_splits)
  then show "config_valid cfg" by (rule parse_options_valid)
  show "cpus_distinct cfg" "cf_throttle_quota_us cfg \<le> cf_throttle_period_us cfg"
    using assms by (auto simp: parse_args_def Let_def cpus_distinct_def not_less split: args_result.splits if_splits)
qed

lemma condition_from_name_iff: "condition_from_name token = Some c \<longleftrightarrow> token = condition_name c"
  by (cases c) (auto simp: condition_from_name_def)

lemma order_loop_exact:
  assumes "distinct order" "length order \<le> CONDITION_COUNT"
  shows "order_loop tokens order = Some order' \<longleftrightarrow>
    (\<exists>cs. tokens = map condition_name cs \<and> order' = order @ cs \<and> distinct order' \<and> length order' \<le> CONDITION_COUNT)"
  using assms
proof (induction tokens order rule: order_loop.induct)
  case (2 token tokens order)
  show ?case
  proof (cases "condition_from_name token")
    case None
    then have "\<And>c. token \<noteq> condition_name c" by (metis condition_from_name_iff option.distinct(1))
    with None show ?thesis by (auto simp: map_eq_Cons_conv)
  next
    case (Some c)
    then have token: "token = condition_name c" and inj: "\<And>d. condition_name c = condition_name d \<longleftrightarrow> c = d"
      by (metis condition_from_name_iff option.inject)+
    show ?thesis
    proof (cases "CONDITION_COUNT \<le> length order \<or> c \<in> set order")
      case True
      with Some token inj show ?thesis by (auto simp: Cons_eq_map_conv)
    next
      case False
      with 2 Some have IH: "order_loop tokens (order @ [c]) = Some order' \<longleftrightarrow>
        (\<exists>cs. tokens = map condition_name cs \<and> order' = (order @ [c]) @ cs \<and> distinct order' \<and> length order' \<le> CONDITION_COUNT)" by auto
      show ?thesis
      proof
        assume "order_loop (token # tokens) order = Some order'"
        with False Some IH obtain cs where "tokens = map condition_name cs" "order' = order @ c # cs" "distinct order'" "length order' \<le> CONDITION_COUNT"
          by auto
        with token show "\<exists>cs. token # tokens = map condition_name cs \<and> order' = order @ cs \<and> distinct order' \<and> length order' \<le> CONDITION_COUNT"
          by (intro exI [of _ "c # cs"]) simp
      next
        assume "\<exists>cs. token # tokens = map condition_name cs \<and> order' = order @ cs \<and> distinct order' \<and> length order' \<le> CONDITION_COUNT"
        then obtain cs where "tokens = map condition_name cs" "order' = order @ c # cs" "distinct order'" "length order' \<le> CONDITION_COUNT"
          using token inj by (auto simp: Cons_eq_map_conv)
        with IH have "order_loop tokens (order @ [c]) = Some order'" by auto
        with False Some show "order_loop (token # tokens) order = Some order'" by simp
      qed
    qed
  qed
qed auto

lemma parse_order_iff:
  "parse_order text = Some order \<longleftrightarrow>
   length text < 128 \<and> strtok_tokens CHR '','' text = map condition_name order \<and> distinct order \<and> length order = CONDITION_COUNT"
proof -
  have "parse_order text = Some order \<longleftrightarrow>
      length text < 128 \<and> order_loop (strtok_tokens CHR '','' text) [] = Some order \<and> length order = CONDITION_COUNT"
    by (auto simp: parse_order_def split: option.splits)
  then show ?thesis using order_loop_exact [of "[]" "strtok_tokens CHR '','' text" order] by auto
qed

text \<open>The text of an order as the user writes it.\<close>

fun order_text :: "condition list \<Rightarrow> string" where
  "order_text [] = []"
| "order_text [c] = condition_name c"
| "order_text (c # d # cs) = condition_name c @ CHR '','' # order_text (d # cs)"

lemma condition_name_plain: "condition_name c \<noteq> []" "CHR '','' \<notin> set (condition_name c)" "length (condition_name c) \<le> 12"
  by (cases c; simp)+

lemma strtok_tokens_sep: "strtok_tokens sep (sep # s) = strtok_tokens sep s"
  by (subst (1 2) strtok_tokens.simps) simp

lemma strtok_tokens_Cons:
  assumes "t \<noteq> []" "sep \<notin> set t"
  shows "strtok_tokens sep (t @ sep # s) = t # strtok_tokens sep s" "strtok_tokens sep t = [t]"
proof -
  have hd: "hd t \<noteq> sep" using assms by (metis hd_in_set)
  then have dw: "dropWhile (\<lambda>c. c = sep) (t @ u) = t @ u" for u using assms(1) by (cases t) auto
  have all: "\<And>c. c \<in> set t \<Longrightarrow> c \<noteq> sep" using assms(2) by blast
  show "strtok_tokens sep (t @ sep # s) = t # strtok_tokens sep s"
    using dw [of "sep # s"] assms(1) all
    by (subst strtok_tokens.simps) (simp add: Let_def takeWhile_append2 dropWhile_append2 strtok_tokens_sep)
  show "strtok_tokens sep t = [t]"
  proof -
    have tw: "takeWhile (\<lambda>c. c \<noteq> sep) t = t" "dropWhile (\<lambda>c. c \<noteq> sep) t = []" using all by simp_all
    show ?thesis
      using dw [of "[]"] assms(1) by (subst strtok_tokens.simps) (simp add: Let_def tw strtok_tokens.simps [of sep "[]"])
  qed
qed

lemma strtok_order_text: "strtok_tokens CHR '','' (order_text order) = map condition_name order"
  by (induction order rule: order_text.induct)
    (simp_all add: strtok_tokens_Cons condition_name_plain strtok_tokens.simps [of _ "[]"])

lemma length_order_text: "length (order_text order) \<le> 13 * length order"
proof (induction order rule: order_text.induct)
  case (2 c)
  show ?case using condition_name_plain(3) [of c] by simp
next
  case (3 c d cs)
  then show ?case using condition_name_plain(3) [of c] by simp
qed simp

lemma parse_order_text: "distinct order \<Longrightarrow> length order = CONDITION_COUNT \<Longrightarrow> parse_order (order_text order) = Some order"
  using length_order_text [of order] by (simp add: parse_order_iff strtok_order_text CONDITION_COUNT_def)

subsection \<open>Control groups of the run\<close>

text \<open>Every directory that was made is removed at the end, when nothing but removals follows, unless the system refuses to remove it.\<close>

definition dirs_removed :: "run_os \<Rightarrow> run_event list \<Rightarrow> bool" where
  "dirs_removed os es \<longleftrightarrow> (\<forall>path. Rv_mkdir path \<in> set es \<longrightarrow>
     (\<exists>xs removed ys. es = xs @ Rv_rmdir path removed # ys \<and> Rv_mkdir path \<in> set xs \<and> (\<forall>e \<in> set ys. \<exists>p b. e = Rv_rmdir p b) \<and>
        (removed \<or> (\<exists>v. \<not> ro_rmdir os v path))))"

definition context_events :: "cgroup_context \<Rightarrow> run_event list" where
  "context_events ctx = [Rv_mkdir (cc_run_path ctx), Rv_wrote (cc_run_path ctx @ ''/cgroup.subtree_control'') (''+cpu'' @ [CHR 0x0A]),
     Rv_mkdir (cc_high_path ctx), Rv_mkdir (cc_low_path ctx)]"

definition cleanup_events :: "run_os \<Rightarrow> cgroup_context \<Rightarrow> run_event list \<Rightarrow> bool" where
  "cleanup_events os ctx es \<longleftrightarrow>
     (\<exists>u v w. es = [Rv_rmdir (cc_high_path ctx) (ro_rmdir os u (cc_high_path ctx)), Rv_rmdir (cc_low_path ctx) (ro_rmdir os v (cc_low_path ctx)),
        Rv_rmdir (cc_run_path ctx) (ro_rmdir os w (cc_run_path ctx))])"

lemma cleanup_removes:
  assumes "cleanup_events os ctx cl" "\<And>path. Rv_mkdir path \<in> set es \<Longrightarrow> path \<in> {cc_run_path ctx, cc_high_path ctx, cc_low_path ctx}"
  shows "dirs_removed os (es @ cl)"
  unfolding dirs_removed_def
proof (intro allI impI)
  fix path
  assume m: "Rv_mkdir path \<in> set (es @ cl)"
  from assms(1) obtain u v w where cl: "cl = [Rv_rmdir (cc_high_path ctx) (ro_rmdir os u (cc_high_path ctx)),
    Rv_rmdir (cc_low_path ctx) (ro_rmdir os v (cc_low_path ctx)), Rv_rmdir (cc_run_path ctx) (ro_rmdir os w (cc_run_path ctx))]"
    by (auto simp: cleanup_events_def)
  with m have es: "Rv_mkdir path \<in> set es" by auto
  define h where "h = Rv_rmdir (cc_high_path ctx) (ro_rmdir os u (cc_high_path ctx))"
  define l where "l = Rv_rmdir (cc_low_path ctx) (ro_rmdir os v (cc_low_path ctx))"
  define r where "r = Rv_rmdir (cc_run_path ctx) (ro_rmdir os w (cc_run_path ctx))"
  have split: "es @ cl = es @ h # [l, r]" "es @ cl = (es @ [h]) @ l # [r]" "es @ cl = (es @ [h, l]) @ r # []"
    by (simp_all add: cl h_def l_def r_def)
  have rm: "\<forall>e \<in> set [l, r]. \<exists>p b. e = Rv_rmdir p b" "\<forall>e \<in> set [r]. \<exists>p b. e = Rv_rmdir p b" by (simp_all add: l_def r_def)
  from es assms(2) consider "path = cc_high_path ctx" | "path = cc_low_path ctx" | "path = cc_run_path ctx" by blast
  then show "\<exists>xs removed ys. es @ cl = xs @ Rv_rmdir path removed # ys \<and> Rv_mkdir path \<in> set xs \<and> (\<forall>e \<in> set ys. \<exists>p b. e = Rv_rmdir p b) \<and>
      (removed \<or> (\<exists>v. \<not> ro_rmdir os v path))"
  proof cases
    case 1
    show ?thesis using split(1) es rm(1) unfolding h_def 1 [symmetric] by blast
  next
    case 2
    have "Rv_mkdir path \<in> set (es @ [h])" using es by simp
    then show ?thesis using split(2) rm(2) unfolding l_def 2 [symmetric] by blast
  next
    case 3
    have "Rv_mkdir path \<in> set (es @ [h, l])" "\<forall>e \<in> set []. \<exists>p b. e = Rv_rmdir p b" using es by simp_all
    then show ?thesis using split(3) unfolding r_def 3 [symmetric] by blast
  qed
qed

lemma read_text_file_frame: "read_text_file os path n w = (r, w') \<Longrightarrow> run_frame w w' []"
  by (auto simp: read_text_file_def Let_def run_frame_def split: if_splits)

lemma cgroup_write_file_frame:
  "cgroup_write_file os dir name t w = Some (ok, w') \<Longrightarrow> run_frame w w' (if ok then [Rv_wrote (dir @ ''/'' @ name) t] else [])"
  using write_text_path_frame [of os "dir @ ''/'' @ name" t w ok w'] by (auto simp: cgroup_write_file_def Let_def split: if_splits)

lemma rmkdir_frame: "rmkdir os path w = (ok, w') \<Longrightarrow> run_frame w w' (if ok then [Rv_mkdir path] else [])"
  by (auto simp: rmkdir_def run_frame_def split: if_splits)

lemma cgroup_context_destroy_frame:
  "\<exists>cl. run_frame w (snd (cgroup_context_destroy os ctx w)) cl \<and> (if cc_ready ctx then cleanup_events os ctx cl else cl = [])"
  by (auto simp: cgroup_context_destroy_def rrmdir_def cleanup_events_def run_frame_def)

text \<open>What the part after the first directory adds, as far as it got.\<close>

lemma cgroup_context_fill_frame:
  assumes "cgroup_context_fill os ctx w = Some (ok, w')"
  shows "\<exists>k. run_frame w w' (take k (tl (context_events ctx))) \<and> (ok \<longrightarrow> k = 3)"
proof (cases "PATH_MAX \<le> length (cc_run_path ctx @ ''/cgroup.controllers'')")
  case True
  with assms show ?thesis by (intro exI [of _ 0]) (simp add: cgroup_context_fill_def)
next
  case False
  obtain r w1 where r: "read_text_file os (cc_run_path ctx @ ''/cgroup.controllers'') 4096 w = (r, w1)" by (rule prod.exhaust)
  note f1 = read_text_file_frame [OF r]
  show ?thesis
  proof (cases "r = None \<or> \<not> whitespace_word_present (the r) ''cpu''")
    case True
    with assms r False f1 show ?thesis by (intro exI [of _ 0]) (auto simp: cgroup_context_fill_def split: option.splits)
  next
    case has: False
    let ?text = "''+cpu'' @ [CHR 0x0A]"
    from assms False r has obtain ok2 w2 where w2: "cgroup_write_file os (cc_run_path ctx) ''cgroup.subtree_control'' ?text w1 = Some (ok2, w2)"
      by (auto simp: cgroup_context_fill_def split: bind_splits option.splits)
    obtain ok3 w3 where w3: "rmkdir os (cc_high_path ctx) w2 = (ok3, w3)" by (rule prod.exhaust)
    obtain ok4 w4 where w4: "rmkdir os (cc_low_path ctx) w3 = (ok4, w4)" by (rule prod.exhaust)
    have eq: "ok = (ok2 \<and> ok3 \<and> ok4)" "w' = (if \<not> ok2 then w2 else if \<not> ok3 then w3 else w4)"
      using assms False r has w2 w3 w4 by (auto simp: cgroup_context_fill_def split: if_splits option.splits)
    note f = cgroup_write_file_frame [OF w2] rmkdir_frame [OF w3] rmkdir_frame [OF w4]
    show ?thesis
      using f f1 by (intro exI [of _ "if ok2 then if ok3 then if ok4 then 3 else 2 else 1 else 0"])
        (auto simp: eq run_frame_def context_events_def)
  qed
qed

lemma cgroup_context_create_cases:
  assumes "cgroup_context_create os w = Some (ok, ctx, w')"
  shows "if ok then cc_ready ctx \<and> cc_high_path ctx = cc_run_path ctx @ ''/high'' \<and> cc_low_path ctx = cc_run_path ctx @ ''/low'' \<and>
      run_frame w w' (context_events ctx)
    else \<not> cc_ready ctx \<and> (\<exists>es. run_frame w w' es \<and> dirs_removed os es \<and> (\<forall>pid wk pipe. Rv_spawned pid wk pipe \<notin> set es))"
proof -
  obtain r w1 where r: "read_text_file os ''/sys/fs/cgroup/cgroup.subtree_control'' 4096 w = (r, w1)" by (rule prod.exhaust)
  note f1 = read_text_file_frame [OF r]
  define ctx1 where "ctx1 = \<lparr>cc_ready = True, cc_run_path = ''/sys/fs/cgroup/oracle_6_5d_'' @ show_int (ro_getpid os),
    cc_high_path = ''/sys/fs/cgroup/oracle_6_5d_'' @ show_int (ro_getpid os) @ ''/high'',
    cc_low_path = ''/sys/fs/cgroup/oracle_6_5d_'' @ show_int (ro_getpid os) @ ''/low''\<rparr>"
  obtain ok2 w2 where w2: "rmkdir os (cc_run_path ctx1) w1 = (ok2, w2)" by (rule prod.exhaust)
  note f2 = rmkdir_frame [OF w2]
  consider "\<not> ok" "\<not> cc_ready ctx" "w' = w1" | "\<not> ok" "\<not> cc_ready ctx" "w' = w2" "\<not> ok2"
    | "ok2" "ok" "ctx = ctx1" "cgroup_context_fill os ctx1 w2 = Some (True, w')"
    | w3 where "ok2" "\<not> ok" "\<not> cc_ready ctx" "cgroup_context_fill os ctx1 w2 = Some (False, w3)" "w' = snd (cgroup_context_destroy os ctx1 w3)"
    using assms r w2
    by (auto simp: cgroup_context_create_def ctx1_def cgroup_context_zero_def cgroup_context_destroy_def Let_def
        split: option.splits if_splits bind_splits)
  then show ?thesis
  proof cases
    case 1
    with f1 show ?thesis by (auto simp: dirs_removed_def intro: exI [of _ "[]"])
  next
    case 2
    with f1 f2 run_frame_append [OF f1 f2] show ?thesis by (auto simp: dirs_removed_def intro: exI [of _ "[]"])
  next
    case 3
    from cgroup_context_fill_frame [OF 3(4)] have "run_frame w2 w' (tl (context_events ctx1))" by (auto simp: context_events_def)
    from run_frame_append [OF run_frame_append [OF f1 f2] this] 3 show ?thesis by (auto simp: ctx1_def context_events_def)
  next
    case 4
    from cgroup_context_fill_frame [OF 4(4)] obtain k where k: "run_frame w2 w3 (take k (tl (context_events ctx1)))" by blast
    from cgroup_context_destroy_frame [of w3 os ctx1] obtain cl where cl: "run_frame w3 w' cl" "cleanup_events os ctx1 cl"
      using 4(5) by (auto simp: ctx1_def)
    let ?es = "Rv_mkdir (cc_run_path ctx1) # take k (tl (context_events ctx1))"
    from run_frame_append [OF run_frame_append [OF run_frame_append [OF f1 f2] k] cl(1)] 4(1) have "run_frame w w' (?es @ cl)" by simp
    moreover have e: "e \<in> set (tl (context_events ctx1))" if "e \<in> set (take k (tl (context_events ctx1)))" for e using that by (rule in_set_takeD)
    have "dirs_removed os (?es @ cl)" by (rule cleanup_removes [OF cl(2)]) (use e in \<open>fastforce simp: context_events_def\<close>)
    moreover have "\<forall>pid wk pipe. Rv_spawned pid wk pipe \<notin> set (?es @ cl)"
      using cl(2) e by (fastforce simp: context_events_def cleanup_events_def)
    ultimately show ?thesis using 4 by (simp; blast)
  qed
qed

subsection \<open>The conditions\<close>

lemma ended_or_killed_append: "ended_or_killed es \<Longrightarrow> ended_or_killed fs \<Longrightarrow> ended_or_killed (es @ fs)"
  unfolding ended_or_killed_def by fastforce

lemma ended_or_killed_no_spawn: "\<forall>pid wk pipe. Rv_spawned pid wk pipe \<notin> set es \<Longrightarrow> ended_or_killed es"
  by (simp add: ended_or_killed_def)

text \<open>A condition was measured: the events are its script, and the stored result is what the pipes of its workers delivered.\<close>

definition measured ::
  "nat \<Rightarrow> (u8 list \<Rightarrow> worker_result) \<Rightarrow> config \<Rightarrow> cgroup_context \<Rightarrow> oracle_setup \<Rightarrow> (condition \<Rightarrow> condition_result option) \<Rightarrow> condition \<Rightarrow>
   run_event list \<Rightarrow> bool" where
  "measured n decode cfg ctx s results condition es \<longleftrightarrow>
     (\<exists>v h l r. outcome_ok n v \<and> outcome_ok n h \<and> outcome_ok n l \<and>
        es = condition_script condition cfg ctx (ex_victim_root s) (ex_high_roots s) (ex_low_roots s) v h l \<and>
        results condition = Some r \<and> cr_has_background r = (condition \<noteq> CONDITION_NONE) \<and> cr_victim r = decode (delivered v) \<and>
        (condition \<noteq> CONDITION_NONE \<longrightarrow> cr_high r = decode (delivered h) \<and> cr_low r = decode (delivered l)))"

lemma measuredI:
  assumes "outcome_ok n v" "outcome_ok n h" "outcome_ok n l"
    "es = condition_script condition cfg ctx (ex_victim_root s) (ex_high_roots s) (ex_low_roots s) v h l"
    "cr_has_background r = (condition \<noteq> CONDITION_NONE)" "cr_victim r = decode (delivered v)"
    "condition \<noteq> CONDITION_NONE \<longrightarrow> cr_high r = decode (delivered h) \<and> cr_low r = decode (delivered l)" "results condition = Some r"
  shows "measured n decode cfg ctx s results condition es"
  using assms unfolding measured_def by blast

lemma measured_tidy: "measured n decode cfg ctx s results condition es \<Longrightarrow> ended_or_killed es \<and> makes_no_dir es"
  unfolding measured_def condition_script_def limit_events_def move_events_def read_events_def outcome_ok_def
  by (auto simp: ended_or_killed_def makes_no_dir_def split: if_splits)

lemma run_conditions_events:
  assumes "run_conditions os decode n cfg ctx s conditions results w = Some (r, w')"
  shows "rw_open w' = rw_open w \<and> (\<exists>es. rw_events w' = rw_events w @ es \<and> ended_or_killed es \<and> makes_no_dir es \<and>
    (\<forall>res. r = Some res \<longrightarrow> dom res = dom results \<union> set conditions \<and> (\<forall>c. c \<notin> set conditions \<longrightarrow> res c = results c) \<and>
       (distinct conditions \<longrightarrow> (\<exists>scripts. list_all2 (measured n decode cfg ctx s res) conditions scripts \<and> es = concat scripts))))"
  using assms
proof (induction conditions arbitrary: results w)
  case Nil
  then show ?case by (auto simp: ended_or_killed_def)
next
  case (Cons c conditions)
  from Cons.prems obtain r1 w1 where
    r1: "run_condition os decode n c cfg ctx (ex_victim_root s) (ex_high_roots s) (ex_low_roots s) w = Some (r1, w1)"
    and rest: "(case r1 of None \<Rightarrow> Some (None, w1)
      | Some result \<Rightarrow> run_conditions os decode n cfg ctx s conditions (results(c := Some result)) w1) = Some (r, w')"
    by (auto split: bind_splits)
  show ?case
  proof (cases r1)
    case None
    with rest run_condition_failed [OF r1 [unfolded None]] show ?thesis by auto
  next
    case (Some result)
    from run_condition_measured [OF r1 [unfolded Some]] obtain v h l where
      o': "outcome_ok n v" "outcome_ok n h" "outcome_ok n l" and open1: "rw_open w1 = rw_open w"
      and ev1: "rw_events w1 = rw_events w @ condition_script c cfg ctx (ex_victim_root s) (ex_high_roots s) (ex_low_roots s) v h l"
      and res: "cr_has_background result = (c \<noteq> CONDITION_NONE)" "cr_victim result = decode (delivered v)"
        "c \<noteq> CONDITION_NONE \<longrightarrow> cr_high result = decode (delivered h) \<and> cr_low result = decode (delivered l)" by blast
    define es1 where "es1 = condition_script c cfg ctx (ex_victim_root s) (ex_high_roots s) (ex_low_roots s) v h l"
    have es1: "rw_open w1 = rw_open w" "rw_events w1 = rw_events w @ es1" using open1 ev1 by (simp_all add: es1_def)
    have me: "measured n decode cfg ctx s res c es1" if "res c = Some result" for res using o' es1_def res that by (rule measuredI)
    have "run_conditions os decode n cfg ctx s conditions (results(c := Some result)) w1 = Some (r, w')" using rest Some by simp
    from Cons.IH [OF this] obtain es where
      es: "rw_open w' = rw_open w1" "rw_events w' = rw_events w1 @ es" "ended_or_killed es" "makes_no_dir es" and
      all: "\<forall>res. r = Some res \<longrightarrow> dom res = dom (results(c := Some result)) \<union> set conditions \<and>
         (\<forall>d. d \<notin> set conditions \<longrightarrow> res d = (results(c := Some result)) d) \<and>
         (distinct conditions \<longrightarrow> (\<exists>scripts. list_all2 (measured n decode cfg ctx s res) conditions scripts \<and> es = concat scripts))"
      by (elim conjE exE)
    have "\<exists>scripts. list_all2 (measured n decode cfg ctx s res) (c # conditions) scripts \<and> es1 @ es = concat scripts"
      if "r = Some res" "distinct (c # conditions)" for res
    proof -
      from all [rule_format, OF that(1)] that(2) obtain scripts where
        "list_all2 (measured n decode cfg ctx s res) conditions scripts" "es = concat scripts" "res c = Some result" by auto
      with me show ?thesis by (intro exI [of _ "es1 # scripts"]) simp
    qed
    moreover have "dom res = dom results \<union> set (c # conditions)" "\<forall>d. d \<notin> set (c # conditions) \<longrightarrow> res d = results d"
      if "r = Some res" for res using all [rule_format, OF that] by auto
    ultimately show ?thesis
      using es(1-4) es1(1,2) measured_tidy [OF me [of "results(c := Some result)"]] ended_or_killed_append
      by (intro conjI exI [of _ "es1 @ es"]) simp_all
  qed
qed

lemma compare_conditions_defined: "dom results = UNIV \<Longrightarrow> compare_conditions rnd results \<noteq> None"
proof -
  assume "dom results = UNIV"
  then have "\<exists>y. results c = Some y" for c by (metis UNIV_I domD)
  from this [of CONDITION_NONE] this [of CONDITION_UNCONTROLLED] this [of CONDITION_SELECTIVE] this [of CONDITION_ALL]
  show ?thesis by (auto simp: compare_conditions_def Let_def)
qed

lemma order_complete: "distinct (order :: condition list) \<Longrightarrow> length order = CONDITION_COUNT \<Longrightarrow> set order = UNIV"
proof -
  assume d: "distinct order" "length order = CONDITION_COUNT"
  have univ: "(UNIV :: condition set) = {CONDITION_NONE, CONDITION_UNCONTROLLED, CONDITION_SELECTIVE, CONDITION_ALL}"
    by (auto intro: condition.exhaust)
  then have fin: "finite (UNIV :: condition set)" and card: "card (UNIV :: condition set) = 4" by (metis finite.emptyI finite.insertI) (simp add: univ)
  show "set order = UNIV"
    by (rule card_seteq [OF fin]) (use d in \<open>simp_all add: card distinct_card CONDITION_COUNT_def\<close>)
qed

subsection \<open>The page map\<close>

text \<open>At the call \<open>v\<close> the page map has the frame number of page \<open>i\<close> that the pool recorded: the entry is present, not swapped out, and its
  low 55 bits are that number.\<close>

definition frame_kept :: "os \<Rightarrow> int \<Rightarrow> memory_pool \<Rightarrow> world \<Rightarrow> nat \<Rightarrow> bool" where
  "frame_kept os fd pool v i \<longleftrightarrow>
     (\<exists>entry. os_pread os v fd (of_nat ((mp_base pool + i * mp_page_size pool) div mp_page_size pool) * 8) = encode_u64_le entry \<and>
        bit entry 63 \<and> \<not> bit entry 62 \<and> take_bit 55 entry = mp_pfns pool ! i)"

text \<open>The page map is opened, the pages are read one after the other, and it is closed.\<close>

definition frames_kept :: "os \<Rightarrow> memory_pool \<Rightarrow> world \<Rightarrow> bool" where
  "frames_kept os pool v \<longleftrightarrow> 0 \<le> os_open os v ''/proc/self/pagemap'' \<and>
     (\<forall>i < mp_page_count pool. frame_kept os (os_open os v ''/proc/self/pagemap'') pool ((tick ^^ i) ((tick v)\<lparr>w_open := Suc (w_open v)\<rparr>)) i)"

definition checked_world :: "memory_pool \<Rightarrow> world \<Rightarrow> world" where
  "checked_world pool v = (tick ^^ (mp_page_count pool + 2)) v"

lemma entry_bits: "entry AND PAGEMAP_PRESENT = 0 \<longleftrightarrow> \<not> bit entry 63" "entry AND PAGEMAP_SWAPPED = 0 \<longleftrightarrow> \<not> bit entry 62"
  unfolding PAGEMAP_PRESENT_def PAGEMAP_SWAPPED_def by (simp_all add: push_bit_eq_mult bit_iff_and_push_bit_not_eq_0 and.commute)

lemma read_one_pfn_Inr:
  assumes "read_one_pfn os fd addr page_size w = (Inr pfn, w')"
  shows "w' = tick w \<and> page_size \<noteq> 0 \<and> (\<exists>entry. os_pread os w fd (of_nat (addr div page_size) * 8) = encode_u64_le entry \<and>
    bit entry 63 \<and> \<not> bit entry 62 \<and> take_bit 55 entry = pfn)"
proof -
  let ?bytes = "os_pread os w fd (of_nat (addr div page_size) * 8)"
  have mask: "ORACLE_PFN_MASK = mask 55" by (simp add: ORACLE_PFN_MASK_def mask_eq_exp_minus_1 push_bit_of_1)
  from assms have r: "w' = tick w" "page_size \<noteq> 0" "length ?bytes = 8" "bit (decode_u64_le ?bytes) 63" "\<not> bit (decode_u64_le ?bytes) 62"
    "pfn = take_bit 55 (decode_u64_le ?bytes)"
    by (auto simp: read_one_pfn_def sys_pread_def Let_def entry_bits mask take_bit_eq_mask split: if_splits)
  moreover have "?bytes = encode_u64_le (decode_u64_le ?bytes)" using encode_decode_u64_le [OF r(3)] by simp
  ultimately show ?thesis by blast
qed

lemma read_one_pfn_open: "read_one_pfn os fd addr page_size w = (r, w') \<Longrightarrow> w_open w' = w_open w"
  by (auto simp: read_one_pfn_def sys_pread_def Let_def split: if_splits)

lemma verify_pages_mono: "verify_pages os fd pool is (m, u) w = ((m', u'), w') \<Longrightarrow> m \<le> m' \<and> u \<le> u' \<and> w_open w' = w_open w"
  by (induction "is" arbitrary: m u w) (fastforce split: prod.splits sum.splits if_splits dest!: read_one_pfn_open)+

lemma verify_pages_kept:
  "verify_pages os fd pool is (m, u) w = ((m, u), w') \<Longrightarrow>
   w' = (tick ^^ length is) w \<and> (\<forall>k < length is. frame_kept os fd pool ((tick ^^ k) w) (is ! k))"
proof (induction "is" arbitrary: w)
  case (Cons i "is")
  obtain r w1 where r: "read_one_pfn os fd (mp_base pool + i * mp_page_size pool) (mp_page_size pool) w = (r, w1)" by (rule prod.exhaust)
  obtain pfn where pfn: "r = Inr pfn" "pfn = mp_pfns pool ! i" "verify_pages os fd pool is (m, u) w1 = ((m, u), w')"
  proof (cases r)
    case (Inl e)
    with Cons.prems r verify_pages_mono [of os fd pool "is" m "u + 1" w1 m u w'] show ?thesis by simp
  next
    case (Inr pfn)
    with Cons.prems r verify_pages_mono [of os fd pool "is" "m + 1" u w1 m u w'] that show ?thesis by (auto split: if_splits)
  qed
  note one = read_one_pfn_Inr [OF r [unfolded pfn(1)]]
  have "frame_kept os fd pool w i" unfolding frame_kept_def using one pfn(2) by blast
  moreover have "w1 = tick w" using one by blast
  ultimately show ?case using Cons.IH [OF pfn(3)] by (auto simp: less_Suc_eq_0_disj funpow_swap1)
qed simp

lemma tick_open_swap: "(tick ^^ n) (w\<lparr>w_open := k\<rparr>) = ((tick ^^ n) w)\<lparr>w_open := k\<rparr>"
  by (induction n) (simp_all add: tick_def)

lemma tick_open [simp]: "w_open ((tick ^^ n) w) = w_open w"
  by (induction n) simp_all

lemma verify_pool_kept:
  assumes "verify_pool_pfns os pool w = (Some (0, 0), w')"
  shows "frames_kept os pool w \<and> w' = checked_world pool w"
proof -
  let ?fd = "os_open os w ''/proc/self/pagemap''" and ?w1 = "(tick w)\<lparr>w_open := Suc (w_open w)\<rparr>"
  from assms obtain w2 where fd: "0 \<le> ?fd" and v: "verify_pages os ?fd pool [0..<mp_page_count pool] (0, 0) ?w1 = ((0, 0), w2)" and w': "w' = sys_close w2"
    by (auto simp: verify_pool_pfns_def sys_open_def Let_def split: if_splits prod.splits)
  from verify_pages_kept [OF v] have w2: "w2 = (tick ^^ mp_page_count pool) ?w1"
    and kept: "\<forall>k < mp_page_count pool. frame_kept os ?fd pool ((tick ^^ k) ?w1) k" by simp_all
  have "w' = (tick ((tick ^^ mp_page_count pool) (tick w)))\<lparr>w_open := w_open w\<rparr>"
    unfolding w' w2 tick_open_swap by (simp add: sys_close_def tick_def)
  also have "\<dots> = checked_world pool w" by (simp add: checked_world_def funpow_swap1)
  finally show ?thesis using fd kept by (simp add: frames_kept_def)
qed

lemma pfns_stable_kept:
  assumes "fst (pfns_stable os vp hp lp w)"
  shows "frames_kept os vp w" "frames_kept os hp (checked_world vp w)" "frames_kept os lp (checked_world hp (checked_world vp w))"
proof -
  from assms obtain w1 w2 w3 where v: "verify_pool_pfns os vp w = (Some (0, 0), w1)" "verify_pool_pfns os hp w1 = (Some (0, 0), w2)"
    "verify_pool_pfns os lp w2 = (Some (0, 0), w3)"
    by (auto simp: pfns_stable_def split: prod.splits option.splits)
  from verify_pool_kept [OF v(1)] verify_pool_kept [OF v(2)] verify_pool_kept [OF v(3)]
  show "frames_kept os vp w" "frames_kept os hp (checked_world vp w)" "frames_kept os lp (checked_world hp (checked_world vp w))" by simp_all
qed

text \<open>Whatever the outcome, the page map and the calibration file are closed again.\<close>

lemma verify_pool_open: "verify_pool_pfns os pool w = (r, w') \<Longrightarrow> w_open w' = w_open w"
  by (auto simp: verify_pool_pfns_def sys_open_def sys_close_def Let_def split: if_splits prod.splits dest!: verify_pages_mono)

lemma pfns_stable_open: "w_open (snd (pfns_stable os vp hp lp w)) = w_open w"
  by (auto simp: pfns_stable_def split: prod.splits option.splits dest!: verify_pool_open)

lemma read_pfns_open: "read_pfns os fd base page_size is acc w = (r, w') \<Longrightarrow> w_open w' = w_open w"
  by (induction os fd base page_size "is" acc w rule: read_pfns.induct) (auto split: prod.splits sum.splits dest!: read_one_pfn_open)

lemma pool_create_open: "pool_create os base advised mem pool_mib page_size w = (r, w') \<Longrightarrow> w_open w' = w_open w"
  by (auto simp: pool_create_def sys_open_def sys_close_def Let_def split: if_splits prod.splits option.splits dest!: read_pfns_open)

lemma oracle_load_mapping_open: "oracle_load_mapping rnd os w = (r, w') \<Longrightarrow> w_open w' = w_open w"
  by (auto simp: oracle_load_mapping_def calibration_load_result_def Let_def split: if_splits prod.splits sum.splits dest!: read_file_limited_frame)

lemma oracle_prepare_open: "oracle_prepare rnd os mem maps memory cfg w = (r, w') \<Longrightarrow> w_open w' = w_open w"
  by (auto simp: oracle_prepare_def oracle_pools_def sysconf_def Let_def split: if_splits prod.splits option.splits
      dest!: oracle_load_mapping_open pool_create_open)

subsection \<open>The whole program\<close>

text \<open>What a call of the program adds to the events: no descriptor, worker or directory is left behind.\<close>

definition left_clean :: "run_os \<Rightarrow> run_world \<Rightarrow> run_world \<Rightarrow> bool" where
  "left_clean os w w' \<longleftrightarrow> rw_open w' = rw_open w \<and> (\<exists>es. rw_events w' = rw_events w @ es \<and> ended_or_killed es \<and> dirs_removed os es)"

lemma left_clean_refl: "left_clean os w w"
  by (simp add: left_clean_def ended_or_killed_def dirs_removed_def)

lemma context_cleanup: "ended_or_killed (context_events ctx)" "cleanup_events os ctx cl \<Longrightarrow> ended_or_killed cl"
  by (auto simp: context_events_def cleanup_events_def ended_or_killed_def)

text \<open>The script of the whole measurement.\<close>

definition program_events ::
  "run_os \<Rightarrow> nat \<Rightarrow> (u8 list \<Rightarrow> worker_result) \<Rightarrow> config \<Rightarrow> oracle_setup \<Rightarrow> cgroup_context \<Rightarrow> (condition \<Rightarrow> condition_result option) \<Rightarrow>
   run_event list \<Rightarrow> bool" where
  "program_events os n decode cfg s ctx results es \<longleftrightarrow>
     (\<exists>scripts cl. list_all2 (measured n decode cfg ctx s results) (cf_order cfg) scripts \<and> cleanup_events os ctx cl \<and>
        es = context_events ctx @ concat scripts @ cl)"

lemma oracle_measure_events:
  assumes "oracle_measure rnd os ros decode n cfg pools s w rw = Some (code, cmp, w', rw')"
  shows "left_clean ros rw rw'"
    and "cmp \<noteq> None \<Longrightarrow> distinct (cf_order cfg) \<Longrightarrow>
      \<exists>ctx results es. cmp = Some (compare_conditions rnd results) \<and> dom results = set (cf_order cfg) \<and>
        rw_events rw' = rw_events rw @ es \<and> program_events ros n decode cfg s ctx results es"
    and "code = ORACLE_SUCCESS \<Longrightarrow> cmp \<noteq> None \<and> fst (pfns_stable os (fst pools) (fst (snd pools)) (snd (snd pools)) w)"
    and "w' = w \<or> w' = snd (pfns_stable os (fst pools) (fst (snd pools)) (snd (snd pools)) w)"
proof -
  from assms obtain ok ctx rw1 where c: "cgroup_context_create ros rw = Some (ok, ctx, rw1)"
    by (auto simp: oracle_measure_def split: bind_splits)
  note cc = cgroup_context_create_cases [OF c]
  have all: "left_clean ros rw rw' \<and>
      (cmp \<noteq> None \<and> distinct (cf_order cfg) \<longrightarrow> (\<exists>ctx results es. cmp = Some (compare_conditions rnd results) \<and>
        dom results = set (cf_order cfg) \<and> rw_events rw' = rw_events rw @ es \<and> program_events ros n decode cfg s ctx results es))"
  proof (cases ok)
    case False
    with assms c cc have "cmp = None" "rw' = rw1" by (auto simp: oracle_measure_def cgroup_context_destroy_def)
    with False cc show ?thesis by (auto simp: left_clean_def run_frame_def ended_or_killed_no_spawn)
  next
    case True
    from assms c True obtain m rw2 where m: "run_conditions ros decode n cfg ctx s (cf_order cfg) (\<lambda>_. None) rw1 = Some (m, rw2)"
      by (auto simp: oracle_measure_def split: bind_splits)
    from run_conditions_events [OF m] obtain es where
      es: "rw_open rw2 = rw_open rw1" "rw_events rw2 = rw_events rw1 @ es" "ended_or_killed es" "makes_no_dir es"
      "\<And>res. m = Some res \<Longrightarrow> dom res = set (cf_order cfg) \<and>
         (distinct (cf_order cfg) \<longrightarrow> (\<exists>scripts. list_all2 (measured n decode cfg ctx s res) (cf_order cfg) scripts \<and> es = concat scripts))"
      by auto
    have rw': "rw' = snd (cgroup_context_destroy ros ctx rw2)"
      using assms c True m by (auto simp: oracle_measure_def split: option.splits prod.splits)
    from cgroup_context_destroy_frame [of rw2 ros ctx] cc True obtain cl where cl: "run_frame rw2 rw' cl" "cleanup_events ros ctx cl"
      by (auto simp: rw')
    have ev: "rw_events rw' = rw_events rw @ (context_events ctx @ es) @ cl" "rw_open rw' = rw_open rw"
      using cc True es(1,2) cl(1) by (simp_all add: run_frame_def)
    have "dirs_removed ros ((context_events ctx @ es) @ cl)"
      by (rule cleanup_removes [OF cl(2)]) (use es(4) in \<open>auto simp: context_events_def makes_no_dir_def\<close>)
    then have "left_clean ros rw rw'"
      unfolding left_clean_def using ev es(3) context_cleanup cl(2) by (intro conjI exI [of _ "(context_events ctx @ es) @ cl"])
        (simp_all add: ended_or_killed_append)
    moreover have "\<exists>ctx results es. cmp = Some (compare_conditions rnd results) \<and> dom results = set (cf_order cfg) \<and>
        rw_events rw' = rw_events rw @ es \<and> program_events ros n decode cfg s ctx results es" if "cmp \<noteq> None" "distinct (cf_order cfg)"
    proof -
      from assms c True m that obtain results where r: "m = Some results" "cmp = Some (compare_conditions rnd results)"
        by (auto simp: oracle_measure_def split: option.splits prod.splits)
      from es(5) [OF r(1)] that(2) obtain scripts where "dom results = set (cf_order cfg)"
        "list_all2 (measured n decode cfg ctx s results) (cf_order cfg) scripts" "es = concat scripts" by blast
      with r(2) ev(1) cl(2) show ?thesis unfolding program_events_def by (intro exI [of _ ctx] exI [of _ results]) auto
    qed
    ultimately show ?thesis by blast
  qed
  then show "left_clean ros rw rw'" by blast
  show "\<exists>ctx results es. cmp = Some (compare_conditions rnd results) \<and> dom results = set (cf_order cfg) \<and>
      rw_events rw' = rw_events rw @ es \<and> program_events ros n decode cfg s ctx results es" if "cmp \<noteq> None" "distinct (cf_order cfg)"
    using all that by blast
  show "cmp \<noteq> None \<and> fst (pfns_stable os (fst pools) (fst (snd pools)) (snd (snd pools)) w)" if "code = ORACLE_SUCCESS"
    using assms that by (auto simp: oracle_measure_def split: option.splits prod.splits if_splits bind_splits)
  show "w' = w \<or> w' = snd (pfns_stable os (fst pools) (fst (snd pools)) (snd (snd pools)) w)"
    using assms by (auto simp: oracle_measure_def split: option.splits prod.splits if_splits bind_splits)
qed

lemma oracle_main_clean:
  "oracle_main rnd os ros decode n mem maps memory argv w rw = Some (code, cmp, w', rw') \<Longrightarrow> left_clean ros rw rw'"
  by (auto simp: oracle_main_def left_clean_refl dest: oracle_measure_events(1) split: args_result.splits prod.splits option.splits)

lemma oracle_main_open:
  assumes "oracle_main rnd os ros decode n mem maps memory argv w rw = Some (code, cmp, w', rw')"
  shows "w_open w' = w_open w"
  using assms
  by (auto simp: oracle_main_def pfns_stable_open split: args_result.splits prod.splits option.splits
      dest!: oracle_prepare_open oracle_measure_events(4))

lemma run_conditions_returns: "interruptions_end os \<Longrightarrow> returns (run_conditions os decode n cfg ctx s conditions results w)"
  by (induction conditions arbitrary: results w) (auto intro!: returns_bind run_condition_total split: option.split)

lemma cgroup_context_create_returns: "interruptions_end os \<Longrightarrow> returns (cgroup_context_create os w)"
  by (auto simp: cgroup_context_create_def cgroup_context_fill_def Let_def split: option.split prod.split
      intro!: returns_bind cgroup_write_file_returns)

lemma oracle_main_total: "interruptions_end ros \<Longrightarrow> returns (oracle_main rnd os ros decode n mem maps memory argv w rw)"
  by (auto simp: oracle_main_def oracle_measure_def Let_def split: option.split prod.split args_result.split
      intro!: returns_bind cgroup_context_create_returns run_conditions_returns)

end
