(* ===== verification/Oracle_Lab.thy ===== *)
theory Oracle_Lab
  imports Oracle_Prepared Oracle_Program_Correct Calibration_Properties
begin

text \<open>
  A small machine on which the whole selective-control experiment runs to its end, for the concrete instances of its properties: a
  calibration document with one mask, three pools of 512 pages with their page map, and a system on which the calls of the workers succeed.
\<close>

unbundle bit_operations_syntax

subsection \<open>A small machine\<close>

text \<open>One mask on bit 6, so that even and odd lines are the two classes; three pools of 512 pages.\<close>

definition lab_mapping :: dram_mapping where
  "lab_mapping = \<lparr>dm_masks = (\<lambda>i. if i < 1 then 0x40 else 0), dm_mask_count = 1, dm_mask_set_id = ''ab12'', dm_ready = True\<rparr>"

definition lab_pool :: "nat \<Rightarrow> memory_pool" where
  "lab_pool k = \<lparr>mp_base = (k + 1) * 2097152, mp_bytes = 2097152, mp_page_size = 4096, mp_page_count = 512,
     mp_pfns = map (\<lambda>i. of_nat (k * 512 + i + 1)) [0..<512]\<rparr>"

definition lab_config :: config where
  "lab_config = config_default\<lparr>cf_pool_mib := 2, cf_workset_mib := 1, cf_group_classes := 1\<rparr>"

lemma lab_preparable: "preparable lab_config lab_mapping 4096 (lab_pool 0) (lab_pool 1) (lab_pool 2)"
proof -
  have "pool_ok (lab_pool k)" for k
    unfolding pool_ok_def by (auto simp: lab_pool_def intro!: exI [of _ 12])
  then show ?thesis
    by (simp add: preparable_def lab_config_def config_default_def lab_mapping_def dram_mapping_is_ready_def pools_apart_def
        MIB_BYTES_def CACHELINE_BYTES_def SIZE_MAX_def) (simp add: lab_pool_def)
qed

lemma and_64: "(v * 64) AND 64 = (if odd v then 64 else 0)" for v :: u64
proof -
  have "(v * 64) AND 64 = push_bit 6 v AND push_bit 6 1" by (simp add: push_bit_eq_mult)
  also have "\<dots> = push_bit 6 (v AND 1)" by (rule push_bit_and [symmetric])
  also have "\<dots> = (if odd v then 64 else 0)" by (simp add: and_one_eq odd_iff_mod_2_eq_one even_iff_mod_2_eq_zero push_bit_eq_mult)
  finally show ?thesis .
qed

lemma lab_class: "dram_mapping_bank_class_fast lab_mapping (v * 64) = of_bool (odd v)"
proof -
  have "parity64 64 = 1" "parity64 0 = 0" by code_simp+
  then show ?thesis using and_64 [of v] by (simp add: dram_mapping_bank_class_fast_def lab_mapping_def)
qed

text \<open>Only the line within the page decides.\<close>

lemma lab_line_class:
  assumes "line < 64"
  shows "line_class lab_mapping (lab_pool k) (page, line) = line mod 2"
proof -
  have "pool_ok (lab_pool k)" unfolding pool_ok_def by (auto simp: lab_pool_def intro!: exI [of _ 12])
  moreover have lpp: "lines_per_page (lab_pool k) = 64" by (simp add: lines_per_page_def lab_pool_def CACHELINE_BYTES_def)
  moreover have "page_class lab_mapping (mp_page_size (lab_pool k)) pfn = 0" for pfn
    using lab_class [of "pfn * 64"] by (simp add: page_class_def lab_pool_def mult.assoc)
  ultimately have "line_class lab_mapping (lab_pool k) (page, line) = unat (offset_table lab_mapping (lab_pool k) ! line)"
    using line_class_xor [of "lab_pool k" lab_mapping line page] assms by (simp add: lab_mapping_def)
  also have "\<dots> = unat (dram_mapping_bank_class_fast lab_mapping (of_nat line * 64))"
    using assms by (simp add: offset_table_def lpp CACHELINE_BYTES_def)
  also have "\<dots> = line mod 2" unfolding lab_class by (simp add: odd_iff_mod_2_eq_one)
  finally show ?thesis .
qed

lemma length_filter_product: "length (filter (\<lambda>p. P (snd p)) (List.product xs ys)) = length xs * length (filter P ys)"
  by (induction xs) (simp_all add: filter_map comp_def)

lemma lab_line_count: "c < 2 \<Longrightarrow> line_count lab_mapping (lab_pool k) c = 16384"
proof -
  assume "c < 2"
  have lpp: "lines_per_page (lab_pool k) = 64" by (simp add: lines_per_page_def lab_pool_def CACHELINE_BYTES_def)
  have pc: "mp_page_count (lab_pool k) = 512" by (simp add: lab_pool_def)
  have "line_count lab_mapping (lab_pool k) c = length (filter (\<lambda>p. snd p mod 2 = c) (pool_lines (lab_pool k)))"
    unfolding line_count_def using lab_line_class
    by (intro arg_cong [of _ _ length] filter_cong) (auto simp: pool_lines_def lpp)
  also have "\<dots> = 512 * length (filter (\<lambda>l. l mod 2 = c) [0..<64])"
    unfolding pool_lines_def length_filter_product [where P = "\<lambda>l. l mod 2 = c"] lpp pc by simp
  also have "length (filter (\<lambda>l. l mod 2 = c) [0..<64]) = 32"
  proof -
    have "\<forall>c \<in> set [0..<2]. length (filter (\<lambda>l. l mod 2 = c) [0..<64]) = 32" by code_simp
    then show ?thesis using \<open>c < 2\<close> by simp
  qed
  finally show ?thesis by simp
qed

lemma lab_quota: "class_quota lab_config = 16384" "workset_lines lab_config = 16384" "cf_group_classes lab_config = 1"
  by (simp_all add: class_quota_def workset_lines_def lab_config_def config_default_def MIB_BYTES_def CACHELINE_BYTES_def)

lemma lab_common: "common_classes lab_mapping 2 16384 (lab_pool 0) (lab_pool 1) (lab_pool 2) = 2"
  unfolding common_classes_def using lab_line_count by (simp add: upt_rec)

lemma lab_prepared:
  obtains s where "prepare_experiment Fin True lab_config lab_mapping 4096 (lab_pool 0) (lab_pool 1) (lab_pool 2) memory = Some s"
proof (cases "prepare_experiment Fin True lab_config lab_mapping 4096 (lab_pool 0) (lab_pool 1) (lab_pool 2) memory")
  case None
  with prepare_experiment_cases [OF lab_preparable ieee_rnd_exact refl refl refl, of memory] lab_common lab_quota
  have False by (simp add: lab_mapping_def)
  then show ?thesis ..
qed (rule that)

subsection \<open>The calls of the workers\<close>

text \<open>A machine on which every call succeeds; every worker has a pipe of its own, from which the number of its read end is read; workers are stopped when they are waited for with \<open>WUNTRACED\<close> and exit with 0 otherwise.\<close>

definition lab_run_os :: run_os where
  "lab_run_os = \<lparr>ro_open = (\<lambda>_ _. 5), ro_read_text = (\<lambda>_ _. Some ''cpuset cpu io''), ro_write = (\<lambda>_ _ n. Inr n),
     ro_read = (\<lambda>_ fd n. Inr (replicate n (of_int fd))), ro_mkdir = (\<lambda>_ _. True), ro_rmdir = (\<lambda>_ _. True),
     ro_pipe = (\<lambda>w. Some (rw_calls w, Suc (rw_calls w))), ro_fork = (\<lambda>w. 100 + rw_calls w mod 800),
     ro_kill = (\<lambda>_ _ _. True), ro_waitpid = (\<lambda>_ _ untraced. Inr (if untraced then 127 else 0)), ro_getpid = 42\<rparr>"

definition run_world0 :: run_world where
  "run_world0 = \<lparr>rw_calls = 0, rw_open = 0, rw_events = []\<rparr>"

definition lab_context :: cgroup_context where
  "lab_context = \<lparr>cc_ready = True, cc_run_path = ''/r'', cc_high_path = ''/r/high'', cc_low_path = ''/r/low''\<rparr>"

lemma lab_loops:
  "write_full lab_run_os fd sent buffer w = Some (True, sent @ buffer, if buffer = [] then w else rtick w)"
  "0 < n \<Longrightarrow> read_full lab_run_os fd got n w = Some (Some (got @ replicate n (of_int fd)), rlog (Rv_read fd (replicate n (of_int fd))) (rtick w))"
  "wait_until_stopped lab_run_os pid w = Some (True, rlog (Rv_stopped pid) (rtick w))"
  "wait_success lab_run_os pid w = Some (True, rlog (Rv_ended pid 0) (rtick w))"
  subgoal by (subst write_full.simps, simp add: lab_run_os_def, subst write_full.simps, simp)
  subgoal by (subst read_full.simps, simp add: lab_run_os_def, subst read_full.simps, simp)
  subgoal by (subst wait_until_stopped.simps, simp add: lab_run_os_def WIFSTOPPED_def)
  subgoal by (subst wait_success.simps, simp add: lab_run_os_def WIFEXITED_def WEXITSTATUS_def)
  done

lemma lab_calls:
  "ro_open lab_run_os w path = 5" "ro_pipe lab_run_os w = Some (rw_calls w, Suc (rw_calls w))" "ro_fork lab_run_os w = 100 + rw_calls w mod 800"
  "rkill lab_run_os pid sig w = (True, rlog (Rv_signal pid sig) (rtick w))" "rmkdir lab_run_os path w = (True, rlog (Rv_mkdir path) (rtick w))"
  "ro_read_text lab_run_os w fd = Some ''cpuset cpu io''" "ro_getpid lab_run_os = 42"
  by (simp_all add: lab_run_os_def rkill_def rmkdir_def)

text \<open>The path of a control file of a short directory always fits.\<close>

lemma lab_write_text:
  "t \<noteq> [] \<Longrightarrow> write_text_path lab_run_os path t w = Some (True, rclose (rlog (Rv_wrote path t) (rtick (ropened 1 (rtick w)))))"
  by (simp add: write_text_path_def lab_calls lab_loops)

lemma lab_write_file:
  "t \<noteq> [] \<Longrightarrow> length dir + length name < 4000 \<Longrightarrow>
   cgroup_write_file lab_run_os dir name t w = Some (True, rclose (rlog (Rv_wrote (dir @ ''/'' @ name) t) (rtick (ropened 1 (rtick w)))))"
  by (simp add: cgroup_write_file_def lab_write_text PATH_MAX_def)

lemma length_show_nat: "n < 10 ^ Suc k \<Longrightarrow> length (show_nat n) \<le> Suc k"
proof (induction k arbitrary: n)
  case 0
  then show ?case by (subst show_nat.simps) simp
next
  case (Suc k)
  have "n div 10 < 10 ^ Suc k" using Suc.prems by (simp add: less_mult_imp_div_less mult.commute)
  then have "length (show_nat (n div 10)) \<le> Suc k" by (rule Suc.IH)
  then show ?case by (subst show_nat.simps) simp
qed

lemma lab_move:
  "length dir < 3000 \<Longrightarrow> oracle_move_pid lab_run_os dir (100 + int (k mod 800)) w =
   Some (True, rclose (rlog (Rv_wrote (dir @ ''/cgroup.procs'') (show_int (100 + int (k mod 800)) @ [CHR 0x0A])) (rtick (ropened 1 (rtick w)))))"
proof -
  assume "length dir < 3000"
  have "k mod 800 < 800" by simp
  then have "100 + k mod 800 < 10 ^ Suc 9" by simp
  moreover have "nat \<bar>100 + int (k mod 800)\<bar> = 100 + k mod 800" by (simp add: nat_add_distrib)
  ultimately have "length (show_int (100 + int (k mod 800))) \<le> Suc 9"
    using length_show_nat [of "100 + k mod 800" 9] by (simp add: show_int_def)
  then show ?thesis using \<open>length dir < 3000\<close> by (simp add: oracle_move_pid_def lab_write_file)
qed

lemma lab_limit:
  "length dir < 3000 \<Longrightarrow> oracle_set_cpu_max lab_run_os dir b q p w =
   Some (True, rclose (rlog (Rv_wrote (dir @ ''/cpu.max'') (cpu_max_text b q p)) (rtick (ropened 1 (rtick w)))))"
proof -
  assume "length dir < 3000"
  have "unat v < 2 ^ 32" for v :: u32 using unsigned_less [of v] by simp
  then have "unat v < 10 ^ Suc 9" for v :: u32 by (rule order_less_le_trans) simp
  then have "length (show_nat (unat v)) \<le> 10" for v :: u32 using length_show_nat [of "unat v" 9] by simp
  from this [of q] this [of p] have "length (cpu_max_text b q p) < 128" "cpu_max_text b q p \<noteq> []" by (auto simp: cpu_max_text_def)
  then show ?thesis using \<open>length dir < 3000\<close> by (simp add: oracle_set_cpu_max_def lab_write_file)
qed

lemma lab_run:
  assumes "cc_ready ctx" "length (cc_high_path ctx) < 3000" "length (cc_low_path ctx) < 3000" "0 < n"
  shows "\<exists>out w'. run_condition lab_run_os decode n condition cfg ctx root_v roots_h roots_l w = Some (Some out, w')"
  using assms
  by (cases "condition = CONDITION_NONE")
    (simp_all add: run_condition_def run_phases_def and_then_def in_background_def set_limits_def start_victim_def start_high_def start_low_def
      spawn_victim_def spawn_aggressor_def spawn_worker_def move_workers_def continue_background_def continue_victim_def wait_victim_def
      wait_high_def wait_low_def read_victim_def read_background_def lab_loops lab_calls lab_move lab_limit Let_def)

lemma lab_interruptions_end: "interruptions_end lab_run_os"
  by (simp add: interruptions_end_def lab_run_os_def)

lemma lab_conditions:
  assumes "cc_ready ctx" "length (cc_high_path ctx) < 3000" "length (cc_low_path ctx) < 3000" "0 < n"
  shows "\<exists>results w'. run_conditions lab_run_os decode n cfg ctx s conditions results0 w = Some (Some results, w')"
proof (induction conditions arbitrary: results0 w)
  case (Cons c conditions)
  from lab_run [OF assms, of decode c cfg "ex_victim_root s" "ex_high_roots s" "ex_low_roots s" w] obtain out w1 where
    "run_condition lab_run_os decode n c cfg ctx (ex_victim_root s) (ex_high_roots s) (ex_low_roots s) w = Some (Some out, w1)" by blast
  with Cons.IH show ?case by simp
qed simp

lemma lab_create:
  "\<exists>ctx w'. cgroup_context_create lab_run_os w = Some (True, ctx, w') \<and> cc_ready ctx \<and>
     length (cc_high_path ctx) < 3000 \<and> length (cc_low_path ctx) < 3000"
proof -
  have cpu: "whitespace_word_present ''cpuset cpu io'' ''cpu''" "cstr ''cpuset cpu io'' = ''cpuset cpu io''" by code_simp+
  have pid: "length (show_int 42) = 2" by code_simp
  have "cgroup_context_create lab_run_os w \<noteq> None" using cgroup_context_create_returns [OF lab_interruptions_end] by (simp add: returns_def)
  then show ?thesis
    using pid cpu
    by (auto simp: cgroup_context_create_def cgroup_context_fill_def read_text_file_def lab_calls lab_write_file Let_def PATH_MAX_def)
qed

text \<open>A clock that advances by one second with every reading.\<close>

definition lab_clock :: os where
  "lab_clock = \<lparr>os_write = (\<lambda>_ _ _. W_OK), os_fopen = (\<lambda>_ _. None), os_ferror = (\<lambda>_. False), os_fclose = (\<lambda>_. True),
     os_readlink = (\<lambda>_ _. None), os_open = (\<lambda>_ _. 3), os_pread = (\<lambda>_ _ _. []), os_sysconf = (\<lambda>_ _. 4096),
     os_clock = (\<lambda>w. Some (int (w_calls w), 0)), os_alloc = (\<lambda>_ _. True), os_fseek = (\<lambda>_. True), os_ftell = (\<lambda>_. 0),
     os_fread = (\<lambda>_ n. n), os_unlink = (\<lambda>_ _. None), os_fork = (\<lambda>_. 0), os_setpgid = (\<lambda>_ _ _. None), os_dup2 = (\<lambda>_ _ _. True),
     os_waitpid = (\<lambda>_ _ _. (0, 0, EINTR)), os_nanosleep = (\<lambda>_ _. None), os_strerror = (\<lambda>_. []), os_getpid = 1\<rparr>"

lemma parse_printed:
  "n < 2 ^ 64 \<Longrightarrow> parse_size (show_nat n) = Some n" "n < 2 ^ 32 \<Longrightarrow> parse_uint (show_nat n) = Some (of_nat n)"
  "- (2 ^ 31) \<le> v \<Longrightarrow> v \<le> 2 ^ 31 - 1 \<Longrightarrow> parse_int (show_int v) = Some v"
proof -
  show size: "parse_size (show_nat n) = Some n" if "n < 2 ^ 64" for n
    using that strtoull_show_nat [of n "[]"] show_nat_nonempty [of n] by (simp add: parse_size_def starts_digit_def unat_of_nat)
  then show "n < 2 ^ 32 \<Longrightarrow> parse_uint (show_nat n) = Some (of_nat n)" by (simp add: parse_uint_def)
  show "- (2 ^ 31) \<le> v \<Longrightarrow> v \<le> 2 ^ 31 - 1 \<Longrightarrow> parse_int (show_int v) = Some v"
    using strtoll_show_int [of v "[]"] show_nat_nonempty [of "nat \<bar>v\<bar>"] by (simp add: parse_int_def starts_digit_def show_int_def)
qed

subsection \<open>Calibration file and page map\<close>

definition lab_result :: printed_result where
  "lab_result = demo_result\<lparr>wr_masks := [0x40]\<rparr>"

lemma lab_result_ok: "result_ok Fin lab_result"
  using demo_result_ok by (simp add: result_ok_def lab_result_def CALIBRATION_MAX_BANK_MASKS_def)

lemma lab_document_fits: "length (worker_document lab_result) \<le> CALIBRATION_JSON_MAX_BYTES"
  by (simp add: document_defs lab_result_def demo_result_def demo_metrics_def length_show_nat_digit CALIBRATION_JSON_MAX_BYTES_def)

text \<open>The page map has the frames of the pools: page \<open>512 + i\<close> of the address space is frame \<open>i + 1\<close>, and present.\<close>

definition lab_machine :: os where
  "lab_machine = lab_clock\<lparr>os_fopen := (\<lambda>_ _. Some (worker_document lab_result)),
     os_ftell := (\<lambda>_. int (length (worker_document lab_result))),
     os_pread := (\<lambda>_ _ off. encode_u64_le (set_bit 63 (of_nat (unat off div 8 - 511))))\<rparr>"

lemma lab_delivers: "delivers lab_machine path (worker_document lab_result)"
  by (simp add: delivers_def lab_machine_def lab_clock_def)

lemma lab_load_mapping: "\<exists>w'. oracle_load_mapping Fin lab_machine w = (Some lab_mapping, w')"
proof -
  from load_result_document [OF lab_result_ok lab_document_fits lab_delivers] obtain w' where
    l: "calibration_load_result Fin lab_machine (Some DEFAULT_CALIBRATION_PATH) (Some calibration_result_reset) w =
      (CALIBRATION_OK, Some (loaded_result Fin lab_result), w')" by blast
  let ?out = "loaded_result Fin lab_result"
  have masks: "result_masks ?out = [0x40]" "cr_bank_mask_count ?out = 1" by (simp_all add: lab_result_def)
  then have m0: "cr_bank_masks ?out 0 = 0x40" by (simp add: result_masks_def)
  have id: "cr_mask_set_id ?out = ''ab12''" by (simp add: lab_result_def demo_result_def)
  have "validate_calibration_result ?out = DRAM_MAPPING_OK"
    using masks m0 id by (simp add: validate_calibration_result_OK bounded_strlen_def cstr_def NUL_def DRAM_MAPPING_MAX_MASKS_def
        DRAM_MAPPING_MASK_SET_ID_MAX_def CALIBRATION_MAX_BANK_MASKS_def CALIBRATION_MASK_SET_ID_MAX_def)
  then have "dram_mapping_init_from_calibration (Some dram_mapping_reset) (Some ?out) = (DRAM_MAPPING_OK, Some lab_mapping)"
    using masks m0 id by (auto simp: dram_mapping_init_from_calibration_def lab_mapping_def dram_mapping_reset_def bounded_strlen_def cstr_def
        NUL_def DRAM_MAPPING_MASK_SET_ID_MAX_def CALIBRATION_MASK_SET_ID_MAX_def)
  with l show ?thesis by (simp add: oracle_load_mapping_def)
qed

lemma lab_entry:
  assumes "j < 2 ^ 20"
  shows "bit (set_bit 63 (of_nat j :: u64)) 63" "\<not> bit (set_bit 63 (of_nat j :: u64)) 62" "take_bit 55 (set_bit 63 (of_nat j :: u64)) = of_nat j"
proof -
  have high: "\<not> bit j n" if "20 \<le> n" for n
  proof -
    have "j < 2 ^ n" using assms power_increasing [of 20 n "2 :: nat"] that by (meson le_less_trans less_le_trans one_le_numeral)
    then show ?thesis by (simp add: bit_iff_odd)
  qed
  show "bit (set_bit 63 (of_nat j :: u64)) 63" "\<not> bit (set_bit 63 (of_nat j :: u64)) 62"
    using high [of 62] by (simp_all add: bit_set_bit_iff bit_of_nat_iff)
  show "take_bit 55 (set_bit 63 (of_nat j :: u64)) = of_nat j"
  proof (rule bit_eqI)
    fix n
    assume "possible_bit TYPE(u64) n"
    then show "bit (take_bit 55 (set_bit 63 (of_nat j :: u64))) n \<longleftrightarrow> bit (of_nat j :: u64) n"
      using high [of n] by (cases "n < 55") (simp_all add: bit_take_bit_iff bit_set_bit_iff bit_of_nat_iff)
  qed
qed

lemma small_word: "m < 2 ^ 64 \<Longrightarrow> unat (of_nat m :: u64) = m"
  by (simp add: unat_of_nat)

lemma lab_read_page:
  assumes "addr div 4096 = vpn" "511 < vpn" "vpn < 2048"
  shows "read_one_pfn lab_machine 3 addr 4096 v = (Inr (of_nat (vpn - 511)), tick v)"
proof -
  have small: "vpn - 511 < 2 ^ 20" using assms(3) by simp
  have "unat (of_nat vpn * 8 :: u64) = unat (of_nat (vpn * 8) :: u64)" by simp
  also have "\<dots> = vpn * 8" using assms(3) by (intro small_word) simp
  finally have off: "unat (of_nat vpn * 8 :: u64) div 8 - 511 = vpn - 511" by simp
  have "unat (of_nat (vpn - 511) :: u64) = vpn - 511" using small by (intro small_word) simp
  then have nz: "(of_nat (vpn - 511) :: u64) \<noteq> 0" using assms(2) by (metis unat_0 zero_less_diff less_irrefl)
  have mask: "ORACLE_PFN_MASK = mask 55" by (simp add: ORACLE_PFN_MASK_def mask_eq_exp_minus_1 push_bit_of_1)
  have len: "length (encode_u64_le e) = 8" for e by (simp add: encode_u64_le_def)
  have pread: "os_pread lab_machine v 3 (of_nat vpn * 8) = encode_u64_le (set_bit 63 (of_nat (vpn - 511)))"
    using off by (simp add: lab_machine_def)
  show ?thesis
    unfolding read_one_pfn_def assms(1) sys_pread_def Let_def prod.case pread
    using lab_entry [OF small] nz
    by (simp add: len decode_encode_u64_le entry_bits mask take_bit_eq_mask [symmetric] del: of_nat_diff)
qed

lemma lab_read_pfn:
  assumes "k < 3" "i < 512"
  shows "read_one_pfn lab_machine 3 ((k + 1) * 2097152 + i * 4096) 4096 v = (Inr (of_nat (k * 512 + i + 1)), tick v)"
proof -
  have "((k + 1) * 2097152 + i * 4096) div 4096 = (k + 1) * 512 + i" by simp
  from lab_read_page [OF this] assms have "read_one_pfn lab_machine 3 ((k + 1) * 2097152 + i * 4096) 4096 v =
      (Inr (of_nat ((k + 1) * 512 + i - 511)), tick v)" by simp
  moreover have "(k + 1) * 512 + i - 511 = k * 512 + i + 1" by simp
  ultimately show ?thesis by (simp only:)
qed

lemma read_pfns_all:
  assumes "\<And>i v. i < n \<Longrightarrow> read_one_pfn os fd (base + i * ps) ps v = (Inr (f i), tick v)" "k \<le> n"
  shows "\<exists>w'. read_pfns os fd base ps [k..<n] (map f [0..<k] @ replicate (n - k) 0, k) w = ((map f [0..<n], n), w')"
  using assms(2)
proof (induction "n - k" arbitrary: k w)
  case (Suc d)
  then have k: "k < n" by simp
  have "(map f [0..<k] @ replicate (n - k) 0)[k := f k] = map f [0..<Suc k] @ replicate (n - Suc k) 0"
    using k by (simp add: list_update_append Suc_diff_Suc [symmetric])
  moreover have "d = n - Suc k" "Suc k \<le> n" using Suc(2) k by simp_all
  from Suc(1) [OF this, of "tick w"] have "\<exists>w'. read_pfns os fd base ps [Suc k..<n] (map f [0..<Suc k] @ replicate (n - Suc k) 0, Suc k) (tick w) =
      ((map f [0..<n], n), w')" .
  ultimately show ?case using assms(1) [OF k, of w] by (simp add: upt_conv_Cons [OF k] del: upt_Suc)
qed simp

lemma lab_pool_create:
  assumes "k < 3"
  shows "\<exists>w'. pool_create lab_machine (Some ((k + 1) * 2097152)) True True 2 4096 w = (Some (lab_pool k), w')"
proof -
  let ?w1 = "(tick w)\<lparr>w_open := Suc (w_open w)\<rparr>"
  have op: "sys_open lab_machine ''/proc/self/pagemap'' w = (3, ?w1)" by (simp add: sys_open_def lab_machine_def lab_clock_def)
  obtain w2 where r: "read_pfns lab_machine 3 ((k + 1) * 2097152) 4096 [0..<512] (replicate 512 0, 0) ?w1 =
      ((map (\<lambda>i. of_nat (k * 512 + i + 1)) [0..<512], 512), w2)"
    using read_pfns_all [of 512 lab_machine 3 "(k + 1) * 2097152" 4096 "\<lambda>i. of_nat (k * 512 + i + 1)" 0 ?w1] lab_read_pfn [OF assms]
    by (auto simp del: of_nat_add of_nat_mult)
  have bytes: "2 * MIB_BYTES = 2097152" "\<not> SIZE_MAX div MIB_BYTES < 2" by (simp_all add: MIB_BYTES_def SIZE_MAX_def)
  show ?thesis
    using op r by (simp add: pool_create_def bytes lab_pool_def Let_def del: of_nat_add of_nat_mult)
qed

lemma verify_pages_all:
  assumes "\<And>i v. i \<in> set is \<Longrightarrow> read_one_pfn os fd (mp_base pool + i * mp_page_size pool) (mp_page_size pool) v = (Inr (mp_pfns pool ! i), tick v)"
  shows "\<exists>w'. verify_pages os fd pool is (0, 0) w = ((0, 0), w')"
  using assms by (induction "is" arbitrary: w) simp_all

lemma lab_verify: "k < 3 \<Longrightarrow> \<exists>w'. verify_pool_pfns lab_machine (lab_pool k) w = (Some (0, 0), w')"
proof -
  assume k: "k < 3"
  let ?w1 = "(tick w)\<lparr>w_open := Suc (w_open w)\<rparr>"
  have op: "sys_open lab_machine ''/proc/self/pagemap'' w = (3, ?w1)" by (simp add: sys_open_def lab_machine_def lab_clock_def)
  have "\<exists>w'. verify_pages lab_machine 3 (lab_pool k) [0..<512] (0, 0) ?w1 = ((0, 0), w')"
    by (rule verify_pages_all) (use lab_read_pfn [OF k] in \<open>simp add: lab_pool_def\<close>)
  then obtain w2 where "verify_pages lab_machine 3 (lab_pool k) [0..<512] (0, 0) ?w1 = ((0, 0), w2)" ..
  moreover have "mp_page_count (lab_pool k) = 512" by (simp add: lab_pool_def)
  ultimately show ?thesis using op by (simp add: verify_pool_pfns_def)
qed

lemma lab_stable: "\<exists>w'. pfns_stable lab_machine (lab_pool 0) (lab_pool 1) (lab_pool 2) w = (True, w')"
proof -
  obtain w1 where w1: "verify_pool_pfns lab_machine (lab_pool 0) w = (Some (0, 0), w1)" using lab_verify [of 0 w] by auto
  obtain w2 where w2: "verify_pool_pfns lab_machine (lab_pool 1) w1 = (Some (0, 0), w2)" using lab_verify [of 1 w1] by auto
  obtain w3 where "verify_pool_pfns lab_machine (lab_pool 2) w2 = (Some (0, 0), w3)" using lab_verify [of 2 w2] by auto
  with w1 w2 show ?thesis by (simp add: pfns_stable_def)
qed

subsection \<open>The whole program\<close>

definition lab_argv :: "string list" where
  "lab_argv = [''--pool-mib'', ''2'', ''--workset-mib'', ''1'', ''--classes'', ''1'']"

lemma lab_args: "parse_args lab_argv = ARGS_OK lab_config"
proof -
  have "show_nat 1 = ''1''" "show_nat 2 = ''2''" by code_simp+
  with parse_printed(1) [of 1] parse_printed(1) [of 2] have "parse_size ''1'' = Some 1" "parse_size ''2'' = Some 2" by simp_all
  then show ?thesis
    by (simp add: parse_args_def lab_argv_def option_names_def set_option_def nonzero_def lab_config_def config_default_def)
qed

definition lab_maps :: "nat \<Rightarrow> nat option \<times> bool \<times> bool" where
  "lab_maps k = (Some ((k + 1) * 2097152), True, True)"

lemma lab_prepare:
  "\<exists>s w'. oracle_prepare Fin lab_machine True lab_maps memory lab_config w = (Some ((lab_pool 0, lab_pool 1, lab_pool 2), s), w')"
proof -
  have page: "sysconf lab_machine SC_PAGESIZE w = (4096, tick w)" by (simp add: sysconf_def lab_machine_def lab_clock_def)
  obtain w2 where load: "oracle_load_mapping Fin lab_machine (tick w) = (Some lab_mapping, w2)" using lab_load_mapping by blast
  obtain w3 where p0: "pool_create lab_machine (Some 2097152) True True 2 4096 w2 = (Some (lab_pool 0), w3)" using lab_pool_create [of 0 w2] by auto
  obtain w4 where p1: "pool_create lab_machine (Some 4194304) True True 2 4096 w3 = (Some (lab_pool 1), w4)" using lab_pool_create [of 1 w3] by auto
  obtain w5 where p2: "pool_create lab_machine (Some 6291456) True True 2 4096 w4 = (Some (lab_pool 2), w5)" using lab_pool_create [of 2 w4] by auto
  have pools: "oracle_pools lab_machine lab_maps (cf_pool_mib lab_config) 4096 w2 = (Some (lab_pool 0, lab_pool 1, lab_pool 2), w5)"
    using p0 p1 p2 by (simp add: oracle_pools_def lab_maps_def lab_config_def)
  obtain s where s: "prepare_experiment Fin True lab_config lab_mapping 4096 (lab_pool 0) (lab_pool 1) (lab_pool 2) memory = Some s"
    by (rule lab_prepared)
  have "class_space_from_mapping lab_mapping \<noteq> None" "build_offset_classes True lab_mapping 4096 \<noteq> None" "workset_quota lab_config \<noteq> None"
    by (simp_all add: class_space_from_mapping_def lab_mapping_def dram_mapping_is_ready_def SIZE_MAX_def build_offset_classes_def
        CACHELINE_BYTES_def workset_quota_def lab_config_def config_default_def MIB_BYTES_def)
  with page load pools s show ?thesis by (simp add: oracle_prepare_def)
qed

lemma lab_main:
  assumes "0 < n"
  shows "\<exists>cmp w' rw'. oracle_main Fin lab_machine lab_run_os decode n True lab_maps memory lab_argv w rw = Some (ORACLE_SUCCESS, Some cmp, w', rw') \<and>
    (\<exists>path es. rw_events rw' = rw_events rw @ Rv_mkdir path # es \<and> (\<exists>pid wk pipe. Rv_spawned pid wk pipe \<in> set es))"
proof -
  obtain s w1 where prep: "oracle_prepare Fin lab_machine True lab_maps memory lab_config w = (Some ((lab_pool 0, lab_pool 1, lab_pool 2), s), w1)"
    using lab_prepare by blast
  obtain ctx rw1 where c: "cgroup_context_create lab_run_os rw = Some (True, ctx, rw1)" and ctx: "cc_ready ctx"
    "length (cc_high_path ctx) < 3000" "length (cc_low_path ctx) < 3000" using lab_create by blast
  obtain results rw2 where "run_conditions lab_run_os decode n lab_config ctx s (cf_order lab_config) (\<lambda>_. None) rw1 = Some (Some results, rw2)"
    using lab_conditions [OF ctx assms] by blast
  moreover obtain w2 where "pfns_stable lab_machine (lab_pool 0) (lab_pool 1) (lab_pool 2) w1 = (True, w2)" using lab_stable by blast
  ultimately obtain cmp rw' where
    m: "oracle_measure Fin lab_machine lab_run_os decode n lab_config (lab_pool 0, lab_pool 1, lab_pool 2) s w1 rw = Some (ORACLE_SUCCESS, Some cmp, w2, rw')"
    using c by (simp add: oracle_measure_def)
  have d: "distinct (cf_order lab_config)" by (simp add: lab_config_def config_default_def)
  from oracle_measure_events(2) [OF m _ d] obtain ctx' results' es where
    es: "rw_events rw' = rw_events rw @ es" "program_events lab_run_os n decode lab_config s ctx' results' es" by auto
  from es(2) obtain scripts cl where sc: "list_all2 (measured n decode lab_config ctx' s results') (cf_order lab_config) scripts"
    "es = context_events ctx' @ concat scripts @ cl" unfolding program_events_def by blast
  from sc(1) obtain e0 rest where e0: "scripts = e0 # rest" "measured n decode lab_config ctx' s results' CONDITION_NONE e0"
    by (auto simp: lab_config_def config_default_def list_all2_Cons1)
  from e0(2) obtain v h l where "e0 = condition_script CONDITION_NONE lab_config ctx' (ex_victim_root s) (ex_high_roots s) (ex_low_roots s) v h l"
    unfolding measured_def by blast
  then have "Rv_spawned (wo_pid v) (Victim (cf_victim_cpu lab_config) (cf_seconds lab_config) (ex_victim_root s)) (wo_pipe v) \<in> set (concat scripts)"
    by (simp add: condition_script_def e0(1))
  then obtain pid wk pipe where sp: "Rv_spawned pid wk pipe \<in> set (concat scripts)" by blast
  have "es = Rv_mkdir (cc_run_path ctx') # tl (context_events ctx') @ concat scripts @ cl" by (simp add: sc(2) context_events_def)
  moreover have "Rv_spawned pid wk pipe \<in> set (tl (context_events ctx') @ concat scripts @ cl)" using sp unfolding set_append by blast
  ultimately have "\<exists>path es'. es = Rv_mkdir path # es' \<and> (\<exists>pid wk pipe. Rv_spawned pid wk pipe \<in> set es')" by blast
  with es(1) m prep lab_args show ?thesis by (auto simp: oracle_main_def)
qed

end
