(* ===== verification/Oracle_Properties.thy ===== *)
theory Oracle_Properties
  imports Oracle_Loops Oracle_Lab
begin

text \<open>
  The properties of the selective-control experiment, each with an instance on the small machine of \<open>Oracle_Lab\<close>.
\<close>

subsection \<open>The preparation\<close>

text \<open>C18: With a ready mapping of at most 20 masks, three disjoint pools of pages of one size and enough memory, the preparation
  fails exactly when fewer than twice \<open>group_classes\<close> bank classes have a quota of lines in all three pools. Otherwise the
  worksets are as intended: victim and high aggressor hold the same number of lines of the same classes, the low aggressor of
  others, all lines are distinct and of the class claimed for them; and the overlaps the program computes from the actual
  addresses are exactly 1 and 0, so its acceptance test never rejects what the selection produced.\<close>

theorem experiment_worksets:
  assumes "preparable cfg mapping page_size vp hp lp" and "ieee_rnd rnd"
  shows "(prepare_experiment rnd True cfg mapping page_size vp hp lp memory = None \<longleftrightarrow>
      common_classes mapping (2 ^ dm_mask_count mapping) (class_quota cfg) vp hp lp < 2 * cf_group_classes cfg) \<and>
    (\<forall>s. prepare_experiment rnd True cfg mapping page_size vp hp lp memory = Some s \<longrightarrow>
      worksets_intended mapping (2 ^ dm_mask_count mapping) (cf_group_classes cfg) (class_quota cfg) vp hp lp (ex_victim s, ex_high s, ex_low s) \<and>
      overlaps_intended rnd mapping (2 ^ dm_mask_count mapping) (ex_victim s, ex_high s, ex_low s))"
  using prepare_experiment_cases [OF assms refl refl refl, of memory] by (simp split: option.splits)

theorem experiment_worksets_witness:
  "\<exists>s. prepare_experiment Fin True lab_config lab_mapping 4096 (lab_pool 0) (lab_pool 1) (lab_pool 2) (\<lambda>_. 0) = Some s \<and>
     worksets_intended lab_mapping 2 1 16384 (lab_pool 0) (lab_pool 1) (lab_pool 2) (ex_victim s, ex_high s, ex_low s)"
proof -
  obtain s where s: "prepare_experiment Fin True lab_config lab_mapping 4096 (lab_pool 0) (lab_pool 1) (lab_pool 2) (\<lambda>_. 0) = Some s"
    by (rule lab_prepared)
  with experiment_worksets [OF lab_preparable ieee_rnd_exact, of "\<lambda>_. 0"] lab_quota show ?thesis by (simp add: lab_mapping_def)
qed

text \<open>C19: When the preparation succeeds, following the stored pointers from the victim's root visits every line of its workset
  exactly once and then returns to the root; the 16 roots of each aggressor do the same in streams of equal length. Building a
  later chain does not disturb an earlier one.\<close>

theorem experiment_chains:
  assumes "preparable cfg mapping page_size vp hp lp" and "ieee_rnd rnd"
    and "prepare_experiment rnd True cfg mapping page_size vp hp lp memory = Some s"
  shows "tours (ex_memory s) [ex_victim_root s] (workset_lines cfg) (set (ls_addresses (ex_victim s))) \<and>
    length (ex_high_roots s) = AGGRESSOR_STREAMS \<and> length (ex_low_roots s) = AGGRESSOR_STREAMS \<and>
    tours (ex_memory s) (ex_high_roots s) (workset_lines cfg div AGGRESSOR_STREAMS) (set (ls_addresses (ex_high s))) \<and>
    tours (ex_memory s) (ex_low_roots s) (workset_lines cfg div AGGRESSOR_STREAMS) (set (ls_addresses (ex_low s)))"
  using prepare_experiment_cases [OF assms(1,2) refl refl refl, of memory] assms(3) by (simp add: chains_ready_def)

theorem experiment_chains_witness:
  "\<exists>s. prepare_experiment Fin True lab_config lab_mapping 4096 (lab_pool 0) (lab_pool 1) (lab_pool 2) (\<lambda>_. 0) = Some s \<and>
     tours (ex_memory s) [ex_victim_root s] 16384 (set (ls_addresses (ex_victim s)))"
proof -
  obtain s where s: "prepare_experiment Fin True lab_config lab_mapping 4096 (lab_pool 0) (lab_pool 1) (lab_pool 2) (\<lambda>_. 0) = Some s"
    by (rule lab_prepared)
  with experiment_chains [OF lab_preparable ieee_rnd_exact s] lab_quota show ?thesis by simp
qed

subsection \<open>The measuring loops\<close>

text \<open>C28: If the clock answers and the time is up for the first time at its \<open>N\<close>-th reading after the start, both worker loops return:
  the victim after exactly \<open>4096 * N\<close> reads, the aggressor after \<open>1024 * N\<close> rounds over its streams, with the elapsed time of
  the last reading and the operations as a 64-bit count. On tours of their worksets the pointers stay on the workset's lines, at the
  position given by the number of reads modulo the length of the tour.\<close>

theorem measuring_loops:
  assumes "stops_at rnd seconds os w N" "\<not> fle seconds (Fin 0)" "root_ptr \<noteq> 0"
    and "tours memory [root_ptr] len lines" "0 < len" "tours memory roots len' lines'" "0 < len'"
  shows "\<exists>p ps. victim_loop rnd os memory root_ptr seconds w =
      Some (Some (p, \<lparr>wk_ok = True, wk_elapsed_sec = elapsed_sec rnd (the (reading os w 0)) (the (reading os w N)),
        wk_operations = 4096 * N mod 2 ^ 64\<rparr>), (tick ^^ (N + 1)) w) \<and>
      p \<in> lines \<and> p = (memory ^^ (4096 * N mod len)) root_ptr \<and>
    aggressor_loop rnd os memory roots seconds w =
      Some (Some (ps, \<lparr>wk_ok = True, wk_elapsed_sec = elapsed_sec rnd (the (reading os w 0)) (the (reading os w N)),
        wk_operations = 1024 * AGGRESSOR_STREAMS * N mod 2 ^ 64\<rparr>), (tick ^^ (N + 1)) w) \<and>
      set ps \<subseteq> lines' \<and> ps = map (memory ^^ (1024 * N mod len')) roots"
proof -
  have v: "(memory ^^ (4096 * N)) root_ptr \<in> lines" "(memory ^^ (4096 * N)) root_ptr = (memory ^^ (4096 * N mod len)) root_ptr"
    using tours_stay [OF assms(4) _ assms(5), of 0] tours_mod [OF assms(4), of 0] by simp_all
  have a: "(memory ^^ (1024 * N)) r \<in> lines'" "(memory ^^ (1024 * N)) r = (memory ^^ (1024 * N mod len')) r" if "r \<in> set roots" for r
    using that tours_stay [OF assms(6) _ assms(7)] tours_mod [OF assms(6)] by (metis in_set_conv_nth)+
  have ps: "set (map (memory ^^ (1024 * N)) roots) \<subseteq> lines'" "map (memory ^^ (1024 * N)) roots = map (memory ^^ (1024 * N mod len')) roots"
    using a(1) by (force, simp add: a(2))
  show ?thesis
    using v ps victim_loop_until [OF assms(1,3,2), of memory] aggressor_loop_until [OF assms(1,2), of memory roots]
    unfolding loop_result_def VICTIM_CHUNK_READS_def AGGRESSOR_CHUNK_ITERS_def by metis
qed

text \<open>Two lines that point to each other.\<close>

lemma tick_calls: "w_calls ((tick ^^ i) w) = w_calls w + i"
  by (induction i) (simp_all add: tick_def)

lemma lab_reading: "reading lab_clock world0 i = Some (int i, 0)"
  by (simp add: reading_def lab_clock_def tick_calls world0_def)

definition two_lines :: memory where
  "two_lines a = (if a = 64 then 128 else 64)"


theorem measuring_loops_witness:
  "\<exists>p. victim_loop Fin lab_clock two_lines 64 (Fin 2) world0 =
     Some (Some (p, \<lparr>wk_ok = True, wk_elapsed_sec = Fin 2, wk_operations = 8192\<rparr>), (tick ^^ 3) world0) \<and> p \<in> {64, 128}"
proof -
  have up: "time_up Fin (Fin 2) (0, 0) lab_clock world0 i \<longleftrightarrow> 2 \<le> i" for i
    by (simp add: time_up_def lab_reading elapsed_sec_def double_of_int_def)
  have "stops_at Fin (Fin 2) lab_clock world0 2"
    unfolding stops_at_def using up by (auto simp: lab_reading)
  moreover have "{..<length [64 :: nat]} \<times> {..<2} = {(0, 0), (0, 1 :: nat)}" by auto
  then have "tours two_lines [64] 2 {64, 128}"
    by (auto simp: tours_def two_lines_def numeral_2_eq_2 bij_betw_def)
  ultimately show ?thesis
    using measuring_loops [of Fin "Fin 2" lab_clock world0 2 64 two_lines 2 "{64, 128}" "[64]" 2 "{64, 128}"]
    by (auto simp: lab_reading elapsed_sec_def double_of_int_def numeral_3_eq_3)
qed

subsection \<open>One condition\<close>

text \<open>C16: A condition that is measured follows its script exactly: the CPU limits are written first (only the high aggressor's is a
  quota under \<open>SELECTIVE\<close>, both under \<open>ALL\<close>, none under \<open>UNCONTROLLED\<close>), every worker is started with a pipe and seen to stop before the
  next, the aggressors are moved into their groups while they are stopped, only then the workers are continued, the victim last, all are
  waited for and exited with 0, and at last the pipes are read; without background only the victim is started. Each of the three results is
  what was read from the pipe of that worker, complete and in order, and no descriptor stays open.\<close>

theorem condition_follows_script:
  assumes "run_condition os decode n condition cfg cgroups root_v roots_h roots_l w = Some (Some out, w')"
  shows "rw_open w' = rw_open w \<and> cr_has_background out = (condition \<noteq> CONDITION_NONE) \<and>
    (\<exists>v h l. outcome_ok n v \<and> outcome_ok n h \<and> outcome_ok n l \<and>
       rw_events w' = rw_events w @ condition_script condition cfg cgroups root_v roots_h roots_l v h l \<and>
       cr_victim out = decode (concat (wo_pieces v)) \<and>
       (condition \<noteq> CONDITION_NONE \<longrightarrow> cr_high out = decode (concat (wo_pieces h)) \<and> cr_low out = decode (concat (wo_pieces l))))"
  using run_condition_measured [OF assms] unfolding delivered_def .

theorem condition_follows_script_witness:
  "case run_condition lab_run_os (\<lambda>bs. worker_result_zero\<lparr>wk_operations := unat (hd bs)\<rparr>) 24 CONDITION_SELECTIVE config_default lab_context
       64 [64] [128] run_world0 of
     Some (Some out, w') \<Rightarrow> rw_open w' = 0 \<and> (\<exists>v h l. outcome_ok 24 v \<and> outcome_ok 24 h \<and> outcome_ok 24 l \<and>
       rw_events w' = condition_script CONDITION_SELECTIVE config_default lab_context 64 [64] [128] v h l \<and>
       wk_operations (cr_victim out) = unat (hd (concat (wo_pieces v))) \<and> wk_operations (cr_low out) = unat (hd (concat (wo_pieces l))))
   | _ \<Rightarrow> False"
proof -
  let ?decode = "\<lambda>bs. worker_result_zero\<lparr>wk_operations := unat (hd bs :: u8)\<rparr>"
  obtain out w' where
    r: "run_condition lab_run_os ?decode 24 CONDITION_SELECTIVE config_default lab_context 64 [64] [128] run_world0 = Some (Some out, w')"
    using lab_run [of lab_context 24 ?decode CONDITION_SELECTIVE config_default 64 "[64]" "[128]" run_world0]
    by (auto simp: lab_context_def)
  from condition_follows_script [OF r] obtain v h l where "outcome_ok 24 v" "outcome_ok 24 h" "outcome_ok 24 l"
    "rw_events w' = condition_script CONDITION_SELECTIVE config_default lab_context 64 [64] [128] v h l"
    "cr_victim out = ?decode (concat (wo_pieces v))" "cr_low out = ?decode (concat (wo_pieces l))" "rw_open w' = 0"
    by (auto simp: run_world0_def)
  then show ?thesis unfolding r by (intro option.case [THEN iffD2]) (simp, metis worker_result.select_convs(3) worker_result.update_convs(3))
qed

subsection \<open>The whole program\<close>



text \<open>C20: A measurement with a valid configuration that ends with success has measured all four conditions once, in the order of the
  configuration, between making and removing the control groups; the comparison is computed from four results that were each read from the
  pipes of the workers of that condition; and afterwards the page map was read again for every page of the three pools, one pool after
  the other, and every entry was present, not swapped out, and had the frame number the pool had recorded.\<close>

theorem measurement_complete:
  assumes "oracle_measure rnd os ros decode n cfg pools s w rw = Some (ORACLE_SUCCESS, cmp, w', rw')" and "config_valid cfg"
  shows "set (cf_order cfg) = UNIV \<and> distinct (cf_order cfg) \<and>
    (\<exists>c ctx results es. cmp = Some (Some c) \<and> compare_conditions rnd results = Some c \<and>
       rw_events rw' = rw_events rw @ es \<and> program_events ros n decode cfg s ctx results es) \<and>
    (case pools of (victim_pool, high_pool, low_pool) \<Rightarrow>
       frames_kept os victim_pool w \<and> frames_kept os high_pool (checked_world victim_pool w) \<and>
       frames_kept os low_pool (checked_world high_pool (checked_world victim_pool w)))"
proof -
  note ev = oracle_measure_events [OF assms(1)]
  have ord: "set (cf_order cfg) = UNIV" "distinct (cf_order cfg)"
    using assms(2) order_complete by (simp_all add: config_valid_def)
  from ev(3) ev(2) [OF _ ord(2)] obtain ctx results es where
    r: "cmp = Some (compare_conditions rnd results)" "dom results = set (cf_order cfg)" "rw_events rw' = rw_events rw @ es"
      "program_events ros n decode cfg s ctx results es" by blast
  from r(2) ord(1) compare_conditions_defined [of results rnd] obtain c where "compare_conditions rnd results = Some c" by auto
  with r ord ev(3) [OF refl] show ?thesis using pfns_stable_kept by (cases pools) fastforce
qed

text \<open>A pool of one page whose entry in the page map is present, with frame number 1.\<close>

definition lab_os :: os where
  "lab_os = lab_clock\<lparr>os_pread := (\<lambda>_ _ _. [1, 0, 0, 0, 0, 0, 0, 128])\<rparr>"

definition lab_page :: memory_pool where
  "lab_page = \<lparr>mp_base = 4096, mp_bytes = 4096, mp_page_size = 4096, mp_page_count = 1, mp_pfns = [1]\<rparr>"

definition lab_setup :: oracle_setup where
  "lab_setup = (let ls = \<lparr>ls_pool = lab_page, ls_addresses = [4096], ls_line_count = 1\<rparr>
     in \<lparr>ex_victim = ls, ex_high = ls, ex_low = ls, ex_permutation = [0], ex_victim_root = 4096, ex_high_roots = [4096],
         ex_low_roots = [4096], ex_memory = (\<lambda>a. a)\<rparr>)"

theorem measurement_complete_witness:
  "case oracle_measure Fin lab_os lab_run_os (\<lambda>_. \<lparr>wk_ok = True, wk_elapsed_sec = Fin 10, wk_operations = 4096\<rparr>) 24 config_default
       (lab_page, lab_page, lab_page) lab_setup world0 run_world0 of
     Some (ORACLE_SUCCESS, cmp, w', rw') \<Rightarrow> frames_kept lab_os lab_page world0 \<and>
       (\<exists>c ctx results. cmp = Some (Some c) \<and> program_events lab_run_os 24
          (\<lambda>_. \<lparr>wk_ok = True, wk_elapsed_sec = Fin 10, wk_operations = 4096\<rparr>) config_default lab_setup ctx results (rw_events rw'))
   | _ \<Rightarrow> False"
proof -
  let ?decode = "\<lambda>_ :: u8 list. \<lparr>wk_ok = True, wk_elapsed_sec = Fin 10, wk_operations = 4096\<rparr>"
  obtain ctx w1 where c: "cgroup_context_create lab_run_os run_world0 = Some (True, ctx, w1)" and ctx: "cc_ready ctx"
    "length (cc_high_path ctx) < 3000" "length (cc_low_path ctx) < 3000" using lab_create by blast
  obtain results w2 where "run_conditions lab_run_os ?decode 24 config_default ctx lab_setup (cf_order config_default) (\<lambda>_. None) w1 =
      Some (Some results, w2)" using lab_conditions [OF ctx, of 24 ?decode] by fastforce
  moreover have "fst (pfns_stable lab_os lab_page lab_page lab_page world0)" by code_simp
  then obtain w3 where "pfns_stable lab_os lab_page lab_page lab_page world0 = (True, w3)" by (metis (full_types) prod.collapse)
  ultimately obtain cmp w' rw' where r: "oracle_measure Fin lab_os lab_run_os ?decode 24 config_default (lab_page, lab_page, lab_page) lab_setup
      world0 run_world0 = Some (ORACLE_SUCCESS, cmp, w', rw')"
    using c by (simp add: oracle_measure_def)
  from measurement_complete [OF r config_default_valid(1)] r show ?thesis by (auto simp: run_world0_def)
qed

subsection \<open>Command line\<close>

text \<open>C29: The order of the conditions is accepted exactly when the text is shorter than the buffer and its comma-separated words name all four
  conditions, each once; and every permutation of the four, written with commas, is read back as itself.\<close>

theorem parse_order_exact:
  "(parse_order t = Some order \<longleftrightarrow>
     length t < 128 \<and> strtok_tokens CHR '','' t = map condition_name order \<and> distinct order \<and> length order = CONDITION_COUNT) \<and>
   (parse_order (order_text order) = Some order \<longleftrightarrow> distinct order \<and> length order = CONDITION_COUNT)"
  using parse_order_iff [of t order] parse_order_text [of order] parse_order_valid [of "order_text order" order] by blast

text \<open>C30: Whatever the arguments, an accepted command line gives positive sizes and durations, a permutation of the four conditions, three
  different processors, and a quota that does not exceed its period.\<close>

theorem parse_args_config:
  assumes "parse_args argv = ARGS_OK cfg"
  shows "0 < cf_pool_mib cfg \<and> 0 < cf_workset_mib cfg \<and> 0 < cf_group_classes cfg \<and> 0 < cf_seconds cfg \<and>
    0 < cf_throttle_quota_us cfg \<and> cf_throttle_quota_us cfg \<le> cf_throttle_period_us cfg \<and>
    set (cf_order cfg) = UNIV \<and> distinct (cf_order cfg) \<and>
    distinct [cf_victim_cpu cfg, cf_high_aggressor_cpu cfg, cf_low_aggressor_cpu cfg]"
  using parse_args_valid [OF assms] order_complete [of "cf_order cfg"] by (simp add: config_valid_def cpus_distinct_def)

theorem parse_args_config_witness:
  "case parse_args [''--self-test'', ''--seconds'', ''5'', ''--low-cpu'', ''3''] of
     ARGS_OK cfg \<Rightarrow> cf_seconds cfg = 5 \<and> 0 < cf_workset_mib cfg \<and> distinct [cf_victim_cpu cfg, cf_high_aggressor_cpu cfg, cf_low_aggressor_cpu cfg]
   | _ \<Rightarrow> False"
proof -
  have "show_nat 5 = ''5''" "show_int 3 = ''3''" by code_simp+
  with parse_printed(2) [of 5] parse_printed(3) [of 3] have "parse_uint ''5'' = Some 5" "parse_int ''3'' = Some 3" by simp_all
  then obtain cfg where "parse_args [''--self-test'', ''--seconds'', ''5'', ''--low-cpu'', ''3''] = ARGS_OK cfg" "cf_seconds cfg = 5"
    by (simp add: parse_args_def option_names_def set_option_def nonzero_def config_self_test_def config_default_def)
  with parse_args_config [of _ cfg] show ?thesis by auto
qed

subsection \<open>A worker that is gone\<close>

text \<open>C31: When the victim ends before it stops (for instance with status 101 because it cannot be pinned to its processor), waiting for
  it reaps it; the failure path nevertheless sends \<open>SIGCONT\<close> and \<open>SIGKILL\<close> to its id and waits for it again, although the id is no longer
  its own.\<close>

theorem reaped_worker_signalled:
  assumes "cc_ready cgroups" "\<forall>w. ro_pipe os w = Some (r, s)" "\<forall>w. ro_fork os w = pid" "0 < pid"
    and "\<forall>w p u. ro_waitpid os w p u = Inr status" "\<not> WIFSTOPPED status"
  shows "\<exists>w' es. run_condition os decode n CONDITION_NONE cfg cgroups root_v roots_h roots_l w = Some (None, w') \<and>
    rw_events w' = rw_events w @ [Rv_spawned (int pid) (Victim (cf_victim_cpu cfg) (cf_seconds cfg) root_v) (r, s), Rv_ended (int pid) status,
      Rv_signal (int pid) RUN_SIGCONT, Rv_signal (int pid) RUN_SIGKILL] @ es"
  using assms wait_until_stopped.simps [of os "int pid"]
  by (auto simp: run_condition_def run_phases_def and_then_def in_background_def start_victim_def spawn_victim_def spawn_worker_def Let_def
      run_fail_def end_worker_def rkill_def)

theorem reaped_worker_signalled_witness:
  "\<exists>w' es. run_condition (lab_run_os\<lparr>ro_waitpid := (\<lambda>_ _ _. Inr (101 * 256)), ro_fork := (\<lambda>_. 100), ro_pipe := (\<lambda>_. Some (6, 7))\<rparr>) (\<lambda>_. worker_result_zero) 24 CONDITION_NONE
      config_default lab_context 64 [64] [128] run_world0 = Some (None, w') \<and>
    rw_events w' = [Rv_spawned 100 (Victim 14 10 64) (6, 7), Rv_ended 100 (101 * 256), Rv_signal 100 RUN_SIGCONT, Rv_signal 100 RUN_SIGKILL] @ es"
  using reaped_worker_signalled [of lab_context "lab_run_os\<lparr>ro_waitpid := (\<lambda>_ _ _. Inr (101 * 256)), ro_fork := (\<lambda>_. 100), ro_pipe := (\<lambda>_. Some (6, 7))\<rparr>" 6 7 100 "101 * 256"
      "\<lambda>_. worker_result_zero" 24 config_default 64 "[64]" "[128]" run_world0]
  by (auto simp: lab_context_def lab_run_os_def WIFSTOPPED_def run_world0_def config_default_def)

end
